(* ===== verification/Prelude.thy ===== *)
theory Prelude
  imports
    "HOL-Library.List_Lexorder"
    "HOL-Library.Char_ord"
    "HOL-Library.Word"
    "HOL-Library.Multiset"
    "HOL-Library.Sublist"
begin

text \<open>
  Shared vocabulary of the development: the collections of rewrite rules, the names of the
  types that several components use, rows kept under a key (SQL tables and Go maps that are
  read through their keys), and the facts on sorting that make Go's unstable
  \<^verbatim>\<open>sort.Slice\<close> deterministic where keys are distinct.
\<close>

named_theorems row_simps \<open>rewrite rules for rows kept under a key\<close>
named_theorems db_simps \<open>definitions of the store's operations\<close>
named_theorems wf_intros \<open>preservation of well-formedness invariants\<close>

text \<open>Go's \<^verbatim>\<open>time.Duration\<close> is a signed 64-bit count of nanoseconds; arithmetic wraps.\<close>

type_synonym duration = "64 word"

text \<open>Instants are unbounded nanosecond counts; \<open>None\<close> is Go's zero \<^verbatim>\<open>time.Time\<close>.\<close>

type_synonym instant = int

abbreviation nanosecond :: duration where "nanosecond \<equiv> 1"
abbreviation millisecond :: duration where "millisecond \<equiv> 1000000"
abbreviation second :: duration where "second \<equiv> 1000000000"
abbreviation minute :: duration where "minute \<equiv> 60000000000"

text \<open>The process environment: \<^verbatim>\<open>os.Getenv\<close>, which answers the empty string when unset.\<close>

type_synonym environ = "string \<Rightarrow> string"

lemma sint_of_int_range:
  "- (2 ^ 63) \<le> i \<Longrightarrow> i < 2 ^ 63 \<Longrightarrow> sint (word_of_int i :: duration) = i"
  by (simp add: sint_sbintrunc' signed_take_bit_int_eq_self_iff)

subsection \<open>Rows under a key\<close>

definition find_row :: "('r \<Rightarrow> 'k) \<Rightarrow> 'k \<Rightarrow> 'r list \<Rightarrow> 'r option" where
  "find_row key k rows = find (\<lambda>r. key r = k) rows"

fun put_row :: "('r \<Rightarrow> 'k) \<Rightarrow> 'r \<Rightarrow> 'r list \<Rightarrow> 'r list" where
  "put_row key r [] = [r]"
| "put_row key r (x # xs) = (if key x = key r then r # xs else x # put_row key r xs)"

definition keyed :: "('r \<Rightarrow> 'k) \<Rightarrow> 'r list \<Rightarrow> bool" where
  "keyed key rows \<longleftrightarrow> distinct (map key rows)"

lemma find_row_Nil [simp, row_simps]: "find_row key k [] = None"
  by (simp add: find_row_def)

lemma find_row_Cons [simp, row_simps]:
  "find_row key k (x # xs) = (if key x = k then Some x else find_row key k xs)"
  by (simp add: find_row_def)

lemma find_row_append [row_simps]:
  "find_row key k (xs @ ys) =
     (case find_row key k xs of None \<Rightarrow> find_row key k ys | Some r \<Rightarrow> Some r)"
  by (induction xs) auto

lemma find_row_Some_key: "find_row key k rows = Some r \<Longrightarrow> key r = k"
  by (induction rows) (auto split: if_splits)

lemma find_row_Some_mem: "find_row key k rows = Some r \<Longrightarrow> r \<in> set rows"
  by (induction rows) (auto split: if_splits)

lemma find_row_None_iff: "find_row key k rows = None \<longleftrightarrow> k \<notin> key ` set rows"
  by (induction rows) auto

lemma find_row_keyed_iff:
  assumes "keyed key rows"
  shows "find_row key k rows = Some r \<longleftrightarrow> r \<in> set rows \<and> key r = k"
  using assms by (induction rows) (auto simp: keyed_def image_iff)

lemma find_row_put_row [row_simps]:
  "find_row key k (put_row key r rows) = (if k = key r then Some r else find_row key k rows)"
  by (induction rows) auto

lemma keys_put_row: "key ` set (put_row key r rows) = insert (key r) (key ` set rows)"
  by (induction rows) auto

lemma set_put_row_subset: "set (put_row key r rows) \<subseteq> insert r (set rows)"
  by (induction rows) auto

lemma keyed_Nil [simp]: "keyed key []"
  by (simp add: keyed_def)

lemma keyed_put_row [wf_intros]: "keyed key rows \<Longrightarrow> keyed key (put_row key r rows)"
proof (induction rows)
  case Nil
  then show ?case by (simp add: keyed_def)
next
  case (Cons x xs)
  then have IH: "distinct (map key (put_row key r xs))" and d: "key x \<notin> key ` set xs"
    by (auto simp: keyed_def)
  show ?case
    using IH d Cons.prems keys_put_row [of key r xs]
    by (auto simp: keyed_def)
qed

lemma keyed_append_fresh [wf_intros]:
  "keyed key rows \<Longrightarrow> find_row key (key r) rows = None \<Longrightarrow> keyed key (rows @ [r])"
  by (auto simp: keyed_def find_row_None_iff)

lemma keyed_map:
  "keyed key rows \<Longrightarrow> (\<And>r. key (f r) = key r) \<Longrightarrow> keyed key (map f rows)"
  by (simp add: keyed_def comp_def)

lemma keyed_filter [wf_intros]: "keyed key rows \<Longrightarrow> keyed key (filter P rows)"
  by (simp add: keyed_def distinct_map_filter)

lemma find_row_map:
  "(\<And>r. key (f r) = key r) \<Longrightarrow> find_row key k (map f rows) = map_option f (find_row key k rows)"
  by (induction rows) auto

lemma find_row_filter_key:
  "find_row key k (filter (\<lambda>r. key r \<noteq> k') rows) = (if k = k' then None else find_row key k rows)"
  by (induction rows) auto

subsection \<open>Sorting by a key\<close>

text \<open>
  Go's \<^verbatim>\<open>sort.Slice\<close> promises a sorted permutation and nothing about equal keys. When the
  keys are distinct there is one such list, which is \<open>sort_key\<close>'s.
\<close>

lemma sorted_perm_unique:
  fixes key :: "'a \<Rightarrow> 'k::linorder"
  assumes "mset ys = mset xs" and "sorted (map key ys)" and "distinct (map key xs)"
  shows "ys = sort_key key xs"
proof -
  from assms(3) have "inj_on key (set xs)" by (simp add: distinct_map)
  with assms(1,2) have "sort_key key xs = ys" by (intro sort_key_inj_key_eq) simp_all
  then show ?thesis by simp
qed

lemma sort_key_mset_cong:
  fixes key :: "'a \<Rightarrow> 'k::linorder"
  assumes "mset xs = mset ys" and "distinct (map key ys)"
  shows "sort_key key xs = sort_key key ys"
  by (rule sorted_perm_unique) (use assms in simp_all)

subsection \<open>Taking from the end\<close>

definition take_last :: "nat \<Rightarrow> 'a list \<Rightarrow> 'a list" where
  "take_last n xs = drop (length xs - n) xs"

lemma length_take_last [simp]: "length (take_last n xs) = min n (length xs)"
  by (simp add: take_last_def)

lemma take_last_short [simp]: "length xs \<le> n \<Longrightarrow> take_last n xs = xs"
  by (simp add: take_last_def)

lemma suffix_take_last: "suffix (take_last n xs) xs"
  by (simp add: take_last_def suffix_drop)

lemma last_take_last: "0 < n \<Longrightarrow> xs \<noteq> [] \<Longrightarrow> last (take_last n xs) = last xs"
  by (cases "length xs \<le> n") (auto simp: take_last_def intro!: last_drop)

lemma nth_from_end_take_last:
  "i < n \<Longrightarrow> i < length xs \<Longrightarrow>
     take_last n xs ! (length (take_last n xs) - 1 - i) = xs ! (length xs - 1 - i)"
  by (auto simp: take_last_def nth_drop min_def)

lemma take_last_append: "take_last n (xs @ ys) = take_last (n - length ys) xs @ take_last n ys"
proof -
  have "length xs + length ys - n = length xs - (n - length ys)" if "length ys \<le> n"
    using that by simp
  moreover have "length xs + length ys - n - length xs = length ys - n" by simp
  ultimately show ?thesis
    by (cases "length ys \<le> n") (simp_all add: take_last_def)
qed

lemma take_last_take_last: "m \<le> n \<Longrightarrow> take_last m (take_last n xs) = take_last m xs"
proof (cases "length xs \<le> n")
  case False
  assume "m \<le> n"
  with False have "n - m + (length xs - n) = length xs - m" by simp
  with False show ?thesis by (simp add: take_last_def)
qed simp

lemma take_last_append_take_last: "take_last n (take_last n xs @ ys) = take_last n (xs @ ys)"
  by (simp add: take_last_append take_last_take_last)

end
