(* ===== verification/GoLib.thy ===== *)
theory GoLib
  imports Prelude
begin

text \<open>
  The functions of Go's standard library that the program uses on strings. A Go string is a
  byte sequence, modelled as a \<open>char list\<close>. White space and letter case are those of ASCII
  (\<^verbatim>\<open>strings.TrimSpace\<close>, \<^verbatim>\<open>strings.Fields\<close> and \<^verbatim>\<open>strings.ToLower\<close> also know the
  Unicode ones, which no literal of the program relies on). The theory also holds
  \<open>truncate_str\<close>, which five packages of the program define with the same body.
\<close>

abbreviation nl :: char where "nl \<equiv> CHR 0x0A"
abbreviation tab :: char where "tab \<equiv> CHR 0x09"
abbreviation dquote :: char where "dquote \<equiv> CHR 0x22"
abbreviation backslash :: char where "backslash \<equiv> CHR 0x5C"

text \<open>The UTF-8 bytes of the horizontal ellipsis and of the em dash.\<close>

definition ellipsis :: string where
  "ellipsis = [CHR 0xE2, CHR 0x80, CHR 0xA6]"

definition em_dash :: string where
  "em_dash = [CHR 0xE2, CHR 0x80, CHR 0x94]"

subsection \<open>White space\<close>

definition is_space :: "char \<Rightarrow> bool" where
  "is_space c \<longleftrightarrow> c \<in> {CHR 0x09, CHR 0x0A, CHR 0x0B, CHR 0x0C, CHR 0x0D, CHR 0x20}"

definition trim_left :: "string \<Rightarrow> string" where
  "trim_left s = dropWhile is_space s"

definition trim_right :: "string \<Rightarrow> string" where
  "trim_right s = rev (dropWhile is_space (rev s))"

definition trim_space :: "string \<Rightarrow> string" where
  "trim_space s = trim_right (trim_left s)"

text \<open>\<^verbatim>\<open>strings.TrimLeft(s, " \t")\<close>\<close>

definition trim_left_blank :: "string \<Rightarrow> string" where
  "trim_left_blank s = dropWhile (\<lambda>c. c = CHR 0x20 \<or> c = tab) s"

lemma trim_space_Nil [simp]: "trim_space [] = []"
  by (simp add: trim_space_def trim_left_def trim_right_def)

lemma trim_right_eq_Nil_iff: "trim_right s = [] \<longleftrightarrow> (\<forall>c \<in> set s. is_space c)"
  by (simp add: trim_right_def dropWhile_eq_Nil_conv)

lemma trim_left_eq_Nil_iff: "trim_left s = [] \<longleftrightarrow> (\<forall>c \<in> set s. is_space c)"
  by (simp add: trim_left_def dropWhile_eq_Nil_conv)

lemma trim_left_Nil_or_hd: "trim_left s = [] \<or> \<not> is_space (hd (trim_left s))"
  using hd_dropWhile [of is_space s] by (auto simp: trim_left_def)

lemma trim_space_eq_Nil_iff: "trim_space s = [] \<longleftrightarrow> (\<forall>c \<in> set s. is_space c)"
proof
  assume "trim_space s = []"
  then have all: "\<forall>c \<in> set (trim_left s). is_space c"
    by (simp add: trim_space_def trim_right_eq_Nil_iff)
  show "\<forall>c \<in> set s. is_space c"
  proof (cases "trim_left s = []")
    case True
    then show ?thesis by (simp add: trim_left_eq_Nil_iff)
  next
    case False
    then have "hd (trim_left s) \<in> set (trim_left s)" by simp
    with all False trim_left_Nil_or_hd [of s] show ?thesis by blast
  qed
next
  assume "\<forall>c \<in> set s. is_space c"
  then have "trim_left s = []" by (simp add: trim_left_eq_Nil_iff)
  then show "trim_space s = []" by (simp add: trim_space_def trim_right_def)
qed

lemma trim_right_id: "s = [] \<or> \<not> is_space (last s) \<Longrightarrow> trim_right s = s"
  by (cases s rule: rev_cases) (auto simp: trim_right_def)

lemma trim_left_id: "s = [] \<or> \<not> is_space (hd s) \<Longrightarrow> trim_left s = s"
  by (cases s) (auto simp: trim_left_def)

lemma trim_space_id:
  "s = [] \<or> (\<not> is_space (hd s) \<and> \<not> is_space (last s)) \<Longrightarrow> trim_space s = s"
  by (auto simp: trim_space_def trim_left_id trim_right_id)

lemma trim_right_Nil_or_last: "trim_right s = [] \<or> \<not> is_space (last (trim_right s))"
  using hd_dropWhile [of is_space "rev s"] by (auto simp: trim_right_def last_rev)

lemma prefix_trim_right: "prefix (trim_right s) s"
  by (metis prefix_def rev_append rev_rev_ident takeWhile_dropWhile_id trim_right_def)

lemma hd_trim_right: "trim_right s \<noteq> [] \<Longrightarrow> hd (trim_right s) = hd s"
  using prefix_trim_right [of s] by (metis hd_append2 prefix_def)

lemma trim_space_edges:
  "trim_space s = [] \<or> (\<not> is_space (hd (trim_space s)) \<and> \<not> is_space (last (trim_space s)))"
proof (cases "trim_space s = []")
  case False
  then have "trim_left s \<noteq> []" by (auto simp: trim_space_def trim_right_def)
  with False trim_left_Nil_or_hd [of s] trim_right_Nil_or_last [of "trim_left s"] show ?thesis
    by (simp add: trim_space_def hd_trim_right)
qed simp

lemma trim_space_idem [simp]: "trim_space (trim_space s) = trim_space s"
  by (rule trim_space_id) (rule trim_space_edges)

subsection \<open>Searching\<close>

text \<open>\<^verbatim>\<open>strings.HasPrefix(s, p)\<close> is \<open>prefix p s\<close>.\<close>

fun contains :: "string \<Rightarrow> string \<Rightarrow> bool" where
  "contains needle [] = (needle = [])"
| "contains needle (c # cs) = (prefix needle (c # cs) \<or> contains needle cs)"

lemma contains_iff_sublist: "contains needle s \<longleftrightarrow> sublist needle s"
  by (induction s) (auto simp: sublist_Cons_right)

text \<open>\<^verbatim>\<open>strings.IndexByte\<close>, with Go's -1 as \<open>None\<close>.\<close>

fun index_byte :: "char \<Rightarrow> string \<Rightarrow> nat option" where
  "index_byte b [] = None"
| "index_byte b (c # cs) = (if c = b then Some 0 else map_option Suc (index_byte b cs))"

lemma index_byte_Some:
  "index_byte b s = Some i \<Longrightarrow> i < length s \<and> s ! i = b \<and> b \<notin> set (take i s)"
  by (induction s arbitrary: i) (auto split: if_splits)

lemma index_byte_append_notin [simp]:
  "b \<notin> set xs \<Longrightarrow> index_byte b (xs @ b # ys) = Some (length xs)"
  by (induction xs) auto

subsection \<open>Splitting and joining\<close>

text \<open>\<^verbatim>\<open>strings.Split\<close> with a one-byte separator: never empty.\<close>

fun split_on :: "char \<Rightarrow> string \<Rightarrow> string list" where
  "split_on sep [] = [[]]"
| "split_on sep (c # cs) =
     (if c = sep then [] # split_on sep cs
      else case split_on sep cs of [] \<Rightarrow> [[c]] | w # ws \<Rightarrow> (c # w) # ws)"

fun join :: "string \<Rightarrow> string list \<Rightarrow> string" where
  "join sep [] = []"
| "join sep [w] = w"
| "join sep (w # ws) = w @ sep @ join sep ws"

lemma split_on_not_Nil [simp]: "split_on sep s \<noteq> []"
  by (induction s) (auto split: list.splits)

lemma split_on_no_sep: "w \<in> set (split_on sep s) \<Longrightarrow> sep \<notin> set w"
  by (induction s arbitrary: w) (auto split: list.splits if_splits)

lemma join_Cons: "ws \<noteq> [] \<Longrightarrow> join sep (w # ws) = w @ sep @ join sep ws"
  by (cases ws) auto

lemma join_split_on [simp]: "join [sep] (split_on sep s) = s"
proof (induction s)
  case (Cons c cs)
  then show ?case
    by (cases "split_on sep cs"; cases "tl (split_on sep cs)") (auto simp: join_Cons)
qed simp

lemma split_on_append_sep: "split_on sep (xs @ sep # ys) = split_on sep xs @ split_on sep ys"
  by (induction xs) (auto split: list.splits)

lemma split_on_no_sep_id: "sep \<notin> set w \<Longrightarrow> split_on sep w = [w]"
  by (induction w) auto

lemma split_on_join:
  "ws \<noteq> [] \<Longrightarrow> (\<And>w. w \<in> set ws \<Longrightarrow> sep \<notin> set w) \<Longrightarrow> split_on sep (join [sep] ws) = ws"
proof (induction ws rule: induct_list012)
  case (3 w v vs)
  then show ?case by (simp add: split_on_append_sep split_on_no_sep_id)
qed (auto simp: split_on_no_sep_id)

text \<open>\<^verbatim>\<open>strings.Fields\<close>: the maximal runs of non-space bytes.\<close>

fun fields_acc :: "string \<Rightarrow> string \<Rightarrow> string list" where
  "fields_acc w [] = (if w = [] then [] else [w])"
| "fields_acc w (c # cs) =
     (if is_space c then (if w = [] then fields_acc [] cs else w # fields_acc [] cs)
      else fields_acc (w @ [c]) cs)"

definition str_fields :: "string \<Rightarrow> string list" where
  "str_fields s = fields_acc [] s"

lemma fields_acc_word:
  "(\<forall>c \<in> set u. \<not> is_space c) \<Longrightarrow> fields_acc w (u @ s) = fields_acc (w @ u) s"
  by (induction u arbitrary: w) auto

lemma str_fields_Nil [simp]: "str_fields [] = []"
  by (simp add: str_fields_def)

lemma str_fields_word_space:
  assumes "\<forall>c \<in> set u. \<not> is_space c" and "u \<noteq> []" and "is_space c"
  shows "str_fields (u @ c # s) = u # str_fields s"
  using assms fields_acc_word [of u "[]" "c # s"] by (simp add: str_fields_def)

lemma str_fields_word:
  "(\<forall>c \<in> set u. \<not> is_space c) \<Longrightarrow> u \<noteq> [] \<Longrightarrow> str_fields u = [u]"
  using fields_acc_word [of u "[]" "[]"] by (simp add: str_fields_def)

subsection \<open>Letters, numbers, quoting\<close>

definition lower_char :: "char \<Rightarrow> char" where
  "lower_char c =
     (let n = (of_char c :: nat) in if 65 \<le> n \<and> n \<le> 90 then char_of (n + 32) else c)"

definition to_lower :: "string \<Rightarrow> string" where
  "to_lower s = map lower_char s"

fun digit_char :: "nat \<Rightarrow> char" where
  "digit_char n = char_of (48 + n)"

fun nat_string :: "nat \<Rightarrow> string" where
  "nat_string n =
     (if n < 10 then [digit_char n] else nat_string (n div 10) @ [digit_char (n mod 10)])"

declare nat_string.simps [simp del]

definition itoa :: "int \<Rightarrow> string" where
  "itoa i = (if i < 0 then CHR ''-'' # nat_string (nat (- i)) else nat_string (nat i))"

lemma nat_string_not_Nil [simp]: "nat_string n \<noteq> []"
  by (subst nat_string.simps) auto

text \<open>
  \<^verbatim>\<open>strconv.Atoi\<close>: an optional sign and at least one digit, in the range of a signed
  64-bit integer; \<open>None\<close> for every error.
\<close>

definition digit_value :: "char \<Rightarrow> int option" where
  "digit_value c =
     (let n = (of_char c :: nat) in if 48 \<le> n \<and> n \<le> 57 then Some (int n - 48) else None)"

fun digits_value :: "int \<Rightarrow> string \<Rightarrow> int option" where
  "digits_value acc [] = Some acc"
| "digits_value acc (c # cs) =
     (case digit_value c of None \<Rightarrow> None | Some d \<Rightarrow> digits_value (10 * acc + d) cs)"

definition atoi :: "string \<Rightarrow> int option" where
  "atoi s =
     (let (neg, ds) = (case s of c # cs \<Rightarrow> (if c = CHR ''-'' then (True, cs)
                                        else if c = CHR ''+'' then (False, cs) else (False, s))
                       | [] \<Rightarrow> (False, s))
      in if ds = [] then None
         else case digits_value 0 ds of
           None \<Rightarrow> None
         | Some n \<Rightarrow> (let v = (if neg then - n else n)
                     in if - (2 ^ 63) \<le> v \<and> v < 2 ^ 63 then Some v else None))"

lemma atoi_range: "atoi s = Some v \<Longrightarrow> - (2 ^ 63) \<le> v \<and> v < 2 ^ 63"
  by (auto simp: atoi_def Let_def split: prod.splits option.splits if_splits)

text \<open>
  The verb \<^verbatim>\<open>%q\<close> of \<^verbatim>\<open>fmt\<close>, on printable text: the quote and the backslash are
  escaped, and so are the usual control bytes.
\<close>

fun quote_char :: "char \<Rightarrow> string" where
  "quote_char c =
     (if c = dquote then [backslash, dquote]
      else if c = backslash then [backslash, backslash]
      else if c = nl then [backslash, CHR ''n'']
      else if c = tab then [backslash, CHR ''t'']
      else if c = CHR 0x0D then [backslash, CHR ''r'']
      else [c])"

definition quoted :: "string \<Rightarrow> string" where
  "quoted s = [dquote] @ concat (map quote_char s) @ [dquote]"

lemma nl_notin_quoted [simp]: "nl \<notin> set (quoted s)"
  by (auto simp: quoted_def split: if_splits)

subsection \<open>bufio.Scanner\<close>

text \<open>
  Lines of a stream as \<^verbatim>\<open>bufio.Scanner\<close> gives them: without the newline and one carriage
  return before it; a line that does not fit the buffer ends the scan with
  \<^verbatim>\<open>ErrTooLong\<close>. An empty last line is not a line.
\<close>

definition drop_cr :: "string \<Rightarrow> string" where
  "drop_cr l = (if l \<noteq> [] \<and> last l = CHR 0x0D then butlast l else l)"

fun scan_pieces :: "nat \<Rightarrow> string list \<Rightarrow> string list \<times> string option" where
  "scan_pieces limit [] = ([], None)"
| "scan_pieces limit (p # ps) =
     (if limit \<le> length p then ([], Some ''bufio.Scanner: token too long'')
      else if ps = [] \<and> p = [] then ([], None)
      else (let (ls, e) = scan_pieces limit ps in (drop_cr p # ls, e)))"

definition scan_lines :: "nat \<Rightarrow> string \<Rightarrow> string list \<times> string option" where
  "scan_lines limit s = scan_pieces limit (split_on nl s)"

lemma length_drop_cr: "length (drop_cr l) \<le> length l"
  by (simp add: drop_cr_def)

lemma scan_pieces_short: "l \<in> set (fst (scan_pieces limit ps)) \<Longrightarrow> length l < limit"
  by (induction limit ps rule: scan_pieces.induct)
    (auto simp: split_beta Let_def split: if_splits intro: le_less_trans [OF length_drop_cr])

lemma scan_lines_short: "l \<in> set (fst (scan_lines limit s)) \<Longrightarrow> length l < limit"
  by (simp add: scan_lines_def scan_pieces_short)

subsection \<open>Truncation\<close>

text \<open>
  \<^verbatim>\<open>truncate(s, n)\<close> of the runner, of the three drivers and of the HTTP MCP client: at most
  \<open>n\<close> bytes, with an ellipsis after a cut.
\<close>

definition truncate_str :: "string \<Rightarrow> nat \<Rightarrow> string" where
  "truncate_str s n = (if length s \<le> n then s else take n s @ ellipsis)"

lemma truncate_str_short: "length s \<le> n \<Longrightarrow> truncate_str s n = s"
  by (simp add: truncate_str_def)

lemma length_truncate_str_le: "length (truncate_str s n) \<le> n + 3"
  by (simp add: truncate_str_def ellipsis_def)

lemma truncate_str_prefix: "prefix (take n s) (truncate_str s n)"
  by (simp add: truncate_str_def)

lemma truncate_str_eq_Nil_iff: "truncate_str s n = [] \<longleftrightarrow> s = []"
  by (auto simp: truncate_str_def ellipsis_def)

end
