(* ===== verification/NetAddr.thy ===== *)
theory NetAddr
  imports GoLib
begin

text \<open>
  Go's \<^verbatim>\<open>net\<close> package as the program uses it: \<^verbatim>\<open>ParseIP\<close>, \<^verbatim>\<open>ParseCIDR\<close>,
  \<^verbatim>\<open>IPNet.Contains\<close>, the address classes, and \<^verbatim>\<open>SplitHostPort\<close>. An address is its
  bytes, 4 or 16 of them; \<^verbatim>\<open>nil\<close> is \<open>None\<close>.
\<close>

type_synonym ip = "8 word list"

subsection \<open>Numbers\<close>

definition hex_value :: "char \<Rightarrow> nat option" where
  "hex_value c =
     (let n = (of_char c :: nat)
      in if 48 \<le> n \<and> n \<le> 57 then Some (n - 48)
         else if 97 \<le> n \<and> n \<le> 102 then Some (n - 87)
         else if 65 \<le> n \<and> n \<le> 70 then Some (n - 55)
         else None)"

text \<open>The longest run of hexadecimal digits at the front, its length and its value.\<close>

fun hex_run :: "nat \<Rightarrow> nat \<Rightarrow> string \<Rightarrow> nat \<times> nat \<times> string" where
  "hex_run off acc [] = (off, acc, [])"
| "hex_run off acc (c # cs) =
     (case hex_value c of None \<Rightarrow> (off, acc, c # cs) | Some d \<Rightarrow> hex_run (Suc off) (16 * acc + d) cs)"

lemma hex_run_length: "hex_run off acc s = (off', acc', r) \<Longrightarrow> length r \<le> length s"
  by (induction off acc s rule: hex_run.induct) (auto split: option.splits)

text \<open>A decimal field of an IPv4 address: one to three digits, no leading zero, at most 255.\<close>

definition ipv4_field :: "string \<Rightarrow> 8 word option" where
  "ipv4_field f =
     (if f = [] \<or> 3 < length f \<or> (1 < length f \<and> hd f = CHR ''0'') then None
      else case digits_value 0 f of
        None \<Rightarrow> None
      | Some v \<Rightarrow> if 255 < v then None else Some (word_of_int v))"

fun all_some :: "'a option list \<Rightarrow> 'a list option" where
  "all_some [] = Some []"
| "all_some (x # xs) =
     (case x of None \<Rightarrow> None
      | Some v \<Rightarrow> map_option (\<lambda>vs. v # vs) (all_some xs))"

definition parse_ipv4 :: "string \<Rightarrow> ip option" where
  "parse_ipv4 s =
     (let fs = split_on (CHR ''.'') s in if length fs = 4 then all_some (map ipv4_field fs) else None)"

subsection \<open>IPv6\<close>

text \<open>
  The loop of \<^verbatim>\<open>netip.parseIPv6\<close>. \<open>out\<close> is the bytes so far, \<open>ell\<close> where \<open>::\<close> was seen;
  the result is the bytes, that place and the rest of the text.
\<close>

function ipv6_groups :: "ip \<Rightarrow> nat option \<Rightarrow> string \<Rightarrow> (ip \<times> nat option \<times> string) option" where
  "ipv6_groups out ell s =
     (if 16 \<le> length out then Some (out, ell, s)
      else (case hex_run 0 0 s of (off, acc, rest) \<Rightarrow>
        if off = 0 \<or> 4 < off then None
        else if rest \<noteq> [] \<and> hd rest = CHR ''.'' then
          (if (ell = None \<and> length out \<noteq> 12) \<or> 16 < length out + 4 then None
           else map_option (\<lambda>b. (out @ b, ell, [])) (parse_ipv4 s))
        else (let out' = out @ [of_nat (acc div 256), of_nat (acc mod 256)]
              in case rest of
                   [] \<Rightarrow> Some (out', ell, [])
                 | [c] \<Rightarrow> None
                 | c # d # cs \<Rightarrow>
                     if c \<noteq> CHR '':'' then None
                     else if d \<noteq> CHR '':'' then ipv6_groups out' ell (d # cs)
                     else if ell \<noteq> None then None
                     else if cs = [] then Some (out', Some (length out'), [])
                     else ipv6_groups out' (Some (length out')) cs)))"
  by pat_completeness auto

termination ipv6_groups
  by (relation "measure (\<lambda>(out, _, _). 16 - length out)") auto

declare ipv6_groups.simps [simp del]

definition expand_ipv6 :: "ip \<times> nat option \<times> string \<Rightarrow> ip option" where
  "expand_ipv6 p =
     (case p of (out, ell, rest) \<Rightarrow>
        if rest \<noteq> [] then None
        else if length out < 16 then
          (case ell of
             None \<Rightarrow> None
           | Some e \<Rightarrow> Some (take e out @ replicate (16 - length out) 0 @ drop e out))
        else if ell \<noteq> None then None
        else Some out)"

definition parse_ipv6 :: "string \<Rightarrow> ip option" where
  "parse_ipv6 s =
     (if prefix ''::'' s then
        (if length s = 2 then Some (replicate 16 0)
         else Option.bind (ipv6_groups [] (Some 0) (drop 2 s)) expand_ipv6)
      else Option.bind (ipv6_groups [] None s) expand_ipv6)"

text \<open>
  \<^verbatim>\<open>netip.ParseAddr\<close> looks for the first of dot, colon and percent sign. An address with a
  zone is refused by \<^verbatim>\<open>net.ParseIP\<close> and \<^verbatim>\<open>net.ParseCIDR\<close>.
\<close>

definition parse_addr :: "string \<Rightarrow> ip option" where
  "parse_addr s =
     (case find (\<lambda>c. c \<in> {CHR ''.'', CHR '':'', CHR ''%''}) s of
        None \<Rightarrow> None
      | Some c \<Rightarrow>
          if c = CHR ''.'' then parse_ipv4 s
          else if c = CHR '':'' \<and> CHR ''%'' \<notin> set s then parse_ipv6 s
          else None)"

definition v4_prefix :: ip where
  "v4_prefix = replicate 10 0 @ [255, 255]"

definition as16 :: "ip \<Rightarrow> ip" where
  "as16 b = (if length b = 4 then v4_prefix @ b else b)"

definition to4 :: "ip \<Rightarrow> ip option" where
  "to4 b = (if length b = 4 then Some b
            else if length b = 16 \<and> take 12 b = v4_prefix then Some (drop 12 b)
            else None)"

definition parse_ip :: "string \<Rightarrow> ip option" where
  "parse_ip s = map_option as16 (parse_addr s)"

subsection \<open>Address classes\<close>

definition byte :: "ip \<Rightarrow> nat \<Rightarrow> nat" where
  "byte b i = (if i < length b then unat (b ! i) else 0)"

definition is_loopback :: "ip \<Rightarrow> bool" where
  "is_loopback b =
     (case to4 b of Some v \<Rightarrow> byte v 0 = 127 | None \<Rightarrow> b = replicate 15 0 @ [1])"

definition is_private :: "ip \<Rightarrow> bool" where
  "is_private b =
     (case to4 b of
        Some v \<Rightarrow> byte v 0 = 10 \<or> (byte v 0 = 172 \<and> byte v 1 div 16 = 1) \<or> (byte v 0 = 192 \<and> byte v 1 = 168)
      | None \<Rightarrow> length b = 16 \<and> byte b 0 div 2 = 126)"

definition is_link_local :: "ip \<Rightarrow> bool" where
  "is_link_local b =
     (case to4 b of
        Some v \<Rightarrow> byte v 0 = 169 \<and> byte v 1 = 254
      | None \<Rightarrow> length b = 16 \<and> byte b 0 = 254 \<and> byte b 1 div 64 = 2)"

definition is_unspecified :: "ip \<Rightarrow> bool" where
  "is_unspecified b \<longleftrightarrow> b = v4_prefix @ replicate 4 0 \<or> b = replicate 4 0 \<or> b = replicate 16 0"

subsection \<open>Networks\<close>

record ip_net =
  net_ip :: ip
  net_mask :: ip

text \<open>\<^verbatim>\<open>CIDRMask(ones, 8 * len)\<close>\<close>

fun cidr_mask :: "nat \<Rightarrow> nat \<Rightarrow> ip" where
  "cidr_mask ones 0 = []"
| "cidr_mask ones (Suc len) =
     (if 8 \<le> ones then 255 # cidr_mask (ones - 8) len
      else of_nat (256 - 2 ^ (8 - ones)) # cidr_mask 0 len)"

definition mask_ip :: "ip \<Rightarrow> ip \<Rightarrow> ip" where
  "mask_ip b m = map2 (and) b m"

definition parse_cidr :: "string \<Rightarrow> ip_net option" where
  "parse_cidr s =
     (case index_byte (CHR ''/'') s of
        None \<Rightarrow> None
      | Some i \<Rightarrow>
          (case (parse_addr (take i s), drop (Suc i) s) of
             (None, _) \<Rightarrow> None
           | (Some b, m) \<Rightarrow>
               if m = [] then None
               else case digits_value 0 m of
                 None \<Rightarrow> None
               | Some n \<Rightarrow>
                   if 8 * int (length b) < n then None
                   else (let mask = cidr_mask (nat n) (length b)
                         in Some \<lparr>net_ip = mask_ip b mask, net_mask = mask\<rparr>)))"

text \<open>\<^verbatim>\<open>IPNet.Contains\<close> compares the four-byte forms where there are such.\<close>

definition net_contains :: "ip_net \<Rightarrow> ip \<Rightarrow> bool" where
  "net_contains n b =
     (let nn = (case to4 (net_ip n) of Some v \<Rightarrow> v | None \<Rightarrow> net_ip n);
          m = (if length (net_mask n) = 16 \<and> length nn = 4 then drop 12 (net_mask n) else net_mask n);
          x = (case to4 b of Some v \<Rightarrow> v | None \<Rightarrow> b)
      in length m = length nn \<and> length x = length nn \<and> mask_ip x m = mask_ip nn m)"

subsection \<open>SplitHostPort\<close>

definition last_index_byte :: "char \<Rightarrow> string \<Rightarrow> nat option" where
  "last_index_byte b s = map_option (\<lambda>i. length s - 1 - i) (index_byte b (rev s))"

definition split_host_port :: "string \<Rightarrow> (string \<times> string) option" where
  "split_host_port hp =
     (case last_index_byte (CHR '':'') hp of
        None \<Rightarrow> None
      | Some i \<Rightarrow>
          if hd hp = CHR ''['' then
            (case index_byte (CHR '']'') hp of
               None \<Rightarrow> None
             | Some e \<Rightarrow>
                 if Suc e \<noteq> i then None
                 else if CHR ''['' \<in> set (drop 1 hp) \<or> CHR '']'' \<in> set (drop (Suc e) hp) then None
                 else Some (drop 1 (take e hp), drop (Suc i) hp))
          else if CHR '':'' \<in> set (take i hp) \<or> CHR ''['' \<in> set hp \<or> CHR '']'' \<in> set hp then None
          else Some (take i hp, drop (Suc i) hp))"

subsection \<open>Facts\<close>

lemma length_parse_ipv4: "parse_ipv4 s = Some b \<Longrightarrow> length b = 4"
proof -
  have "all_some xs = Some ys \<Longrightarrow> length ys = length xs" for xs and ys :: "8 word list"
    by (induction xs arbitrary: ys) (auto split: option.splits)
  then show "parse_ipv4 s = Some b \<Longrightarrow> length b = 4"
    by (auto simp: parse_ipv4_def Let_def split: if_splits)
qed

lemma as16_idem: "as16 (as16 b) = as16 b"
  by (simp add: as16_def v4_prefix_def)

lemma mask_ip_idem: "mask_ip (mask_ip b m) m = mask_ip b m"
proof (induction b arbitrary: m)
  case (Cons x xs)
  then show ?case by (cases m) (simp_all add: mask_ip_def and.assoc)
qed (simp add: mask_ip_def)

end
