(* ===== verification/BootText.thy ===== *)
theory BootText
  imports NetAddr
begin

text \<open>
  The text handling of \<^verbatim>\<open>internal/bootstrap\<close> and of \<^verbatim>\<open>internal/zibby/register.go\<close>: the
  bounded tail of a script's output, the JSON object in a model's reply, and the listening ports
  in \<^verbatim>\<open>/proc/net/tcp\<close>.
\<close>

subsection \<open>tailBuffer\<close>

record tail_buffer =
  tb_buf :: string
  tb_cap :: nat

definition empty_tail :: tail_buffer where
  "empty_tail = \<lparr>tb_buf = [], tb_cap = 0\<rparr>"

definition tail_write :: "string \<Rightarrow> tail_buffer \<Rightarrow> tail_buffer" where
  "tail_write s t =
     (let cap = (if tb_cap t = 0 then 32 * 1024 else tb_cap t);
          buf = tb_buf t @ s
      in \<lparr>tb_buf = (if 2 * cap < length buf then take_last cap buf else buf), tb_cap = cap\<rparr>)"

definition tail_string :: "tail_buffer \<Rightarrow> string" where
  "tail_string t =
     (if tb_cap t < length (tb_buf t) then take_last (tb_cap t) (tb_buf t) else tb_buf t)"

text \<open>\<^verbatim>\<open>streamPipe\<close> writes each line that the scanner gives, with a newline.\<close>

definition stream_pipe :: "string \<Rightarrow> tail_buffer \<Rightarrow> tail_buffer" where
  "stream_pipe out t = fold (\<lambda>l. tail_write (l @ [nl])) (fst (scan_lines (1024 * 1024) out)) t"

definition tail_bytes_from :: "tail_buffer \<Rightarrow> nat \<Rightarrow> string" where
  "tail_bytes_from t n =
     (let s = tail_string t
      in if length s \<le> n then s
         else (let piece = take_last n s
               in case index_byte nl piece of
                    None \<Rightarrow> piece
                  | Some i \<Rightarrow> if Suc i < length piece then drop (Suc i) piece else piece))"

text \<open>
  Whatever is written, the string is the last 32 KiB of all of it: the buffer is a suffix of the
  text, and the whole text or at least \<open>cap\<close> bytes.
\<close>

definition tail_holds :: "string \<Rightarrow> tail_buffer \<Rightarrow> bool" where
  "tail_holds w t \<longleftrightarrow>
     (tb_cap t = 0 \<and> w = [] \<and> tb_buf t = []) \<or>
     (tb_cap t = 32 * 1024 \<and> suffix (tb_buf t) w \<and> (tb_buf t = w \<or> 32 * 1024 \<le> length (tb_buf t)))"

lemma take_last_suffix:
  assumes "suffix b w" and "n \<le> length b"
  shows "take_last n w = take_last n b"
  using assms by (auto simp: suffix_def take_last_def)

lemma tail_holds_write: "tail_holds w t \<Longrightarrow> tail_holds (w @ s) (tail_write s t)"
proof -
  assume h: "tail_holds w t"
  let ?cap = "32 * 1024 :: nat" and ?buf = "tb_buf t @ s"
  have cap: "(if tb_cap t = 0 then 32 * 1024 else tb_cap t) = ?cap"
    using h by (auto simp: tail_holds_def)
  have suf: "suffix ?buf (w @ s)" and all: "?buf = w @ s \<or> ?cap \<le> length ?buf"
    using h by (auto simp: tail_holds_def suffix_def)
  have "suffix (take_last ?cap ?buf) (w @ s)"
    using suf suffix_take_last suffix_order.trans by blast
  moreover have "?cap \<le> length (take_last ?cap ?buf)" if "2 * ?cap < length ?buf"
    using that by simp
  ultimately show ?thesis
    using suf all unfolding tail_holds_def tail_write_def Let_def cap by auto
qed

lemma tail_string_holds: "tail_holds w t \<Longrightarrow> tail_string t = take_last (32 * 1024) w"
  using take_last_suffix [of "tb_buf t" w "32 * 1024"]
  by (auto simp: tail_holds_def tail_string_def)

lemma tail_holds_fold: "tail_holds w t \<Longrightarrow> tail_holds (w @ concat ss) (fold tail_write ss t)"
proof (induction ss arbitrary: w t)
  case (Cons s ss)
  from Cons.IH [OF tail_holds_write [OF Cons.prems, of s]] show ?case by simp
qed simp

lemma tail_holds_empty: "tail_holds [] empty_tail"
  by (simp add: tail_holds_def empty_tail_def)

lemma length_tail_bytes: "length (tail_bytes_from t n) \<le> n"
  by (auto simp: tail_bytes_from_def Let_def split: option.split)

subsection \<open>extractJSONObject\<close>

text \<open>
  The loop from the first opening brace: \<open>seen\<close> is the text read, reversed, \<open>depth\<close> the open
  braces, \<open>in_str\<close> and \<open>esc\<close> the state inside a string.
\<close>

fun json_scan :: "string \<Rightarrow> nat \<Rightarrow> bool \<Rightarrow> bool \<Rightarrow> string \<Rightarrow> string option" where
  "json_scan seen depth in_str esc [] = None"
| "json_scan seen depth in_str esc (c # cs) =
     (if in_str then
        (if esc then json_scan (c # seen) depth True False cs
         else if c = backslash then json_scan (c # seen) depth True True cs
         else if c = dquote then json_scan (c # seen) depth False False cs
         else json_scan (c # seen) depth True False cs)
      else if c = dquote then json_scan (c # seen) depth True False cs
      else if c = CHR ''{'' then json_scan (c # seen) (Suc depth) False False cs
      else if c = CHR ''}'' then
        (if depth \<le> 1 then Some (rev (c # seen)) else json_scan (c # seen) (depth - 1) False False cs)
      else json_scan (c # seen) depth False False cs)"

definition extract_json_object :: "string \<Rightarrow> string option" where
  "extract_json_object s =
     (case index_byte (CHR ''{'') s of
        None \<Rightarrow> None
      | Some start \<Rightarrow> json_scan [] 0 False False (drop start s))"

text \<open>
  What the loop looks for, as a grammar: text whose braces match outside of strings, where a
  string runs to the first quote that no backslash escapes.
\<close>

inductive str_body :: "string \<Rightarrow> bool" where
  str_Nil: "str_body []"
| str_char: "c \<noteq> dquote \<Longrightarrow> c \<noteq> backslash \<Longrightarrow> str_body s \<Longrightarrow> str_body (c # s)"
| str_esc: "str_body s \<Longrightarrow> str_body (backslash # c # s)"

inductive balanced :: "string \<Rightarrow> bool" where
  bal_Nil: "balanced []"
| bal_char: "c \<notin> {dquote, CHR ''{'', CHR ''}''} \<Longrightarrow> balanced b \<Longrightarrow> balanced (c # b)"
| bal_str: "str_body s \<Longrightarrow> balanced b \<Longrightarrow> balanced (dquote # s @ dquote # b)"
| bal_braces: "balanced a \<Longrightarrow> balanced b \<Longrightarrow> balanced (CHR ''{'' # a @ CHR ''}'' # b)"

inductive_simps balanced_Nil [simp]: "balanced []"

lemma json_scan_str:
  "str_body s \<Longrightarrow> json_scan seen depth True False (s @ dquote # r) =
     json_scan (dquote # rev s @ seen) depth False False r"
  by (induction arbitrary: seen rule: str_body.induct) auto

lemma json_scan_balanced:
  "balanced b \<Longrightarrow> 0 < depth \<Longrightarrow>
     json_scan seen depth False False (b @ r) = json_scan (rev b @ seen) depth False False r"
proof (induction arbitrary: seen depth r rule: balanced.induct)
  case (bal_braces a b)
  from bal_braces.IH(1) [of "Suc depth" "CHR ''{'' # seen" "CHR ''}'' # b @ r"]
    bal_braces.IH(2) [of depth "CHR ''}'' # rev a @ CHR ''{'' # seen" r] bal_braces.prems
  show ?case by simp
next
  case (bal_str s b)
  from json_scan_str [OF bal_str.hyps(1), of "dquote # seen" depth "b @ r"]
    bal_str.IH [of depth "dquote # rev s @ dquote # seen" r] bal_str.prems
  show ?case by simp
qed auto

text \<open>Conversely, what the loop returns closes the braces that were open.\<close>

inductive closing :: "nat \<Rightarrow> string \<Rightarrow> bool" where
  close_last: "balanced b \<Longrightarrow> closing 1 (b @ [CHR ''}''])"
| close_more: "balanced b \<Longrightarrow> closing d x \<Longrightarrow> closing (Suc d) (b @ CHR ''}'' # x)"

lemma closing_prepend:
  assumes "closing d x" and "\<And>b. balanced b \<Longrightarrow> balanced (p @ b)"
  shows "closing d (p @ x)"
  using assms(1)
proof cases
  case (close_last b)
  with closing.close_last [OF assms(2) [OF close_last(3)]] show ?thesis by simp
next
  case (close_more b d' y)
  with closing.close_more [OF assms(2) [OF close_more(3)] close_more(4)] show ?thesis by simp
qed

lemma closing_open:
  assumes "closing (Suc d) x" and "0 < d"
  shows "closing d (CHR ''{'' # x)"
  using assms(1)
proof cases
  case (close_last b)
  then show ?thesis using assms(2) by simp
next
  case (close_more b y)
  have "balanced c \<Longrightarrow> balanced (CHR ''{'' # b @ CHR ''}'' # c)" for c
    by (rule bal_braces [OF close_more(2)])
  with closing_prepend [of d y "CHR ''{'' # b @ [CHR ''}'']"] close_more show ?thesis by simp
qed

lemma json_scan_str_split:
  "json_scan seen depth True esc s = Some r \<Longrightarrow>
     \<exists>u rest. s = u @ dquote # rest \<and> (if esc then u \<noteq> [] \<and> str_body (tl u) else str_body u) \<and>
       json_scan (dquote # rev u @ seen) depth False False rest = Some r"
proof (induction s arbitrary: seen esc)
  case (Cons c cs)
  have step: "\<exists>u rest. c # cs = u @ dquote # rest \<and>
      (if esc then u \<noteq> [] \<and> str_body (tl u) else str_body u) \<and>
      json_scan (dquote # rev u @ seen) depth False False rest = Some r"
    if sub: "cs = u @ dquote # rest" "json_scan (dquote # rev u @ c # seen) depth False False rest = Some r"
      and body: "if esc then str_body u else str_body (c # u)" for u rest
    using sub body by (intro exI [of _ "c # u"] exI [of _ rest]) simp
  consider (esc) esc | (slash) "\<not> esc" "c = backslash" | (quote) "\<not> esc" "c = dquote"
    | (other) "\<not> esc" "c \<noteq> backslash" "c \<noteq> dquote"
    by blast
  then show ?case
  proof cases
    case esc
    with Cons.prems have "json_scan (c # seen) depth True False cs = Some r" by simp
    from Cons.IH [OF this] obtain u rest where u: "cs = u @ dquote # rest" "str_body u"
      "json_scan (dquote # rev u @ c # seen) depth False False rest = Some r" by auto
    show ?thesis by (rule step [OF u(1,3)]) (simp add: esc u(2))
  next
    case slash
    with Cons.prems have "json_scan (c # seen) depth True True cs = Some r" by simp
    from Cons.IH [OF this] obtain u rest where u: "cs = u @ dquote # rest" "u \<noteq> []" "str_body (tl u)"
      "json_scan (dquote # rev u @ c # seen) depth False False rest = Some r" by auto
    have "str_body (c # u)"
      using u(2) slash str_esc [OF u(3), of "hd u"] by simp
    with slash show ?thesis by (intro step [OF u(1,4)]) simp
  next
    case quote
    with Cons.prems have "json_scan (dquote # seen) depth False False cs = Some r" by simp
    then show ?thesis using quote
      by (intro exI [of _ "[]"] exI [of _ cs]) (simp add: str_Nil)
  next
    case other
    with Cons.prems have "json_scan (c # seen) depth True False cs = Some r" by simp
    from Cons.IH [OF this] obtain u rest where u: "cs = u @ dquote # rest" "str_body u"
      "json_scan (dquote # rev u @ c # seen) depth False False rest = Some r" by auto
    from str_char [OF other(3,2) u(2)] other(1) show ?thesis by (intro step [OF u(1,3)]) simp
  qed
qed simp

lemma json_scan_closing:
  "json_scan seen d False False s = Some r \<Longrightarrow> 0 < d \<Longrightarrow>
     \<exists>x post. s = x @ post \<and> closing d x \<and> r = rev seen @ x"
proof (induction "length s" arbitrary: s seen d rule: less_induct)
  case less
  from less.prems obtain c cs where s: "s = c # cs" by (cases s) auto
  have IH: "\<exists>x post. t = x @ post \<and> closing d' x \<and> r = rev seen' @ x"
    if "json_scan seen' d' False False t = Some r" "length t < length s" "0 < d'" for t seen' d'
    using less.hyps [of t seen' d'] that by blast
  consider (quote) "c = dquote" | (opened) "c = CHR ''{''" | (last) "c = CHR ''}''" "d = 1"
    | (close) "c = CHR ''}''" "1 < d" | (other) "c \<notin> {dquote, CHR ''{'', CHR ''}''}"
    using less.prems(2) by fastforce
  then show ?case
  proof cases
    case quote
    with less.prems s have "json_scan (dquote # seen) d True False cs = Some r" by simp
    from json_scan_str_split [OF this] obtain u rest
      where cs: "cs = u @ dquote # rest" and u: "str_body u"
        and sub: "json_scan (dquote # rev u @ dquote # seen) d False False rest = Some r"
      by auto
    from IH [OF sub] less.prems(2) cs s obtain x post
      where x: "rest = x @ post" "closing d x" "r = rev (dquote # rev u @ dquote # seen) @ x" by auto
    have "closing d ((dquote # u @ [dquote]) @ x)"
      by (rule closing_prepend [OF x(2)]) (use bal_str [OF u] in simp)
    then show ?thesis
      using x cs s quote by (intro exI [of _ "dquote # u @ dquote # x"] exI [of _ post]) simp
  next
    case opened
    with less.prems s have "json_scan (c # seen) (Suc d) False False cs = Some r" by simp
    from IH [OF this] s obtain x post where "cs = x @ post" "closing (Suc d) x" "r = rev (c # seen) @ x"
      by auto
    then show ?thesis
      using opened s closing_open [of d x] less.prems(2)
      by (intro exI [of _ "c # x"] exI [of _ post]) simp
  next
    case last
    with less.prems s have "r = rev seen @ [c]" by simp
    then show ?thesis using last s close_last [OF bal_Nil]
      by (intro exI [of _ "[c]"] exI [of _ cs]) simp
  next
    case close
    with less.prems s have "json_scan (c # seen) (d - 1) False False cs = Some r" by simp
    from IH [OF this] s close obtain x post where x: "cs = x @ post" "closing (d - 1) x" "r = rev (c # seen) @ x"
      by auto
    then show ?thesis using close s close_more [OF bal_Nil x(2)]
      by (intro exI [of _ "c # x"] exI [of _ post]) simp
  next
    case other
    with less.prems s have "json_scan (c # seen) d False False cs = Some r" by simp
    from IH [OF this] s less.prems(2) obtain x post
      where x: "cs = x @ post" "closing d x" "r = rev (c # seen) @ x" by auto
    have "closing d ([c] @ x)"
      by (rule closing_prepend [OF x(2)]) (use bal_char other in simp)
    then show ?thesis using x s by (intro exI [of _ "c # x"] exI [of _ post]) simp
  qed
qed

lemma closing_one: "closing 1 x \<longleftrightarrow> (\<exists>b. balanced b \<and> x = b @ [CHR ''}''])"
proof
  assume "closing 1 x"
  then show "\<exists>b. balanced b \<and> x = b @ [CHR ''}'']"
  proof cases
    case (close_more b d y)
    then have "closing 0 y" by simp
    then show ?thesis by cases auto
  qed auto
qed (auto intro: close_last [unfolded One_nat_def])

lemma index_byte_split: "index_byte b s = Some i \<Longrightarrow> s = take i s @ b # drop (Suc i) s \<and> b \<notin> set (take i s)"
  using index_byte_Some [of b s i] id_take_nth_drop [of i s] by auto

lemma extract_json_object_finds:
  "extract_json_object s = Some r \<longleftrightarrow>
     (\<exists>pre b post. s = pre @ r @ post \<and> CHR ''{'' \<notin> set pre \<and> r = CHR ''{'' # b @ [CHR ''}''] \<and> balanced b)"
  (is "?run \<longleftrightarrow> ?found")
proof
  assume ?run
  then obtain start where i: "index_byte (CHR ''{'') s = Some start"
    and scan: "json_scan [] 0 False False (drop start s) = Some r"
    by (auto simp: extract_json_object_def split: option.splits)
  let ?rest = "drop (Suc start) s"
  from index_byte_split [OF i] have s: "s = take start s @ CHR ''{'' # ?rest"
    and pre: "CHR ''{'' \<notin> set (take start s)" by auto
  have "drop start s = CHR ''{'' # ?rest"
    using index_byte_Some [OF i] Cons_nth_drop_Suc [of start s] by simp
  with scan have "json_scan [CHR ''{''] 1 False False ?rest = Some r" by simp
  from json_scan_closing [OF this] obtain x post
    where x: "?rest = x @ post" "closing 1 x" "r = CHR ''{'' # x" by auto
  from x(2) obtain b where "balanced b" "x = b @ [CHR ''}'']" unfolding closing_one by blast
  with s pre x show ?found
    by (intro exI [of _ "take start s"] exI [of _ b] exI [of _ post]) simp
next
  assume ?found
  then obtain pre b post where s: "s = pre @ CHR ''{'' # b @ CHR ''}'' # post"
    and pre: "CHR ''{'' \<notin> set pre" and b: "balanced b" and r: "r = CHR ''{'' # b @ [CHR ''}'']"
    by auto
  from json_scan_balanced [OF b, of 1 "[CHR ''{'']" "CHR ''}'' # post"]
  show ?run by (simp add: extract_json_object_def s index_byte_append_notin [OF pre] r)
qed

subsection \<open>Listening ports\<close>

definition parse_hex32 :: "string \<Rightarrow> int option" where
  "parse_hex32 s =
     (let (neg, ds) = (case s of c # cs \<Rightarrow> (if c = CHR ''-'' then (True, cs)
                                        else if c = CHR ''+'' then (False, cs) else (False, s))
                       | [] \<Rightarrow> (False, s))
      in case hex_run 0 0 ds of (off, acc, rest) \<Rightarrow>
           if off = 0 \<or> rest \<noteq> [] then None
           else (let v = (if neg then - int acc else int acc)
                 in if - (2 ^ 31) \<le> v \<and> v < 2 ^ 31 then Some v else None))"

text \<open>\<^verbatim>\<open>hex.DecodeString\<close>: pairs of digits; the error when the length is odd is \<open>None\<close> too.\<close>

fun hex_decode :: "string \<Rightarrow> nat list option" where
  "hex_decode [] = Some []"
| "hex_decode [c] = None"
| "hex_decode (c # d # cs) =
     (case (hex_value c, hex_value d) of
        (Some x, Some y) \<Rightarrow> map_option (\<lambda>bs. (16 * x + y) # bs) (hex_decode cs)
      | _ \<Rightarrow> None)"

text \<open>The port column of a table line in state \<^verbatim>\<open>LISTEN\<close>.\<close>

definition listen_port_text :: "string \<Rightarrow> string option" where
  "listen_port_text line =
     (if trim_space line = [] then None
      else (let fs = str_fields line
            in if length fs < 4 \<or> fs ! 3 \<noteq> ''0A'' then None
               else map_option (\<lambda>i. drop (Suc i) (fs ! 1)) (last_index_byte (CHR '':'') (fs ! 1))))"

text \<open>The two scanners of the program: \<^verbatim>\<open>hasNonMCPListener\<close> and \<^verbatim>\<open>scanListenPorts\<close>.\<close>

definition line_listens :: "int \<Rightarrow> string \<Rightarrow> bool" where
  "line_listens skip line =
     (case listen_port_text line of
        None \<Rightarrow> False
      | Some p \<Rightarrow> (case parse_hex32 p of None \<Rightarrow> False | Some n \<Rightarrow> n \<noteq> skip))"

definition table_listens :: "int \<Rightarrow> string option \<Rightarrow> bool" where
  "table_listens skip t =
     (case t of None \<Rightarrow> False | Some s \<Rightarrow> list_ex (line_listens skip) (drop 1 (split_on nl s)))"

definition has_non_mcp_listener :: "string option list \<Rightarrow> int \<Rightarrow> bool" where
  "has_non_mcp_listener tables skip = list_ex (table_listens skip) tables"

definition port_of_text :: "string \<Rightarrow> int option" where
  "port_of_text p =
     (case hex_decode p of
        Some [a, b] \<Rightarrow> Some (int (256 * a + b))
      | _ \<Rightarrow> parse_hex32 p)"

fun scan_port_lines :: "int \<Rightarrow> string list \<Rightarrow> int option" where
  "scan_port_lines skip [] = None"
| "scan_port_lines skip (l # ls) =
     (case Option.bind (listen_port_text l) port_of_text of
        None \<Rightarrow> scan_port_lines skip ls
      | Some p \<Rightarrow> if p = skip then scan_port_lines skip ls else Some p)"

definition scan_listen_ports :: "string option \<Rightarrow> int \<Rightarrow> int option" where
  "scan_listen_ports table skip =
     (case table of None \<Rightarrow> None | Some s \<Rightarrow> scan_port_lines skip (drop 1 (split_on nl s)))"

fun detect_app_port :: "string option list \<Rightarrow> int \<Rightarrow> int option" where
  "detect_app_port [] skip = None"
| "detect_app_port (t # ts) skip =
     (case scan_listen_ports t skip of Some p \<Rightarrow> Some p | None \<Rightarrow> detect_app_port ts skip)"

lemma hex_value_range: "hex_value c = Some d \<Longrightarrow> d < 16"
  by (auto simp: hex_value_def Let_def split: if_splits)

lemma hex_value_sign: "hex_value (CHR ''-'') = None" "hex_value (CHR ''+'') = None"
  by (simp_all add: hex_value_def)

text \<open>On four digits, as the kernel prints a port, the two ways of reading it agree.\<close>

lemma port_of_text_parse: "port_of_text p = parse_hex32 p"
proof (cases "\<exists>a b. hex_decode p = Some [a, b]")
  case True
  then obtain u v where dec: "hex_decode p = Some [u, v]" by blast
  obtain a b c d where p: "p = [a, b, c, d]"
    using dec by (cases p rule: hex_decode.cases; cases "drop 2 p" rule: hex_decode.cases;
        cases "drop 4 p" rule: hex_decode.cases) (auto split: option.splits)
  from dec obtain w x y z where h: "hex_value a = Some w" "hex_value b = Some x" "hex_value c = Some y"
    "hex_value d = Some z" and uv: "u = 16 * w + x" "v = 16 * y + z"
    by (auto simp: p split: option.splits)
  have sign: "a \<noteq> CHR ''-''" "a \<noteq> CHR ''+''" using h(1) hex_value_sign by auto
  show ?thesis
    using h sign hex_value_range [OF h(1)] hex_value_range [OF h(2)] hex_value_range [OF h(3)]
      hex_value_range [OF h(4)]
    by (simp add: port_of_text_def parse_hex32_def p)
next
  case False
  then show ?thesis by (auto simp: port_of_text_def split: option.split list.split)
qed

lemma scan_port_lines_None: "scan_port_lines skip ls = None \<longleftrightarrow> \<not> list_ex (line_listens skip) ls"
  by (induction ls) (auto simp: line_listens_def port_of_text_parse split: option.splits bind_splits)

lemma scan_listen_ports_None: "scan_listen_ports t skip = None \<longleftrightarrow> \<not> table_listens skip t"
  by (simp add: scan_listen_ports_def table_listens_def scan_port_lines_None split: option.split)

lemma detect_app_port_None: "detect_app_port ts skip = None \<longleftrightarrow> \<not> has_non_mcp_listener ts skip"
proof (induction ts)
  case (Cons t ts)
  then show ?case
    using scan_listen_ports_None [of t skip]
    by (cases "scan_listen_ports t skip") (simp_all add: has_non_mcp_listener_def)
qed (simp add: has_non_mcp_listener_def)

text \<open>\<^verbatim>\<open>parseMCPPort\<close>\<close>

definition parse_mcp_port :: "string \<Rightarrow> int" where
  "parse_mcp_port addr =
     (case split_host_port addr of
        None \<Rightarrow> 7842
      | Some (_, p) \<Rightarrow> (case atoi p of None \<Rightarrow> 7842 | Some n \<Rightarrow> n))"

subsection \<open>Properties\<close>

text \<open>
  The object in a model's reply. The text is searched from its first opening brace, and what
  is found is exactly an object whose braces match outside of strings, with whatever prose
  before and after it; if there is none, nothing is found.
\<close>

lemma extract_json_object_iff:
  "extract_json_object s = Some r \<longleftrightarrow>
     (\<exists>pre b post. s = pre @ r @ post \<and> CHR ''{'' \<notin> set pre \<and> r = CHR ''{'' # b @ [CHR ''}''] \<and> balanced b)"
  by (rule extract_json_object_finds)

text \<open>
  The tail of a script's output is its last 32 KiB, however it was cut into writes; the
  snipping of the buffer never loses a byte of it.
\<close>

lemma tail_is_last_bytes:
  "tail_string (fold tail_write ss empty_tail) = take_last (32 * 1024) (concat ss)"
  using tail_string_holds [OF tail_holds_fold [OF tail_holds_empty, of ss]] by simp

text \<open>
  C38: the check whether an app listens and the search for its port agree: one answers yes exactly
  if the other finds a port, though they read the hexadecimal port in different ways.
\<close>

theorem listener_checks_agree:
  "has_non_mcp_listener tables skip \<longleftrightarrow> detect_app_port tables skip \<noteq> None"
  by (simp add: detect_app_port_None)

end
