(* ===== verification/ToolReg.thy ===== *)
theory ToolReg
  imports GoLib
begin

text \<open>
  \<^verbatim>\<open>internal/tool\<close>: the tools an agent can call (\<^verbatim>\<open>tool.go\<close>), the built-in shell tool
  (\<^verbatim>\<open>shell.go\<close>) and the adapter that turns a tool of a remote MCP server into a local one
  (\<^verbatim>\<open>remote.go\<close>). What a tool does to the outside is a function on a world of any type
  \<open>'w\<close>. The interface that the LLM drivers rely on is the locale \<open>tool_registry\<close>.
\<close>

subsection \<open>Tools and the registry\<close>

record tool_result =
  res_output :: string
  res_truncated :: bool
  res_sensitive :: bool

abbreviation empty_result :: tool_result where
  "empty_result \<equiv> \<lparr>res_output = [], res_truncated = False, res_sensitive = False\<rparr>"

text \<open>\<open>tool_invoke args w\<close> is the result, the error (as its message) and the world after.\<close>

record 'w tool =
  tool_name :: string
  tool_description :: string
  tool_schema :: string
  tool_invoke :: "string \<Rightarrow> 'w \<Rightarrow> (tool_result \<times> string option) \<times> 'w"

text \<open>The Go map of the registry, as rows under the name in registration order.\<close>

type_synonym 'w registry = "(string \<times> 'w tool) list"

datatype register_error = NilTool | EmptyToolName | AlreadyRegistered string

definition new_registry :: "'w registry" where
  "new_registry = []"

definition reg_register :: "'w tool option \<Rightarrow> 'w registry \<Rightarrow> register_error + 'w registry" where
  "reg_register t r =
     (case t of
        None \<Rightarrow> Inl NilTool
      | Some t \<Rightarrow>
          if tool_name t = [] then Inl EmptyToolName
          else case find_row fst (tool_name t) r of
            Some _ \<Rightarrow> Inl (AlreadyRegistered (tool_name t))
          | None \<Rightarrow> Inr (r @ [(tool_name t, t)]))"

text \<open>\<^verbatim>\<open>MustRegister\<close>; \<open>None\<close> is the panic.\<close>

definition reg_must_register :: "'w tool option \<Rightarrow> 'w registry \<Rightarrow> 'w registry option" where
  "reg_must_register t r = (case reg_register t r of Inl _ \<Rightarrow> None | Inr r' \<Rightarrow> Some r')"

definition reg_get :: "'w registry \<Rightarrow> string \<Rightarrow> 'w tool option" where
  "reg_get r name = map_option snd (find_row fst name r)"

definition reg_list :: "'w registry \<Rightarrow> 'w tool list" where
  "reg_list r = sort_key tool_name (map snd r)"

definition reg_names :: "'w registry \<Rightarrow> string list" where
  "reg_names r = sort (map fst r)"

text \<open>One step of the loop of \<^verbatim>\<open>Subset\<close>; an error of \<^verbatim>\<open>Register\<close> is dropped.\<close>

definition subset_step :: "'w registry \<Rightarrow> string \<Rightarrow> 'w registry \<Rightarrow> 'w registry" where
  "subset_step r name out =
     (case find_row fst name r of
        None \<Rightarrow> out
      | Some (_, t) \<Rightarrow> (case reg_register (Some t) out of Inl _ \<Rightarrow> out | Inr out' \<Rightarrow> out'))"

definition reg_subset :: "string list \<Rightarrow> 'w registry \<Rightarrow> 'w registry" where
  "reg_subset allow r =
     (if allow = [] then r else fold (subset_step r) allow new_registry)"

definition reg_wf :: "'w registry \<Rightarrow> bool" where
  "reg_wf r \<longleftrightarrow> keyed fst r \<and> (\<forall>(n, t) \<in> set r. tool_name t = n \<and> n \<noteq> [])"

subsection \<open>The registry's invariant\<close>

lemma reg_wf_new [wf_intros, simp]: "reg_wf new_registry"
  by (simp add: reg_wf_def new_registry_def)

lemma reg_wf_register [wf_intros]:
  "reg_wf r \<Longrightarrow> reg_register t r = Inr r' \<Longrightarrow> reg_wf r'"
  by (auto simp: reg_wf_def reg_register_def keyed_append_fresh split: option.splits if_splits)

lemma reg_get_register:
  "reg_register (Some t) r = Inr r' \<Longrightarrow>
     reg_get r' n = (if n = tool_name t then Some t else reg_get r n)"
  by (auto simp: reg_register_def reg_get_def find_row_append split: option.splits if_splits)

lemma reg_register_Inl_iff:
  "(\<exists>e. reg_register (Some t) r = Inl e) \<longleftrightarrow> tool_name t = [] \<or> reg_get r (tool_name t) \<noteq> None"
  by (auto simp: reg_register_def reg_get_def split: option.splits)

lemma reg_get_iff_mem:
  assumes "reg_wf r"
  shows "reg_get r n = Some t \<longleftrightarrow> t \<in> snd ` set r \<and> tool_name t = n"
proof -
  have key: "keyed fst r" using assms by (simp add: reg_wf_def)
  have "reg_get r n = Some t \<longleftrightarrow> (n, t) \<in> set r"
    by (auto simp: reg_get_def find_row_keyed_iff [OF key])
  also have "\<dots> \<longleftrightarrow> t \<in> snd ` set r \<and> tool_name t = n"
    using assms by (force simp: reg_wf_def image_iff)
  finally show ?thesis .
qed

lemma reg_get_tool_name: "reg_wf r \<Longrightarrow> reg_get r n = Some t \<Longrightarrow> tool_name t = n \<and> n \<noteq> []"
  by (auto simp: reg_get_iff_mem) (auto simp: reg_wf_def)

lemma reg_tool_names: "reg_wf r \<Longrightarrow> map tool_name (map snd r) = map fst r"
  by (auto simp: reg_wf_def)

lemma subset_step_wf [wf_intros]: "reg_wf r \<Longrightarrow> reg_wf out \<Longrightarrow> reg_wf (subset_step r n out)"
  by (auto simp: subset_step_def split: option.splits sum.splits intro: reg_wf_register)

lemma subset_step_get:
  assumes "reg_wf r" and "reg_wf out" and sub: "\<And>m t. reg_get out m = Some t \<Longrightarrow> reg_get r m = Some t"
  shows "reg_get (subset_step r n out) m = (if m = n \<and> reg_get r n \<noteq> None then reg_get r n else reg_get out m)"
proof (cases "find_row fst n r")
  case None
  then show ?thesis by (auto simp: subset_step_def reg_get_def)
next
  case (Some p)
  obtain k t where p: "p = (k, t)" by (cases p)
  have g: "reg_get r n = Some t" using Some p by (simp add: reg_get_def)
  then have tn: "tool_name t = n" "n \<noteq> []" using assms(1) reg_get_tool_name by blast+
  show ?thesis
  proof (cases "reg_register (Some t) out")
    case (Inl e)
    then have "reg_get out n \<noteq> None"
      using reg_register_Inl_iff [of t out] tn by auto
    then show ?thesis using Inl Some p g sub by (auto simp: subset_step_def)
  next
    case (Inr out')
    then show ?thesis
      using Some p g tn reg_get_register [OF Inr] by (auto simp: subset_step_def)
  qed
qed

lemma fold_subset_step:
  assumes "reg_wf r" and "reg_wf out" and "\<And>m t. reg_get out m = Some t \<Longrightarrow> reg_get r m = Some t"
  shows "reg_wf (fold (subset_step r) allow out) \<and>
    (\<forall>m. reg_get (fold (subset_step r) allow out) m =
       (if m \<in> set allow \<and> reg_get r m \<noteq> None then reg_get r m else reg_get out m))"
  using assms
proof (induction allow arbitrary: out)
  case Nil
  then show ?case by simp
next
  case (Cons n allow)
  have get: "reg_get (subset_step r n out) m =
      (if m = n \<and> reg_get r n \<noteq> None then reg_get r n else reg_get out m)" for m
    by (rule subset_step_get) (use Cons.prems in auto)
  have wf: "reg_wf (subset_step r n out)" by (intro subset_step_wf Cons.prems)
  have sub: "reg_get (subset_step r n out) m = Some t \<Longrightarrow> reg_get r m = Some t" for m t
    using Cons.prems(3) by (auto simp: get split: if_splits)
  from Cons.IH [OF Cons.prems(1) wf sub] show ?case by (auto simp: get)
qed

lemma reg_get_new [simp]: "reg_get new_registry n = None"
  by (simp add: reg_get_def new_registry_def)

lemma fold_subset_new:
  "reg_wf r \<Longrightarrow> reg_wf (fold (subset_step r) allow new_registry) \<and>
    (\<forall>m. reg_get (fold (subset_step r) allow new_registry) m =
       (if m \<in> set allow then reg_get r m else None))"
  using fold_subset_step [of r new_registry allow] by auto

lemma reg_wf_subset [wf_intros]: "reg_wf r \<Longrightarrow> reg_wf (reg_subset allow r)"
  using fold_subset_new [of r allow] by (simp add: reg_subset_def)

lemma reg_get_subset:
  "reg_wf r \<Longrightarrow> reg_get (reg_subset allow r) n =
     (if allow = [] \<or> n \<in> set allow then reg_get r n else None)"
  using fold_subset_new [of r allow] by (simp add: reg_subset_def)

subsection \<open>The interface the drivers use\<close>

text \<open>
  A driver announces the tools of \<open>listing r\<close> to the model and dispatches the model's calls
  with \<open>get r\<close>. The laws say that the two agree and that the announcement is canonical.
\<close>

locale tool_registry =
  fixes get :: "'r \<Rightarrow> string \<Rightarrow> 'w tool option"
    and listing :: "'r \<Rightarrow> 'w tool list"
    and inv :: "'r \<Rightarrow> bool"
  assumes get_iff: "inv r \<Longrightarrow> get r n = Some t \<longleftrightarrow> t \<in> set (listing r) \<and> tool_name t = n"
    and listing_sorted: "inv r \<Longrightarrow> sorted (map tool_name (listing r))"
    and listing_distinct: "inv r \<Longrightarrow> distinct (map tool_name (listing r))"
begin

lemma dispatchable_iff_listed:
  "inv r \<Longrightarrow> get r n \<noteq> None \<longleftrightarrow> n \<in> tool_name ` set (listing r)"
  by (auto simp: get_iff image_iff)

lemma listing_unique:
  assumes "inv r" and "sorted (map tool_name ts)" and "distinct (map tool_name ts)"
    and "\<And>n t. get r n = Some t \<longleftrightarrow> t \<in> set ts \<and> tool_name t = n"
  shows "ts = listing r"
proof -
  have "set ts = set (listing r)"
    using assms(4) get_iff [OF assms(1)] by blast
  moreover have "distinct ts" "distinct (listing r)"
    using assms(3) listing_distinct [OF assms(1)] by (auto simp: distinct_map)
  ultimately have m: "mset ts = mset (listing r)"
    by (simp add: set_eq_iff_mset_eq_distinct)
  have "ts = sort_key tool_name (listing r)"
    by (rule sorted_perm_unique) (use m assms listing_distinct in auto)
  also have "\<dots> = listing r"
    by (rule sorted_perm_unique [symmetric]) (use assms(1) listing_sorted listing_distinct in auto)
  finally show ?thesis .
qed

lemma listing_cong:
  "inv r \<Longrightarrow> inv r' \<Longrightarrow> get r = get r' \<Longrightarrow> listing r = listing r'"
  by (rule listing_unique) (auto simp: listing_sorted listing_distinct get_iff [symmetric])

end

interpretation reg: tool_registry reg_get reg_list reg_wf
proof
  fix r :: "'w registry" and n t
  assume wf: "reg_wf r"
  show "(reg_get r n = Some t) = (t \<in> set (reg_list r) \<and> tool_name t = n)"
    by (simp add: reg_get_iff_mem [OF wf] reg_list_def)
  show "sorted (map tool_name (reg_list r))" by (simp add: reg_list_def)
  have "distinct (map tool_name (map snd r))"
    by (simp only: reg_tool_names [OF wf]) (use wf in \<open>simp add: reg_wf_def keyed_def\<close>)
  then show "distinct (map tool_name (reg_list r))"
    by (simp only: reg_list_def distinct_map set_sort distinct_sort)
qed

lemma reg_names_eq: "reg_wf r \<Longrightarrow> reg_names r = map tool_name (reg_list r)"
proof -
  assume wf: "reg_wf r"
  have "mset (map tool_name (reg_list r)) = image_mset tool_name (mset (map snd r))"
    by (simp only: reg_list_def mset_map mset_sort)
  also have "\<dots> = mset (map fst r)"
    by (simp only: reg_tool_names [OF wf] flip: mset_map)
  finally have "mset (map tool_name (reg_list r)) = mset (map fst r)" .
  then show ?thesis
    unfolding reg_names_def by (intro properties_for_sort) (auto simp: reg_list_def)
qed

subsection \<open>The shell tool\<close>

record shell_tool =
  max_output_bytes :: int
  default_timeout :: duration

definition new_shell_tool :: shell_tool where
  "new_shell_tool = \<lparr>max_output_bytes = 64 * 1024, default_timeout = 60 * second\<rparr>"

record shell_args =
  sa_command :: string
  sa_cwd :: string
  sa_timeout_seconds :: int

text \<open>
  How \<^verbatim>\<open>cmd.Run\<close> can fail: the process ran and exited with a code, or it could not be
  run at all. The flag beside it is \<^verbatim>\<open>cctx.Err() == context.DeadlineExceeded\<close>.
\<close>

datatype exec_error = ExitError int | StartError string

record exec_outcome =
  ex_error :: "exec_error option"
  ex_output :: string
  ex_deadline :: bool

text \<open>
  The deadline of the command: \<^verbatim>\<open>time.Duration(a.TimeoutSeconds) * time.Second\<close> is a 64-bit
  product.
\<close>

definition shell_timeout :: "shell_tool \<Rightarrow> shell_args \<Rightarrow> duration" where
  "shell_timeout t a =
     (if sa_timeout_seconds a > 0 then word_of_int (sa_timeout_seconds a) * second
      else default_timeout t)"

definition exec_exit_code :: "exec_outcome \<Rightarrow> string + int" where
  "exec_exit_code out =
     (case ex_error out of
        None \<Rightarrow> Inr 0
      | Some (ExitError code) \<Rightarrow> Inr code
      | Some (StartError m) \<Rightarrow>
          if ex_deadline out then Inr 124 else Inl (''shell: start: '' @ m))"

definition truncated_marker :: string where
  "truncated_marker = nl # ''[... truncated ...]''"

definition clamp_output :: "shell_tool \<Rightarrow> string \<Rightarrow> string \<times> bool" where
  "clamp_output t body =
     (if 0 < max_output_bytes t \<and> max_output_bytes t < int (length body)
      then (take (nat (max_output_bytes t)) body @ truncated_marker, True)
      else (body, False))"

text \<open>
  \<^verbatim>\<open>ShellTool.Invoke\<close>. \<open>decode\<close> is \<^verbatim>\<open>json.Unmarshal\<close> into the argument struct and
  \<open>sh a to\<close> runs \<^verbatim>\<open>sh -c\<close> with the directory of \<open>a\<close> under the deadline \<open>to\<close>.
\<close>

definition shell_invoke ::
  "(string \<Rightarrow> string + shell_args) \<Rightarrow> (shell_args \<Rightarrow> duration \<Rightarrow> 'w \<Rightarrow> exec_outcome \<times> 'w) \<Rightarrow>
   shell_tool \<Rightarrow> string \<Rightarrow> 'w \<Rightarrow> (tool_result \<times> string option) \<times> 'w" where
  "shell_invoke decode sh t raw w =
     (case decode raw of
        Inl e \<Rightarrow> ((empty_result, Some (''shell: parse args: '' @ e)), w)
      | Inr a \<Rightarrow>
          if trim_space (sa_command a) = []
          then ((empty_result, Some ''shell: command is required''), w)
          else (let (out, w') = sh a (shell_timeout t a) w
                in case exec_exit_code out of
                  Inl e \<Rightarrow> ((empty_result, Some e), w')
                | Inr code \<Rightarrow>
                    (let (body, clipped) = clamp_output t (ex_output out)
                     in ((\<lparr>res_output = ''exit='' @ itoa code @ [nl] @ body,
                           res_truncated = clipped, res_sensitive = False\<rparr>, None), w'))))"

definition shell_as_tool ::
  "(string \<Rightarrow> string + shell_args) \<Rightarrow> (shell_args \<Rightarrow> duration \<Rightarrow> 'w \<Rightarrow> exec_outcome \<times> 'w) \<Rightarrow>
   string \<Rightarrow> string \<Rightarrow> shell_tool \<Rightarrow> 'w tool" where
  "shell_as_tool decode sh desc schema t =
     \<lparr>tool_name = ''shell'', tool_description = desc, tool_schema = schema,
      tool_invoke = shell_invoke decode sh t\<rparr>"

lemma clamp_output_spec:
  "clamp_output t body = (b, clipped) \<Longrightarrow>
     (clipped \<longleftrightarrow> 0 < max_output_bytes t \<and> max_output_bytes t < int (length body)) \<and>
     (\<not> clipped \<longrightarrow> b = body) \<and>
     (0 < max_output_bytes t \<longrightarrow>
        int (length b) \<le> max_output_bytes t + int (length truncated_marker) \<and>
        take (nat (max_output_bytes t)) b = take (nat (max_output_bytes t)) body)"
  by (auto simp: clamp_output_def split: if_splits)

lemma shell_timeout_word:
  "0 < sa_timeout_seconds a \<Longrightarrow>
     shell_timeout t a = word_of_int (sa_timeout_seconds a * 1000000000)"
  by (simp add: shell_timeout_def)

subsection \<open>Remote tools\<close>

record remote_adapter =
  ra_client_name :: string
  ra_remote_name :: string
  ra_description :: string
  ra_schema :: string

definition new_remote_adapter :: "string \<Rightarrow> string \<Rightarrow> string \<Rightarrow> string \<Rightarrow> remote_adapter" where
  "new_remote_adapter client remote desc schema =
     \<lparr>ra_client_name = client, ra_remote_name = remote, ra_description = desc,
      ra_schema = (if schema = []
        then concat [''{'', quoted ''type'', '':'', quoted ''object'', '','',
                     quoted ''properties'', '':{}}'']
        else schema)\<rparr>"

definition adapter_name :: "remote_adapter \<Rightarrow> string" where
  "adapter_name a =
     (let pre = ra_client_name a @ ''_''
      in if ra_client_name a \<noteq> [] \<and> prefix pre (ra_remote_name a) then ra_remote_name a
         else ra_client_name a @ ''_'' @ ra_remote_name a)"

definition adapter_description :: "remote_adapter \<Rightarrow> string" where
  "adapter_description a =
     (if ra_description a = []
      then ''Remote MCP tool '' @ [CHR 0x27] @ ra_remote_name a @ [CHR 0x27] @
           '' from client '' @ [CHR 0x27] @ ra_client_name a @ [CHR 0x27] @ ''.''
      else ra_description a)"

text \<open>
  \<^verbatim>\<open>RemoteToolAdapter.Invoke\<close>. \<open>call remote args w\<close> is the owning MCP client's
  \<^verbatim>\<open>CallTool\<close>: an error, or the flattened text with the server's error flag.
\<close>

definition adapter_invoke ::
  "(string \<Rightarrow> string \<Rightarrow> 'w \<Rightarrow> (string + (string \<times> bool)) \<times> 'w) \<Rightarrow>
   remote_adapter \<Rightarrow> string \<Rightarrow> 'w \<Rightarrow> (tool_result \<times> string option) \<times> 'w" where
  "adapter_invoke call a args w =
     (case call (ra_remote_name a) args w of
        (Inl e, w') \<Rightarrow> ((empty_result, Some (''remote-tool '' @ adapter_name a @ '': '' @ e)), w')
      | (Inr (txt, is_err), w') \<Rightarrow>
          ((empty_result\<lparr>res_output := txt\<rparr>,
            if is_err then Some (''remote-tool '' @ adapter_name a @ '': '' @ txt) else None), w'))"

definition adapter_as_tool ::
  "(string \<Rightarrow> string \<Rightarrow> 'w \<Rightarrow> (string + (string \<times> bool)) \<times> 'w) \<Rightarrow> remote_adapter \<Rightarrow> 'w tool" where
  "adapter_as_tool call a =
     \<lparr>tool_name = adapter_name a, tool_description = adapter_description a,
      tool_schema = ra_schema a, tool_invoke = adapter_invoke call a\<rparr>"

lemma adapter_name_prefix: "prefix (ra_client_name a @ ''_'') (adapter_name a)"
  by (auto simp: adapter_name_def Let_def)

lemma adapter_name_not_Nil [simp]: "adapter_name a \<noteq> []"
  using adapter_name_prefix [of a] by auto

subsection \<open>Properties\<close>

text \<open>
  C18: the per-task allowlist. For a well-formed registry, \<open>Subset\<close> keeps the invariant and
  finds exactly the tools that the task allows (all of them for an empty allowlist), whatever
  unknown or repeated names the allowlist has.
\<close>

theorem subset_is_allowlist:
  assumes "reg_wf r"
  shows "reg_wf (reg_subset allow r) \<and>
    (\<forall>n. reg_get (reg_subset allow r) n =
       (if allow = [] \<or> n \<in> set allow then reg_get r n else None))"
  using assms by (simp add: reg_wf_subset reg_get_subset)

abbreviation echo_tool :: "string \<Rightarrow> nat tool" where
  "echo_tool n \<equiv> \<lparr>tool_name = n, tool_description = [], tool_schema = [],
     tool_invoke = (\<lambda>args w. ((empty_result\<lparr>res_output := args\<rparr>, None), Suc w))\<rparr>"

theorem subset_is_allowlist_witness:
  "reg_get (reg_subset [''b'', ''zz'', ''b''] [(''a'', echo_tool ''a''), (''b'', echo_tool ''b'')]) ''b''
     = Some (echo_tool ''b'') \<and>
   reg_get (reg_subset [''b'', ''zz'', ''b''] [(''a'', echo_tool ''a''), (''b'', echo_tool ''b'')]) ''a''
     = None"
proof -
  have wf: "reg_wf [(''a'', echo_tool ''a''), (''b'', echo_tool ''b'')]"
    by (simp add: reg_wf_def keyed_def)
  show ?thesis
    using subset_is_allowlist [OF wf, of "[''b'', ''zz'', ''b'']"] by (simp add: reg_get_def)
qed

text \<open>
  What the model is told equals what it can call. In a well-formed registry the listing is
  sorted by name without duplicates, a name can be dispatched exactly if it is listed, and two
  registries that dispatch alike are announced identically, however they were filled.
\<close>

lemma listing_matches_dispatch:
  assumes "reg_wf r"
  shows "sorted (map tool_name (reg_list r)) \<and> distinct (map tool_name (reg_list r)) \<and>
    reg_names r = map tool_name (reg_list r) \<and>
    (\<forall>n. reg_get r n \<noteq> None \<longleftrightarrow> n \<in> set (reg_names r)) \<and>
    (\<forall>r'. reg_wf r' \<longrightarrow> reg_get r' = reg_get r \<longrightarrow> reg_list r' = reg_list r)"
proof (intro conjI)
  show "\<forall>r'. reg_wf r' \<longrightarrow> reg_get r' = reg_get r \<longrightarrow> reg_list r' = reg_list r"
    using assms reg.listing_cong by blast
  show "\<forall>n. reg_get r n \<noteq> None \<longleftrightarrow> n \<in> set (reg_names r)"
    by (simp only: reg_names_eq [OF assms] set_map reg.dispatchable_iff_listed [OF assms] simp_thms)
qed (use assms in \<open>simp_all add: reg.listing_sorted reg.listing_distinct reg_names_eq\<close>)

lemma listing_matches_dispatch_witness:
  "reg_list [(''b'', echo_tool ''b''), (''a'', echo_tool ''a'')] =
   reg_list [(''a'', echo_tool ''a''), (''b'', echo_tool ''b'')]"
proof -
  let ?ab = "[(''a'', echo_tool ''a''), (''b'', echo_tool ''b'')]"
  let ?ba = "[(''b'', echo_tool ''b''), (''a'', echo_tool ''a'')]"
  have wf: "reg_wf ?ab" "reg_wf ?ba" by (simp_all add: reg_wf_def keyed_def)
  moreover have "reg_get ?ba = reg_get ?ab" by (rule ext) (simp add: reg_get_def)
  ultimately show ?thesis using listing_matches_dispatch [OF wf(1)] by blast
qed

text \<open>
  Local names of remote tools. The local name always begins with the client's name and an
  underscore, and two tools of one client get the same local name only if one remote name is
  the other with the client's prefix; that collision does happen, and the registry then keeps
  the first and refuses the second.
\<close>

lemma adapter_name_collision:
  assumes "ra_client_name a = ra_client_name b" and "ra_client_name a \<noteq> []"
  defines "pre \<equiv> ra_client_name a @ ''_''"
  shows "prefix pre (adapter_name a) \<and>
    (adapter_name a = adapter_name b \<longleftrightarrow>
       ra_remote_name a = ra_remote_name b \<or>
       (\<not> prefix pre (ra_remote_name a) \<and> ra_remote_name b = pre @ ra_remote_name a) \<or>
       (\<not> prefix pre (ra_remote_name b) \<and> ra_remote_name a = pre @ ra_remote_name b)) \<and>
    (adapter_name a = adapter_name b \<longrightarrow>
       (\<exists>r. reg_register (Some (adapter_as_tool call a)) new_registry = Inr r \<and>
            reg_register (Some (adapter_as_tool call b)) r
              = Inl (AlreadyRegistered (adapter_name b))))"
  using assms(1,2) unfolding pre_def
  by (auto simp: adapter_name_def Let_def reg_register_def new_registry_def adapter_as_tool_def)

lemma adapter_name_collision_witness:
  "adapter_name (new_remote_adapter ''zibby'' ''post'' [] ''{}'') =
   adapter_name (new_remote_adapter ''zibby'' ''zibby_post'' [] ''{}'')"
  using adapter_name_collision
    [of "new_remote_adapter ''zibby'' ''post'' [] ''{}''"
        "new_remote_adapter ''zibby'' ''zibby_post'' [] ''{}''" "\<lambda>_ _ w. (Inl [], w :: unit)"]
  by (simp add: new_remote_adapter_def)

text \<open>
  The shell tool's output is bounded. Whatever the command prints, a result of
  \<open>Invoke\<close> without error is the exit line followed by the first \<open>MaxOutputBytes\<close> bytes of
  the output, complete unless the result is marked truncated, and never more than the limit
  plus the marker; a blank command runs nothing and is an error.
\<close>

lemma shell_output_bounded:
  assumes "decode raw = Inr a" and "0 < max_output_bytes t"
  shows "(trim_space (sa_command a) = [] \<longrightarrow>
      shell_invoke decode sh t raw w = ((empty_result, Some ''shell: command is required''), w)) \<and>
    (\<forall>res w' out. shell_invoke decode sh t raw w = ((res, None), w') \<longrightarrow>
       sh a (shell_timeout t a) w = (out, w') \<longrightarrow>
       (\<exists>code body. res_output res = ''exit='' @ itoa code @ [nl] @ body \<and>
          (res_truncated res \<longleftrightarrow> max_output_bytes t < int (length (ex_output out))) \<and>
          (\<not> res_truncated res \<longrightarrow> body = ex_output out) \<and>
          int (length body) \<le> max_output_bytes t + int (length truncated_marker) \<and>
          take (nat (max_output_bytes t)) body = take (nat (max_output_bytes t)) (ex_output out)))"
proof (intro conjI allI impI)
  fix res w' out
  assume inv: "shell_invoke decode sh t raw w = ((res, None), w')"
    and run: "sh a (shell_timeout t a) w = (out, w')"
  obtain body clipped where c: "clamp_output t (ex_output out) = (body, clipped)" by fastforce
  from inv run assms(1) c obtain code where
    res: "res = \<lparr>res_output = ''exit='' @ itoa code @ [nl] @ body,
      res_truncated = clipped, res_sensitive = False\<rparr>"
    by (auto simp: shell_invoke_def Let_def split: if_splits sum.splits)
  show "\<exists>code body. res_output res = ''exit='' @ itoa code @ [nl] @ body \<and>
      (res_truncated res \<longleftrightarrow> max_output_bytes t < int (length (ex_output out))) \<and>
      (\<not> res_truncated res \<longrightarrow> body = ex_output out) \<and>
      int (length body) \<le> max_output_bytes t + int (length truncated_marker) \<and>
      take (nat (max_output_bytes t)) body = take (nat (max_output_bytes t)) (ex_output out)"
    using clamp_output_spec [OF c] assms(2) by (intro exI [of _ code] exI [of _ body]) (simp add: res)
qed (simp add: shell_invoke_def assms(1))

abbreviation ls_args :: shell_args where
  "ls_args \<equiv> \<lparr>sa_command = ''ls'', sa_cwd = [], sa_timeout_seconds = 0\<rparr>"

lemma shell_output_bounded_witness:
  "\<exists>code body. res_output (fst (fst (shell_invoke (\<lambda>_. Inr ls_args)
       (\<lambda>_ _ w. (\<lparr>ex_error = None, ex_output = ''abcdef'', ex_deadline = False\<rparr>, w))
       \<lparr>max_output_bytes = 4, default_timeout = second\<rparr> [] ()))) = ''exit='' @ itoa code @ [nl] @ body \<and>
     take 4 body = ''abcd''"
proof -
  let ?t = "\<lparr>max_output_bytes = 4, default_timeout = second\<rparr>"
  let ?sh = "\<lambda>(_ :: shell_args) (_ :: duration) (w :: unit).
    (\<lparr>ex_error = None, ex_output = ''abcdef'', ex_deadline = False\<rparr>, w)"
  have eq: "shell_invoke (\<lambda>_. Inr ls_args) ?sh ?t [] () =
      ((\<lparr>res_output = ''exit='' @ itoa 0 @ [nl] @ ''abcd'' @ truncated_marker,
         res_truncated = True, res_sensitive = False\<rparr>, None), ())"
    by (simp add: shell_invoke_def trim_space_def trim_left_def trim_right_def is_space_def
        exec_exit_code_def clamp_output_def)
  from shell_output_bounded [of "\<lambda>_. Inr ls_args" "[]" ls_args ?t ?sh "()"] eq
  show ?thesis by simp blast
qed

text \<open>
  The shell deadline on machine integers. A requested timeout up to 9223372036 seconds is
  honoured exactly; the product wraps beyond, and one second more gives a negative deadline, so
  the command is killed at once. The schema's maximum of 1800 lies inside the exact range but
  is not enforced.
\<close>

lemma shell_timeout_range:
  "(0 < sa_timeout_seconds a \<and> sa_timeout_seconds a \<le> 9223372036 \<longrightarrow>
      sint (shell_timeout t a) = sa_timeout_seconds a * 1000000000) \<and>
   sint (shell_timeout t (a\<lparr>sa_timeout_seconds := 9223372037\<rparr>)) < 0 \<and>
   (sa_timeout_seconds a \<le> 0 \<longrightarrow> shell_timeout t a = default_timeout t)"
proof (intro conjI impI)
  assume "0 < sa_timeout_seconds a \<and> sa_timeout_seconds a \<le> 9223372036"
  then show "sint (shell_timeout t a) = sa_timeout_seconds a * 1000000000"
    by (simp only: shell_timeout_word) (rule sint_of_int_range; simp)
qed (simp_all add: shell_timeout_def)

lemma shell_timeout_range_witness:
  "sint (shell_timeout new_shell_tool (ls_args\<lparr>sa_timeout_seconds := 1800\<rparr>)) = 1800000000000"
  using shell_timeout_range [of "ls_args\<lparr>sa_timeout_seconds := 1800\<rparr>" new_shell_tool] by simp

end
