(* ===== verification/Drivers.thy ===== *)
theory Drivers
  imports ToolReg
begin

text \<open>
  \<^verbatim>\<open>internal/driver/driver.go\<close>, the interface of the LLM back ends, and
  \<^verbatim>\<open>internal/driver/claude/claude.go\<close>, the agent loop over the Messages API. Everything
  outside the process (the HTTP server, the tools' effects, the run log) acts on a world of any
  type \<open>'w\<close>; the JSON codec and the HTTP client are the fields of \<open>claude_net\<close>.
\<close>

subsection \<open>The driver interface\<close>

type_synonym 'w log_sink = "string \<Rightarrow> string \<Rightarrow> 'w \<Rightarrow> 'w"

record 'w driver_request =
  rq_system_prompt :: string
  rq_user_prompt :: string
  rq_tools :: "'w registry option"
  rq_max_tool_calls :: int
  rq_model :: string
  rq_log_sink :: "'w log_sink option"

record driver_result =
  dr_final_message :: string
  dr_tool_calls :: int
  dr_cost_usd_micro :: int
  dr_error :: string

abbreviation empty_driver_result :: driver_result where
  "empty_driver_result \<equiv>
     \<lparr>dr_final_message = [], dr_tool_calls = 0, dr_cost_usd_micro = 0, dr_error = []\<rparr>"

text \<open>\<^verbatim>\<open>Result, error\<close> as returned by \<^verbatim>\<open>Run\<close>; \<open>None\<close> is a panic.\<close>

type_synonym driver_outcome = "(driver_result \<times> string option) option"

text \<open>
  \<^verbatim>\<open>if req.LogSink != nil { _ = req.LogSink.Log(...) }\<close>: the sink's error is ignored.
\<close>

definition log_line :: "'w log_sink option \<Rightarrow> string \<Rightarrow> string \<Rightarrow> 'w \<Rightarrow> 'w" where
  "log_line sink level message w = (case sink of None \<Rightarrow> w | Some log \<Rightarrow> log level message w)"

lemma log_line_None [simp]: "log_line None lv m w = w"
  by (simp add: log_line_def)

subsection \<open>Wire types\<close>

record claude_content =
  cc_type :: string
  cc_text :: string
  cc_id :: string
  cc_name :: string
  cc_input :: string
  cc_tool_use_id :: string
  cc_content :: string
  cc_is_error :: bool

abbreviation empty_content :: claude_content where
  "empty_content \<equiv> \<lparr>cc_type = [], cc_text = [], cc_id = [], cc_name = [], cc_input = [],
     cc_tool_use_id = [], cc_content = [], cc_is_error = False\<rparr>"

record claude_message =
  cm_role :: string
  cm_content :: "claude_content list"

record claude_tool =
  ct_name :: string
  ct_description :: string
  ct_input_schema :: string

record claude_request =
  cr_model :: string
  cr_max_tokens :: int
  cr_system :: string
  cr_messages :: "claude_message list"
  cr_tools :: "claude_tool list"

record claude_response =
  cp_stop_reason :: string
  cp_content :: "claude_content list"

record claude_tool_use =
  tu_id :: string
  tu_name :: string
  tu_input :: string

record http_reply =
  hr_status_code :: int
  hr_status :: string
  hr_body :: string

text \<open>
  The codec and the transport: \<^verbatim>\<open>json.Marshal\<close>, \<^verbatim>\<open>http.NewRequestWithContext\<close> (its
  error), \<^verbatim>\<open>httpc.Do\<close> with \<^verbatim>\<open>io.ReadAll\<close> (URL, headers, body) and
  \<^verbatim>\<open>json.Unmarshal\<close>.
\<close>

record 'w claude_net =
  net_marshal :: "claude_request \<Rightarrow> string + string"
  net_new_request :: "string \<Rightarrow> string option"
  net_do :: "string \<Rightarrow> (string \<times> string) list \<Rightarrow> string \<Rightarrow> 'w \<Rightarrow> (string + http_reply) \<times> 'w"
  net_unmarshal :: "string \<Rightarrow> string + claude_response"

record claude_driver =
  cd_api_key :: string
  cd_model :: string
  cd_base_url :: string
  cd_max_output_tokens :: int

subsection \<open>The agent loop\<close>

definition claude_tool_specs :: "'w registry option \<Rightarrow> claude_tool list" where
  "claude_tool_specs r =
     (case r of
        None \<Rightarrow> []
      | Some r \<Rightarrow> map (\<lambda>t. \<lparr>ct_name = tool_name t, ct_description = tool_description t,
                           ct_input_schema = tool_schema t\<rparr>) (reg_list r))"

text \<open>The text and the tool uses of a reply, in order.\<close>

fun scan_content :: "claude_content list \<Rightarrow> string \<times> claude_tool_use list" where
  "scan_content [] = ([], [])"
| "scan_content (c # cs) =
     (let (txt, tus) = scan_content cs
      in if cc_type c = ''text'' then (cc_text c @ txt, tus)
         else if cc_type c = ''tool_use''
         then (txt, \<lparr>tu_id = cc_id c, tu_name = cc_name c, tu_input = cc_input c\<rparr> # tus)
         else (txt, tus))"

definition run_tool ::
  "'w registry \<Rightarrow> 'w log_sink option \<Rightarrow> claude_tool_use \<Rightarrow> 'w \<Rightarrow> claude_content \<times> 'w" where
  "run_tool tools sink tu w =
     (let reply = empty_content\<lparr>cc_type := ''tool_result'', cc_tool_use_id := tu_id tu\<rparr>
      in case reg_get tools (tu_name tu) of
           None \<Rightarrow>
             (reply\<lparr>cc_content := ''error: tool '' @ quoted (tu_name tu) @
                       '' is not registered or not allowed for this task'',
                     cc_is_error := True\<rparr>,
              log_line sink ''error'' (''tool '' @ quoted (tu_name tu) @ '' not allowed'') w)
         | Some t \<Rightarrow>
             (let w1 = log_line sink ''tool''
                         (''invoke '' @ tu_name tu @ '' args='' @ truncate_str (tu_input tu) 400) w
              in case tool_invoke t (tu_input tu) w1 of
                   ((res, Some err), w2) \<Rightarrow>
                     (reply\<lparr>cc_content := ''error: '' @ err, cc_is_error := True\<rparr>,
                      log_line sink ''error'' (''tool '' @ tu_name tu @ '' failed: '' @ err) w2)
                 | ((res, None), w2) \<Rightarrow>
                     (reply\<lparr>cc_content := res_output res\<rparr>,
                      log_line sink ''tool-result''
                        (truncate_str (if res_sensitive res then ''[sensitive output redacted]''
                                   else res_output res) 1000) w2)))"

fun run_tools ::
  "'w registry \<Rightarrow> 'w log_sink option \<Rightarrow> claude_tool_use list \<Rightarrow> 'w \<Rightarrow> claude_content list \<times> 'w" where
  "run_tools tools sink [] w = ([], w)"
| "run_tools tools sink (tu # tus) w =
     (let (c, w1) = run_tool tools sink tu w; (cs, w2) = run_tools tools sink tus w1
      in (c # cs, w2))"

text \<open>
  One HTTP round trip: an error message of \<^verbatim>\<open>Run\<close>, or the decoded reply.
\<close>

definition exchange ::
  "'w claude_net \<Rightarrow> string \<Rightarrow> string \<Rightarrow> claude_request \<Rightarrow> 'w \<Rightarrow> (string + claude_response) \<times> 'w" where
  "exchange net key base body w =
     (case net_marshal net body of
        Inl e \<Rightarrow> (Inl (''claude: marshal request: '' @ e), w)
      | Inr buf \<Rightarrow>
          (case net_new_request net (base @ ''/v1/messages'') of
             Some e \<Rightarrow> (Inl e, w)
           | None \<Rightarrow>
               (case net_do net (base @ ''/v1/messages'')
                       [(''Content-Type'', ''application/json''),
                        (''anthropic-version'', ''2023-06-01''), (''x-api-key'', key)] buf w of
                  (Inl e, w1) \<Rightarrow> (Inl (''claude: http: '' @ e), w1)
                | (Inr resp, w1) \<Rightarrow>
                    if hr_status_code resp div 100 \<noteq> 2
                    then (Inl (''claude: '' @ itoa (hr_status_code resp) @ '' '' @ hr_status resp @
                               '': '' @ truncate_str (hr_body resp) 400), w1)
                    else case net_unmarshal net (hr_body resp) of
                      Inl e \<Rightarrow> (Inl (''claude: parse response: '' @ e), w1)
                    | Inr msg \<Rightarrow> (Inr msg, w1))))"

text \<open>
  \<open>claude_loop net drv req model base maxout tools left iter messages calls w\<close> is the loop of
  \<^verbatim>\<open>Run\<close> at iteration \<open>iter\<close> with \<open>left\<close> iterations to go; \<open>calls\<close> is
  \<^verbatim>\<open>out.ToolCalls\<close>. A tool call on a nil registry dereferences it: \<open>None\<close>.
\<close>

fun claude_loop ::
  "'w claude_net \<Rightarrow> string \<Rightarrow> 'w driver_request \<Rightarrow> string \<Rightarrow> string \<Rightarrow> int \<Rightarrow>
   nat \<Rightarrow> nat \<Rightarrow> claude_message list \<Rightarrow> int \<Rightarrow> 'w \<Rightarrow> driver_outcome \<times> 'w" where
  "claude_loop net key req model base maxout 0 iter messages calls w =
     (Some (empty_driver_result
        \<lparr>dr_tool_calls := calls,
         dr_error := ''max_tool_calls ('' @ itoa (int iter) @
                     '') reached before assistant emitted a final answer''\<rparr>, None), w)"
| "claude_loop net key req model base maxout (Suc left) iter messages calls w =
     (case exchange net key base
             \<lparr>cr_model = model, cr_max_tokens = maxout, cr_system = rq_system_prompt req,
              cr_messages = messages, cr_tools = claude_tool_specs (rq_tools req)\<rparr> w of
        (Inl e, w1) \<Rightarrow> (Some (empty_driver_result\<lparr>dr_tool_calls := calls\<rparr>, Some e), w1)
      | (Inr msg, w1) \<Rightarrow>
          (let (txt, tus) = scan_content (cp_content msg);
               messages' = messages @ [\<lparr>cm_role = ''assistant'', cm_content = cp_content msg\<rparr>]
           in if tus = []
              then (Some (empty_driver_result
                      \<lparr>dr_final_message := txt, dr_tool_calls := int iter\<rparr>, None), w1)
              else
                (let w2 = log_line (rq_log_sink req) ''assistant'' (truncate_str txt 1000) w1
                 in case rq_tools req of
                      None \<Rightarrow> (None, w2)
                    | Some r \<Rightarrow>
                        (let (results, w3) = run_tools r (rq_log_sink req) tus w2;
                             calls' = calls + int (length tus);
                             messages'' = messages' @ [\<lparr>cm_role = ''user'', cm_content = results\<rparr>]
                         in if cp_stop_reason msg = ''end_turn''
                            then (Some (empty_driver_result
                                    \<lparr>dr_final_message := txt, dr_tool_calls := calls'\<rparr>, None), w3)
                            else claude_loop net key req model base maxout left (Suc iter)
                                   messages'' calls' w3))))"

definition effective_max_iter :: "'w driver_request \<Rightarrow> nat" where
  "effective_max_iter req =
     (if rq_max_tool_calls req \<le> 0 then 25 else nat (rq_max_tool_calls req))"

definition effective_model :: "claude_driver \<Rightarrow> 'w driver_request \<Rightarrow> string" where
  "effective_model d req = (if rq_model req \<noteq> [] then rq_model req else cd_model d)"

definition effective_base :: "claude_driver \<Rightarrow> string" where
  "effective_base d =
     (if cd_base_url d = [] then ''https://api.anthropic.com'' else cd_base_url d)"

definition effective_max_tokens :: "claude_driver \<Rightarrow> int" where
  "effective_max_tokens d = (if cd_max_output_tokens d = 0 then 4096 else cd_max_output_tokens d)"

definition first_message :: "'w driver_request \<Rightarrow> claude_message" where
  "first_message req =
     \<lparr>cm_role = ''user'',
      cm_content = [empty_content\<lparr>cc_type := ''text'', cc_text := rq_user_prompt req\<rparr>]\<rparr>"

definition claude_run ::
  "'w claude_net \<Rightarrow> claude_driver \<Rightarrow> 'w driver_request \<Rightarrow> 'w \<Rightarrow> driver_outcome \<times> 'w" where
  "claude_run net d req w =
     (if cd_api_key d = []
      then (Some (empty_driver_result, Some ''claude: APIKey is empty''), w)
      else if effective_model d req = []
      then (Some (empty_driver_result,
              Some ''claude: Model is empty (set agent.model or per-task model)''), w)
      else claude_loop net (cd_api_key d) req (effective_model d req) (effective_base d)
             (effective_max_tokens d) (effective_max_iter req) 0 [first_message req] 0 w)"

subsection \<open>The conversation protocol\<close>

definition tool_use_ids :: "claude_content list \<Rightarrow> string list" where
  "tool_use_ids cs = map cc_id (filter (\<lambda>c. cc_type c = ''tool_use'') cs)"

text \<open>
  What the Messages API demands of the turns after the first: each assistant turn that uses
  tools is followed by one user turn with exactly one result per use, in the order of the uses.
\<close>

fun turns_ok :: "claude_message list \<Rightarrow> bool" where
  "turns_ok [] = True"
| "turns_ok [a] = False"
| "turns_ok (a # u # rest) =
     (cm_role a = ''assistant'' \<and> cm_role u = ''user'' \<and> tool_use_ids (cm_content a) \<noteq> [] \<and>
      map cc_tool_use_id (cm_content u) = tool_use_ids (cm_content a) \<and>
      (\<forall>c \<in> set (cm_content u). cc_type c = ''tool_result'') \<and> turns_ok rest)"

lemma turns_ok_append: "turns_ok xs \<Longrightarrow> turns_ok (xs @ ys) = turns_ok ys"
  by (induction xs rule: turns_ok.induct) auto

lemma scan_content_uses: "scan_content cs = (said, tus) \<Longrightarrow> map tu_id tus = tool_use_ids cs"
  by (induction cs arbitrary: said tus) (auto simp: tool_use_ids_def split: prod.splits if_splits)

lemma scan_content_text:
  "fst (scan_content cs) = concat (map cc_text (filter (\<lambda>c. cc_type c = ''text'') cs))"
  by (induction cs) (auto split: prod.splits)

lemma run_tool_reply:
  "cc_tool_use_id (fst (run_tool r sink tu w)) = tu_id tu \<and>
   cc_type (fst (run_tool r sink tu w)) = ''tool_result''"
  by (auto simp: run_tool_def Let_def split: option.splits prod.splits)

lemma run_tools_replies:
  "map cc_tool_use_id (fst (run_tools r sink tus w)) = map tu_id tus \<and>
   (\<forall>c \<in> set (fst (run_tools r sink tus w)). cc_type c = ''tool_result'')"
  by (induction tus arbitrary: w) (simp_all add: split_beta run_tool_reply)

lemma run_tool_frame:
  assumes "Q w" and "\<And>lv m w. Q w \<Longrightarrow> Q (log_line sink lv m w)"
    and "\<And>t args w. reg_get r (tu_name tu) = Some t \<Longrightarrow> Q w \<Longrightarrow> Q (snd (tool_invoke t args w))"
  shows "Q (snd (run_tool r sink tu w))"
proof (cases "reg_get r (tu_name tu)")
  case None
  then show ?thesis by (simp add: run_tool_def assms)
next
  case (Some t)
  let ?w1 = "log_line sink ''tool''
    (''invoke '' @ tu_name tu @ '' args='' @ truncate_str (tu_input tu) 400) w"
  obtain res err w2 where inv: "tool_invoke t (tu_input tu) ?w1 = ((res, err), w2)"
    by (metis prod.collapse)
  have "Q w2"
    using assms(3) [OF Some assms(2) [OF assms(1)]] inv by (metis snd_conv)
  with Some inv show ?thesis
    by (simp add: run_tool_def Let_def assms(2) split: option.split)
qed

lemma run_tools_frame:
  assumes "Q w" and "\<And>lv m w. Q w \<Longrightarrow> Q (log_line sink lv m w)"
    and "\<And>n t args w. reg_get r n = Some t \<Longrightarrow> Q w \<Longrightarrow> Q (snd (tool_invoke t args w))"
  shows "Q (snd (run_tools r sink tus w))"
  using assms(1)
proof (induction tus arbitrary: w)
  case (Cons tu tus)
  then have "Q (snd (run_tool r sink tu w))" using assms by (blast intro: run_tool_frame)
  with Cons.IH [OF this] show ?case by (simp add: split_beta)
qed simp

text \<open>
  The request of turn \<open>i\<close> of a run, as the server sees it.
\<close>

definition turn_request ::
  "claude_driver \<Rightarrow> 'w driver_request \<Rightarrow> nat \<Rightarrow> claude_request \<Rightarrow> bool" where
  "turn_request d req i body \<longleftrightarrow>
     cr_model body = effective_model d req \<and> cr_system body = rq_system_prompt req \<and>
     cr_tools body = claude_tool_specs (rq_tools req) \<and>
     (\<exists>ms. cr_messages body = first_message req # ms \<and> turns_ok ms \<and> length ms = 2 * i)"

definition exchange_keeps ::
  "'w claude_net \<Rightarrow> (nat \<Rightarrow> claude_request \<Rightarrow> bool) \<Rightarrow> (nat \<Rightarrow> 'w \<Rightarrow> bool) \<Rightarrow> nat \<Rightarrow> bool" where
  "exchange_keeps net R Q n \<longleftrightarrow>
     (\<forall>i body buf url hs w. i < n \<longrightarrow> R i body \<longrightarrow> net_marshal net body = Inr buf \<longrightarrow> Q i w \<longrightarrow>
        Q (Suc i) (snd (net_do net url hs buf w)))"

lemma exchange_frame:
  assumes "exchange_keeps net R Q n" and "i < n" and "R i body" and "Q i w"
  shows "Q i (snd (exchange net key base body w)) \<or> Q (Suc i) (snd (exchange net key base body w))"
    and "fst (exchange net key base body w) = Inr msg \<Longrightarrow> Q (Suc i) (snd (exchange net key base body w))"
proof -
  have "net_marshal net body = Inr buf \<Longrightarrow> net_do net url hs buf w = (v, w1) \<Longrightarrow> Q (Suc i) w1"
    for buf url hs v w1
    using assms unfolding exchange_keeps_def by (metis snd_conv)
  then show "Q i (snd (exchange net key base body w)) \<or> Q (Suc i) (snd (exchange net key base body w))"
    and "fst (exchange net key base body w) = Inr msg \<Longrightarrow> Q (Suc i) (snd (exchange net key base body w))"
    using assms(4) by (auto simp: exchange_def split: sum.splits option.splits prod.splits)
qed

lemma claude_loop_frame:
  fixes req :: "'w driver_request"
  assumes ex: "exchange_keeps net (turn_request d req) Q n"
    and tools: "rq_tools req = Some r"
    and logs: "\<And>i lv m w. Q i w \<Longrightarrow> Q i (log_line (rq_log_sink req) lv m w)"
    and inv: "\<And>i m t args w. reg_get r m = Some t \<Longrightarrow> Q i w \<Longrightarrow> Q i (snd (tool_invoke t args w))"
  shows "left + i = n \<Longrightarrow> Q i w \<Longrightarrow> turns_ok ms \<Longrightarrow> length ms = 2 * i \<Longrightarrow>
    \<exists>k \<le> n. Q k (snd (claude_loop net key req (effective_model d req) base mx left i
      (first_message req # ms) calls w))"
proof (induction left arbitrary: i w ms calls)
  case 0
  then show ?case by auto
next
  case (Suc left)
  define body where "body = \<lparr>cr_model = effective_model d req, cr_max_tokens = mx,
    cr_system = rq_system_prompt req, cr_messages = first_message req # ms,
    cr_tools = claude_tool_specs (rq_tools req)\<rparr>"
  have R: "turn_request d req i body"
    using Suc.prems by (simp add: turn_request_def body_def)
  have i: "i < n" using Suc.prems by simp
  obtain v w1 where xw: "exchange net key base body w = (v, w1)" by fastforce
  note keep = exchange_frame [OF ex i R Suc.prems(2), of key base, unfolded xw, simplified]
  show ?case
  proof (cases v)
    case (Inl e)
    then show ?thesis using keep(1) xw i
      by (auto simp: body_def intro: exI [of _ i] exI [of _ "Suc i"])
  next
    case (Inr msg)
    then have Q1: "Q (Suc i) w1" using keep(2) by simp
    obtain said tus where sc: "scan_content (cp_content msg) = (said, tus)" by fastforce
    define w2 where "w2 = log_line (rq_log_sink req) ''assistant'' (truncate_str said 1000) w1"
    have Q2: "Q (Suc i) w2" unfolding w2_def by (rule logs) (rule Q1)
    obtain results w3 where rt: "run_tools r (rq_log_sink req) tus w2 = (results, w3)" by fastforce
    have Q3: "Q (Suc i) w3"
      using run_tools_frame [of "Q (Suc i)" w2 "rq_log_sink req" r tus] Q2 logs inv rt by auto
    have ok: "turns_ok (ms @ [\<lparr>cm_role = ''assistant'', cm_content = cp_content msg\<rparr>,
        \<lparr>cm_role = ''user'', cm_content = results\<rparr>])" if "tus \<noteq> []"
      using that scan_content_uses [OF sc] run_tools_replies [of r "rq_log_sink req" tus w2] rt
        turns_ok_append [OF Suc.prems(3)] by auto
    show ?thesis
    proof (cases "tus = [] \<or> cp_stop_reason msg = ''end_turn''")
      case True
      have "Q (Suc i) w1" "Q (Suc i) w3" "Suc i \<le> n" using Q1 Q3 i by auto
      with True Inr xw sc rt show ?thesis
        by (auto simp: body_def w2_def [symmetric] tools Let_def)
    next
      case False
      have "\<exists>k \<le> n. Q k (snd (claude_loop net key req (effective_model d req) base mx left (Suc i)
          (first_message req # ms @ [\<lparr>cm_role = ''assistant'', cm_content = cp_content msg\<rparr>,
             \<lparr>cm_role = ''user'', cm_content = results\<rparr>]) (calls + int (length tus)) w3))"
        by (rule Suc.IH) (use Suc.prems Q3 ok False in auto)
      with False Inr xw sc rt show ?thesis
        by (simp add: body_def w2_def [symmetric] tools Let_def)
    qed
  qed
qed

subsection \<open>Runs against a server that answers\<close>

definition tool_uses :: "claude_response \<Rightarrow> nat" where
  "tool_uses m = length (snd (scan_content (cp_content m)))"

text \<open>
  \<open>script w\<close> are the replies still to come; every exchange takes one, and neither tools nor
  the log touch them.
\<close>

definition serves :: "'w claude_net \<Rightarrow> ('w \<Rightarrow> claude_response list) \<Rightarrow> bool" where
  "serves net script \<longleftrightarrow>
     (\<forall>body. \<exists>buf. net_marshal net body = Inr buf) \<and> (\<forall>url. net_new_request net url = None) \<and>
     (\<forall>url hs buf w m ms. script w = m # ms \<longrightarrow>
        (\<exists>resp w'. net_do net url hs buf w = (Inr resp, w') \<and> hr_status_code resp div 100 = 2 \<and>
           net_unmarshal net (hr_body resp) = Inr m \<and> script w' = ms))"

definition keeps_script :: "'w registry \<Rightarrow> 'w log_sink option \<Rightarrow> ('w \<Rightarrow> 's) \<Rightarrow> bool" where
  "keeps_script r sink script \<longleftrightarrow>
     (\<forall>lv m w. script (log_line sink lv m w) = script w) \<and>
     (\<forall>n t args w. reg_get r n = Some t \<longrightarrow> script (snd (tool_invoke t args w)) = script w)"

lemma exchange_served:
  assumes "serves net script" and "script w = m # ms"
  obtains w1 where "exchange net key base body w = (Inr m, w1)" and "script w1 = ms"
proof -
  obtain buf where b: "net_marshal net body = Inr buf" using assms(1) unfolding serves_def by blast
  let ?url = "base @ ''/v1/messages''"
  let ?hs = "[(''Content-Type'', ''application/json''), (''anthropic-version'', ''2023-06-01''),
    (''x-api-key'', key)]"
  obtain resp w' where "net_do net ?url ?hs buf w = (Inr resp, w')"
    "hr_status_code resp div 100 = 2" "net_unmarshal net (hr_body resp) = Inr m" "script w' = ms"
    using assms unfolding serves_def by metis
  with b assms(1) that show thesis by (simp add: exchange_def serves_def)
qed

lemma keeps_script_log: "keeps_script r sink script \<Longrightarrow> script (log_line sink lv m w) = script w"
  by (simp add: keeps_script_def)

lemma run_tools_script:
  "keeps_script r sink script \<Longrightarrow> script (snd (run_tools r sink tus w)) = script w"
  by (rule run_tools_frame [of "\<lambda>w'. script w' = script w"]) (auto simp: keeps_script_def)

lemma claude_loop_step:
  assumes "serves net script" and "keeps_script r (rq_log_sink req) script"
    and "rq_tools req = Some r" and "script w = m # ms" and "tool_uses m \<noteq> 0"
  obtains msgs' w' where "script w' = ms" and
    "claude_loop net key req model base mx (Suc left) i msgs calls w =
       (if cp_stop_reason m = ''end_turn''
        then (Some (empty_driver_result\<lparr>dr_final_message := fst (scan_content (cp_content m)),
                dr_tool_calls := calls + int (tool_uses m)\<rparr>, None), w')
        else claude_loop net key req model base mx left (Suc i) msgs' (calls + int (tool_uses m)) w')"
proof -
  obtain w1 where x: "exchange net key base
      \<lparr>cr_model = model, cr_max_tokens = mx, cr_system = rq_system_prompt req,
       cr_messages = msgs, cr_tools = claude_tool_specs (rq_tools req)\<rparr> w = (Inr m, w1)"
      and s1: "script w1 = ms"
    by (rule exchange_served [OF assms(1,4)])
  obtain said tus where sc: "scan_content (cp_content m) = (said, tus)" by fastforce
  then have tus: "tus \<noteq> []" using assms(5) by (simp add: tool_uses_def)
  define w2 where "w2 = log_line (rq_log_sink req) ''assistant'' (truncate_str said 1000) w1"
  obtain results w3 where rt: "run_tools r (rq_log_sink req) tus w2 = (results, w3)" by fastforce
  have "script w3 = ms"
    using run_tools_script [OF assms(2), of tus w2] rt s1
    by (simp add: w2_def keeps_script_log [OF assms(2)])
  moreover have "claude_loop net key req model base mx (Suc left) i msgs calls w =
       (if cp_stop_reason m = ''end_turn''
        then (Some (empty_driver_result\<lparr>dr_final_message := fst (scan_content (cp_content m)),
                dr_tool_calls := calls + int (tool_uses m)\<rparr>, None), w3)
        else claude_loop net key req model base mx left (Suc i)
               ((msgs @ [\<lparr>cm_role = ''assistant'', cm_content = cp_content m\<rparr>]) @
                 [\<lparr>cm_role = ''user'', cm_content = results\<rparr>])
               (calls + int (tool_uses m)) w3)"
    using x tus rt sc by (simp add: Let_def w2_def [symmetric] tool_uses_def assms(3))
  ultimately show thesis by (rule that)
qed

lemma claude_loop_done:
  assumes "serves net script" and "script w = m # ms" and "tool_uses m = 0"
  obtains w' where "script w' = ms" and
    "claude_loop net key req model base mx (Suc left) i msgs calls w =
       (Some (empty_driver_result\<lparr>dr_final_message := fst (scan_content (cp_content m)),
          dr_tool_calls := int i\<rparr>, None), w')"
proof -
  obtain w1 where x: "exchange net key base
      \<lparr>cr_model = model, cr_max_tokens = mx, cr_system = rq_system_prompt req,
       cr_messages = msgs, cr_tools = claude_tool_specs (rq_tools req)\<rparr> w = (Inr m, w1)"
      and s1: "script w1 = ms"
    by (rule exchange_served [OF assms(1,2)])
  show thesis by (rule that [of w1]) (use x s1 assms(3) in \<open>simp_all add: split_beta tool_uses_def\<close>)
qed

lemma claude_loop_script:
  assumes "serves net script" and "keeps_script r (rq_log_sink req) script"
    and "rq_tools req = Some r"
  shows "script w = ms @ ms' \<Longrightarrow>
    (\<And>m. m \<in> set ms \<Longrightarrow> tool_uses m \<noteq> 0 \<and> cp_stop_reason m \<noteq> ''end_turn'') \<Longrightarrow>
    \<exists>msgs' w'. script w' = ms' \<and>
      claude_loop net key req model base mx (length ms + left) i msgs calls w =
      claude_loop net key req model base mx left (i + length ms) msgs'
        (calls + int (sum_list (map tool_uses ms))) w'"
proof (induction ms arbitrary: i msgs calls w)
  case Nil
  then show ?case by auto
next
  case (Cons m ms)
  have m: "tool_uses m \<noteq> 0" "cp_stop_reason m \<noteq> ''end_turn''" using Cons.prems(2) [of m] by auto
  obtain msgs1 w1 where s1: "script w1 = ms @ ms'" and
    step: "claude_loop net key req model base mx (Suc (length ms + left)) i msgs calls w =
      claude_loop net key req model base mx (length ms + left) (Suc i) msgs1
        (calls + int (tool_uses m)) w1"
    using claude_loop_step [OF assms, of w m "ms @ ms'" key model base mx "length ms + left" i msgs calls]
      Cons.prems(1) m by (metis append_Cons)
  obtain msgs2 w2 where "script w2 = ms'" and
    "claude_loop net key req model base mx (length ms + left) (Suc i) msgs1
        (calls + int (tool_uses m)) w1 =
      claude_loop net key req model base mx left (Suc i + length ms) msgs2
        (calls + int (tool_uses m) + int (sum_list (map tool_uses ms))) w2"
    using Cons.IH [OF s1, of "Suc i" msgs1 "calls + int (tool_uses m)"] Cons.prems(2) by auto
  with step show ?case by (auto simp: algebra_simps)
qed

lemma claude_run_loop:
  "cd_api_key d \<noteq> [] \<Longrightarrow> effective_model d req \<noteq> [] \<Longrightarrow>
     claude_run net d req w =
       claude_loop net (cd_api_key d) req (effective_model d req) (effective_base d)
         (effective_max_tokens d) (effective_max_iter req) 0 [first_message req] 0 w"
  by (simp add: claude_run_def)

lemma effective_max_iter_pos [simp]: "0 < effective_max_iter req"
  by (simp add: effective_max_iter_def)

subsection \<open>Properties\<close>

text \<open>
  C3: what a run can do to the world. Take any family \<open>Q i\<close> of world invariants, where
  turn \<open>i\<close> of the HTTP exchange moves from \<open>Q i\<close> to \<open>Q (Suc i)\<close> for requests that keep
  the Messages protocol (the user's prompt first, then every assistant turn with tool uses
  answered by one result per use in order, the model and the tool list of the run), and
  which the tools of the allowlist and the log sink preserve. Then the run ends in
  \<open>Q k\<close> for some \<open>k\<close> up to the iteration limit: it sends no other request, never more
  than the limit, and invokes no tool outside the registry it was given.
\<close>

theorem claude_run_frame:
  assumes "rq_tools req = Some r" and "Q 0 w"
    and "exchange_keeps net (turn_request d req) Q (effective_max_iter req)"
    and "\<And>i lv m w. Q i w \<Longrightarrow> Q i (log_line (rq_log_sink req) lv m w)"
    and "\<And>i n t args w. reg_get r n = Some t \<Longrightarrow> Q i w \<Longrightarrow> Q i (snd (tool_invoke t args w))"
  shows "\<exists>k \<le> effective_max_iter req. Q k (snd (claude_run net d req w))"
proof (cases "cd_api_key d = [] \<or> effective_model d req = []")
  case True
  with assms(2) show ?thesis by (auto simp: claude_run_def)
next
  case False
  then have "cd_api_key d \<noteq> []" "effective_model d req \<noteq> []" by simp_all
  then show ?thesis
    unfolding claude_run_loop [OF \<open>cd_api_key d \<noteq> []\<close> \<open>effective_model d req \<noteq> []\<close>]
    by (intro claude_loop_frame [OF assms(3,1,4,5)]) (use assms(2) in simp_all)
qed

abbreviation count_driver :: claude_driver where
  "count_driver \<equiv> \<lparr>cd_api_key = ''k'', cd_model = ''m'', cd_base_url = [], cd_max_output_tokens = 0\<rparr>"

abbreviation count_request :: "int \<Rightarrow> (nat \<times> nat) driver_request" where
  "count_request n \<equiv> \<lparr>rq_system_prompt = ''s'', rq_user_prompt = ''hi'',
     rq_tools = Some [(''echo'', \<lparr>tool_name = ''echo'', tool_description = [], tool_schema = [],
        tool_invoke = (\<lambda>args (a, b). ((empty_result\<lparr>res_output := args\<rparr>, None), (a, Suc b)))\<rparr>)],
     rq_max_tool_calls = n, rq_model = [], rq_log_sink = None\<rparr>"

text \<open>A server that asks for the tool \<open>echo\<close> and for an unknown one on every turn.\<close>

abbreviation count_reply :: claude_response where
  "count_reply \<equiv> \<lparr>cp_stop_reason = ''tool_use'', cp_content =
     [empty_content\<lparr>cc_type := ''tool_use'', cc_id := ''1'', cc_name := ''echo''\<rparr>,
      empty_content\<lparr>cc_type := ''tool_use'', cc_id := ''2'', cc_name := ''rm''\<rparr>]\<rparr>"

abbreviation count_net :: "(nat \<times> nat) claude_net" where
  "count_net \<equiv> \<lparr>net_marshal = (\<lambda>_. Inr []), net_new_request = (\<lambda>_. None),
     net_do = (\<lambda>_ _ _ (a, b). (Inr \<lparr>hr_status_code = 200, hr_status = ''200 OK'', hr_body = []\<rparr>, (Suc a, b))),
     net_unmarshal = (\<lambda>_. Inr count_reply)\<rparr>"

theorem claude_run_frame_witness:
  "\<exists>k \<le> 3. fst (snd (claude_run count_net count_driver (count_request 3) (0, 0))) = k"
proof -
  let ?echo = "\<lparr>tool_name = ''echo'', tool_description = [], tool_schema = [],
    tool_invoke = (\<lambda>args (a, b). ((empty_result\<lparr>res_output := args\<rparr>, None), (a, Suc b)))\<rparr>
      :: (nat \<times> nat) tool"
  have max: "effective_max_iter (count_request 3) = 3" by (simp add: effective_max_iter_def)
  have "\<exists>k \<le> effective_max_iter (count_request 3).
      fst (snd (claude_run count_net count_driver (count_request 3) (0, 0))) = k"
    by (rule claude_run_frame [of "count_request 3" "[(''echo'', ?echo)]" "\<lambda>i w. fst w = i"])
      (auto simp: exchange_keeps_def reg_get_def split: if_splits)
  then show ?thesis by (simp only: max)
qed

text \<open>
  What a run returns. Against a server that answers, with replies \<open>ms\<close> that all use
  tools and do not end the turn: if the next reply uses no tool, the run returns its text and
  the number of iterations before it, not the number of tool calls; if it uses tools and ends
  the turn, the run returns its text and the number of all tool calls; and if the limit is
  reached instead, the run has an error text, no final message and the number of all tool
  calls. No reply beyond is requested.
\<close>

lemma claude_run_result:
  assumes "serves net script" and "keeps_script r (rq_log_sink req) script"
    and "rq_tools req = Some r" and "cd_api_key d \<noteq> []" and "effective_model d req \<noteq> []"
    and "script w = ms @ ms'"
    and "\<And>m. m \<in> set ms \<Longrightarrow> tool_uses m \<noteq> 0 \<and> cp_stop_reason m \<noteq> ''end_turn''"
  defines "calls \<equiv> int (sum_list (map tool_uses ms))"
  shows "(length ms < effective_max_iter req \<longrightarrow> ms' = m # rest \<longrightarrow> tool_uses m = 0 \<longrightarrow>
      (\<exists>w'. script w' = rest \<and> claude_run net d req w =
         (Some (\<lparr>dr_final_message = fst (scan_content (cp_content m)),
                dr_tool_calls = int (length ms), dr_cost_usd_micro = 0, dr_error = []\<rparr>, None), w'))) \<and>
    (length ms < effective_max_iter req \<longrightarrow> ms' = m # rest \<longrightarrow> tool_uses m \<noteq> 0 \<longrightarrow>
      cp_stop_reason m = ''end_turn'' \<longrightarrow>
      (\<exists>w'. script w' = rest \<and> claude_run net d req w =
         (Some (\<lparr>dr_final_message = fst (scan_content (cp_content m)),
                dr_tool_calls = calls + int (tool_uses m), dr_cost_usd_micro = 0, dr_error = []\<rparr>, None), w'))) \<and>
    (length ms = effective_max_iter req \<longrightarrow>
      (\<exists>w'. script w' = ms' \<and> claude_run net d req w =
         (Some (\<lparr>dr_final_message = [], dr_tool_calls = calls, dr_cost_usd_micro = 0,
            dr_error = ''max_tool_calls ('' @ itoa (int (length ms)) @
              '') reached before assistant emitted a final answer''\<rparr>, None), w')))"
    (is "(?less \<longrightarrow> ?next \<longrightarrow> ?none \<longrightarrow> ?A) \<and> (_ \<longrightarrow> _ \<longrightarrow> _ \<longrightarrow> ?stop \<longrightarrow> ?B) \<and> (?eq \<longrightarrow> ?C)")
proof -
  let ?loop = "\<lambda>left i msgs. claude_loop net (cd_api_key d) req (effective_model d req)
    (effective_base d) (effective_max_tokens d) left i msgs"
  obtain left where left: "?less \<longrightarrow> effective_max_iter req = length ms + Suc left"
    by (metis less_iff_Suc_add add_Suc_right)
  note script = claude_loop_script [OF assms(1-3,6,7)]
  note run = claude_run_loop [OF assms(4,5)]
  have split: "\<exists>msgs' w'. script w' = ms' \<and> claude_run net d req w =
      ?loop k (length ms) msgs' calls w'" if "effective_max_iter req = length ms + k" for k
    using script [of "cd_api_key d" "effective_model d req" "effective_base d"
        "effective_max_tokens d" k 0 "[first_message req]" 0] that
    by (simp add: run calls_def)
  have A: ?A if h: "?less" "?next" "?none"
  proof -
    obtain msgs' w' where s': "script w' = m # rest"
      and eq: "claude_run net d req w = ?loop (Suc left) (length ms) msgs' calls w'"
      using split [of "Suc left"] left h by blast
    show ?thesis unfolding eq
      by (rule claude_loop_done [OF assms(1) s' h(3), of "cd_api_key d" req "effective_model d req"
            "effective_base d" "effective_max_tokens d" left "length ms" msgs' calls])
        (auto simp del: claude_loop.simps)
  qed
  moreover have B: ?B if h: "?less" "?next" "tool_uses m \<noteq> 0" "?stop"
  proof -
    obtain msgs' w' where s': "script w' = m # rest"
      and eq: "claude_run net d req w = ?loop (Suc left) (length ms) msgs' calls w'"
      using split [of "Suc left"] left h by blast
    show ?thesis unfolding eq
      by (rule claude_loop_step [OF assms(1-3) s' h(3), of "cd_api_key d" "effective_model d req"
            "effective_base d" "effective_max_tokens d" left "length ms" msgs' calls])
        (use h(4) in \<open>auto simp del: claude_loop.simps\<close>)
  qed
  moreover have C: ?C if "?eq"
    using split [of 0] that by auto
  ultimately show ?thesis by blast
qed

text \<open>A server whose world is the list of replies still to come, one letter each.\<close>

abbreviation letter_reply :: "char \<Rightarrow> claude_response" where
  "letter_reply c \<equiv> (if c = CHR ''t'' then count_reply
     else \<lparr>cp_stop_reason = ''end_turn'', cp_content = [empty_content\<lparr>cc_type := ''text'', cc_text := ''bye''\<rparr>]\<rparr>)"

abbreviation letter_net :: "string claude_net" where
  "letter_net \<equiv> \<lparr>net_marshal = (\<lambda>_. Inr []), net_new_request = (\<lambda>_. None),
     net_do = (\<lambda>_ _ _ w. (Inr \<lparr>hr_status_code = 200, hr_status = ''200 OK'', hr_body = take 1 w\<rparr>, tl w)),
     net_unmarshal = (\<lambda>b. Inr (letter_reply (hd b)))\<rparr>"

abbreviation letter_request :: "string driver_request" where
  "letter_request \<equiv> \<lparr>rq_system_prompt = [], rq_user_prompt = ''hi'', rq_tools = Some [],
     rq_max_tool_calls = 0, rq_model = ''m'', rq_log_sink = None\<rparr>"

lemma claude_run_result_witness:
  "\<exists>w'. claude_run letter_net count_driver letter_request ''ttx'' =
     (Some (\<lparr>dr_final_message = ''bye'', dr_tool_calls = 2, dr_cost_usd_micro = 0, dr_error = []\<rparr>, None), w')"
proof -
  have serves: "serves letter_net (map letter_reply)"
    by (auto simp: serves_def Let_def)
  have keeps: "keeps_script [] (rq_log_sink letter_request) (map letter_reply)"
    by (simp add: keeps_script_def reg_get_def)
  have max: "effective_max_iter letter_request = 25" by (simp add: effective_max_iter_def)
  show ?thesis
    using claude_run_result [OF serves keeps, of count_driver "''ttx''" "[count_reply, count_reply]"
        "[letter_reply CHR ''x'']" "letter_reply CHR ''x''" "[]"]
    by (simp add: max effective_model_def tool_uses_def)
qed

end
