(* ===== verification/CliDrivers.thy ===== *)
theory CliDrivers
  imports Drivers
begin

text \<open>
  The drivers that run a vendor CLI as a subprocess:
  \<^verbatim>\<open>internal/driver/claudecli/claudecli.go\<close> and
  \<^verbatim>\<open>internal/driver/codex/codex.go\<close>. The subprocess is a parameter that answers with what
  it wrote and how it ended; the JSON decoders are parameters too, one per Go struct that is
  decoded. The progress records that go to the structured log are kept as a list.
\<close>

subsection \<open>The bounded stderr buffer\<close>

record cap_writer =
  cw_dst :: string
  cw_cap :: int
  cw_written :: int

definition new_cap_writer :: "int \<Rightarrow> cap_writer" where
  "new_cap_writer cap = \<lparr>cw_dst = [], cw_cap = cap, cw_written = 0\<rparr>"

definition cap_write :: "string \<Rightarrow> cap_writer \<Rightarrow> int \<times> cap_writer" where
  "cap_write p w =
     (let remaining = cw_cap w - cw_written w
      in if remaining \<le> 0 then (int (length p), w)
         else if remaining < int (length p)
         then (int (length p),
               w\<lparr>cw_dst := cw_dst w @ take (nat remaining) p, cw_written := cw_written w + remaining\<rparr>)
         else (int (length p),
               w\<lparr>cw_dst := cw_dst w @ p, cw_written := cw_written w + int (length p)\<rparr>))"

fun cap_writes :: "string list \<Rightarrow> cap_writer \<Rightarrow> cap_writer" where
  "cap_writes [] w = w"
| "cap_writes (p # ps) w = cap_writes ps (snd (cap_write p w))"

definition cap_wf :: "cap_writer \<Rightarrow> bool" where
  "cap_wf w \<longleftrightarrow> cw_written w = int (length (cw_dst w))"

lemma cap_wf_new [wf_intros, simp]: "cap_wf (new_cap_writer cap)"
  by (simp add: cap_wf_def new_cap_writer_def)

lemma cap_wf_write [wf_intros]: "cap_wf w \<Longrightarrow> cap_wf (snd (cap_write p w))"
  by (auto simp: cap_wf_def cap_write_def Let_def min_def)

lemma cap_write_dst:
  assumes "cap_wf w" and "cw_cap w = int n" and "length (cw_dst w) \<le> n"
  shows "cw_dst (snd (cap_write p w)) = take n (cw_dst w @ p)"
    and "cw_cap (snd (cap_write p w)) = int n"
proof -
  have "nat (int n - int (length (cw_dst w))) = n - length (cw_dst w)" by simp
  then show "cw_dst (snd (cap_write p w)) = take n (cw_dst w @ p)"
    using assms by (auto simp: cap_wf_def cap_write_def Let_def)
  show "cw_cap (snd (cap_write p w)) = int n"
    using assms by (simp add: cap_write_def Let_def)
qed

lemma cap_writes_dst:
  "cap_wf w \<Longrightarrow> cw_cap w = int n \<Longrightarrow> length (cw_dst w) \<le> n \<Longrightarrow>
     cw_dst (cap_writes ps w) = take n (cw_dst w @ concat ps)"
proof (induction ps arbitrary: w)
  case (Cons p ps)
  have "cw_dst (cap_writes ps (snd (cap_write p w))) =
      take n (cw_dst (snd (cap_write p w)) @ concat ps)"
    by (rule Cons.IH) (use Cons.prems cap_write_dst [OF Cons.prems] in \<open>auto intro: wf_intros\<close>)
  also have "\<dots> = take n (cw_dst w @ concat (p # ps))"
    by (simp add: cap_write_dst(1) [OF Cons.prems] min_def)
  finally show ?case by simp
qed simp

subsection \<open>Claude Code: the event stream\<close>

text \<open>
  A \<^verbatim>\<open>float64\<close> is a value of the type \<open>'f\<close>; \<open>micro\<close> below is the conversion
  \<^verbatim>\<open>int64(x * 1_000_000)\<close>.
\<close>

record 'f stream_result =
  sr_result :: string
  sr_total_cost_usd :: 'f
  sr_num_turns :: int
  sr_is_error :: bool
  sr_error_message :: string

record assistant_block =
  ab_type :: string
  ab_text :: string
  ab_name :: string

text \<open>
  The blocks of a \<^verbatim>\<open>user\<close> message; the content decodes as a string, as an array of typed
  texts, or as neither.
\<close>

datatype block_content = TextContent string | BlockArray "(string \<times> string) list" | OtherContent

record tool_result_block =
  tb_type :: string
  tb_tool_use_id :: string
  tb_is_error :: bool
  tb_content :: block_content

text \<open>The decoders; \<open>None\<close> is an error of \<^verbatim>\<open>json.Unmarshal\<close>.\<close>

record 'f cli_codec =
  dec_envelope :: "string \<Rightarrow> (string \<times> string) option"
  dec_result :: "string \<Rightarrow> string + 'f stream_result"
  dec_assistant :: "string \<Rightarrow> assistant_block list option"
  dec_user :: "string \<Rightarrow> tool_result_block list option"
  micro :: "'f \<Rightarrow> int"

fun first_tool :: "assistant_block list \<Rightarrow> string" where
  "first_tool [] = []"
| "first_tool (c # cs) =
     (if ab_type c = ''tool_use'' \<and> ab_name c \<noteq> [] then ab_name c else first_tool cs)"

fun first_text :: "assistant_block list \<Rightarrow> string" where
  "first_text [] = []"
| "first_text (c # cs) =
     (if ab_type c = ''text'' \<and> ab_text c \<noteq> [] then ab_text c else first_text cs)"

definition extract_assistant_signal :: "'f cli_codec \<Rightarrow> string \<Rightarrow> string \<times> string" where
  "extract_assistant_signal codec raw =
     (if raw = [] then ([], [])
      else case dec_assistant codec raw of
        None \<Rightarrow> ([], [])
      | Some cs \<Rightarrow> (first_tool cs, first_text cs))"

fun array_text :: "(string \<times> string) list \<Rightarrow> string" where
  "array_text [] = []"
| "array_text ((ty, tx) # es) = (if ty = ''text'' \<and> tx \<noteq> [] then tx else array_text es)"

definition block_snippet :: "block_content \<Rightarrow> string" where
  "block_snippet c = (case c of TextContent s \<Rightarrow> s | BlockArray es \<Rightarrow> array_text es | OtherContent \<Rightarrow> [])"

fun first_tool_result :: "tool_result_block list \<Rightarrow> string \<times> bool \<times> string" where
  "first_tool_result [] = ([], False, [])"
| "first_tool_result (c # cs) =
     (if tb_type c \<noteq> ''tool_result'' then first_tool_result cs
      else (tb_tool_use_id c, tb_is_error c, block_snippet (tb_content c)))"

definition extract_tool_result :: "'f cli_codec \<Rightarrow> string \<Rightarrow> string \<times> bool \<times> string" where
  "extract_tool_result codec raw =
     (if raw = [] then ([], False, [])
      else case dec_user codec raw of
        None \<Rightarrow> ([], False, [])
      | Some cs \<Rightarrow> first_tool_result cs)"

text \<open>The progress records; the elapsed time is left out.\<close>

datatype progress =
    TurnLog int int string string
  | ToolResultLog int int string bool string string

text \<open>The locals of \<^verbatim>\<open>parseStream\<close>; the first three are its result.\<close>

record 'f stream_state =
  ps_result :: "'f stream_result option"
  ps_event_count :: nat
  ps_raw_tail :: string
  ps_turn :: int
  ps_last_tool :: string
  ps_tail :: string
  ps_logs :: "progress list"

definition empty_stream_state :: "'f stream_state" where
  "empty_stream_state = \<lparr>ps_result = None, ps_event_count = 0, ps_raw_tail = [], ps_turn = 0,
     ps_last_tool = [], ps_tail = [], ps_logs = []\<rparr>"

lemma empty_stream_state_sel [simp]:
  "ps_result empty_stream_state = None" "ps_event_count empty_stream_state = 0"
  by (simp_all add: empty_stream_state_def)

definition tail_budget :: nat where "tail_budget = 4096"

definition write_tail :: "string \<Rightarrow> string \<Rightarrow> string" where
  "write_tail line tail =
     (if tail_budget < length tail + length line + 1 then line @ [nl] else tail @ line @ [nl])"

definition stream_event ::
  "'f cli_codec \<Rightarrow> int \<Rightarrow> string \<Rightarrow> 'f stream_state \<Rightarrow> string option \<times> 'f stream_state" where
  "stream_event codec max_turns line st =
     (case dec_envelope codec line of
        None \<Rightarrow> (None, st)
      | Some (ty, message) \<Rightarrow>
          if ty = ''assistant'' then
            (let (tool, said) = extract_assistant_signal codec message; n = ps_turn st + 1
             in (None, st\<lparr>ps_turn := n,
                   ps_last_tool := (if tool \<noteq> [] then tool else ps_last_tool st),
                   ps_logs := ps_logs st @ [TurnLog n max_turns tool (truncate_str said 200)]\<rparr>))
          else if ty = ''user'' then
            (let (tid, is_err, snippet) = extract_tool_result codec message
             in (None, st\<lparr>ps_logs := ps_logs st @
                   [ToolResultLog (ps_turn st) max_turns (ps_last_tool st) is_err tid
                      (truncate_str snippet 200)]\<rparr>))
          else if ty = ''result'' then
            (case dec_result codec line of
               Inl e \<Rightarrow> (Some (''parse result event: '' @ e), st)
             | Inr r \<Rightarrow> (None, st\<lparr>ps_result := Some r, ps_raw_tail := ps_tail st\<rparr>))
          else (None, st))"

definition count_line :: "string \<Rightarrow> 'f stream_state \<Rightarrow> 'f stream_state" where
  "count_line line st =
     st\<lparr>ps_event_count := Suc (ps_event_count st), ps_tail := write_tail line (ps_tail st)\<rparr>"

fun stream_lines ::
  "'f cli_codec \<Rightarrow> int \<Rightarrow> string list \<Rightarrow> 'f stream_state \<Rightarrow> string option \<times> 'f stream_state" where
  "stream_lines codec max_turns [] st = (None, st)"
| "stream_lines codec max_turns (line # ls) st =
     (if line = [] then stream_lines codec max_turns ls st
      else case stream_event codec max_turns line (count_line line st) of
        (Some e, st') \<Rightarrow> (Some e, st')
      | (None, st') \<Rightarrow> stream_lines codec max_turns ls st')"

text \<open>
  \<^verbatim>\<open>parseStream\<close> on everything the pipe delivered and the pipe's read error, if any.
\<close>

definition parse_stream ::
  "'f cli_codec \<Rightarrow> int \<Rightarrow> string \<Rightarrow> string option \<Rightarrow> string option \<times> 'f stream_state" where
  "parse_stream codec max_turns out read_err =
     (let (lines, too_long) = scan_lines (4 * 1024 * 1024) out
      in case stream_lines codec max_turns lines empty_stream_state of
           (Some e, st) \<Rightarrow> (Some e, st)
         | (None, st) \<Rightarrow>
             (case (case too_long of Some e \<Rightarrow> Some e | None \<Rightarrow> read_err) of
                Some e \<Rightarrow> (Some (''scan stream: '' @ e), st\<lparr>ps_raw_tail := ps_tail st\<rparr>)
              | None \<Rightarrow>
                  (None, if ps_raw_tail st = [] then st\<lparr>ps_raw_tail := ps_tail st\<rparr> else st)))"

subsection \<open>Claude Code: the run\<close>

record claude_cli =
  cli_binary :: string
  cli_model :: string
  cli_allowed_tools :: string
  cli_permission_mode :: string

text \<open>
  How the subprocess goes: no pipe, no start, or what it wrote to stdout, the pipe's read
  error, the chunks it wrote to stderr and the error of \<^verbatim>\<open>Wait\<close>.
\<close>

datatype cli_process =
    PipeFailed string
  | StartFailed string
  | Exited string "string option" "string list" "string option"

definition combined_prompt :: "'w driver_request \<Rightarrow> string" where
  "combined_prompt req =
     (if trim_space (rq_system_prompt req) \<noteq> []
      then rq_system_prompt req @ [nl, nl] @ rq_user_prompt req else rq_user_prompt req)"

definition default_to :: "string \<Rightarrow> string \<Rightarrow> string" where
  "default_to s dflt = (if s = [] then dflt else s)"

definition cli_max_turns :: "'w driver_request \<Rightarrow> int" where
  "cli_max_turns req = (if rq_max_tool_calls req \<le> 0 then 25 else rq_max_tool_calls req)"

definition claude_cli_args :: "claude_cli \<Rightarrow> 'w driver_request \<Rightarrow> string list" where
  "claude_cli_args d req =
     (let model = default_to (rq_model req) (cli_model d)
      in [''--print'', combined_prompt req, ''--output-format'', ''stream-json'', ''--verbose'',
          ''--permission-mode'', default_to (cli_permission_mode d) ''acceptEdits'',
          ''--allowedTools'', default_to (cli_allowed_tools d) ''Bash,Read,Write,Edit'',
          ''--max-turns'', itoa (cli_max_turns req)] @
         (if model \<noteq> [] then [''--model'', model] else []))"

definition claude_cli_result ::
  "'f cli_codec \<Rightarrow> 'w driver_request \<Rightarrow> cli_process \<Rightarrow> driver_result" where
  "claude_cli_result codec req proc =
     (case proc of
        PipeFailed e \<Rightarrow> empty_driver_result\<lparr>dr_error := ''claudecli: stdout pipe: '' @ e\<rparr>
      | StartFailed e \<Rightarrow> empty_driver_result\<lparr>dr_error := ''claude CLI start failed: '' @ e\<rparr>
      | Exited out read_err err_chunks wait_err \<Rightarrow>
          (let (parse_err, st) = parse_stream codec (cli_max_turns req) out read_err;
               stderr = trim_space (cw_dst (cap_writes err_chunks (new_cap_writer 8192)))
           in case wait_err of
             Some e \<Rightarrow>
               empty_driver_result\<lparr>dr_error := ''claude CLI failed: '' @ e @ '': '' @ stderr\<rparr>
           | None \<Rightarrow>
               (case ps_result st of
                  None \<Rightarrow>
                    empty_driver_result
                      \<lparr>dr_final_message := trim_space (ps_raw_tail st),
                       dr_error := (case parse_err of
                           Some e \<Rightarrow> ''claude CLI: parse stream: '' @ e
                         | None \<Rightarrow> ''claude CLI: stream ended without result event'')\<rparr>
                | Some r \<Rightarrow>
                    \<lparr>dr_final_message = sr_result r, dr_tool_calls = sr_num_turns r,
                     dr_cost_usd_micro = micro codec (sr_total_cost_usd r),
                     dr_error = (if sr_is_error r then sr_error_message r else [])\<rparr>)))"

definition claude_cli_run ::
  "'f cli_codec \<Rightarrow> (string \<Rightarrow> string list \<Rightarrow> 'w \<Rightarrow> cli_process \<times> 'w) \<Rightarrow>
   claude_cli \<Rightarrow> 'w driver_request \<Rightarrow> 'w \<Rightarrow> driver_outcome \<times> 'w" where
  "claude_cli_run codec spawn d req w =
     (let (proc, w') = spawn (default_to (cli_binary d) ''claude'') (claude_cli_args d req) w
      in (Some (claude_cli_result codec req proc, None), w'))"

text \<open>\<^verbatim>\<open>Preflight\<close>; \<open>look\<close> is the error of \<^verbatim>\<open>exec.LookPath\<close>.\<close>

definition claude_cli_preflight ::
  "(string \<Rightarrow> string option) \<Rightarrow> claude_cli option \<Rightarrow> string option" where
  "claude_cli_preflight look d =
     (case d of
        None \<Rightarrow> Some ''claudecli: nil driver''
      | Some d \<Rightarrow>
          (let bin = default_to (cli_binary d) ''claude''
           in case look bin of
                Some e \<Rightarrow>
                  Some (''claudecli: '' @ quoted bin @
                        '' not on PATH (install with `npm i -g @anthropic-ai/claude-code`): '' @ e)
              | None \<Rightarrow> None))"

subsection \<open>Codex\<close>

record codex_event =
  ce_type :: string
  ce_message :: string
  ce_item_type :: string
  ce_item_text :: string
  ce_input_tokens :: int
  ce_output_tokens :: int

record parsed_run =
  pr_final_message :: string
  pr_tool_calls :: int
  pr_input_tokens :: int
  pr_output_tokens :: int
  pr_is_error :: bool
  pr_error_message :: string

definition empty_parsed_run :: parsed_run where
  "empty_parsed_run = \<lparr>pr_final_message = [], pr_tool_calls = 0, pr_input_tokens = 0,
     pr_output_tokens = 0, pr_is_error = False, pr_error_message = []\<rparr>"

text \<open>
  The body of the switch; \<^verbatim>\<open>finalParts\<close> is joined as it grows.
\<close>

definition codex_event_step :: "codex_event \<Rightarrow> parsed_run \<Rightarrow> parsed_run" where
  "codex_event_step ev out =
     (if ce_type ev = ''item.completed'' then
        (if ce_item_type ev = ''agent_message''
         then out\<lparr>pr_final_message := pr_final_message out @ ce_item_text ev\<rparr>
         else if ce_item_type ev = ''command_execution'' \<or> ce_item_type ev = ''mcp_tool_call''
         then out\<lparr>pr_tool_calls := pr_tool_calls out + 1\<rparr>
         else out)
      else if ce_type ev = ''turn.completed'' then
        out\<lparr>pr_input_tokens := ce_input_tokens ev, pr_output_tokens := ce_output_tokens ev\<rparr>
      else if ce_type ev = ''error'' then
        (if ce_message ev \<noteq> [] then out\<lparr>pr_is_error := True, pr_error_message := ce_message ev\<rparr>
         else out\<lparr>pr_is_error := True\<rparr>)
      else out)"

definition codex_line ::
  "(string \<Rightarrow> codex_event option) \<Rightarrow> string \<Rightarrow> parsed_run \<Rightarrow> parsed_run" where
  "codex_line decode raw out =
     (let line = trim_space raw
      in if line = [] \<or> hd line \<noteq> CHR ''{'' then out
         else case decode line of None \<Rightarrow> out | Some ev \<Rightarrow> codex_event_step ev out)"

text \<open>\<^verbatim>\<open>parseNDJSON\<close>: the scanner's error is not looked at.\<close>

definition parse_ndjson :: "(string \<Rightarrow> codex_event option) \<Rightarrow> string \<Rightarrow> parsed_run" where
  "parse_ndjson decode raw =
     fold (codex_line decode) (fst (scan_lines (1024 * 1024) raw)) empty_parsed_run"

record codex_cli =
  cx_binary :: string
  cx_model :: string
  cx_sandbox :: string

definition codex_args :: "codex_cli \<Rightarrow> 'w driver_request \<Rightarrow> string list" where
  "codex_args d req =
     (let model = default_to (rq_model req) (cx_model d)
      in [''--json'', ''--sandbox'', default_to (cx_sandbox d) ''workspace-write''] @
         (if model \<noteq> [] then [''--model'', model] else []) @ [''exec'', combined_prompt req])"

text \<open>\<open>run_cmd\<close> is \<^verbatim>\<open>cmd.Run\<close> with the buffers: stdout, stderr and the error.\<close>

definition codex_result ::
  "(string \<Rightarrow> codex_event option) \<Rightarrow> string \<times> string \<times> string option \<Rightarrow> driver_result" where
  "codex_result decode proc =
     (case proc of
        (out, err_out, Some e) \<Rightarrow>
          empty_driver_result\<lparr>dr_error := ''codex CLI failed: '' @ e @ '': '' @ trim_space err_out\<rparr>
      | (out, err_out, None) \<Rightarrow>
          (let p = parse_ndjson decode out
           in \<lparr>dr_final_message = pr_final_message p, dr_tool_calls = pr_tool_calls p,
               dr_cost_usd_micro = 0,
               dr_error = (if pr_is_error p then pr_error_message p else [])\<rparr>))"

definition codex_run ::
  "(string \<Rightarrow> codex_event option) \<Rightarrow>
   (string \<Rightarrow> string list \<Rightarrow> 'w \<Rightarrow> (string \<times> string \<times> string option) \<times> 'w) \<Rightarrow>
   codex_cli \<Rightarrow> 'w driver_request \<Rightarrow> 'w \<Rightarrow> driver_outcome \<times> 'w" where
  "codex_run decode run_cmd d req w =
     (let (proc, w') = run_cmd (default_to (cx_binary d) ''codex'') (codex_args d req) w
      in (Some (codex_result decode proc, None), w'))"

definition codex_preflight :: "(string \<Rightarrow> string option) \<Rightarrow> codex_cli option \<Rightarrow> string option" where
  "codex_preflight look d =
     (case d of
        None \<Rightarrow> Some ''codex: nil driver''
      | Some d \<Rightarrow>
          (let bin = default_to (cx_binary d) ''codex''
           in case look bin of
                Some e \<Rightarrow>
                  Some (''codex: '' @ quoted bin @
                        '' not on PATH (install with `npm i -g @openai/codex`): '' @ e)
              | None \<Rightarrow> None))"

subsection \<open>What the streams mean\<close>

definition is_result_line :: "'f cli_codec \<Rightarrow> string \<Rightarrow> bool" where
  "is_result_line codec l \<longleftrightarrow>
     l \<noteq> [] \<and> (case dec_envelope codec l of None \<Rightarrow> False | Some (ty, _) \<Rightarrow> ty = ''result'')"

definition ok_result :: "'f cli_codec \<Rightarrow> string \<Rightarrow> 'f stream_result option" where
  "ok_result codec l =
     (if is_result_line codec l
      then (case dec_result codec l of Inl _ \<Rightarrow> None | Inr r \<Rightarrow> Some r) else None)"

text \<open>The codex events of the lines of a stream, in order.\<close>

definition codex_events :: "(string \<Rightarrow> codex_event option) \<Rightarrow> string list \<Rightarrow> codex_event list" where
  "codex_events decode ls =
     List.map_filter (\<lambda>raw. let line = trim_space raw
       in if line = [] \<or> hd line \<noteq> CHR ''{'' then None else decode line) ls"

lemma fold_codex_lines:
  "fold (codex_line decode) ls out = fold codex_event_step (codex_events decode ls) out"
  by (induction ls arbitrary: out)
    (auto simp: codex_events_def codex_line_def Let_def List.map_filter_simps split: option.splits)

definition stream_results :: "'f cli_codec \<Rightarrow> string list \<Rightarrow> 'f stream_result list" where
  "stream_results codec ls = List.map_filter (ok_result codec) ls"

lemma stream_results_simps [simp]:
  "stream_results codec [] = []"
  "stream_results codec (l # ls) =
     (case ok_result codec l of None \<Rightarrow> stream_results codec ls | Some r \<Rightarrow> r # stream_results codec ls)"
  by (simp_all add: stream_results_def List.map_filter_simps split: option.split)

lemma stream_event_result:
  "stream_event codec mt l st = (e, st') \<Longrightarrow> l \<noteq> [] \<Longrightarrow>
     (e = None \<longleftrightarrow> (is_result_line codec l \<longrightarrow> ok_result codec l \<noteq> None)) \<and>
     ps_tail st' = ps_tail st \<and> ps_event_count st' = ps_event_count st \<and>
     ps_result st' = (case ok_result codec l of None \<Rightarrow> ps_result st | Some r \<Rightarrow> Some r) \<and>
     ps_raw_tail st' = (if ok_result codec l = None then ps_raw_tail st else ps_tail st)"
  by (auto simp: stream_event_def is_result_line_def ok_result_def Let_def
      split: option.splits prod.splits if_splits sum.splits)

lemma count_line_sel [simp]:
  "ps_result (count_line l st) = ps_result st" "ps_raw_tail (count_line l st) = ps_raw_tail st"
  "ps_tail (count_line l st) = write_tail l (ps_tail st)"
  "ps_event_count (count_line l st) = Suc (ps_event_count st)"
  by (simp_all add: count_line_def)

lemma empty_line_no_result [simp]: "ok_result codec [] = None" "\<not> is_result_line codec []"
  by (simp_all add: ok_result_def is_result_line_def)

lemma stream_lines_result:
  "stream_lines codec mt ls st = (None, st') \<Longrightarrow>
     ps_event_count st' = ps_event_count st + length (filter (\<lambda>l. l \<noteq> []) ls) \<and>
     ps_result st' = (case rev (stream_results codec ls) of [] \<Rightarrow> ps_result st | r # _ \<Rightarrow> Some r)"
proof (induction ls arbitrary: st)
  case (Cons l ls)
  show ?case
  proof (cases "l = []")
    case True
    with Cons show ?thesis by simp
  next
    case False
    obtain e st1 where ev: "stream_event codec mt l (count_line l st) = (e, st1)" by fastforce
    from Cons.prems False ev have e: "e = None" and rest: "stream_lines codec mt ls st1 = (None, st')"
      by (auto split: option.splits)
    from stream_event_result [OF ev False] Cons.IH [OF rest] show ?thesis
      using False by (auto split: option.splits list.splits)
  qed
qed simp

lemma stream_lines_ok_iff:
  "fst (stream_lines codec mt ls st) = None \<longleftrightarrow>
     (\<forall>l \<in> set ls. is_result_line codec l \<longrightarrow> ok_result codec l \<noteq> None)"
proof (induction ls arbitrary: st)
  case (Cons l ls)
  show ?case
  proof (cases "l = []")
    case True
    with Cons show ?thesis by simp
  next
    case False
    obtain e st1 where ev: "stream_event codec mt l (count_line l st) = (e, st1)" by fastforce
    from stream_event_result [OF ev False] Cons.IH [of st1] ev False show ?thesis
      by (cases e) auto
  qed
qed simp

definition tails_below :: "nat \<Rightarrow> 'f stream_state \<Rightarrow> bool" where
  "tails_below b st \<longleftrightarrow> length (ps_tail st) \<le> b \<and> length (ps_raw_tail st) \<le> b"

lemma stream_lines_tail:
  "tail_budget \<le> b \<Longrightarrow> (\<And>l. l \<in> set ls \<Longrightarrow> length l < b) \<Longrightarrow> tails_below b st \<Longrightarrow>
     tails_below b (snd (stream_lines codec mt ls st))"
proof (induction ls arbitrary: st)
  case (Cons l ls)
  show ?case
  proof (cases "l = []")
    case True
    with Cons show ?thesis by simp
  next
    case False
    obtain e st1 where ev: "stream_event codec mt l (count_line l st) = (e, st1)" by fastforce
    have "length (write_tail l (ps_tail st)) \<le> b"
      using Cons.prems(1) Cons.prems(2) [of l] by (auto simp: write_tail_def)
    with stream_event_result [OF ev False] Cons.prems(3) have "tails_below b st1"
      by (auto simp: tails_below_def)
    with Cons.IH [of st1] Cons.prems(1,2) False ev show ?thesis
      by (auto split: option.splits)
  qed
qed simp

definition codex_texts :: "codex_event list \<Rightarrow> string" where
  "codex_texts evs = concat (map ce_item_text (filter
     (\<lambda>ev. ce_type ev = ''item.completed'' \<and> ce_item_type ev = ''agent_message'') evs))"

definition codex_calls :: "codex_event list \<Rightarrow> nat" where
  "codex_calls evs = length (filter (\<lambda>ev. ce_type ev = ''item.completed'' \<and>
     (ce_item_type ev = ''command_execution'' \<or> ce_item_type ev = ''mcp_tool_call'')) evs)"

lemma codex_events_append: "codex_events d (xs @ ys) = codex_events d xs @ codex_events d ys"
  by (simp add: codex_events_def List.map_filter_def)

lemma fold_codex_events:
  fixes evs :: "codex_event list"
  defines "p \<equiv> fold codex_event_step evs empty_parsed_run"
  shows "pr_final_message p = codex_texts evs \<and> pr_tool_calls p = int (codex_calls evs) \<and>
    (pr_is_error p \<longleftrightarrow> (\<exists>ev \<in> set evs. ce_type ev = ''error'')) \<and>
    pr_error_message p = (case rev (filter (\<lambda>m. m \<noteq> []) (map ce_message
        (filter (\<lambda>ev. ce_type ev = ''error'') evs))) of [] \<Rightarrow> [] | m # _ \<Rightarrow> m) \<and>
    (pr_input_tokens p, pr_output_tokens p) =
      (case rev (filter (\<lambda>ev. ce_type ev = ''turn.completed'') evs) of
         [] \<Rightarrow> (0, 0) | ev # _ \<Rightarrow> (ce_input_tokens ev, ce_output_tokens ev))"
  unfolding p_def
  by (induction evs rule: rev_induct)
    (auto simp: empty_parsed_run_def codex_event_step_def codex_texts_def codex_calls_def)

subsection \<open>Properties\<close>

text \<open>
  The stderr buffer. However the subprocess chunks what it writes, the buffer holds exactly
  the first \<open>cap\<close> bytes of it, and every write is reported as complete, so the subprocess is
  never stopped by it.
\<close>

lemma cap_writer_prefix:
  "cw_dst (cap_writes chunks (new_cap_writer (int n))) = take n (concat chunks) \<and>
   fst (cap_write p w) = int (length p)"
proof
  show "cw_dst (cap_writes chunks (new_cap_writer (int n))) = take n (concat chunks)"
    using cap_writes_dst [of "new_cap_writer (int n)" n chunks] by (simp add: new_cap_writer_def cap_wf_def)
qed (simp add: cap_write_def Let_def)

text \<open>
  The event stream. \<^verbatim>\<open>parseStream\<close> fails exactly if a result event does not decode, if
  a line does not fit 4 MiB or if the pipe fails; otherwise its result is the last result event
  of the stream. The tail it keeps for diagnostics is always below 4 MiB: the budget of 4096
  bytes bounds it only while single lines are shorter.
\<close>

lemma parse_stream_result:
  assumes "scan_lines (4 * 1024 * 1024) out = (lines, too_long)"
    and "parse_stream codec mt out read_err = (e, st)"
  shows "(e = None \<longleftrightarrow> too_long = None \<and> read_err = None \<and>
      (\<forall>l \<in> set lines. is_result_line codec l \<longrightarrow> ok_result codec l \<noteq> None)) \<and>
    (e = None \<longrightarrow> ps_event_count st = length (filter (\<lambda>l. l \<noteq> []) lines) \<and>
      ps_result st = (case rev (stream_results codec lines) of [] \<Rightarrow> None | r # _ \<Rightarrow> Some r)) \<and>
    length (ps_raw_tail st) \<le> 4 * 1024 * 1024"
proof -
  obtain e1 st1 where run: "stream_lines codec mt lines empty_stream_state = (e1, st1)" by fastforce
  have b: "length (ps_tail st1) \<le> 4194304 \<and> length (ps_raw_tail st1) \<le> 4194304"
    using stream_lines_tail [of 4194304 lines empty_stream_state codec mt] run assms(1)
      scan_lines_short [of _ "4 * 1024 * 1024" out]
    by (auto simp: tail_budget_def tails_below_def empty_stream_state_def)
  have ok: "e1 = None \<longleftrightarrow> (\<forall>l \<in> set lines. is_result_line codec l \<longrightarrow> ok_result codec l \<noteq> None)"
    using stream_lines_ok_iff [of codec mt lines empty_stream_state] run by simp
  have res: "ps_event_count st1 = length (filter (\<lambda>l. l \<noteq> []) lines) \<and>
      ps_result st1 = (case rev (stream_results codec lines) of [] \<Rightarrow> None | r # _ \<Rightarrow> Some r)"
    if "e1 = None"
    using stream_lines_result [of codec mt lines empty_stream_state st1] run that
    by (simp split: list.split)
  have "(e = None) = (e1 = None \<and> too_long = None \<and> read_err = None) \<and>
      length (ps_raw_tail st) \<le> 4194304 \<and> ps_result st = ps_result st1 \<and>
      ps_event_count st = ps_event_count st1"
    using assms run b by (auto simp: parse_stream_def split: option.splits if_splits)
  with ok res show ?thesis by auto
qed

abbreviation toy_codec :: "int cli_codec" where
  "toy_codec \<equiv> \<lparr>dec_envelope = (\<lambda>l. if l = ''R'' then Some (''result'', []) else None),
     dec_result = (\<lambda>_. Inr \<lparr>sr_result = ''done'', sr_total_cost_usd = 2, sr_num_turns = 3,
        sr_is_error = True, sr_error_message = []\<rparr>),
     dec_assistant = (\<lambda>_. None), dec_user = (\<lambda>_. None), micro = (\<lambda>x. x * 1000000)\<rparr>"

lemma parse_stream_result_witness:
  "ps_result (snd (parse_stream toy_codec 25 [CHR ''R'', nl] None)) =
     Some \<lparr>sr_result = ''done'', sr_total_cost_usd = 2, sr_num_turns = 3,
        sr_is_error = True, sr_error_message = []\<rparr>"
  using parse_stream_result
    [of "[CHR ''R'', nl]" "[''R'']" None toy_codec 25 None
       "fst (parse_stream toy_codec 25 [CHR ''R'', nl] None)"
       "snd (parse_stream toy_codec 25 [CHR ''R'', nl] None)"]
  by (simp add: scan_lines_def drop_cr_def ok_result_def is_result_line_def)

text \<open>
  When a Claude Code run counts as successful, that is \<open>dr_error\<close> is empty: the
  subprocess exits cleanly and its stream has a result event that is not marked as an error,
  or that is marked as one but has no error text. The second case is a failed run that the
  caller cannot tell from a successful one.
\<close>

lemma claude_cli_success_iff:
  "dr_error (claude_cli_result codec req proc) = [] \<longleftrightarrow>
     (\<exists>out read_err chunks r. proc = Exited out read_err chunks None \<and>
        ps_result (snd (parse_stream codec (cli_max_turns req) out read_err)) = Some r \<and>
        (\<not> sr_is_error r \<or> sr_error_message r = []) \<and>
        claude_cli_result codec req proc =
          \<lparr>dr_final_message = sr_result r, dr_tool_calls = sr_num_turns r,
           dr_cost_usd_micro = micro codec (sr_total_cost_usd r), dr_error = []\<rparr>)"
  by (cases proc) (auto simp: claude_cli_result_def Let_def split_beta split: option.splits)

text \<open>
  The Codex stream. What \<^verbatim>\<open>parseNDJSON\<close> returns, as a function of the decoded events:
  the texts of the agent's messages in order, the number of commands and MCP calls, the token
  counts of the last completed turn, and the last error text. The run counts as successful
  exactly if the subprocess does and no error event carries a text.
\<close>

lemma parse_ndjson_spec:
  fixes raw :: string and decode :: "string \<Rightarrow> codex_event option"
  defines "evs \<equiv> codex_events decode (fst (scan_lines (1024 * 1024) raw))"
  shows "parse_ndjson decode raw =
      \<lparr>pr_final_message = codex_texts evs, pr_tool_calls = int (codex_calls evs),
       pr_input_tokens = (case rev (filter (\<lambda>ev. ce_type ev = ''turn.completed'') evs) of
         [] \<Rightarrow> 0 | ev # _ \<Rightarrow> ce_input_tokens ev),
       pr_output_tokens = (case rev (filter (\<lambda>ev. ce_type ev = ''turn.completed'') evs) of
         [] \<Rightarrow> 0 | ev # _ \<Rightarrow> ce_output_tokens ev),
       pr_is_error = (\<exists>ev \<in> set evs. ce_type ev = ''error''),
       pr_error_message = (case rev (filter (\<lambda>m. m \<noteq> []) (map ce_message
         (filter (\<lambda>ev. ce_type ev = ''error'') evs))) of [] \<Rightarrow> [] | m # _ \<Rightarrow> m)\<rparr> \<and>
    (dr_error (codex_result decode (raw, err_out, exit_err)) = [] \<longleftrightarrow>
       exit_err = None \<and> (\<forall>ev \<in> set evs. ce_type ev = ''error'' \<longrightarrow> ce_message ev = []))"
proof -
  have eq: "parse_ndjson decode raw = fold codex_event_step evs empty_parsed_run"
    by (simp add: parse_ndjson_def evs_def fold_codex_lines)
  note spec = fold_codex_events [of evs]
  let ?ms = "filter (\<lambda>m. m \<noteq> []) (map ce_message (filter (\<lambda>ev. ce_type ev = ''error'') evs))"
  have "(case rev ?ms of [] \<Rightarrow> [] | m # _ \<Rightarrow> m) = [] \<longleftrightarrow> ?ms = []"
  proof (cases ?ms rule: rev_cases)
    case (snoc ms m)
    then have "m \<in> set ?ms" by simp
    then have "m \<noteq> []" by simp
    then show ?thesis unfolding snoc by simp
  qed (simp only: rev.simps list.case simp_thms)
  also have "\<dots> \<longleftrightarrow> (\<forall>ev \<in> set evs. ce_type ev = ''error'' \<longrightarrow> ce_message ev = [])"
    by (auto simp: filter_empty_conv)
  finally have none: "(case rev ?ms of [] \<Rightarrow> [] | m # _ \<Rightarrow> m) = [] \<longleftrightarrow>
      (\<forall>ev \<in> set evs. ce_type ev = ''error'' \<longrightarrow> ce_message ev = [])" .
  show ?thesis
  proof (rule conjI, goal_cases)
    case 1
    show ?case unfolding eq
      by (rule parsed_run.equality) (use spec in \<open>auto split: list.splits\<close>)
  next
    case 2
    show ?case
      unfolding none [symmetric] using spec none by (cases exit_err) (auto simp: codex_result_def eq)
  qed
qed

abbreviation toy_decode :: "string \<Rightarrow> codex_event option" where
  "toy_decode l \<equiv> Some \<lparr>ce_type = ''error'', ce_message = [], ce_item_type = [], ce_item_text = [],
     ce_input_tokens = 0, ce_output_tokens = 0\<rparr>"

lemma parse_ndjson_spec_witness:
  "pr_is_error (parse_ndjson toy_decode ''{}'') \<and>
   dr_error (codex_result toy_decode (''{}'', [], None)) = []"
  using parse_ndjson_spec [of toy_decode "''{}''" "[]" None]
  by (simp add: scan_lines_def drop_cr_def codex_events_def List.map_filter_simps trim_space_def
      trim_left_def trim_right_def is_space_def)

lemma claude_cli_success_iff_witness:
  "dr_error (claude_cli_result toy_codec letter_request
     (Exited [CHR ''R'', nl] None [] None)) = []"
  by (subst claude_cli_success_iff)
    (simp add: parse_stream_def scan_lines_def drop_cr_def stream_event_def empty_stream_state_def
      claude_cli_result_def Let_def count_line_def)

end
