(* ===== verification/AgentText.thy ===== *)
theory AgentText
  imports BootText CliDrivers
begin

text \<open>
  The prompts of \<^verbatim>\<open>internal/bootstrap/agent_script.go\<close> and the driver calls that carry them:
  the planner, which may write one script and run nothing, and the supervisor, which may only
  read. Times are given in the whole minutes and seconds that the prompts show.
\<close>

definition right_arrow :: string where
  "right_arrow = [CHR 0xE2, CHR 0x86, CHR 0x92]"

subsection \<open>The planner\<close>

record plan_input =
  pi_goal :: string
  pi_model :: string
  pi_house_rules :: string
  pi_iteration :: int
  pi_prev_stderr :: string
  pi_prev_stdout :: string
  pi_prev_exit :: int
  pi_prev_reason :: string
  pi_script_path :: string
  pi_verify_port :: int

record plan_output =
  po_script :: string
  po_cost :: int
  po_turns :: int

definition verify_clause :: "plan_input \<Rightarrow> string" where
  "verify_clause i = (if pi_verify_port i > 0 then
     join [nl]
      [[],
       [],
       ''The script's final lines MUST verify the app is listening on port '' @ itoa (pi_verify_port i) @ ''. End the script with:'',
       ''  for i in $(seq 1 6); do curl -sf -o /dev/null -m 5 http://127.0.0.1:'' @ itoa (pi_verify_port i) @ ''/ && exit 0; sleep 5; done; exit 1'',
       []]
     else [])"

definition rules_block :: "plan_input \<Rightarrow> string" where
  "rules_block i = (if pi_house_rules i \<noteq> [] then
     join [nl]
      [[],
       [],
       ''==== HOUSE RULES ===='',
       pi_house_rules i,
       ''==== END HOUSE RULES ===='',
       []]
     else [])"

definition reason_block :: "plan_input \<Rightarrow> string" where
  "reason_block i = (if trim_space (pi_prev_reason i) \<noteq> [] then
     join [nl]
      [[],
       ''==== SUPERVISOR REASON ===='',
       pi_prev_reason i,
       []]
     else [])"

definition planner_system :: "plan_input \<Rightarrow> string" where
  "planner_system i =
     join [nl]
      [''You are the PLANNER phase of agent-ops's plan/apply install loop.'',
       [],
       ''Your ONLY job: write a complete bash install script to '' @ pi_script_path i @ '' using the Write tool.'',
       ''You DO NOT have access to the Bash tool. You CANNOT execute commands. You CAN read files (Read tool) if you need to inspect /etc/os-release, /tmp state from prior attempts, etc.'',
       [],
       ''After Write, output a one-line summary (e.g. \"wrote install.sh, '' @ itoa 42 @ '' lines\"). Do not echo the script back '' @ em_dash @ '' it's already on disk.'',
       [],
       ''The script will be executed by the APPLY phase via:  /bin/bash '' @ pi_script_path i,
       ''Exit code 0 = success. Non-zero = failure '' @ right_arrow @ '' planner re-invoked with stderr/stdout for retry.'' @ verify_clause i @ rules_block i]"

definition planner_user :: "plan_input \<Rightarrow> string" where
  "planner_user i =
     (if pi_iteration i \<le> 1 then
     join [nl]
      [''Goal: '' @ pi_goal i,
       [],
       ''Write a complete bash script to '' @ pi_script_path i @ '' that installs and starts this app. The script must:'',
       ''  * run all installs in the foreground (no & on apt/npm/pip/etc.)'',
       ''  * background ONLY the final long-running app process (setsid nohup APP > /tmp/app.log 2>&1 & disown)'',
       ''  * end with a health-check loop that exits 0 only when the app responds'',
       [],
       ''After calling Write, reply with ONE LINE confirming the file was written. Do not paste the script back.'']
      else
     join [nl]
      [''Previous attempt failed (iteration '' @ itoa (pi_iteration i) @ ''). stderr/stdout below. Improve the script and write a new '' @ pi_script_path i @ ''.'',
       [],
       ''==== PREVIOUS EXIT CODE ===='',
       itoa (pi_prev_exit i),
       reason_block i,
       ''==== PREVIOUS STDERR (tail) ===='',
       truncate_str (trim_space (pi_prev_stderr i)) 2048,
       [],
       ''==== PREVIOUS STDOUT (tail) ===='',
       truncate_str (trim_space (pi_prev_stdout i)) 2048,
       [],
       ''==== ORIGINAL GOAL ===='',
       pi_goal i,
       [],
       ''Rewrite the WHOLE script with the fix baked in. Don't patch '' @ em_dash @ '' replace. After Write, reply with ONE LINE confirming what changed.''])"

definition build_planner_prompts :: "plan_input \<Rightarrow> string \<times> string" where
  "build_planner_prompts i = (planner_system i, planner_user i)"

subsection \<open>The supervisor\<close>

record supervisor_input =
  si_goal :: string
  si_iteration :: int
  si_script :: string
  si_elapsed_min :: int
  si_turn :: int
  si_status :: string
  si_exit :: "int option"
  si_tail :: string
  si_bytes :: int
  si_idle_seconds :: int
  si_verify_port :: int
  si_model :: string

definition exit_text :: "int option \<Rightarrow> string" where
  "exit_text e = (case e of None \<Rightarrow> ''null'' | Some n \<Rightarrow> itoa n)"

definition supervisor_hint :: "supervisor_input \<Rightarrow> string" where
  "supervisor_hint i = (if si_verify_port i > 0 then
     join [nl]
      [[],
       ''Verify hint (from catalog): the app should be listening on port '' @ itoa (si_verify_port i) @ ''. Look for `listening on :'' @ itoa (si_verify_port i) @ ''` or similar in the tail before declaring 'done'.'']
     else [])"

definition supervisor_system :: "supervisor_input \<Rightarrow> string" where
  "supervisor_system i =
     join [nl]
      [''You are the SUPERVISOR phase of agent-ops's plan/supervise/intervene loop.'',
       ''The PLANNER wrote a bash install script for this app. agent-ops is'',
       ''running it in the background and feeding you periodic snapshots.'',
       [],
       ''Your ONLY job: emit ONE JSON line, no prose, no markdown fence.'',
       [],
       ''Verdicts:'',
       ''  {\"verdict\":\"continue\",\"note\":\"<one-line user-facing progress>\"}'',
       ''  {\"verdict\":\"done\",\"note\":\"<one-line, e.g. 'app responding on :5678'>\"}'',
       ''  {\"verdict\":\"intervene\",\"reason\":\"<root cause>\",\"note\":\"<user-line>\"}'',
       [],
       ''Use 'done' ONLY if process EXITED with code 0 AND the output tail'',
       ''indicates the app actually started serving (curl 2xx/3xx in script's'',
       ''own verify, or \"listening on :PORT\" log line). The script's exit code'',
       ''alone isn't sufficient '' @ em_dash @ '' apps lie about being ready.'',
       [],
       ''Use 'intervene' if:'',
       ''  - process EXITED with non-zero code'',
       ''  - process RUNNING but no log activity for >3 minutes (idle_seconds in user prompt)'',
       ''  - log shows OOM kill, ENOSPC, FATAL, panic, segfault, etc'',
       ''  - log shows the app refused to start (port conflict, missing dep)'',
       ''  - you predict the current attempt won't succeed in remaining time'',
       [],
       ''Otherwise 'continue'. Be conservative on 'done' '' @ em_dash @ '' false positives'',
       ''leave broken instances live for users.'' @ supervisor_hint i,
       [],
       ''App goal (from operator): '' @ si_goal i,
       ''Current iteration script (v'' @ itoa (si_iteration i) @ ''):'',
       ''==='',
       truncate_str (si_script i) 4000,
       ''==='']"

definition supervisor_user :: "supervisor_input \<Rightarrow> string" where
  "supervisor_user i =
     join [nl]
      [''ITERATION '' @ itoa (si_iteration i) @ '' (script v'' @ itoa (si_iteration i) @ ''), SUPERVISOR TURN '' @ itoa (si_turn i) @ '':'',
       ''ELAPSED: '' @ itoa (si_elapsed_min i) @ ''min'',
       ''PROC_STATUS: '' @ si_status i,
       ''EXIT_CODE: '' @ exit_text (si_exit i),
       ''IDLE_SECONDS: '' @ itoa (si_idle_seconds i) @ ''  (seconds since the live log last grew; threshold for 'stuck' is '' @ itoa 180 @ '')'',
       ''BYTES_SINCE_LAST_POLL: '' @ itoa (si_bytes i),
       ''OUTPUT TAIL (last '' @ itoa 2048 @ '' bytes):'',
       ''==='',
       si_tail i,
       ''==='',
       [],
       ''VERDICT?'']"

definition build_supervisor_prompts :: "supervisor_input \<Rightarrow> string \<times> string" where
  "build_supervisor_prompts i = (supervisor_system i, supervisor_user i)"

end
