(* ===== verification/Store.thy ===== *)
theory Store
  imports GoLib
begin

text \<open>
  \<^verbatim>\<open>internal/state\<close>: the persistent store (\<^verbatim>\<open>state.go\<close>) and the instance mission
  (\<^verbatim>\<open>mission.go\<close>). The SQLite database is the record \<open>db\<close>, one field per table; each SQL
  statement of the source is a function on it, and a transaction runs its statements in order
  and keeps the database as it was when one of them fails. Which of the database calls of an
  operation fails, and with which message, is an argument (\<open>faults\<close>), so that every error
  path is a branch. JSON columns are kept as the values they encode.

  Every operation satisfies the contract \<open>store_op\<close> and those that write in a transaction the
  stronger \<open>logged_op\<close>: success appends exactly one event, failure changes nothing. The domain
  tables are shown to be the replay of the event log.
\<close>

subsection \<open>Rows and tables\<close>

datatype run_status =
    StatusRunning | StatusCompleted | StatusFailed | StatusCanceled | StatusTimeout
  | StatusOther string

fun is_terminal :: "run_status \<Rightarrow> bool" where
  "is_terminal StatusCompleted = True"
| "is_terminal StatusFailed = True"
| "is_terminal StatusCanceled = True"
| "is_terminal StatusTimeout = True"
| "is_terminal _ = False"

fun status_text :: "run_status \<Rightarrow> string" where
  "status_text StatusRunning = ''running''"
| "status_text StatusCompleted = ''completed''"
| "status_text StatusFailed = ''failed''"
| "status_text StatusCanceled = ''canceled''"
| "status_text StatusTimeout = ''timeout''"
| "status_text (StatusOther s) = s"

record task =
  t_name :: string
  t_cron :: string
  t_prompt :: string
  t_tools :: "string list"
  t_enabled :: bool
  t_updated_at :: instant

text \<open>The Go struct \<^verbatim>\<open>TaskRun\<close>; a zero \<^verbatim>\<open>time.Time\<close> is \<open>None\<close>.\<close>

record task_run =
  tr_id :: string
  tr_task_name :: string
  tr_trigger :: string
  tr_started_at :: "instant option"
  tr_ended_at :: "instant option"
  tr_status :: run_status
  tr_summary :: string
  tr_tool_calls :: int
  tr_cost_usd_micro :: int
  tr_error :: string

text \<open>A row of \<^verbatim>\<open>task_runs\<close>; a nullable column is an option.\<close>

record run_row =
  rr_id :: string
  rr_task_name :: string
  rr_trigger :: string
  rr_started_at :: instant
  rr_ended_at :: "instant option"
  rr_status :: run_status
  rr_summary :: "string option"
  rr_tool_calls :: int
  rr_cost_usd_micro :: int
  rr_error :: "string option"

record run_log =
  rl_run_id :: string
  rl_seq :: int
  rl_ts :: instant
  rl_level :: string
  rl_message :: string

record fact =
  f_ts :: instant
  f_source :: string
  f_fact :: string

record mission =
  m_statement :: string
  m_facts :: "fact list"
  m_updated_at :: instant

datatype payload =
    TaskUpserted task
  | RunStarted task_run
  | RunFinished string run_status string string int
  | StatementSet string
  | FactAdded string string
  | RawPayload string

record event =
  e_seq :: int
  e_ts :: instant
  e_typ :: string
  e_payload :: payload

record db =
  db_events :: "event list"
  db_last_seq :: int
  db_tasks :: "task list"
  db_runs :: "run_row list"
  db_logs :: "run_log list"
  db_mission :: "mission option"

definition max_facts :: nat where
  "max_facts = 100"

definition empty_db :: db where
  "empty_db = \<lparr>db_events = [], db_last_seq = 0, db_tasks = [], db_runs = [], db_logs = [],
     db_mission = None\<rparr>"

text \<open>\<^verbatim>\<open>migrateMission\<close>: the singleton row is seeded if it is absent.\<close>

definition migrate_mission :: "instant \<Rightarrow> db \<Rightarrow> db" where
  "migrate_mission now d =
     (case db_mission d of
        None \<Rightarrow> d\<lparr>db_mission := Some \<lparr>m_statement = [], m_facts = [], m_updated_at = now\<rparr>\<rparr>
      | Some _ \<Rightarrow> d)"

subsection \<open>Errors, statements and transactions\<close>

datatype store_error =
    NameRequired
  | TypeRequired
  | MarshalError string
  | RunFieldsRequired
  | NotTerminal run_status
  | NotRunning string
  | TextRequired
  | NoRows
  | UniqueViolation
  | ForeignKeyViolation
  | DbError string

fun store_error_text :: "store_error \<Rightarrow> string" where
  "store_error_text NameRequired = ''state.UpsertTask: Name required''"
| "store_error_text TypeRequired = ''state.Append: type required''"
| "store_error_text (MarshalError m) = ''state.Append: marshal: '' @ m"
| "store_error_text RunFieldsRequired = ''state.StartRun: ID and TaskName required''"
| "store_error_text (NotTerminal s) =
     ''state.FinishRun: status '' @ quoted (status_text s) @ '' is not terminal''"
| "store_error_text (NotRunning i) =
     ''state.FinishRun: run '' @ quoted i @ '' is not in 'running' state''"
| "store_error_text TextRequired = ''state.AddFact: text required''"
| "store_error_text NoRows = ''sql: no rows in result set''"
| "store_error_text UniqueViolation = ''UNIQUE constraint failed''"
| "store_error_text ForeignKeyViolation = ''FOREIGN KEY constraint failed''"
| "store_error_text (DbError m) = m"

text \<open>\<open>f i\<close> is the message with which the \<open>i\<close>-th database call of an operation fails, if it does.\<close>

type_synonym faults = "nat \<Rightarrow> string option"

abbreviation no_faults :: faults where "no_faults \<equiv> \<lambda>_. None"

type_synonym stmt = "db \<Rightarrow> store_error + db"

fun run_stmts :: "faults \<Rightarrow> nat \<Rightarrow> stmt list \<Rightarrow> stmt" where
  "run_stmts f i [] d = Inr d"
| "run_stmts f i (s # ss) d =
     (case f i of
        Some m \<Rightarrow> Inl (DbError m)
      | None \<Rightarrow> (case s d of Inl e \<Rightarrow> Inl e | Inr d' \<Rightarrow> run_stmts f (Suc i) ss d'))"

text \<open>
  \<^verbatim>\<open>BeginTx\<close> is call 0, the statements follow, and \<^verbatim>\<open>Commit\<close> is the last. The deferred
  \<^verbatim>\<open>Rollback\<close> leaves the database as it was on every other way out.
\<close>

definition run_tx :: "faults \<Rightarrow> stmt list \<Rightarrow> db \<Rightarrow> (store_error + unit) \<times> db" where
  "run_tx f ss d =
     (case f 0 of
        Some m \<Rightarrow> (Inl (DbError m), d)
      | None \<Rightarrow>
          (case run_stmts f 1 ss d of
             Inl e \<Rightarrow> (Inl e, d)
           | Inr d' \<Rightarrow>
               (case f (Suc (length ss)) of
                  Some m \<Rightarrow> (Inl (DbError m), d)
                | None \<Rightarrow> (Inr (), d'))))"

text \<open>\<^verbatim>\<open>INSERT INTO events\<close>: the sequence number is SQLite's \<^verbatim>\<open>AUTOINCREMENT\<close>.\<close>

definition insert_event :: "instant \<Rightarrow> string \<Rightarrow> payload \<Rightarrow> db \<Rightarrow> db" where
  "insert_event ts typ p d =
     d\<lparr>db_events := db_events d @
         [\<lparr>e_seq = db_last_seq d + 1, e_ts = ts, e_typ = typ, e_payload = p\<rparr>],
       db_last_seq := db_last_seq d + 1\<rparr>"

lemma run_tx_Inr:
  "run_tx f ss d = (Inr u, d') \<Longrightarrow>
     f 0 = None \<and> f (Suc (length ss)) = None \<and> run_stmts f 1 ss d = Inr d'"
  by (auto simp: run_tx_def split: option.splits sum.splits)

lemma run_tx_Inl: "run_tx f ss d = (Inl e, d') \<Longrightarrow> d' = d"
  by (auto simp: run_tx_def split: option.splits sum.splits)

lemma run_tx_no_faults:
  "run_tx no_faults ss d =
     (case run_stmts no_faults 1 ss d of Inl e \<Rightarrow> (Inl e, d) | Inr d' \<Rightarrow> (Inr (), d'))"
  by (simp add: run_tx_def split: sum.splits)

subsection \<open>Events\<close>

text \<open>
  \<^verbatim>\<open>Append\<close>: \<open>raw\<close> is what \<^verbatim>\<open>json.Marshal\<close> makes of the payload, or its error. Call 0 is
  the insertion, call 1 \<^verbatim>\<open>LastInsertId\<close>, whose failure leaves the row behind.
\<close>

definition append_event ::
  "string \<Rightarrow> string + string \<Rightarrow> faults \<Rightarrow> instant \<Rightarrow> db \<Rightarrow> (store_error + event) \<times> db" where
  "append_event typ raw f now d =
     (if typ = [] then (Inl TypeRequired, d)
      else case raw of
        Inl m \<Rightarrow> (Inl (MarshalError m), d)
      | Inr p \<Rightarrow>
          (case f 0 of
             Some m \<Rightarrow> (Inl (DbError m), d)
           | None \<Rightarrow>
               (let d' = insert_event now typ (RawPayload p) d
                in case f 1 of
                  Some m \<Rightarrow> (Inl (DbError m), d')
                | None \<Rightarrow> (Inr (last (db_events d')), d'))))"

definition events_since :: "int \<Rightarrow> int \<Rightarrow> faults \<Rightarrow> db \<Rightarrow> store_error + event list" where
  "events_since from_seq limit f d =
     (let limit = (if limit \<le> 0 \<or> limit > 10000 then 1000 else limit)
      in case f 0 of
        Some m \<Rightarrow> Inl (DbError m)
      | None \<Rightarrow>
          Inr (take (nat limit)
                 (sort_key e_seq (filter (\<lambda>e. e_seq e > from_seq) (db_events d)))))"

subsection \<open>Tasks\<close>

definition upsert_task_stmts :: "task \<Rightarrow> instant \<Rightarrow> stmt list" where
  "upsert_task_stmts t now =
     (let t' = t\<lparr>t_updated_at := now\<rparr>
      in [\<lambda>d. Inr (d\<lparr>db_tasks := put_row t_name t' (db_tasks d)\<rparr>),
          \<lambda>d. Inr (insert_event now ''task.upserted'' (TaskUpserted t') d)])"

definition upsert_task :: "task \<Rightarrow> faults \<Rightarrow> instant \<Rightarrow> db \<Rightarrow> (store_error + unit) \<times> db" where
  "upsert_task t f now d =
     (if t_name t = [] then (Inl NameRequired, d)
      else run_tx f (upsert_task_stmts t now) d)"

definition get_task :: "string \<Rightarrow> faults \<Rightarrow> db \<Rightarrow> store_error + task" where
  "get_task name f d =
     (case f 0 of
        Some m \<Rightarrow> Inl (DbError m)
      | None \<Rightarrow> (case find_row t_name name (db_tasks d) of None \<Rightarrow> Inl NoRows | Some t \<Rightarrow> Inr t))"

definition list_tasks :: "faults \<Rightarrow> db \<Rightarrow> store_error + task list" where
  "list_tasks f d =
     (case f 0 of Some m \<Rightarrow> Inl (DbError m) | None \<Rightarrow> Inr (sort_key t_name (db_tasks d)))"

subsection \<open>Task runs\<close>

text \<open>The columns that \<^verbatim>\<open>StartRun\<close> inserts; the others take the schema's defaults.\<close>

definition started_row :: "task_run \<Rightarrow> instant \<Rightarrow> run_row" where
  "started_row run started =
     \<lparr>rr_id = tr_id run, rr_task_name = tr_task_name run, rr_trigger = tr_trigger run,
      rr_started_at = started, rr_ended_at = None, rr_status = tr_status run,
      rr_summary = None, rr_tool_calls = 0, rr_cost_usd_micro = 0, rr_error = None\<rparr>"

definition start_run_stmts :: "task_run \<Rightarrow> instant \<Rightarrow> stmt list" where
  "start_run_stmts run now =
     (let started = (case tr_started_at run of None \<Rightarrow> now | Some s \<Rightarrow> s);
          run' = run\<lparr>tr_started_at := Some started, tr_status := StatusRunning\<rparr>
      in [\<lambda>d. (case find_row rr_id (tr_id run) (db_runs d) of
                 Some _ \<Rightarrow> Inl UniqueViolation
               | None \<Rightarrow> Inr (d\<lparr>db_runs := db_runs d @ [started_row run' started]\<rparr>)),
          \<lambda>d. Inr (insert_event started ''run.started'' (RunStarted run') d)])"

definition start_run :: "task_run \<Rightarrow> faults \<Rightarrow> instant \<Rightarrow> db \<Rightarrow> (store_error + unit) \<times> db" where
  "start_run run f now d =
     (if tr_id run = [] \<or> tr_task_name run = [] then (Inl RunFieldsRequired, d)
      else run_tx f (start_run_stmts run now) d)"

definition finish_row ::
  "instant \<Rightarrow> run_status \<Rightarrow> string \<Rightarrow> string \<Rightarrow> int \<Rightarrow> run_row \<Rightarrow> run_row" where
  "finish_row now status summary err calls r =
     r\<lparr>rr_ended_at := Some now, rr_status := status, rr_summary := Some summary,
       rr_error := Some err, rr_tool_calls := calls\<rparr>"

text \<open>
  The \<^verbatim>\<open>UPDATE\<close> of \<^verbatim>\<open>FinishRun\<close> with its \<^verbatim>\<open>WHERE id=? AND status='running'\<close>, and the
  check of the affected rows.
\<close>

definition close_run :: "string \<Rightarrow> (run_row \<Rightarrow> run_row) \<Rightarrow> run_row list \<Rightarrow> run_row list" where
  "close_run i upd rows =
     map (\<lambda>r. if rr_id r = i \<and> rr_status r = StatusRunning then upd r else r) rows"

definition finish_run_stmts ::
  "string \<Rightarrow> run_status \<Rightarrow> string \<Rightarrow> string \<Rightarrow> int \<Rightarrow> instant \<Rightarrow> stmt list" where
  "finish_run_stmts i status summary err calls now =
     [\<lambda>d. if \<exists>r \<in> set (db_runs d). rr_id r = i \<and> rr_status r = StatusRunning
          then Inr (d\<lparr>db_runs :=
                 close_run i (finish_row now status summary err calls) (db_runs d)\<rparr>)
          else Inl (NotRunning i),
      \<lambda>d. Inr (insert_event now ''run.finished'' (RunFinished i status summary err calls) d)]"

definition finish_run ::
  "string \<Rightarrow> run_status \<Rightarrow> string \<Rightarrow> string \<Rightarrow> int \<Rightarrow> faults \<Rightarrow> instant \<Rightarrow> db \<Rightarrow>
     (store_error + unit) \<times> db" where
  "finish_run i status summary err calls f now d =
     (if \<not> is_terminal status then (Inl (NotTerminal status), d)
      else run_tx f (finish_run_stmts i status summary err calls now) d)"

definition run_of_row :: "run_row \<Rightarrow> task_run" where
  "run_of_row r =
     \<lparr>tr_id = rr_id r, tr_task_name = rr_task_name r, tr_trigger = rr_trigger r,
      tr_started_at = Some (rr_started_at r), tr_ended_at = rr_ended_at r,
      tr_status = rr_status r,
      tr_summary = (case rr_summary r of None \<Rightarrow> [] | Some s \<Rightarrow> s),
      tr_tool_calls = rr_tool_calls r, tr_cost_usd_micro = rr_cost_usd_micro r,
      tr_error = (case rr_error r of None \<Rightarrow> [] | Some s \<Rightarrow> s)\<rparr>"

definition get_run :: "string \<Rightarrow> faults \<Rightarrow> db \<Rightarrow> store_error + task_run" where
  "get_run i f d =
     (case f 0 of
        Some m \<Rightarrow> Inl (DbError m)
      | None \<Rightarrow> (case find_row rr_id i (db_runs d) of
                  None \<Rightarrow> Inl NoRows | Some r \<Rightarrow> Inr (run_of_row r)))"

definition list_runs :: "string \<Rightarrow> int \<Rightarrow> faults \<Rightarrow> db \<Rightarrow> store_error + task_run list" where
  "list_runs task_name limit f d =
     (let limit = (if limit \<le> 0 \<or> limit > 1000 then 50 else limit);
          rows = (if task_name = [] then db_runs d
                  else filter (\<lambda>r. rr_task_name r = task_name) (db_runs d))
      in case f 0 of
        Some m \<Rightarrow> Inl (DbError m)
      | None \<Rightarrow>
          Inr (map run_of_row (take (nat limit) (sort_key (\<lambda>r. - rr_started_at r) rows))))"

subsection \<open>Run logs\<close>

definition append_run_log ::
  "string \<Rightarrow> int \<Rightarrow> string \<Rightarrow> string \<Rightarrow> faults \<Rightarrow> instant \<Rightarrow> db \<Rightarrow> (store_error + unit) \<times> db" where
  "append_run_log i seq level message f now d =
     (case f 0 of
        Some m \<Rightarrow> (Inl (DbError m), d)
      | None \<Rightarrow>
          if \<exists>l \<in> set (db_logs d). rl_run_id l = i \<and> rl_seq l = seq then (Inl UniqueViolation, d)
          else if find_row rr_id i (db_runs d) = None then (Inl ForeignKeyViolation, d)
          else (Inr (), d\<lparr>db_logs := db_logs d @
                 [\<lparr>rl_run_id = i, rl_seq = seq, rl_ts = now, rl_level = level,
                   rl_message = message\<rparr>]\<rparr>))"

definition logs_for_run :: "string \<Rightarrow> int \<Rightarrow> faults \<Rightarrow> db \<Rightarrow> store_error + run_log list" where
  "logs_for_run i limit f d =
     (let limit = (if limit \<le> 0 \<or> limit > 5000 then 500 else limit)
      in case f 0 of
        Some m \<Rightarrow> Inl (DbError m)
      | None \<Rightarrow>
          Inr (take (nat limit)
                 (sort_key rl_seq (filter (\<lambda>l. rl_run_id l = i) (db_logs d)))))"

subsection \<open>The mission\<close>

definition get_mission :: "faults \<Rightarrow> db \<Rightarrow> store_error + mission" where
  "get_mission f d =
     (case f 0 of
        Some m \<Rightarrow> Inl (DbError m)
      | None \<Rightarrow> (case db_mission d of None \<Rightarrow> Inl NoRows | Some m \<Rightarrow> Inr m))"

definition set_statement_stmts :: "string \<Rightarrow> instant \<Rightarrow> stmt list" where
  "set_statement_stmts statement now =
     [\<lambda>d. Inr (d\<lparr>db_mission :=
          map_option (\<lambda>m. m\<lparr>m_statement := statement, m_updated_at := now\<rparr>) (db_mission d)\<rparr>),
      \<lambda>d. Inr (insert_event now ''mission.statement_set'' (StatementSet statement) d)]"

definition set_statement :: "string \<Rightarrow> faults \<Rightarrow> instant \<Rightarrow> db \<Rightarrow> (store_error + unit) \<times> db" where
  "set_statement statement f now d = run_tx f (set_statement_stmts statement now) d"

text \<open>The bound of the facts list: the newest \<open>max_facts\<close> are kept.\<close>

definition push_fact :: "fact \<Rightarrow> fact list \<Rightarrow> fact list" where
  "push_fact x facts = take_last max_facts (facts @ [x])"

definition add_fact_stmts :: "string \<Rightarrow> string \<Rightarrow> instant \<Rightarrow> stmt list" where
  "add_fact_stmts source txt now =
     [\<lambda>d. (case db_mission d of None \<Rightarrow> Inl NoRows | Some _ \<Rightarrow> Inr d),
      \<lambda>d. Inr (d\<lparr>db_mission := map_option (\<lambda>m. m\<lparr>m_facts :=
             push_fact \<lparr>f_ts = now, f_source = source, f_fact = txt\<rparr> (m_facts m),
             m_updated_at := now\<rparr>) (db_mission d)\<rparr>),
      \<lambda>d. Inr (insert_event now ''mission.fact_added'' (FactAdded source txt) d)]"

definition add_fact ::
  "string \<Rightarrow> string \<Rightarrow> faults \<Rightarrow> instant \<Rightarrow> db \<Rightarrow> (store_error + fact list) \<times> db" where
  "add_fact source txt f now d =
     (let txt = trim_space txt;
          source = (if source = [] then ''auto'' else source)
      in if txt = [] then (Inl TextRequired, d)
         else case run_tx f (add_fact_stmts source txt now) d of
           (Inl e, d') \<Rightarrow> (Inl e, d')
         | (Inr _, d') \<Rightarrow>
             (Inr (case db_mission d' of None \<Rightarrow> [] | Some m \<Rightarrow> m_facts m), d'))"

subsection \<open>The event log and its replay\<close>

text \<open>
  The abstract specification of the store is a replica that sees only the events: \<open>view_of\<close>
  is what it holds of the domain tables, \<open>apply_event\<close> how it applies one event.
\<close>

type_synonym view = "task list \<times> run_row list \<times> mission option"

definition view_of :: "db \<Rightarrow> view" where
  "view_of d = (db_tasks d, db_runs d, db_mission d)"

fun apply_payload :: "instant \<Rightarrow> payload \<Rightarrow> view \<Rightarrow> view" where
  "apply_payload ts (TaskUpserted t) (tasks, runs, m) = (put_row t_name t tasks, runs, m)"
| "apply_payload ts (RunStarted run) (tasks, runs, m) =
     (tasks, runs @ [started_row run (case tr_started_at run of None \<Rightarrow> ts | Some s \<Rightarrow> s)], m)"
| "apply_payload ts (RunFinished i status summary err calls) (tasks, runs, m) =
     (tasks, close_run i (finish_row ts status summary err calls) runs, m)"
| "apply_payload ts (StatementSet s) (tasks, runs, m) =
     (tasks, runs, map_option (\<lambda>m. m\<lparr>m_statement := s, m_updated_at := ts\<rparr>) m)"
| "apply_payload ts (FactAdded source txt) (tasks, runs, m) =
     (tasks, runs, map_option (\<lambda>m. m\<lparr>m_facts :=
        push_fact \<lparr>f_ts = ts, f_source = source, f_fact = txt\<rparr> (m_facts m),
        m_updated_at := ts\<rparr>) m)"
| "apply_payload ts (RawPayload _) v = v"

definition apply_event :: "event \<Rightarrow> view \<Rightarrow> view" where
  "apply_event e v = apply_payload (e_ts e) (e_payload e) v"

definition log_wf :: "db \<Rightarrow> bool" where
  "log_wf d \<longleftrightarrow> db_last_seq d = int (length (db_events d)) \<and>
     map e_seq (db_events d) = map (\<lambda>i. int i + 1) [0..<length (db_events d)]"

lemma log_wf_insert_event [wf_intros]: "log_wf d \<Longrightarrow> log_wf (insert_event ts ty p d)"
  by (simp add: log_wf_def insert_event_def)

lemma insert_event_view [simp]: "view_of (insert_event ts typ p d) = view_of d"
  by (simp add: view_of_def insert_event_def)

lemma close_run_keys [simp]: "map rr_id (close_run i (finish_row now st su er ca) rows) = map rr_id rows"
  by (auto simp: close_run_def finish_row_def)

lemma apply_payload_keeps_terminal:
  assumes "find_row rr_id i (fst (snd v)) = Some r" and "is_terminal (rr_status r)"
  shows "find_row rr_id i (fst (snd (apply_payload ts p v))) = Some r"
proof (cases p)
  case (RunFinished j st su er ca)
  obtain tasks runs m where v: "v = (tasks, runs, m)" by (cases v)
  let ?g = "\<lambda>r. if rr_id r = j \<and> rr_status r = StatusRunning then finish_row ts st su er ca r else r"
  have "rr_id (?g x) = rr_id x" for x by (simp add: finish_row_def)
  then have "find_row rr_id i (map ?g runs) = map_option ?g (find_row rr_id i runs)"
    by (rule find_row_map)
  with assms v RunFinished show ?thesis by (auto simp: close_run_def)
qed (use assms in \<open>cases v; simp add: find_row_append\<close>)+

subsection \<open>Contracts of the operations\<close>

text \<open>
  Every writing operation extends the log, and moves the tables as the new events say. Clients
  see in any such operation that finished runs stay as they are.
\<close>

locale store_op =
  fixes oper :: "faults \<Rightarrow> instant \<Rightarrow> db \<Rightarrow> (store_error + 'a) \<times> db"
  assumes replays: "oper f now d = (res, d') \<Longrightarrow>
    \<exists>es. db_events d' = db_events d @ es \<and> (log_wf d \<longrightarrow> log_wf d') \<and>
      view_of d' = fold apply_event es (view_of d)"
begin

lemma fold_keeps_terminal:
  "find_row rr_id i (fst (snd v)) = Some r \<Longrightarrow> is_terminal (rr_status r) \<Longrightarrow>
     find_row rr_id i (fst (snd (fold apply_event es v))) = Some r"
  by (induction es arbitrary: v) (auto simp: apply_event_def apply_payload_keeps_terminal)

lemma terminal_run_kept:
  assumes "oper f now d = (res, d')"
    and "find_row rr_id i (db_runs d) = Some r" and "is_terminal (rr_status r)"
  shows "find_row rr_id i (db_runs d') = Some r"
proof -
  obtain es where "view_of d' = fold apply_event es (view_of d)"
    using replays [OF assms(1)] by blast
  with fold_keeps_terminal [of i "view_of d" r es] assms(2,3) show ?thesis
    by (metis fst_conv snd_conv view_of_def)
qed

end

text \<open>
  The transactional operations: one event on success, nothing on failure, and the tables move
  by exactly that event.
\<close>

locale logged_op =
  fixes oper :: "faults \<Rightarrow> instant \<Rightarrow> db \<Rightarrow> (store_error + 'a) \<times> db"
  assumes ok_logged: "oper f now d = (Inr v, d') \<Longrightarrow>
      \<exists>ts typ p. db_events d' = db_events (insert_event ts typ p d) \<and>
        db_last_seq d' = db_last_seq d + 1 \<and> view_of d' = apply_payload ts p (view_of d)"
    and err_unchanged: "oper f now d = (Inl e, d') \<Longrightarrow> d' = d"
begin

lemma ok_replays:
  assumes "oper f now d = (Inr v, d')"
  shows "\<exists>e. db_events d' = db_events d @ [e] \<and> e_seq e = db_last_seq d + 1 \<and>
    (log_wf d \<longrightarrow> log_wf d') \<and> view_of d' = apply_event e (view_of d)"
proof -
  obtain ts ty p where *: "db_events d' = db_events (insert_event ts ty p d)"
      "db_last_seq d' = db_last_seq d + 1" "view_of d' = apply_payload ts p (view_of d)"
    using ok_logged [OF assms] by blast
  have "log_wf d \<longrightarrow> log_wf d'"
    using * log_wf_insert_event [of d ts ty p] by (simp add: log_wf_def insert_event_def)
  with * show ?thesis by (simp add: insert_event_def apply_event_def)
qed

lemma snd_cases:
  assumes "P d" and "\<And>v d'. oper f now d = (Inr v, d') \<Longrightarrow> P d'"
  shows "P (snd (oper f now d))"
proof (cases "oper f now d")
  case (Pair res d')
  then show ?thesis using assms err_unchanged [of f now d _ d'] by (cases res) auto
qed

lemma all_or_nothing:
  assumes "oper f now d = (res, d')"
  shows "(case res of Inl e \<Rightarrow> d' = d | Inr v \<Rightarrow> length (db_events d') = Suc (length (db_events d)))"
  using assms ok_replays err_unchanged by (cases res) fastforce+

end

sublocale logged_op \<subseteq> store_op oper
proof
  fix f now d res d'
  assume run: "oper f now d = (res, d')"
  show "\<exists>es. db_events d' = db_events d @ es \<and> (log_wf d \<longrightarrow> log_wf d') \<and>
      view_of d' = fold apply_event es (view_of d)"
  proof (cases res)
    case (Inl e)
    then have "d' = d" using run err_unchanged by simp
    then show ?thesis by (intro exI [of _ "[]"]) simp
  next
    case (Inr v)
    then obtain e where "db_events d' = db_events d @ [e]" "log_wf d \<longrightarrow> log_wf d'"
        "view_of d' = apply_event e (view_of d)"
      using run ok_replays by blast
    then show ?thesis by (intro exI [of _ "[e]"]) simp
  qed
qed

text \<open>The operations meet their contracts.\<close>

lemmas stmts_defs = upsert_task_stmts_def start_run_stmts_def finish_run_stmts_def
  set_statement_stmts_def add_fact_stmts_def

lemma db_last_seq_insert [simp]: "db_last_seq (insert_event ts typ p d) = db_last_seq d + 1"
  by (simp add: insert_event_def)

interpretation upsert: logged_op "upsert_task t"
proof
  fix f now d v d'
  assume run: "upsert_task t f now d = (Inr v, d')"
  have d': "d' = insert_event now ''task.upserted'' (TaskUpserted (t\<lparr>t_updated_at := now\<rparr>))
      (d\<lparr>db_tasks := put_row t_name (t\<lparr>t_updated_at := now\<rparr>) (db_tasks d)\<rparr>)"
    using run by (auto simp: upsert_task_def stmts_defs Let_def dest!: run_tx_Inr
        split: if_splits option.splits)
  show "\<exists>ts typ p. db_events d' = db_events (insert_event ts typ p d) \<and>
      db_last_seq d' = db_last_seq d + 1 \<and> view_of d' = apply_payload ts p (view_of d)"
    by (intro exI [of _ now] exI [of _ "''task.upserted''"] exI [of _ "TaskUpserted (t\<lparr>t_updated_at := now\<rparr>)"])
      (simp add: d' view_of_def insert_event_def)
qed (auto simp: upsert_task_def dest: run_tx_Inl split: if_splits)

text \<open>What a successful operation leaves, as one equation each.\<close>

lemma start_run_Inr:
  assumes "start_run run f now d = (Inr v, d')"
  defines "started \<equiv> case tr_started_at run of None \<Rightarrow> now | Some s \<Rightarrow> s"
  defines "run' \<equiv> run\<lparr>tr_started_at := Some started, tr_status := StatusRunning\<rparr>"
  shows "d' = insert_event started ''run.started'' (RunStarted run')
      (d\<lparr>db_runs := db_runs d @ [started_row run' started]\<rparr>) \<and>
    find_row rr_id (tr_id run) (db_runs d) = None \<and> tr_id run \<noteq> [] \<and> tr_task_name run \<noteq> []"
  using assms(1) unfolding run'_def started_def
  by (auto simp: start_run_def stmts_defs Let_def dest!: run_tx_Inr split: if_splits option.splits)

lemma finish_run_Inr:
  assumes "finish_run i status summary err calls f now d = (Inr v, d')"
  shows "d' = insert_event now ''run.finished'' (RunFinished i status summary err calls)
      (d\<lparr>db_runs := close_run i (finish_row now status summary err calls) (db_runs d)\<rparr>) \<and>
    is_terminal status \<and> (\<exists>r \<in> set (db_runs d). rr_id r = i \<and> rr_status r = StatusRunning)"
  using assms
  by (auto simp: finish_run_def stmts_defs Let_def dest!: run_tx_Inr split: if_splits option.splits)

lemma set_statement_Inr:
  assumes "set_statement s f now d = (Inr v, d')"
  shows "d' = insert_event now ''mission.statement_set'' (StatementSet s)
      (d\<lparr>db_mission := map_option (\<lambda>m. m\<lparr>m_statement := s, m_updated_at := now\<rparr>) (db_mission d)\<rparr>)"
  using assms by (auto simp: set_statement_def stmts_defs dest!: run_tx_Inr split: option.splits)

lemma add_fact_Inr:
  assumes "add_fact source txt f now d = (Inr facts, d')"
  defines "src \<equiv> if source = [] then ''auto'' else source"
  shows "\<exists>m. db_mission d = Some m \<and> trim_space txt \<noteq> [] \<and>
    facts = push_fact \<lparr>f_ts = now, f_source = src, f_fact = trim_space txt\<rparr> (m_facts m) \<and>
    d' = insert_event now ''mission.fact_added'' (FactAdded src (trim_space txt))
      (d\<lparr>db_mission := Some (m\<lparr>m_facts := facts, m_updated_at := now\<rparr>)\<rparr>)"
  using assms(1) unfolding src_def
  by (auto simp: add_fact_def stmts_defs Let_def insert_event_def dest!: run_tx_Inr
      split: if_splits option.splits prod.splits sum.splits)

interpretation start: logged_op "start_run run"
proof
  fix f now d v d'
  let ?s = "case tr_started_at run of None \<Rightarrow> now | Some s \<Rightarrow> s"
  let ?run = "run\<lparr>tr_started_at := Some ?s, tr_status := StatusRunning\<rparr>"
  assume "start_run run f now d = (Inr v, d')"
  note d' = conjunct1 [OF start_run_Inr [OF this]]
  show "\<exists>ts typ p. db_events d' = db_events (insert_event ts typ p d) \<and>
      db_last_seq d' = db_last_seq d + 1 \<and> view_of d' = apply_payload ts p (view_of d)"
    by (intro exI [of _ ?s] exI [of _ "''run.started''"] exI [of _ "RunStarted ?run"])
      (simp add: d' view_of_def insert_event_def)
qed (auto simp: start_run_def dest: run_tx_Inl split: if_splits)

interpretation finish: logged_op "finish_run i status summary err calls"
proof
  fix f now d v d'
  assume "finish_run i status summary err calls f now d = (Inr v, d')"
  note d' = conjunct1 [OF finish_run_Inr [OF this]]
  show "\<exists>ts typ p. db_events d' = db_events (insert_event ts typ p d) \<and>
      db_last_seq d' = db_last_seq d + 1 \<and> view_of d' = apply_payload ts p (view_of d)"
    by (intro exI [of _ now] exI [of _ "''run.finished''"]
        exI [of _ "RunFinished i status summary err calls"])
      (simp add: d' view_of_def insert_event_def)
qed (auto simp: finish_run_def dest: run_tx_Inl split: if_splits)

interpretation statement: logged_op "set_statement s"
proof
  fix f now d v d'
  assume "set_statement s f now d = (Inr v, d')"
  note d' = set_statement_Inr [OF this]
  show "\<exists>ts typ p. db_events d' = db_events (insert_event ts typ p d) \<and>
      db_last_seq d' = db_last_seq d + 1 \<and> view_of d' = apply_payload ts p (view_of d)"
    by (intro exI [of _ now] exI [of _ "''mission.statement_set''"] exI [of _ "StatementSet s"])
      (simp add: d' view_of_def insert_event_def)
qed (auto simp: set_statement_def dest: run_tx_Inl)

interpretation addfact: logged_op "add_fact source txt"
proof
  fix f now d v d'
  let ?src = "if source = [] then ''auto'' else source"
  assume "add_fact source txt f now d = (Inr v, d')"
  from add_fact_Inr [OF this] obtain m where m: "db_mission d = Some m"
    and v: "v = push_fact \<lparr>f_ts = now, f_source = ?src, f_fact = trim_space txt\<rparr> (m_facts m)"
    and d': "d' = insert_event now ''mission.fact_added'' (FactAdded ?src (trim_space txt))
      (d\<lparr>db_mission := Some (m\<lparr>m_facts := v, m_updated_at := now\<rparr>)\<rparr>)"
    by blast
  show "\<exists>ts typ p. db_events d' = db_events (insert_event ts typ p d) \<and>
      db_last_seq d' = db_last_seq d + 1 \<and> view_of d' = apply_payload ts p (view_of d)"
    by (intro exI [of _ now] exI [of _ "''mission.fact_added''"]
        exI [of _ "FactAdded ?src (trim_space txt)"])
      (simp add: d' m v view_of_def insert_event_def)
qed (auto simp: add_fact_def Let_def dest: run_tx_Inl split: if_splits prod.splits sum.splits)

interpretation append: store_op "append_event typ raw"
proof
  fix f now d res d'
  assume run: "append_event typ raw f now d = (res, d')"
  have "d' = d \<or> (\<exists>p. d' = insert_event now typ (RawPayload p) d)"
    using run by (auto simp: append_event_def Let_def split: if_splits sum.splits option.splits)
  then show "\<exists>es. db_events d' = db_events d @ es \<and> (log_wf d \<longrightarrow> log_wf d') \<and>
      view_of d' = fold apply_event es (view_of d)"
  proof
    assume "d' = d"
    then show ?thesis by (intro exI [of _ "[]"]) simp
  next
    assume "\<exists>p. d' = insert_event now typ (RawPayload p) d"
    then obtain p where d': "d' = insert_event now typ (RawPayload p) d" ..
    show ?thesis
      by (intro exI [of _ "[last (db_events d')]"])
        (simp add: d' log_wf_insert_event, simp add: insert_event_def apply_event_def view_of_def)
  qed
qed

interpretation runlog: store_op "append_run_log i seq level message"
proof
  fix f now d res d'
  assume "append_run_log i seq level message f now d = (res, d')"
  then have "db_events d' = db_events d \<and> db_last_seq d' = db_last_seq d \<and> view_of d' = view_of d"
    by (auto simp: append_run_log_def view_of_def split: option.splits if_splits)
  then show "\<exists>es. db_events d' = db_events d @ es \<and> (log_wf d \<longrightarrow> log_wf d') \<and>
      view_of d' = fold apply_event es (view_of d)"
    by (intro exI [of _ "[]"]) (simp add: log_wf_def)
qed

subsection \<open>Histories\<close>

text \<open>Any sequence of calls by the daemon, each with its own time and its own failures.\<close>

datatype store_cmd =
    CUpsertTask task
  | CStartRun task_run
  | CFinishRun string run_status string string int
  | CSetStatement string
  | CAddFact string string
  | CAppend string "string + string"
  | CRunLog string int string string

fun exec_cmd :: "store_cmd \<Rightarrow> faults \<Rightarrow> instant \<Rightarrow> db \<Rightarrow> db" where
  "exec_cmd (CUpsertTask t) f now d = snd (upsert_task t f now d)"
| "exec_cmd (CStartRun r) f now d = snd (start_run r f now d)"
| "exec_cmd (CFinishRun i st su er ca) f now d = snd (finish_run i st su er ca f now d)"
| "exec_cmd (CSetStatement s) f now d = snd (set_statement s f now d)"
| "exec_cmd (CAddFact src txt) f now d = snd (add_fact src txt f now d)"
| "exec_cmd (CAppend typ raw) f now d = snd (append_event typ raw f now d)"
| "exec_cmd (CRunLog i seq lv m) f now d = snd (append_run_log i seq lv m f now d)"

definition run_history :: "(store_cmd \<times> faults \<times> instant) list \<Rightarrow> db \<Rightarrow> db" where
  "run_history h d = fold (\<lambda>(c, f, now). exec_cmd c f now) h d"

lemma exec_cmd_replays:
  "\<exists>es. db_events (exec_cmd c f now d) = db_events d @ es \<and>
     (log_wf d \<longrightarrow> log_wf (exec_cmd c f now d)) \<and>
     view_of (exec_cmd c f now d) = fold apply_event es (view_of d)"
proof (cases c)
  case (CUpsertTask t)
  then show ?thesis using upsert.replays [OF prod.collapse [symmetric]] by simp
next
  case (CStartRun r)
  then show ?thesis using start.replays [OF prod.collapse [symmetric]] by simp
next
  case (CFinishRun i st su er ca)
  then show ?thesis using finish.replays [OF prod.collapse [symmetric]] by simp
next
  case (CSetStatement s)
  then show ?thesis using statement.replays [OF prod.collapse [symmetric]] by simp
next
  case (CAddFact src tx)
  then show ?thesis using addfact.replays [OF prod.collapse [symmetric]] by simp
next
  case (CAppend ty raw)
  then show ?thesis using append.replays [OF prod.collapse [symmetric]] by simp
next
  case (CRunLog i seq lv m)
  then show ?thesis using runlog.replays [OF prod.collapse [symmetric]] by simp
qed

lemma exec_cmd_terminal_kept:
  assumes "find_row rr_id i (db_runs d) = Some r" and "is_terminal (rr_status r)"
  shows "find_row rr_id i (db_runs (exec_cmd c f now d)) = Some r"
proof -
  have *: "store_op (\<lambda>f now d. (Inr () :: store_error + unit, exec_cmd c f now d))"
    by (unfold_locales) (use exec_cmd_replays in auto)
  show ?thesis using store_op.terminal_run_kept [OF * _ assms] by blast
qed

text \<open>The invariant of the database.\<close>

definition db_wf :: "db \<Rightarrow> bool" where
  "db_wf d \<longleftrightarrow> log_wf d \<and> keyed t_name (db_tasks d) \<and> keyed rr_id (db_runs d) \<and>
     (case db_mission d of None \<Rightarrow> True | Some m \<Rightarrow> length (m_facts m) \<le> max_facts)"

lemma db_wf_init: "db_wf (migrate_mission now empty_db)"
  by (simp add: db_wf_def migrate_mission_def empty_db_def log_wf_def)

lemma length_push_fact: "length (push_fact x fs) \<le> max_facts"
  by (simp add: push_fact_def)

lemma upsert_task_Inr:
  assumes "upsert_task t f now d = (Inr v, d')"
  shows "d' = insert_event now ''task.upserted'' (TaskUpserted (t\<lparr>t_updated_at := now\<rparr>))
      (d\<lparr>db_tasks := put_row t_name (t\<lparr>t_updated_at := now\<rparr>) (db_tasks d)\<rparr>) \<and> t_name t \<noteq> []"
  using assms by (auto simp: upsert_task_def stmts_defs Let_def dest!: run_tx_Inr
      split: if_splits option.splits)

lemma keyed_close_run: "keyed rr_id rows \<Longrightarrow> keyed rr_id (close_run i (finish_row now st su er ca) rows)"
  by (simp add: keyed_def)

text \<open>Each operation keeps the invariant.\<close>

lemma db_wf_tasks:
  "db_wf d \<Longrightarrow> db_wf (insert_event ts ty p (d\<lparr>db_tasks := put_row t_name t (db_tasks d)\<rparr>))"
  by (simp add: db_wf_def log_wf_def insert_event_def keyed_put_row)

lemma db_wf_add_run:
  "db_wf d \<Longrightarrow> find_row rr_id (rr_id r) (db_runs d) = None \<Longrightarrow>
     db_wf (insert_event ts ty p (d\<lparr>db_runs := db_runs d @ [r]\<rparr>))"
  by (simp add: db_wf_def log_wf_def insert_event_def keyed_append_fresh)

lemma db_wf_close_run:
  "db_wf d \<Longrightarrow>
     db_wf (insert_event ts ty p
       (d\<lparr>db_runs := close_run i (finish_row now st su er ca) (db_runs d)\<rparr>))"
  by (simp add: db_wf_def log_wf_def insert_event_def keyed_close_run)

lemma db_wf_mission:
  "db_wf d \<Longrightarrow> (\<And>m. mi = Some m \<Longrightarrow> length (m_facts m) \<le> max_facts) \<Longrightarrow>
     db_wf (insert_event ts ty p (d\<lparr>db_mission := mi\<rparr>))"
  by (auto simp: db_wf_def log_wf_def insert_event_def split: option.splits)

lemma upsert_task_wf: "db_wf d \<Longrightarrow> db_wf (snd (upsert_task t f now d))"
  by (rule upsert.snd_cases) (auto dest!: upsert_task_Inr intro: db_wf_tasks)

lemma start_run_wf: "db_wf d \<Longrightarrow> db_wf (snd (start_run r f now d))"
proof (rule start.snd_cases)
  fix v d'
  assume wf: "db_wf d" and run: "start_run r f now d = (Inr v, d')"
  show "db_wf d'"
    using start_run_Inr [OF run] wf by (auto intro!: db_wf_add_run simp: started_row_def)
qed

lemma finish_run_wf: "db_wf d \<Longrightarrow> db_wf (snd (finish_run i st su er ca f now d))"
  by (rule finish.snd_cases) (auto dest!: finish_run_Inr intro: db_wf_close_run)

lemma set_statement_wf: "db_wf d \<Longrightarrow> db_wf (snd (set_statement s f now d))"
proof (rule statement.snd_cases)
  fix v d'
  assume wf: "db_wf d" and run: "set_statement s f now d = (Inr v, d')"
  show "db_wf d'"
    unfolding set_statement_Inr [OF run]
    by (rule db_wf_mission [OF wf]) (use wf in \<open>auto simp: db_wf_def\<close>)
qed

lemma add_fact_wf: "db_wf d \<Longrightarrow> db_wf (snd (add_fact src txt f now d))"
proof (rule addfact.snd_cases)
  fix v d'
  assume wf: "db_wf d" and run: "add_fact src txt f now d = (Inr v, d')"
  from add_fact_Inr [OF run] show "db_wf d'"
    by (auto intro!: db_wf_mission [OF wf] simp: length_push_fact)
qed

lemma append_event_wf: "db_wf d \<Longrightarrow> db_wf (snd (append_event ty raw f now d))"
  by (auto simp: append_event_def Let_def db_wf_def log_wf_insert_event
      split: sum.splits option.splits) (auto simp: insert_event_def)

lemma append_run_log_wf: "db_wf d \<Longrightarrow> db_wf (snd (append_run_log i seq lv m f now d))"
  by (auto simp: append_run_log_def db_wf_def log_wf_def split: option.splits)

lemma exec_cmd_wf: "db_wf d \<Longrightarrow> db_wf (exec_cmd c f now d)"
  by (cases c)
    (simp_all add: upsert_task_wf start_run_wf finish_run_wf set_statement_wf add_fact_wf
      append_event_wf append_run_log_wf)

lemma run_history_Nil [simp]: "run_history [] d = d"
  by (simp add: run_history_def)

lemma run_history_Cons [simp]:
  "run_history ((c, f, now) # h) d = run_history h (exec_cmd c f now d)"
  by (simp add: run_history_def)

lemma run_history_wf: "db_wf d \<Longrightarrow> db_wf (run_history h d)"
  by (induction h arbitrary: d) (auto simp: exec_cmd_wf)

lemma run_history_replays:
  "\<exists>es. db_events (run_history h d) = db_events d @ es \<and>
     view_of (run_history h d) = fold apply_event es (view_of d)"
proof (induction h arbitrary: d)
  case Nil
  show ?case by (intro exI [of _ "[]"]) simp
next
  case (Cons x h)
  obtain c f now where x: "x = (c, f, now)" by (cases x)
  obtain es1 where 1: "db_events (exec_cmd c f now d) = db_events d @ es1"
      "view_of (exec_cmd c f now d) = fold apply_event es1 (view_of d)"
    using exec_cmd_replays by blast
  obtain es2 where 2: "db_events (run_history h (exec_cmd c f now d)) = db_events (exec_cmd c f now d) @ es2"
      "view_of (run_history h (exec_cmd c f now d)) = fold apply_event es2 (view_of (exec_cmd c f now d))"
    using Cons.IH by blast
  show ?case by (intro exI [of _ "es1 @ es2"]) (simp add: x 1 2)
qed

lemma run_history_terminal_kept:
  "find_row rr_id i (db_runs d) = Some r \<Longrightarrow> is_terminal (rr_status r) \<Longrightarrow>
     find_row rr_id i (db_runs (run_history h d)) = Some r"
  by (induction h arbitrary: d) (auto simp: exec_cmd_terminal_kept)

subsection \<open>What clients rely on\<close>

lemma find_row_close_run:
  "find_row rr_id j (close_run i (finish_row now st su er ca) rows) =
     map_option (\<lambda>r. if rr_id r = i \<and> rr_status r = StatusRunning
                     then finish_row now st su er ca r else r) (find_row rr_id j rows)"
  unfolding close_run_def by (rule find_row_map) (simp add: finish_row_def)

text \<open>What a run row keeps from its start to the end.\<close>

definition run_ident :: "run_row \<Rightarrow> string \<times> string \<times> string \<times> instant" where
  "run_ident r = (rr_id r, rr_task_name r, rr_trigger r, rr_started_at r)"

lemma apply_payload_keeps_ident:
  assumes "find_row rr_id i (fst (snd v)) = Some r"
  shows "\<exists>r'. find_row rr_id i (fst (snd (apply_payload ts p v))) = Some r' \<and> run_ident r' = run_ident r"
  using assms
  by (cases v; cases p)
    (auto simp: find_row_append find_row_close_run run_ident_def finish_row_def)

lemma fold_keeps_ident:
  "find_row rr_id i (fst (snd v)) = Some r \<Longrightarrow>
     \<exists>r'. find_row rr_id i (fst (snd (fold apply_event es v))) = Some r' \<and> run_ident r' = run_ident r"
proof (induction es arbitrary: v r)
  case (Cons e es)
  obtain r1 where r1: "find_row rr_id i (fst (snd (apply_event e v))) = Some r1" "run_ident r1 = run_ident r"
    using apply_payload_keeps_ident [OF Cons.prems, of "e_ts e" "e_payload e"]
    by (auto simp: apply_event_def)
  from Cons.IH [OF r1(1)] r1(2) show ?case by simp
qed simp

lemma run_history_keeps_ident:
  assumes "find_row rr_id i (db_runs d) = Some r"
  shows "\<exists>r'. find_row rr_id i (db_runs (run_history h d)) = Some r' \<and> run_ident r' = run_ident r"
proof -
  obtain es where "view_of (run_history h d) = fold apply_event es (view_of d)"
    using run_history_replays by blast
  with fold_keeps_ident [of i "view_of d" r es] assms show ?thesis
    by (metis fst_conv snd_conv view_of_def)
qed

lemma run_history_append: "run_history (h @ h') d = run_history h' (run_history h d)"
  by (simp add: run_history_def)

lemma finish_run_row:
  assumes wf: "db_wf d" and run: "finish_run i st su er ca f now d = (Inr v, d')"
  obtains r where "find_row rr_id i (db_runs d) = Some r" and "rr_status r = StatusRunning"
    and "find_row rr_id i (db_runs d') = Some (finish_row now st su er ca r)"
    and "\<And>j. j \<noteq> i \<Longrightarrow> find_row rr_id j (db_runs d') = find_row rr_id j (db_runs d)"
proof -
  from finish_run_Inr [OF run] obtain r where r: "r \<in> set (db_runs d)" "rr_id r = i"
      "rr_status r = StatusRunning"
    and d': "db_runs d' = close_run i (finish_row now st su er ca) (db_runs d)"
    by (auto simp: insert_event_def)
  have "find_row rr_id i (db_runs d) = Some r"
    using wf r by (simp add: db_wf_def find_row_keyed_iff)
  moreover have "find_row rr_id j (db_runs d') = find_row rr_id j (db_runs d)" if "j \<noteq> i" for j
    using that by (cases "find_row rr_id j (db_runs d)")
      (auto simp: d' find_row_close_run dest: find_row_Some_key)
  ultimately show ?thesis
    using that r by (simp add: d' find_row_close_run)
qed

text \<open>The run table, as the runner uses it.\<close>

locale run_store =
  fixes start :: "task_run \<Rightarrow> faults \<Rightarrow> instant \<Rightarrow> 'd \<Rightarrow> (store_error + unit) \<times> 'd"
    and finish :: "string \<Rightarrow> run_status \<Rightarrow> string \<Rightarrow> string \<Rightarrow> int \<Rightarrow> faults \<Rightarrow> instant \<Rightarrow> 'd \<Rightarrow>
      (store_error + unit) \<times> 'd"
    and get :: "string \<Rightarrow> faults \<Rightarrow> 'd \<Rightarrow> store_error + task_run"
    and inv :: "'d \<Rightarrow> bool"
  assumes start_inv: "inv d \<Longrightarrow> inv (snd (start r f now d))"
    and finish_inv: "inv d \<Longrightarrow> inv (snd (finish i st su er ca f now d))"
    and start_running: "inv d \<Longrightarrow> start r f now d = (Inr u, d') \<Longrightarrow>
      \<exists>q. get (tr_id r) no_faults d' = Inr q \<and> tr_status q = StatusRunning \<and>
        tr_task_name q = tr_task_name r \<and> tr_trigger q = tr_trigger r"
    and start_fresh: "inv d \<Longrightarrow> start r f now d = (Inr u, d') \<Longrightarrow>
      get (tr_id r) no_faults d = Inl NoRows"
    and finish_recorded: "inv d \<Longrightarrow> finish i st su er ca f now d = (Inr u, d') \<Longrightarrow>
      \<exists>q q'. get i no_faults d = Inr q \<and> tr_status q = StatusRunning \<and> is_terminal st \<and>
        get i no_faults d' = Inr q' \<and> q' = q\<lparr>tr_status := st, tr_summary := su, tr_error := er,
          tr_tool_calls := ca, tr_ended_at := Some now\<rparr>"
    and finish_terminal: "inv d \<Longrightarrow> get i no_faults d = Inr q \<Longrightarrow> is_terminal (tr_status q) \<Longrightarrow>
      \<exists>e. finish i st su er ca f now d = (Inl e, d)"
begin

text \<open>A run can be finished only once, whatever is tried the second time.\<close>

lemma finish_once:
  assumes "inv d" and "finish i st su er ca f now d = (Inr u, d')"
  shows "\<exists>e. finish i st' su' er' ca' f' now' d' = (Inl e, d')"
proof -
  from finish_recorded [OF assms] obtain q' where
    "get i no_faults d' = Inr q'" "tr_status q' = st" "is_terminal st" by force
  moreover have "inv d'" using finish_inv [OF assms(1), of i st su er ca f now] assms(2) by simp
  ultimately show ?thesis using finish_terminal by metis
qed

end

interpretation runs: run_store start_run finish_run get_run db_wf
proof
  fix d r f now i st su er ca u d' and q :: task_run
  assume wf: "db_wf d"
  show "db_wf (snd (start_run r f now d))" by (rule start_run_wf [OF wf])
  show "db_wf (snd (finish_run i st su er ca f now d))" by (rule finish_run_wf [OF wf])
  {
    assume run: "start_run r f now d = (Inr u, d')"
    from start_run_Inr [OF run] show "get_run (tr_id r) no_faults d = Inl NoRows"
      by (simp add: get_run_def)
    from start_run_Inr [OF run]
    show "\<exists>q. get_run (tr_id r) no_faults d' = Inr q \<and> tr_status q = StatusRunning \<and>
        tr_task_name q = tr_task_name r \<and> tr_trigger q = tr_trigger r"
      by (simp add: get_run_def insert_event_def find_row_append started_row_def run_of_row_def)
  }
  {
    assume run: "finish_run i st su er ca f now d = (Inr u, d')"
    obtain r where "find_row rr_id i (db_runs d) = Some r" "rr_status r = StatusRunning"
      "find_row rr_id i (db_runs d') = Some (finish_row now st su er ca r)"
      by (rule finish_run_row [OF wf run])
    moreover have "is_terminal st" using finish_run_Inr [OF run] by simp
    ultimately show "\<exists>q q'. get_run i no_faults d = Inr q \<and> tr_status q = StatusRunning \<and>
        is_terminal st \<and> get_run i no_faults d' = Inr q' \<and>
        q' = q\<lparr>tr_status := st, tr_summary := su, tr_error := er, tr_tool_calls := ca,
          tr_ended_at := Some now\<rparr>"
      by (simp add: get_run_def run_of_row_def finish_row_def)
  }
  {
    assume get: "get_run i no_faults d = Inr q" and fin: "is_terminal (tr_status q)"
    show "\<exists>e. finish_run i st su er ca f now d = (Inl e, d)"
    proof (cases "finish_run i st su er ca f now d")
      case (Pair res d2)
      show ?thesis
      proof (cases res)
        case (Inl e)
        then show ?thesis using Pair finish.err_unchanged by blast
      next
        case (Inr v)
        obtain r where "find_row rr_id i (db_runs d) = Some r" "rr_status r = StatusRunning"
          by (rule finish_run_row [OF wf Pair [unfolded Inr]])
        then show ?thesis using get fin by (auto simp: get_run_def run_of_row_def)
      qed
    qed
  }
qed

text \<open>The task table, as the scheduler uses it.\<close>

locale task_source =
  fixes upsert :: "task \<Rightarrow> faults \<Rightarrow> instant \<Rightarrow> 'd \<Rightarrow> (store_error + unit) \<times> 'd"
    and get :: "string \<Rightarrow> faults \<Rightarrow> 'd \<Rightarrow> store_error + task"
    and all :: "faults \<Rightarrow> 'd \<Rightarrow> store_error + task list"
    and inv :: "'d \<Rightarrow> bool"
  assumes upsert_inv: "inv d \<Longrightarrow> inv (snd (upsert t f now d))"
    and upsert_err: "upsert t f now d = (Inl e, d') \<Longrightarrow> d' = d"
    and get_upsert: "inv d \<Longrightarrow> upsert t f now d = (Inr u, d') \<Longrightarrow>
      get n no_faults d' =
        (if n = t_name t then Inr (t\<lparr>t_updated_at := now\<rparr>) else get n no_faults d)"
    and all_get: "inv d \<Longrightarrow> all no_faults d = Inr ts \<Longrightarrow>
      distinct (map t_name ts) \<and> (t \<in> set ts \<longleftrightarrow> get (t_name t) no_faults d = Inr t)"
begin

text \<open>The last write of a name wins, and no other name is disturbed.\<close>

lemma upsert_upsert:
  assumes "inv d" and "upsert t f now d = (Inr u, d1)" and "upsert t' f' now' d1 = (Inr u', d2)"
  shows "get (t_name t') no_faults d2 = Inr (t'\<lparr>t_updated_at := now'\<rparr>) \<and>
    (t_name t \<noteq> t_name t' \<longrightarrow> get (t_name t) no_faults d2 = Inr (t\<lparr>t_updated_at := now\<rparr>))"
proof -
  have "inv d1" using upsert_inv [OF assms(1), of t f now] assms(2) by simp
  then show ?thesis using get_upsert assms by auto
qed

end

interpretation tasks: task_source upsert_task get_task list_tasks db_wf
proof
  fix d t f now u d' n e ts
  show "upsert_task t f now d = (Inl e, d') \<Longrightarrow> d' = d" by (rule upsert.err_unchanged)
  assume wf: "db_wf d"
  show "db_wf (snd (upsert_task t f now d))" by (rule upsert_task_wf [OF wf])
  show "get_task n no_faults d' =
      (if n = t_name t then Inr (t\<lparr>t_updated_at := now\<rparr>) else get_task n no_faults d)"
    if "upsert_task t f now d = (Inr u, d')"
    using upsert_task_Inr [OF that] by (simp add: get_task_def insert_event_def find_row_put_row)
  show "distinct (map t_name ts) \<and> (t \<in> set ts \<longleftrightarrow> get_task (t_name t) no_faults d = Inr t)"
    if "list_tasks no_faults d = Inr ts"
  proof -
    from that have ts: "ts = sort_key t_name (db_tasks d)" by (simp add: list_tasks_def)
    have "distinct (map t_name ts)"
      using wf by (simp only: ts distinct_map set_sort distinct_sort db_wf_def keyed_def)
    moreover have "t \<in> set ts \<longleftrightarrow> find_row t_name (t_name t) (db_tasks d) = Some t"
      using wf by (simp add: ts db_wf_def find_row_keyed_iff)
    ultimately show ?thesis by (auto simp: get_task_def split: option.splits)
  qed
qed

subsection \<open>Properties\<close>


lemmas [db_simps] = migrate_mission_def empty_db_def start_run_def start_run_stmts_def run_tx_def
  insert_event_def add_fact_def add_fact_stmts_def trim_space_def trim_left_def trim_right_def
  is_space_def finish_run_def finish_run_stmts_def started_row_def close_run_def finish_row_def
  get_run_def run_of_row_def upsert_task_def upsert_task_stmts_def get_task_def list_tasks_def
  set_statement_def set_statement_stmts_def append_run_log_def get_mission_def Let_def

abbreviation sample_run :: task_run where
  "sample_run \<equiv> \<lparr>tr_id = ''run-1'', tr_task_name = ''t'', tr_trigger = ''manual'',
     tr_started_at = None, tr_ended_at = None, tr_status = StatusOther [], tr_summary = [],
     tr_tool_calls = 0, tr_cost_usd_micro = 0, tr_error = []\<rparr>"

abbreviation sample_history :: "(store_cmd \<times> faults \<times> instant) list" where
  "sample_history \<equiv>
     [(CStartRun sample_run, no_faults, 5), (CAddFact [] ''up'', (\<lambda>i. Some ''disk full''), 6),
      (CFinishRun ''run-1'' StatusCompleted ''ok'' [] 2, no_faults, 7)]"


text \<open>
  C4: a finished run is final. Once a run's row has a terminal status, no history of store
  operations changes any column of it, and every later attempt to finish it is refused.
\<close>

theorem finished_run_is_final:
  assumes "db_wf d" and "find_row rr_id i (db_runs d) = Some r" and "is_terminal (rr_status r)"
  shows "find_row rr_id i (db_runs (run_history h d)) = Some r \<and>
    (\<exists>e. finish_run i st su er ca f now (run_history h d) = (Inl e, run_history h d))"
proof -
  have kept: "find_row rr_id i (db_runs (run_history h d)) = Some r"
    by (rule run_history_terminal_kept [OF assms(2,3)])
  have "\<exists>e. finish_run i st su er ca f now (run_history h d) = (Inl e, run_history h d)"
    by (rule runs.finish_terminal [OF run_history_wf [OF assms(1)], of _ _ "run_of_row r"])
      (use kept assms(3) in \<open>simp_all add: get_run_def run_of_row_def\<close>)
  with kept show ?thesis by blast
qed

theorem finished_run_is_final_witness:
  "let d = run_history sample_history (migrate_mission 1 empty_db)
   in \<exists>e. finish_run ''run-1'' StatusFailed [] [] 9 no_faults 99 d = (Inl e, d)"
proof -
  let ?d = "run_history sample_history (migrate_mission 1 empty_db)"
  have "\<exists>r. find_row rr_id ''run-1'' (db_runs ?d) = Some r \<and> is_terminal (rr_status r)"
    by (simp add: db_simps)
  then obtain r where "find_row rr_id ''run-1'' (db_runs ?d) = Some r" "is_terminal (rr_status r)"
    by blast
  from finished_run_is_final [OF run_history_wf [OF db_wf_init] this, of "[]"]
  show ?thesis by (simp add: Let_def)
qed

text \<open>
  C5: transactions are all or nothing. For each of the five transactional operations and any
  failures, an error leaves the whole database as it was and a success appends exactly one
  event, the one with the next sequence number.
\<close>

definition atomic_outcome :: "db \<Rightarrow> (store_error + 'a) \<times> db \<Rightarrow> bool" where
  "atomic_outcome d out =
     (case out of
        (Inl e, d') \<Rightarrow> d' = d
      | (Inr v, d') \<Rightarrow> (\<exists>e. db_events d' = db_events d @ [e] \<and> e_seq e = db_last_seq d + 1))"

lemma atomic_outcomeI:
  assumes "logged_op oper"
  shows "atomic_outcome d (oper f now d)"
  using logged_op.err_unchanged [OF assms] logged_op.ok_replays [OF assms]
  by (cases "oper f now d") (fastforce simp: atomic_outcome_def split: sum.splits)

theorem transactions_all_or_nothing:
  "atomic_outcome d (upsert_task t f now d) \<and>
   atomic_outcome d (start_run r f now d) \<and>
   atomic_outcome d (finish_run i st su er ca f now d) \<and>
   atomic_outcome d (set_statement s f now d) \<and>
   atomic_outcome d (add_fact src txt f now d)"
  by (intro conjI atomic_outcomeI upsert.logged_op_axioms start.logged_op_axioms
      finish.logged_op_axioms statement.logged_op_axioms addfact.logged_op_axioms)

text \<open>
  What finishing a run records. In a well-formed database \<open>FinishRun\<close> succeeds (without
  database failures) exactly for a terminal status and a run that is running; reading the run
  back then gives the status, summary, error and tool-call count passed in and the time of the
  call, with identity, trigger and start as before, and other runs are untouched. The cost
  column is not written: it keeps the zero that \<open>StartRun\<close> left there.
\<close>

lemma finish_run_records:
  assumes "db_wf d"
  shows "((\<exists>d'. finish_run i st su er ca no_faults now d = (Inr (), d')) \<longleftrightarrow>
      is_terminal st \<and> (\<exists>q. get_run i no_faults d = Inr q \<and> tr_status q = StatusRunning)) \<and>
    (\<forall>d'. finish_run i st su er ca f now d = (Inr (), d') \<longrightarrow>
      (\<exists>q. get_run i no_faults d = Inr q \<and>
         get_run i no_faults d' = Inr (q\<lparr>tr_status := st, tr_summary := su, tr_error := er,
           tr_tool_calls := ca, tr_ended_at := Some now\<rparr>)) \<and>
      (\<forall>j. j \<noteq> i \<longrightarrow> get_run j no_faults d' = get_run j no_faults d))"
proof (intro conjI allI impI)
  show "(\<exists>d'. finish_run i st su er ca no_faults now d = (Inr (), d')) \<longleftrightarrow>
      is_terminal st \<and> (\<exists>q. get_run i no_faults d = Inr q \<and> tr_status q = StatusRunning)" (is "?L \<longleftrightarrow> ?R")
  proof
    assume ?L
    then show ?R using runs.finish_recorded [OF assms] by blast
  next
    assume ?R
    then have "is_terminal st" "\<exists>r \<in> set (db_runs d). rr_id r = i \<and> rr_status r = StatusRunning"
      by (auto simp: get_run_def run_of_row_def dest: find_row_Some_mem find_row_Some_key
          split: option.splits)
    then show ?L
      by (simp add: finish_run_def run_tx_no_faults finish_run_stmts_def)
  qed
next
  fix d'
  assume run: "finish_run i st su er ca f now d = (Inr (), d')"
  from runs.finish_recorded [OF assms run]
  show "\<exists>q. get_run i no_faults d = Inr q \<and>
      get_run i no_faults d' = Inr (q\<lparr>tr_status := st, tr_summary := su, tr_error := er,
        tr_tool_calls := ca, tr_ended_at := Some now\<rparr>)" by blast
  show "get_run j no_faults d' = get_run j no_faults d" if "j \<noteq> i" for j
    by (rule finish_run_row [OF assms run]) (use that in \<open>simp add: get_run_def\<close>)
qed

lemma finish_run_records_witness:
  "let d = run_history [(CStartRun sample_run, no_faults, 5)] (migrate_mission 1 empty_db)
   in \<exists>d'. finish_run ''run-1'' StatusTimeout [] ''late'' 3 no_faults 9 d = (Inr (), d')"
proof -
  let ?d = "run_history [(CStartRun sample_run, no_faults, 5)] (migrate_mission 1 empty_db)"
  have "\<exists>q. get_run ''run-1'' no_faults ?d = Inr q \<and> tr_status q = StatusRunning"
    by (simp add: db_simps)
  with finish_run_records [OF run_history_wf [OF db_wf_init]] show ?thesis
    by (simp add: Let_def del: run_history_Cons)
qed

text \<open>The facts that a sequence of events adds, with their times.\<close>

fun facts_of :: "event list \<Rightarrow> fact list" where
  "facts_of [] = []"
| "facts_of (e # es) =
     (case e_payload e of
        FactAdded src txt \<Rightarrow> \<lparr>f_ts = e_ts e, f_source = src, f_fact = txt\<rparr> # facts_of es
      | _ \<Rightarrow> facts_of es)"

lemma push_fact_take_last: "push_fact x (take_last max_facts fs) = take_last max_facts (fs @ [x])"
  by (simp add: push_fact_def take_last_append_take_last)

lemma fold_events_facts:
  assumes "snd (snd v) = Some m" and "m_facts m = take_last max_facts fs"
  shows "\<exists>m'. snd (snd (fold apply_event es v)) = Some m' \<and>
    m_facts m' = take_last max_facts (fs @ facts_of es)"
  using assms
proof (induction es arbitrary: v m fs)
  case (Cons e es)
  obtain tasks runs where v: "v = (tasks, runs, Some m)"
    using Cons.prems(1) by (metis prod.collapse)
  show ?case
  proof (cases "e_payload e")
    case (FactAdded src tx)
    let ?x = "\<lparr>f_ts = e_ts e, f_source = src, f_fact = tx\<rparr>"
    have "\<exists>m'. snd (snd (fold apply_event es (apply_event e v))) = Some m' \<and>
        m_facts m' = take_last max_facts ((fs @ [?x]) @ facts_of es)"
      by (rule Cons.IH [where m = "m\<lparr>m_facts := push_fact ?x (m_facts m), m_updated_at := e_ts e\<rparr>"])
        (use Cons.prems v FactAdded in \<open>simp_all add: apply_event_def push_fact_take_last\<close>)
    with FactAdded show ?thesis by simp
  qed (use Cons v in \<open>simp add: apply_event_def\<close>)+
qed simp

text \<open>
  The facts list is the recent past. After any history of store operations the mission's
  facts are the newest 100 of the earlier facts followed by all facts added since, in the order
  in which they were added; so there are never more than 100 and the last one added is last.
\<close>

lemma facts_are_newest:
  assumes "db_wf d" and "db_mission d = Some m"
  shows "\<exists>m'. db_mission (run_history h d) = Some m' \<and>
    m_facts m' = take_last max_facts
      (m_facts m @ facts_of (drop (length (db_events d)) (db_events (run_history h d)))) \<and>
    length (m_facts m') \<le> max_facts"
proof -
  have "m_facts m = take_last max_facts (m_facts m)"
    using assms by (simp add: db_wf_def)
  moreover obtain es where es: "db_events (run_history h d) = db_events d @ es"
      "view_of (run_history h d) = fold apply_event es (view_of d)"
    using run_history_replays by blast
  ultimately obtain m' where "snd (snd (view_of (run_history h d))) = Some m'"
      "m_facts m' = take_last max_facts (m_facts m @ facts_of es)"
    using fold_events_facts [of "view_of d" m "m_facts m" es] assms(2)
    by (simp only: es(2)) (auto simp: view_of_def)
  then show ?thesis by (simp add: es(1)) (simp add: view_of_def)
qed

lemma facts_are_newest_witness:
  "\<exists>m'. db_mission (run_history [(CAddFact [] '' up '', no_faults, 6)] (migrate_mission 1 empty_db)) = Some m' \<and>
     m_facts m' = [\<lparr>f_ts = 6, f_source = ''auto'', f_fact = ''up''\<rparr>]"
proof -
  have m: "db_mission (migrate_mission 1 empty_db) = Some \<lparr>m_statement = [], m_facts = [], m_updated_at = 1\<rparr>"
    by (simp add: db_simps)
  have e: "facts_of (drop (length (db_events (migrate_mission 1 empty_db)))
      (db_events (run_history [(CAddFact [] '' up '', no_faults, 6)] (migrate_mission 1 empty_db)))) =
      [\<lparr>f_ts = 6, f_source = ''auto'', f_fact = ''up''\<rparr>]"
    by (simp add: db_simps)
  from facts_are_newest [OF db_wf_init m, of "[(CAddFact [] '' up '', no_faults, 6)]"]
  show ?thesis unfolding e by (auto simp: max_facts_def simp del: run_history_Cons)
qed

text \<open>
  Listing runs. \<open>ListRuns\<close> returns the newest runs first, only runs of the task asked for
  (all tasks for the empty name), as many as exist up to the limit in force, and no run left out
  is newer than one returned. The limit in force is the caller's between 1 and 1000; a larger
  one is not capped at 1000 but replaced by 50.
\<close>

lemma list_runs_newest_first:
  assumes "list_runs name limit f d = Inr rs"
  defines "rows \<equiv> filter (\<lambda>r. name = [] \<or> rr_task_name r = name) (db_runs d)"
    and "eff \<equiv> if 1 \<le> limit \<and> limit \<le> 1000 then nat limit else 50"
  shows "length rs = min eff (length rows) \<and>
    sorted (map (\<lambda>r. - the (tr_started_at r)) rs) \<and>
    (\<exists>kept left. mset rows = mset kept + mset left \<and> rs = map run_of_row kept \<and>
       (\<forall>x \<in> set kept. \<forall>y \<in> set left. rr_started_at y \<le> rr_started_at x)) \<and>
    list_runs name 1001 f d = list_runs name 50 f d"
proof -
  let ?key = "\<lambda>r. - rr_started_at r"
  let ?s = "sort_key ?key rows"
  have rs: "rs = map run_of_row (take eff ?s)"
    using assms(1) unfolding rows_def eff_def
    by (auto simp: list_runs_def Let_def split: option.splits if_splits)
  have "sorted (map ?key ?s)" by simp
  then have sorted: "sorted (map ?key (take eff ?s) @ map ?key (drop eff ?s))"
    by (simp flip: map_append)
  have "mset rows = mset (take eff ?s) + mset (drop eff ?s)"
    by (simp flip: mset_append)
  moreover have "\<forall>x \<in> set (take eff ?s). \<forall>y \<in> set (drop eff ?s). rr_started_at y \<le> rr_started_at x"
    using sorted by (auto simp: sorted_append)
  moreover have "sorted (map (\<lambda>r. - the (tr_started_at r)) rs)"
    using sorted by (simp add: rs sorted_append run_of_row_def comp_def)
  moreover have "length rs = min eff (length rows)" by (simp add: rs min.commute)
  moreover have "list_runs name 1001 f d = list_runs name 50 f d"
    by (simp add: list_runs_def Let_def)
  ultimately show ?thesis using rs by blast
qed

lemma list_runs_newest_first_witness:
  "list_runs [] 10 no_faults (run_history sample_history (migrate_mission 1 empty_db)) =
     Inr [sample_run\<lparr>tr_started_at := Some 5, tr_ended_at := Some 7, tr_status := StatusCompleted,
            tr_summary := ''ok'', tr_tool_calls := 2\<rparr>] \<and>
   list_runs [] 1001 no_faults (run_history sample_history (migrate_mission 1 empty_db)) =
   list_runs [] 50 no_faults (run_history sample_history (migrate_mission 1 empty_db))"
proof -
  have e: "list_runs [] 10 no_faults (run_history sample_history (migrate_mission 1 empty_db)) =
     Inr [sample_run\<lparr>tr_started_at := Some 5, tr_ended_at := Some 7, tr_status := StatusCompleted,
            tr_summary := ''ok'', tr_tool_calls := 2\<rparr>]"
    by (simp add: db_simps list_runs_def)
  from list_runs_newest_first [OF e] e show ?thesis by simp
qed

end
