(* ===== verification/Supervise.thy ===== *)
theory Supervise
  imports AgentText Store
begin

text \<open>
  \<^verbatim>\<open>internal/bootstrap/agent_script.go\<close> without its prompts: the planner and the supervisor
  on their drivers, the loop that watches one script, and the loop of plan and supervise. What
  the program reads from outside (the state of the process at each turn, the answer of the local
  port, the clock) is input. Costs are micro-dollars; the budget is given as such, since the
  conversion from a decimal in the environment is floating point.
\<close>

subsection \<open>Planner and supervisor on their drivers\<close>

text \<open>How the CLI is reached: the codec of its output, and the subprocess.\<close>

record ('w, 'f) cli_access =
  ca_codec :: "'f cli_codec"
  ca_spawn :: "string \<Rightarrow> string list \<Rightarrow> 'w \<Rightarrow> cli_process \<times> 'w"

definition planner_cli :: "string \<Rightarrow> claude_cli" where
  "planner_cli model = \<lparr>cli_binary = [], cli_model = model, cli_allowed_tools = ''Write,Read'',
     cli_permission_mode = ''acceptEdits''\<rparr>"

definition supervisor_cli :: "string \<Rightarrow> claude_cli" where
  "supervisor_cli model = \<lparr>cli_binary = [], cli_model = model, cli_allowed_tools = ''Read'',
     cli_permission_mode = ''acceptEdits''\<rparr>"

definition prompt_request :: "string \<times> string \<Rightarrow> int \<Rightarrow> string \<Rightarrow> 'w driver_request" where
  "prompt_request p calls model = \<lparr>rq_system_prompt = fst p, rq_user_prompt = snd p, rq_tools = None,
     rq_max_tool_calls = calls, rq_model = model, rq_log_sink = None\<rparr>"

definition empty_plan :: plan_output where
  "empty_plan = \<lparr>po_script = [], po_cost = 0, po_turns = 0\<rparr>"

definition plan_of_outcome :: "driver_outcome \<Rightarrow> plan_output \<times> string option" where
  "plan_of_outcome out =
     (case out of
        None \<Rightarrow> (empty_plan, None)
      | Some (_, Some e) \<Rightarrow> (empty_plan, Some (''agent_script: planner subprocess: '' @ e))
      | Some (res, None) \<Rightarrow>
          if dr_error res \<noteq> []
          then (\<lparr>po_script = [], po_cost = dr_cost_usd_micro res, po_turns = dr_tool_calls res\<rparr>,
                Some (''agent_script: planner CLI error: '' @ dr_error res))
          else (\<lparr>po_script = dr_final_message res, po_cost = dr_cost_usd_micro res,
                  po_turns = dr_tool_calls res\<rparr>, None))"

definition cli_plan ::
  "('w, 'f) cli_access \<Rightarrow> string \<Rightarrow> plan_input \<Rightarrow> 'w \<Rightarrow> (plan_output \<times> string option) \<times> 'w" where
  "cli_plan ca model i w =
     (let (out, w') = claude_cli_run (ca_codec ca) (ca_spawn ca) (planner_cli model)
            (prompt_request (build_planner_prompts i) 8 (pi_model i)) w
      in (plan_of_outcome out, w'))"

record verdict =
  sv_verdict :: string
  sv_note :: string
  sv_reason :: string

record supervisor_output =
  so_verdict :: verdict
  so_raw :: string
  so_cost :: int
  so_parse_error :: string

definition continue_verdict :: "string \<Rightarrow> verdict" where
  "continue_verdict note = \<lparr>sv_verdict = ''continue'', sv_note = note, sv_reason = []\<rparr>"

definition parse_supervisor_verdict :: "(string \<Rightarrow> string + verdict) \<Rightarrow> string \<Rightarrow> verdict \<times> string option" where
  "parse_supervisor_verdict unmarshal s =
     (case extract_json_object s of
        None \<Rightarrow> (continue_verdict ''supervisor returned no JSON; treating as continue'',
                 Some ''no JSON object in supervisor reply'')
      | Some raw \<Rightarrow>
          (case unmarshal raw of
             Inl e \<Rightarrow> (continue_verdict ''supervisor JSON did not parse; treating as continue'',
                       Some (''unmarshal: '' @ e))
           | Inr v \<Rightarrow>
               (let k = to_lower (trim_space (sv_verdict v))
                in if k \<in> {''done'', ''continue'', ''intervene''} then (v\<lparr>sv_verdict := k\<rparr>, None)
                   else (continue_verdict (''supervisor verdict unrecognised ('' @ sv_verdict v @
                           ''); treating as continue''),
                         Some (''unrecognised verdict: '' @ quoted (sv_verdict v))))))"

definition check_of_outcome ::
  "(string \<Rightarrow> string + verdict) \<Rightarrow> driver_outcome \<Rightarrow> string + supervisor_output" where
  "check_of_outcome unmarshal out =
     (case out of
        None \<Rightarrow> Inl []
      | Some (_, Some e) \<Rightarrow> Inl (''agent_script: supervisor subprocess: '' @ e)
      | Some (res, None) \<Rightarrow>
          if dr_error res \<noteq> []
          then Inr \<lparr>so_verdict = continue_verdict (''supervisor CLI error, will retry: '' @
                      truncate_str (dr_error res) 200),
                    so_raw = dr_final_message res, so_cost = dr_cost_usd_micro res,
                    so_parse_error = dr_error res\<rparr>
          else (let (v, e) = parse_supervisor_verdict unmarshal (dr_final_message res)
                in Inr \<lparr>so_verdict = v, so_raw = dr_final_message res, so_cost = dr_cost_usd_micro res,
                        so_parse_error = (case e of None \<Rightarrow> [] | Some m \<Rightarrow> m)\<rparr>))"

definition cli_check ::
  "(string \<Rightarrow> string + verdict) \<Rightarrow> ('w, 'f) cli_access \<Rightarrow> string \<Rightarrow> supervisor_input \<Rightarrow> 'w
     \<Rightarrow> (string + supervisor_output) \<times> 'w" where
  "cli_check unmarshal ca model i w =
     (let (out, w') = claude_cli_run (ca_codec ca) (ca_spawn ca) (supervisor_cli model)
            (prompt_request (build_supervisor_prompts i) 2 (si_model i)) w
      in (check_of_outcome unmarshal out, w'))"

subsection \<open>Settings\<close>

definition env_int :: "environ \<Rightarrow> string \<Rightarrow> int option" where
  "env_int env key = atoi (trim_space (env key))"

definition agent_max_iterations :: "environ \<Rightarrow> int" where
  "agent_max_iterations env =
     (case env_int env ''AGENT_OPS_BOOTSTRAP_MAX_ITERATIONS'' of
        None \<Rightarrow> 5 | Some n \<Rightarrow> if n > 0 then (if n > 10 then 10 else n) else 5)"

definition agent_verify_port :: "environ \<Rightarrow> int" where
  "agent_verify_port env =
     (case env_int env ''AGENT_OPS_BOOTSTRAP_VERIFY_PORT'' of
        None \<Rightarrow> 0 | Some n \<Rightarrow> if n > 0 \<and> n < 65536 then n else 0)"

definition agent_check_interval :: "environ \<Rightarrow> duration" where
  "agent_check_interval env =
     (case env_int env ''AGENT_OPS_BOOTSTRAP_CHECK_INTERVAL_S'' of
        None \<Rightarrow> 30 * second
      | Some n \<Rightarrow> if n > 0
          then (let n = (if n < 5 then 5 else n); n = (if n > 300 then 300 else n) in word_of_int n * second)
          else 30 * second)"

definition agent_max_supervisor_turns :: "environ \<Rightarrow> int" where
  "agent_max_supervisor_turns env =
     (case env_int env ''AGENT_OPS_BOOTSTRAP_MAX_SUPERVISOR_TURNS'' of
        None \<Rightarrow> 60 | Some n \<Rightarrow> if n > 0 then (if n > 600 then 600 else n) else 60)"

lemma agent_max_iterations_range: "1 \<le> agent_max_iterations env \<and> agent_max_iterations env \<le> 10"
  by (simp add: agent_max_iterations_def split: option.split)

lemma agent_max_supervisor_turns_range:
  "1 \<le> agent_max_supervisor_turns env \<and> agent_max_supervisor_turns env \<le> 600"
  by (simp add: agent_max_supervisor_turns_def split: option.split)

subsection \<open>Watching one script\<close>

datatype wake = CtxDone string | ProcExited | Tick

text \<open>What one turn sees: whether the process has exited and its code, and the live log.\<close>

record snapshot =
  sn_exited :: bool
  sn_exit :: "int option"
  sn_tail :: string
  sn_live_bytes :: int
  sn_idle_seconds :: int
  sn_elapsed_min :: int

text \<open>
  The world of the loops: the planner and the supervisor, the script file, the start of bash
  (with the logs it opens), the wait between turns, the port, the process group, and the wait
  for the process that the deferred function makes: \<open>None\<close> if it never exits, otherwise its
  exit code and the tail of its output.
\<close>

record 'w agent_env =
  ae_plan :: "plan_input \<Rightarrow> 'w \<Rightarrow> (plan_output \<times> string option) \<times> 'w"
  ae_check :: "supervisor_input \<Rightarrow> 'w \<Rightarrow> (string + supervisor_output) \<times> 'w"
  ae_ctx :: "'w \<Rightarrow> string option"
  ae_remove_script :: "'w \<Rightarrow> 'w"
  ae_read_script :: "'w \<Rightarrow> string + string"
  ae_start :: "'w \<Rightarrow> string option \<times> 'w"
  ae_wake :: "'w \<Rightarrow> wake \<times> 'w"
  ae_snapshot :: "'w \<Rightarrow> snapshot \<times> 'w"
  ae_probe :: "int \<Rightarrow> 'w \<Rightarrow> int \<times> 'w"
  ae_kill :: "'w \<Rightarrow> 'w"
  ae_reap :: "'w \<Rightarrow> (int \<times> string) option \<times> 'w"

record supervise_config =
  sc_iteration :: int
  sc_script :: string
  sc_goal :: string
  sc_model :: string
  sc_max_turns :: int
  sc_verify_port :: int
  sc_budget :: int

record supervise_result =
  sr_verdict :: string
  sr_note :: string
  sr_intervene_reason :: string
  sr_exit :: int
  sr_tail :: string
  sr_turns :: int
  sr_cost :: int

definition empty_supervise :: supervise_result where
  "empty_supervise = \<lparr>sr_verdict = [], sr_note = [], sr_intervene_reason = [], sr_exit = - 1, sr_tail = [],
     sr_turns = 0, sr_cost = 0\<rparr>"

text \<open>One line of the turns log.\<close>

record turn_line =
  tl_turn :: int
  tl_status :: string
  tl_verdict :: string
  tl_cost :: int
  tl_parse_error :: string

text \<open>\<^verbatim>\<open>rem >= 0 && rem <= 0\<close>, for a budget function that answers -1 when there is no budget.\<close>

definition budget_spent :: "supervise_config \<Rightarrow> supervise_result \<Rightarrow> bool" where
  "budget_spent c res \<longleftrightarrow> (let rem = sc_budget c - sr_cost res in rem \<ge> 0 \<and> rem \<le> 0)"

definition intervene :: "string \<Rightarrow> supervise_result \<Rightarrow> supervise_result" where
  "intervene reason res = res\<lparr>sr_verdict := ''intervene'', sr_intervene_reason := reason\<rparr>"

definition status_text_of :: "snapshot \<Rightarrow> string" where
  "status_text_of s = (if sn_exited s then ''EXITED'' else ''RUNNING'')"

definition supervisor_input_of :: "supervise_config \<Rightarrow> int \<Rightarrow> int \<Rightarrow> snapshot \<Rightarrow> supervisor_input" where
  "supervisor_input_of c turn prev s =
     \<lparr>si_goal = sc_goal c, si_iteration = sc_iteration c, si_script = sc_script c,
      si_elapsed_min = sn_elapsed_min s, si_turn = turn, si_status = status_text_of s,
      si_exit = (if sn_exited s then sn_exit s else None), si_tail = sn_tail s,
      si_bytes = sn_live_bytes s - prev, si_idle_seconds = sn_idle_seconds s,
      si_verify_port = sc_verify_port c, si_model = sc_model c\<rparr>"

text \<open>The port is probed only after a clean exit, and counts when it answers below 500.\<close>

definition port_serves :: "'w agent_env \<Rightarrow> supervise_config \<Rightarrow> snapshot \<Rightarrow> 'w \<Rightarrow> int option \<times> 'w" where
  "port_serves e c s w =
     (if sn_exited s \<and> sn_exit s = Some 0 \<and> sc_verify_port c > 0
      then (let (code, w') = ae_probe e (sc_verify_port c) w
            in (if 200 \<le> code \<and> code < 500 then Some code else None, w'))
      else (None, w))"

definition auto_done_note :: "int \<Rightarrow> int \<Rightarrow> string" where
  "auto_done_note port code =
     ''script exited 0; port '' @ itoa port @ '' returned http '' @ itoa code @
     '' (agent-ops short-circuit, supervisor not consulted)''"

definition quote1 :: "string \<Rightarrow> string" where
  "quote1 s = [CHR 0x27] @ s @ [CHR 0x27]"

text \<open>
  A turn after the snapshot. \<open>Inl\<close> ends the loop with the result, the error and whether the
  process group is killed; \<open>Inr\<close> goes on.
\<close>

type_synonym turn_end = "supervise_result \<times> string option \<times> bool"

definition judge_turn ::
  "supervise_config \<Rightarrow> int \<Rightarrow> snapshot \<Rightarrow> (string + supervisor_output) \<Rightarrow> supervise_result \<Rightarrow>
   (turn_end + supervise_result) \<times> turn_line" where
  "judge_turn c turn s reply res =
     (case reply of
        Inl err \<Rightarrow>
          (let res = res\<lparr>sr_turns := turn\<rparr>;
               line = \<lparr>tl_turn = turn, tl_status = status_text_of s, tl_verdict = ''continue'', tl_cost = 0,
                       tl_parse_error = err\<rparr>
           in (if sn_exited s
               then Inl (intervene ''supervisor unreachable + bash exited'' res, Some err, False)
               else Inr res, line))
      | Inr out \<Rightarrow>
          (let res = res\<lparr>sr_cost := sr_cost res + so_cost out, sr_turns := turn\<rparr>;
               v = so_verdict out;
               line = \<lparr>tl_turn = turn, tl_status = status_text_of s, tl_verdict = sv_verdict v,
                       tl_cost = so_cost out, tl_parse_error = so_parse_error out\<rparr>
           in (if sv_verdict v = ''done''
               then Inl (res\<lparr>sr_verdict := ''done'', sr_note := sv_note v\<rparr>, None, False)
               else if sv_verdict v = ''intervene''
               then Inl (intervene (if sv_reason v = [] then sv_note v else sv_reason v) res, None, True)
               else if sn_exited s \<and> turn \<ge> sc_max_turns c
               then Inl (intervene (''bash exited but supervisor never reached '' @ quote1 ''done'') res, None, False)
               else Inr res, line)))"

definition supervise_turn ::
  "'w agent_env \<Rightarrow> supervise_config \<Rightarrow> int \<Rightarrow> int \<Rightarrow> supervise_result \<Rightarrow> 'w \<Rightarrow>
   ((turn_end + supervise_result \<times> int) \<times> turn_line list) \<times> 'w" where
  "supervise_turn e c turn prev res w =
     (case ae_wake e w of
        (CtxDone err, w) \<Rightarrow>
          ((Inl (intervene (''parent context cancelled: '' @ err) res, Some err, True), []), w)
      | (_, w) \<Rightarrow>
          if budget_spent c res
          then ((Inl (intervene ''token budget exhausted mid-iteration'' res,
                      Some ''token budget exhausted'', True), []), w)
          else (let (s, w) = ae_snapshot e w; (serves, w) = port_serves e c s w
                in case serves of
                     Some code \<Rightarrow>
                       ((Inl (res\<lparr>sr_verdict := ''done'',
                                 sr_note := auto_done_note (sc_verify_port c) code\<rparr>, None, False), []), w)
                   | None \<Rightarrow>
                       (let (reply, w) = ae_check e (supervisor_input_of c turn prev s) w;
                            (r, line) = judge_turn c turn s reply res
                        in ((map_sum id (\<lambda>res. (res, sn_live_bytes s)) r, [line]), w))))"

text \<open>The loop over the turns; \<open>n\<close> of them are left.\<close>

fun supervise_loop ::
  "'w agent_env \<Rightarrow> supervise_config \<Rightarrow> nat \<Rightarrow> int \<Rightarrow> int \<Rightarrow> supervise_result \<Rightarrow> 'w \<Rightarrow>
   (turn_end \<times> turn_line list) \<times> 'w" where
  "supervise_loop e c 0 turn prev res w =
     (((intervene (''supervisor-turn cap '' @ itoa (sc_max_turns c) @ '' reached without '' @ quote1 ''done'')
          res, None, True), []), w)"
| "supervise_loop e c (Suc n) turn prev res w =
     (case supervise_turn e c turn prev res w of
        ((Inl r, ls), w) \<Rightarrow> ((r, ls), w)
      | ((Inr (res', prev'), ls), w) \<Rightarrow>
          (case supervise_loop e c n (turn + 1) prev' res' w of
             ((r, ls'), w) \<Rightarrow> ((r, ls @ ls'), w)))"

text \<open>
  \<^verbatim>\<open>superviseScript\<close>: \<open>None\<close> if the deferred wait never ends. The log is what
  \<^verbatim>\<open>appendSupervisorTurn\<close> wrote.
\<close>

definition supervise_script ::
  "'w agent_env \<Rightarrow> supervise_config \<Rightarrow> 'w \<Rightarrow>
   (supervise_result \<times> string option \<times> turn_line list) option \<times> 'w" where
  "supervise_script e c w =
     (case ae_start e w of
        (Some err, w) \<Rightarrow> (Some (empty_supervise, Some err, []), w)
      | (None, w) \<Rightarrow>
          (case supervise_loop e c (nat (sc_max_turns c)) 1 0 empty_supervise w of
             (((res, err, kill), ls), w) \<Rightarrow>
               (case ae_reap e (if kill then ae_kill e w else w) of
                  (None, w) \<Rightarrow> (None, w)
                | (Some (code, tail), w) \<Rightarrow>
                    (Some (res\<lparr>sr_exit := code, sr_tail := tail\<rparr>, err, ls), w))))"

subsection \<open>The loop of plan and supervise\<close>

record agent_config_in =
  ag_goal :: string
  ag_house_rules :: string
  ag_planner_model :: string
  ag_supervisor_model :: string
  ag_max_iter :: int
  ag_verify_port :: int
  ag_max_turns :: int
  ag_budget :: int
  ag_script_path :: string

text \<open>\<^verbatim>\<open>final-status.json\<close> has these fields, and older ones derived from the first.\<close>

record final_status =
  fs_success :: bool
  fs_iterations :: int
  fs_turns :: int
  fs_cost :: int
  fs_verdict :: string
  fs_note :: string

definition final_exit_code :: "final_status \<Rightarrow> int" where
  "final_exit_code f = (if fs_success f then 0 else - 1)"

text \<open>
  What the loop carries from one iteration to the next, with the scripts and turn logs it keeps
  for audit, the facts it adds, and the planner calls it made.
\<close>

record agent_state =
  st_prev :: string
  st_prev_exit :: int
  st_prev_reason :: string
  st_cost :: int
  st_turns :: int
  st_last_error :: "string option"
  st_verdict :: string
  st_scripts :: "(int \<times> string) list"
  st_lines :: "turn_line list"
  st_facts :: "string list"
  st_plans :: "(int \<times> int) list"

definition agent_start :: agent_state where
  "agent_start = \<lparr>st_prev = [], st_prev_exit = 0, st_prev_reason = [], st_cost = 0, st_turns = 0,
     st_last_error = None, st_verdict = [], st_scripts = [], st_lines = [], st_facts = [], st_plans = []\<rparr>"

definition plan_input_of :: "agent_config_in \<Rightarrow> int \<Rightarrow> agent_state \<Rightarrow> plan_input" where
  "plan_input_of g iter s = \<lparr>pi_goal = ag_goal g, pi_model = ag_planner_model g,
     pi_house_rules = ag_house_rules g, pi_iteration = iter, pi_prev_stderr = st_prev s,
     pi_prev_stdout = [], pi_prev_exit = st_prev_exit s, pi_prev_reason = st_prev_reason s,
     pi_script_path = ag_script_path g, pi_verify_port = ag_verify_port g\<rparr>"

definition supervise_config_of :: "agent_config_in \<Rightarrow> int \<Rightarrow> string \<Rightarrow> agent_state \<Rightarrow> supervise_config" where
  "supervise_config_of g iter script s = \<lparr>sc_iteration = iter, sc_script = script, sc_goal = ag_goal g,
     sc_model = ag_supervisor_model g, sc_max_turns = ag_max_turns g, sc_verify_port = ag_verify_port g,
     sc_budget = (if ag_budget g \<le> 0 then - 1 else ag_budget g - st_cost s)\<rparr>"

definition iteration_fact :: "(int \<Rightarrow> string) \<Rightarrow> int \<Rightarrow> supervise_result \<Rightarrow> string" where
  "iteration_fact now iter r =
     ''iter='' @ itoa iter @ '' verdict='' @ sr_verdict r @ '' exit='' @ itoa (sr_exit r) @ '' at '' @ now iter @
     ''; tail: '' @ truncate_str (trim_space (sr_tail r)) 400"

text \<open>
  An iteration from the planner on. \<open>Inl\<close> is success, with the note; \<open>Inr\<close> the state for the
  next iteration.
\<close>

definition plan_failed :: "string \<Rightarrow> string \<Rightarrow> string \<Rightarrow> agent_state \<Rightarrow> agent_state" where
  "plan_failed err prev reason s =
     s\<lparr>st_last_error := Some err, st_prev := prev, st_prev_exit := - 1, st_prev_reason := reason\<rparr>"

definition supervised ::
  "(int \<Rightarrow> string) \<Rightarrow> int \<Rightarrow> supervise_result \<times> string option \<times> turn_line list \<Rightarrow> agent_state \<Rightarrow>
   agent_state" where
  "supervised now iter out s =
     (case out of (r, err, ls) \<Rightarrow>
        s\<lparr>st_cost := st_cost s + sr_cost r, st_turns := st_turns s + sr_turns r,
          st_verdict := sr_verdict r, st_lines := st_lines s @ ls,
          st_facts := st_facts s @ [iteration_fact now iter r]\<rparr>)"

definition interrupted ::
  "int \<Rightarrow> supervise_result \<Rightarrow> string option \<Rightarrow> agent_state \<Rightarrow> agent_state" where
  "interrupted iter r err s =
     (let s = (case err of None \<Rightarrow> s | Some e \<Rightarrow> s\<lparr>st_last_error := Some e\<rparr>);
          s = s\<lparr>st_prev := sr_tail r, st_prev_exit := sr_exit r, st_prev_reason := sr_intervene_reason r\<rparr>
      in if st_last_error s = None
         then s\<lparr>st_last_error := Some (''iter '' @ itoa iter @ '' ended with verdict='' @ sr_verdict r @
                '': '' @ sr_intervene_reason r)\<rparr>
         else s)"

definition agent_iteration ::
  "'w agent_env \<Rightarrow> (int \<Rightarrow> string) \<Rightarrow> agent_config_in \<Rightarrow> int \<Rightarrow> agent_state \<Rightarrow> 'w \<Rightarrow>
   (supervise_result \<times> agent_state + agent_state) option \<times> 'w" where
  "agent_iteration e now g iter s w =
     (let w = ae_remove_script e w;
          ((plan, perr), w) = ae_plan e (plan_input_of g iter s) w;
          s = s\<lparr>st_plans := st_plans s @ [(iter, st_cost s)], st_cost := st_cost s + po_cost plan\<rparr>
      in case perr of
           Some err \<Rightarrow> (Some (Inr (plan_failed err (''planner failed: '' @ err) ''planner subprocess failure'' s)), w)
         | None \<Rightarrow>
             (case ae_read_script e w of
                Inl err \<Rightarrow>
                  (Some (Inr (plan_failed (''planner did not write '' @ ag_script_path g @ '': '' @ err)
                     (''planner did not write '' @ ag_script_path g @ '': '' @ err)
                     ''planner emitted no script file'' s)), w)
              | Inr script \<Rightarrow>
                  (let s = s\<lparr>st_scripts := st_scripts s @ [(iter, script)]\<rparr>;
                       (out, w) = supervise_script e (supervise_config_of g iter script s) w
                   in case out of
                        None \<Rightarrow> (None, w)
                      | Some (r, err, ls) \<Rightarrow>
                          (let s = supervised now iter (r, err, ls) s
                           in if err = None \<and> sr_verdict r = ''done'' then (Some (Inl (r, s)), w)
                              else (Some (Inr (interrupted iter r err s)), w)))))"

text \<open>
  The outer loop; \<open>n\<close> iterations are left. \<open>Inl\<close>: left early, with the error of a cancelled
  context (no final status is written) or with success; \<open>Inr\<close>: the loop is over.
\<close>

datatype agent_exit = AgentCancelled string | AgentDone int supervise_result

definition budget_error :: "string \<Rightarrow> int \<Rightarrow> string" where
  "budget_error usd iter = ''token budget $'' @ usd @ '' exceeded at iteration '' @ itoa iter"

fun agent_loop ::
  "'w agent_env \<Rightarrow> (int \<Rightarrow> string) \<Rightarrow> string \<Rightarrow> agent_config_in \<Rightarrow> nat \<Rightarrow> int \<Rightarrow> agent_state \<Rightarrow> 'w \<Rightarrow>
   (agent_exit option \<times> agent_state) option \<times> 'w" where
  "agent_loop e now usd g 0 iter s w = (Some (None, s), w)"
| "agent_loop e now usd g (Suc n) iter s w =
     (case ae_ctx e w of
        Some err \<Rightarrow>
          (Some (Some (AgentCancelled (''agent_script: context cancelled at iteration '' @ itoa iter @ '': '' @ err)), s), w)
      | None \<Rightarrow>
          if ag_budget g > 0 \<and> st_cost s \<ge> ag_budget g
          then (Some (None, s\<lparr>st_last_error := Some (budget_error usd iter)\<rparr>), w)
          else (case agent_iteration e now g iter s w of
                  (None, w) \<Rightarrow> (None, w)
                | (Some (Inl (r, s)), w) \<Rightarrow> (Some (Some (AgentDone iter r), s), w)
                | (Some (Inr s), w) \<Rightarrow> agent_loop e now usd g n (iter + 1) s w))"

definition agent_failure :: "agent_config_in \<Rightarrow> agent_state \<Rightarrow> string" where
  "agent_failure g s =
     ''agent_script: bootstrap failed after '' @ itoa (ag_max_iter g) @ '' iterations: '' @
     (case st_last_error s of
        None \<Rightarrow> ''agent_script: '' @ itoa (ag_max_iter g) @ '' iterations exhausted with no success''
      | Some err \<Rightarrow> err)"

text \<open>What is returned: the error if any, the final status if one is written, and the state.\<close>

record agent_report =
  ar_error :: "string option"
  ar_status :: "final_status option"
  ar_state :: agent_state

definition agent_finish :: "agent_config_in \<Rightarrow> agent_exit option \<times> agent_state \<Rightarrow> agent_report" where
  "agent_finish g out =
     (case out of
        (Some (AgentCancelled err), s) \<Rightarrow> \<lparr>ar_error = Some err, ar_status = None, ar_state = s\<rparr>
      | (Some (AgentDone iter r), s) \<Rightarrow>
          \<lparr>ar_error = None, ar_status = Some \<lparr>fs_success = True, fs_iterations = iter, fs_turns = st_turns s,
             fs_cost = st_cost s, fs_verdict = ''done'', fs_note = sr_note r\<rparr>, ar_state = s\<rparr>
      | (None, s) \<Rightarrow>
          \<lparr>ar_error = Some (agent_failure g s),
           ar_status = Some \<lparr>fs_success = False, fs_iterations = ag_max_iter g, fs_turns = st_turns s,
             fs_cost = st_cost s, fs_verdict = st_verdict s, fs_note = []\<rparr>, ar_state = s\<rparr>)"

definition agent_config_of :: "environ \<Rightarrow> int \<Rightarrow> string \<Rightarrow> agent_config_in" where
  "agent_config_of env budget path =
     (let planner = trim_space (env ''AGENT_OPS_BOOTSTRAP_MODEL'');
          supervisor = trim_space (env ''AGENT_OPS_BOOTSTRAP_SUPERVISOR_MODEL'')
      in \<lparr>ag_goal = trim_space (env ''AGENT_OPS_BOOTSTRAP_PROMPT''),
          ag_house_rules = trim_space (env ''AGENT_OPS_BOOTSTRAP_SYSTEM_RULES''),
          ag_planner_model = planner,
          ag_supervisor_model = (if supervisor = [] then planner else supervisor),
          ag_max_iter = agent_max_iterations env, ag_verify_port = agent_verify_port env,
          ag_max_turns = agent_max_supervisor_turns env, ag_budget = budget, ag_script_path = path\<rparr>)"

definition run_agent_script ::
  "'w agent_env \<Rightarrow> (int \<Rightarrow> string) \<Rightarrow> environ \<Rightarrow> int \<Rightarrow> string \<Rightarrow> string \<Rightarrow> string option \<Rightarrow> 'w \<Rightarrow>
   agent_report option \<times> 'w" where
  "run_agent_script e now env budget usd path mkdir_err w =
     (let g = agent_config_of env budget path
      in if ag_goal g = []
         then (Some \<lparr>ar_error = Some ''agent_script: AGENT_OPS_BOOTSTRAP_PROMPT is empty'', ar_status = None,
                     ar_state = agent_start\<rparr>, w)
         else case mkdir_err of
           Some err \<Rightarrow> (Some \<lparr>ar_error = Some (''agent_script: mkdir audit dir: '' @ err), ar_status = None,
                              ar_state = agent_start\<rparr>, w)
         | None \<Rightarrow>
             (case agent_loop e now usd g (nat (ag_max_iter g)) 1 agent_start w of
                (None, w) \<Rightarrow> (None, w)
              | (Some out, w) \<Rightarrow> (Some (agent_finish g out), w)))"

subsection \<open>Lemmas on one script\<close>

text \<open>What the end of a turn can be.\<close>

definition good_end :: "turn_end \<Rightarrow> bool" where
  "good_end t \<longleftrightarrow> (case t of (r, err, kill) \<Rightarrow>
     sr_verdict r \<in> {''done'', ''intervene''} \<and>
     (sr_verdict r = ''done'' \<longrightarrow> err = None \<and> \<not> kill))"

lemma intervene_sel [simp]:
  "sr_verdict (intervene m r) = ''intervene''" "sr_cost (intervene m r) = sr_cost r"
  "sr_turns (intervene m r) = sr_turns r"
  by (simp_all add: intervene_def)

lemma judge_turn_end: "fst (judge_turn c turn s reply res) = Inl t \<Longrightarrow> good_end t"
  by (auto simp: judge_turn_def good_end_def Let_def split: sum.splits if_splits)

text \<open>The ways a turn can go.\<close>

lemma supervise_turn_cases:
  assumes "supervise_turn e c turn prev res w = ((out, ls), w')"
  obtains (cancelled) err where
      "out = Inl (intervene (''parent context cancelled: '' @ err) res, Some err, True)" "ls = []"
  | (budget) "budget_spent c res" "ls = []"
      "out = Inl (intervene ''token budget exhausted mid-iteration'' res, Some ''token budget exhausted'', True)"
  | (serving) s w1 code w2 where "\<not> budget_spent c res" "sn_exited (s :: snapshot)" "sn_exit s = Some 0" "0 < sc_verify_port c"
      "ae_probe e (sc_verify_port c) w1 = (code, w2)" "200 \<le> code" "code < 500" "ls = []"
      "out = Inl (res\<lparr>sr_verdict := ''done'', sr_note := auto_done_note (sc_verify_port c) code\<rparr>, None, False)"
  | (asked) s w1 reply w2 r line where "\<not> budget_spent c res"
      "ae_check e (supervisor_input_of c turn prev s) w1 = (reply, w2)"
      "judge_turn c turn s reply res = (r, line)" "ls = [line]"
      "out = map_sum id (\<lambda>res. (res, sn_live_bytes s)) r"
proof -
  obtain k w1 where wake: "ae_wake e w = (k, w1)" by (cases "ae_wake e w")
  show thesis
  proof (cases "\<exists>err. k = CtxDone err")
    case True
    then show thesis using assms cancelled by (auto simp: supervise_turn_def wake)
  next
    case False
    then have unfold: "supervise_turn e c turn prev res w =
        (if budget_spent c res
          then ((Inl (intervene ''token budget exhausted mid-iteration'' res,
                      Some ''token budget exhausted'', True), []), w1)
          else (let (s, w) = ae_snapshot e w1; (serves, w) = port_serves e c s w
                in case serves of
                     Some code \<Rightarrow>
                       ((Inl (res\<lparr>sr_verdict := ''done'',
                                 sr_note := auto_done_note (sc_verify_port c) code\<rparr>, None, False), []), w)
                   | None \<Rightarrow>
                       (let (reply, w) = ae_check e (supervisor_input_of c turn prev s) w;
                            (r, line) = judge_turn c turn s reply res
                        in ((map_sum id (\<lambda>res. (res, sn_live_bytes s)) r, [line]), w))))"
      by (cases k) (simp_all add: supervise_turn_def wake)
    obtain s w2 where snap: "ae_snapshot e w1 = (s, w2)" by (cases "ae_snapshot e w1")
    obtain serves w3 where port: "port_serves e c s w2 = (serves, w3)" by (cases "port_serves e c s w2")
    obtain reply w4 where check: "ae_check e (supervisor_input_of c turn prev s) w3 = (reply, w4)"
      by (cases "ae_check e (supervisor_input_of c turn prev s) w3")
    obtain r line where judge: "judge_turn c turn s reply res = (r, line)"
      by (cases "judge_turn c turn s reply res")
    show thesis
    proof (cases "budget_spent c res")
      case True
      then show thesis using assms budget unfold by simp
    next
      case nb: False
      show thesis
      proof (cases serves)
        case None
        then show thesis using assms nb unfold snap port check judge asked [OF nb check judge] by simp
      next
        case (Some code)
        with port have "sn_exited s" "sn_exit s = Some 0" "0 < sc_verify_port c" "200 \<le> code" "code < 500"
          and "fst (ae_probe e (sc_verify_port c) w2) = code"
          by (auto simp: port_serves_def Let_def split: if_splits prod.splits)
        then show thesis
          using assms nb unfold snap port Some serving [OF nb, of s w2 code "snd (ae_probe e (sc_verify_port c) w2)"]
          by auto
      qed
    qed
  qed
qed

lemma supervise_turn_end:
  assumes "supervise_turn e c turn prev res w = ((Inl t, ls), w')"
  shows "good_end t"
  using assms
proof (cases rule: supervise_turn_cases)
  case (asked s w1 reply w2 r line)
  then show ?thesis using judge_turn_end [of c turn s reply res t] by (cases r) auto
qed (auto simp: good_end_def)

lemma supervise_loop_end: "supervise_loop e c n turn prev res w = ((t, ls), w') \<Longrightarrow> good_end t"
proof (induction e c n turn prev res w arbitrary: ls t w' rule: supervise_loop.induct)
  case (2 e c n turn prev res w)
  obtain out ls1 w1 where st: "supervise_turn e c turn prev res w = ((out, ls1), w1)"
    by (metis prod.collapse)
  show ?case
  proof (cases out)
    case (Inl r)
    from supervise_turn_end [OF st [unfolded Inl]] "2.prems" st Inl show ?thesis by simp
  next
    case (Inr p)
    obtain res' prev' where p: "p = (res', prev')" by (cases p)
    obtain t2 ls2 w2 where "supervise_loop e c n (turn + 1) prev' res' w1 = ((t2, ls2), w2)"
      by (metis prod.collapse)
    with "2.IH" [OF st [symmetric]] "2.prems" st Inr p show ?thesis by auto
  qed
qed (auto simp: good_end_def)

text \<open>The log: one line per question asked, numbered from the first turn on.\<close>

lemma judge_turn_line:
  "judge_turn c turn s reply res = (r, line) \<Longrightarrow> tl_turn line = turn \<and>
     (case r of Inl (q, _, _) \<Rightarrow> sr_cost q = sr_cost res + tl_cost line \<and> sr_turns q = turn \<and>
                   (sr_verdict q = ''done'' \<longrightarrow> tl_verdict line = ''done'')
      | Inr q \<Rightarrow> sr_cost q = sr_cost res + tl_cost line \<and> sr_turns q = turn)"
  by (auto simp: judge_turn_def Let_def split: sum.splits if_splits)

definition served :: "'w agent_env \<Rightarrow> supervise_config \<Rightarrow> bool" where
  "served e c \<longleftrightarrow> 0 < sc_verify_port c \<and>
     (\<exists>w. 200 \<le> fst (ae_probe e (sc_verify_port c) w) \<and> fst (ae_probe e (sc_verify_port c) w) < 500)"

definition good_log ::
  "'w agent_env \<Rightarrow> supervise_config \<Rightarrow> int \<Rightarrow> int \<Rightarrow> int \<Rightarrow> supervise_result \<Rightarrow> turn_line list \<Rightarrow> bool" where
  "good_log e c turn cost n r ls \<longleftrightarrow>
     map tl_turn ls = map (\<lambda>i. turn + int i) [0..<length ls] \<and> int (length ls) \<le> n \<and>
     sr_cost r = cost + sum_list (map tl_cost ls) \<and>
     (sr_verdict r = ''done'' \<longrightarrow> (ls \<noteq> [] \<and> tl_verdict (last ls) = ''done'') \<or> served e c)"

lemma good_log_Cons:
  assumes "good_log e c (turn + 1) (cost + tl_cost l) n r ls" and "tl_turn l = turn"
  shows "good_log e c turn cost (n + 1) r (l # ls)"
proof -
  have "[0..<Suc (length ls)] = 0 # map Suc [0..<length ls]"
    by (simp add: map_Suc_upt upt_conv_Cons del: upt_Suc)
  then have "map (\<lambda>i. turn + int i) [0..<Suc (length ls)] =
      turn # map (\<lambda>i. turn + 1 + int i) [0..<length ls]"
    by (simp only: list.map map_map comp_def) (simp add: ac_simps)
  with assms show ?thesis by (auto simp: good_log_def)
qed

lemma supervise_loop_log:
  "supervise_loop e c n turn prev res w = (((r, err, kill), ls), w') \<Longrightarrow>
     good_log e c turn (sr_cost res) (int n) r ls"
proof (induction n arbitrary: turn prev res w r err kill ls w')
  case 0
  then show ?case by (auto simp: good_log_def)
next
  case (Suc n)
  obtain out ls1 w1 where st: "supervise_turn e c turn prev res w = ((out, ls1), w1)"
    by (metis prod.collapse)
  from st show ?case
  proof (cases rule: supervise_turn_cases)
    case (serving s w0 code w2)
    then have "served e c" by (auto simp: served_def intro!: exI [of _ w0])
    then show ?thesis using Suc.prems st serving by (auto simp: good_log_def)
  next
    case (asked s w0 reply w2 q line)
    note line = judge_turn_line [OF asked(3)]
    show ?thesis
    proof (cases q)
      case (Inl t)
      then show ?thesis
        using Suc.prems st asked line by (cases t) (auto simp: good_log_def)
    next
      case (Inr res')
      obtain t2 ls2 w3 where rec: "supervise_loop e c n (turn + 1) (sn_live_bytes s) res' w1 = ((t2, ls2), w3)"
        by (metis prod.collapse)
      obtain r2 err2 kill2 where t2: "t2 = (r2, err2, kill2)" by (cases t2)
      have "r = r2" and ls: "ls = line # ls2"
        using Suc.prems st asked Inr rec t2 by auto
      moreover have "good_log e c (turn + 1) (sr_cost res + tl_cost line) (int n) r2 ls2"
        using Suc.IH [OF rec [unfolded t2]] line Inr by simp
      ultimately show ?thesis
        using good_log_Cons [of e c turn "sr_cost res" line "int n" r2 ls2] line
        by (simp add: add.commute)
    qed
  qed (use Suc.prems st in \<open>auto simp: good_log_def\<close>)
qed

subsection \<open>What a script is seen to do\<close>

text \<open>
  The snapshots, probes, questions and kills of a run, with their answers. \<open>traced e\<close> does what
  \<open>e\<close> does and keeps them, oldest first.
\<close>

datatype agent_event =
  Snapped snapshot | Probed int int | Asked supervisor_input "string + supervisor_output" | Killed

definition traced :: "'w agent_env \<Rightarrow> (agent_event list \<times> 'w) agent_env" where
  "traced e = \<lparr>
     ae_plan = (\<lambda>i (tr, w). map_prod id (Pair tr) (ae_plan e i w)),
     ae_check = (\<lambda>i (tr, w). case ae_check e i w of (x, w') \<Rightarrow> (x, (tr @ [Asked i x], w'))),
     ae_ctx = (\<lambda>(tr, w). ae_ctx e w),
     ae_remove_script = (\<lambda>(tr, w). (tr, ae_remove_script e w)),
     ae_read_script = (\<lambda>(tr, w). ae_read_script e w),
     ae_start = (\<lambda>(tr, w). map_prod id (Pair tr) (ae_start e w)),
     ae_wake = (\<lambda>(tr, w). map_prod id (Pair tr) (ae_wake e w)),
     ae_snapshot = (\<lambda>(tr, w). case ae_snapshot e w of (s, w') \<Rightarrow> (s, (tr @ [Snapped s], w'))),
     ae_probe = (\<lambda>p (tr, w). case ae_probe e p w of (code, w') \<Rightarrow> (code, (tr @ [Probed p code], w'))),
     ae_kill = (\<lambda>(tr, w). (tr @ [Killed], ae_kill e w)),
     ae_reap = (\<lambda>(tr, w). map_prod id (Pair tr) (ae_reap e w))\<rparr>"

lemma traced_sel [simp]:
  "ae_start (traced e) (tr, w) = map_prod id (Pair tr) (ae_start e w)"
  "ae_wake (traced e) (tr, w) = map_prod id (Pair tr) (ae_wake e w)"
  "ae_reap (traced e) (tr, w) = map_prod id (Pair tr) (ae_reap e w)"
  "ae_kill (traced e) (tr, w) = (tr @ [Killed], ae_kill e w)"
  "ae_check (traced e) i (tr, w) = (case ae_check e i w of (x, w') \<Rightarrow> (x, (tr @ [Asked i x], w')))"
  "ae_snapshot (traced e) (tr, w) = (case ae_snapshot e w of (s, w') \<Rightarrow> (s, (tr @ [Snapped s], w')))"
  "ae_probe (traced e) p (tr, w) = (case ae_probe e p w of (code, w') \<Rightarrow> (code, (tr @ [Probed p code], w')))"
  by (simp_all add: traced_def)

text \<open>The questions of a trace with their answers, and the line of the turns log for one.\<close>

fun answers :: "agent_event list \<Rightarrow> (supervisor_input \<times> (string + supervisor_output)) list" where
  "answers [] = []"
| "answers (Asked i x # tr) = (i, x) # answers tr"
| "answers (ev # tr) = answers tr"

lemma answers_append [simp]: "answers (tr @ tr') = answers tr @ answers tr'"
  by (induction tr rule: answers.induct) simp_all











text \<open>An overspent budget is not noticed: only a remainder of exactly zero is.\<close>

definition costs_nonneg :: "'w agent_env \<Rightarrow> bool" where
  "costs_nonneg e \<longleftrightarrow> (\<forall>i w. case fst (ae_check e i w) of Inl _ \<Rightarrow> True | Inr out \<Rightarrow> 0 \<le> so_cost out)"

lemma overspent_turn:
  assumes "sc_budget c < 0" and "0 \<le> sr_cost res"
  shows "supervise_turn e (c\<lparr>sc_budget := - 1\<rparr>) turn prev res w = supervise_turn e c turn prev res w"
proof -
  have spent: "budget_spent (c\<lparr>sc_budget := - 1\<rparr>) res = budget_spent c res"
    using assms by (simp add: budget_spent_def Let_def)
  have input: "supervisor_input_of (c\<lparr>sc_budget := - 1\<rparr>) = supervisor_input_of c"
    by (intro ext) (simp add: supervisor_input_of_def)
  have port: "port_serves e (c\<lparr>sc_budget := - 1\<rparr>) = port_serves e c"
    by (intro ext) (simp add: port_serves_def)
  have "judge_turn (c\<lparr>sc_budget := - 1\<rparr>) t s reply r = judge_turn c t s reply r" for t s reply r
    by (cases reply) (simp_all add: judge_turn_def Let_def)
  then have judge: "judge_turn (c\<lparr>sc_budget := - 1\<rparr>) = judge_turn c"
    by (intro ext) simp
  have verify: "sc_verify_port (c\<lparr>sc_budget := - 1\<rparr>) = sc_verify_port c" by simp
  show ?thesis unfolding supervise_turn_def spent input port judge verify by (rule refl)
qed

lemma overspent_turn_cost:
  assumes "supervise_turn e c turn prev res w = ((Inr (res', prev'), ls), w')" and "costs_nonneg e"
  shows "sr_cost res \<le> sr_cost res'"
  using assms(1)
proof (cases rule: supervise_turn_cases)
  case (asked s w1 reply w2 r line)
  from asked(2) have "reply = fst (ae_check e (supervisor_input_of c turn prev s) w1)" by simp
  with assms(2) have "case reply of Inl _ \<Rightarrow> True | Inr out \<Rightarrow> 0 \<le> so_cost out"
    by (simp only: costs_nonneg_def)
  with asked(3,5) show ?thesis
    by (cases r) (auto simp: judge_turn_def Let_def split: sum.splits if_splits)
qed auto

lemma overspent_loop:
  "sc_budget c < 0 \<Longrightarrow> 0 \<le> sr_cost res \<Longrightarrow> costs_nonneg e \<Longrightarrow>
     supervise_loop e (c\<lparr>sc_budget := - 1\<rparr>) n turn prev res w = supervise_loop e c n turn prev res w"
proof (induction n arbitrary: turn prev res w)
  case (Suc n)
  obtain out ls w1 where st: "supervise_turn e c turn prev res w = ((out, ls), w1)"
    by (metis prod.collapse)
  show ?case
  proof (cases out)
    case (Inl t)
    then show ?thesis by (simp add: overspent_turn [OF Suc.prems(1,2)] st)
  next
    case (Inr p)
    obtain res' prev' where p: "p = (res', prev')" by (cases p)
    have "0 \<le> sr_cost res'"
      using overspent_turn_cost [OF st [unfolded Inr p] Suc.prems(3)] Suc.prems(2) by simp
    from Suc.IH [OF Suc.prems(1) this Suc.prems(3)] show ?thesis
      by (simp add: overspent_turn [OF Suc.prems(1,2)] st Inr p)
  qed
qed simp

text \<open>After the process has exited, a supervisor that says continue is asked in every turn left.\<close>

lemma exited_is_asked_on:
  assumes "\<And>w. fst (ae_wake e w) = ProcExited" and "\<And>w. sn_exited (fst (ae_snapshot e w))"
    and "sc_verify_port c \<le> 0" and "sc_budget c < 0"
    and "\<And>i w. \<exists>out. fst (ae_check e i w) = Inr out \<and> sv_verdict (so_verdict out) = ''continue'' \<and> so_cost out = 0"
  shows "turn + int n = sc_max_turns c + 1 \<Longrightarrow> sr_cost res = 0 \<Longrightarrow>
    length (snd (fst (supervise_loop e c n turn prev res w))) = n"
proof (induction n arbitrary: turn prev res w)
  case (Suc n)
  obtain w1 where wake: "ae_wake e w = (ProcExited, w1)"
    using assms(1) [of w] by (cases "ae_wake e w") auto
  obtain s w2 where snap: "ae_snapshot e w1 = (s, w2)" and ex: "sn_exited s"
    using assms(2) [of w1] by (cases "ae_snapshot e w1") auto
  obtain reply w3 where check: "ae_check e (supervisor_input_of c turn prev s) w2 = (Inr reply, w3)"
    and reply: "sv_verdict (so_verdict reply) = ''continue''" "so_cost reply = 0"
    using assms(5) [of "supervisor_input_of c turn prev s" w2]
    by (cases "ae_check e (supervisor_input_of c turn prev s) w2") auto
  have nb: "\<not> budget_spent c res" using assms(4) Suc.prems(2) by (simp add: budget_spent_def)
  have port: "port_serves e c s w2 = (None, w2)" using assms(3) by (simp add: port_serves_def)
  show ?case
  proof (cases "turn \<ge> sc_max_turns c")
    case True
    then have "n = 0" using Suc.prems(1) by simp
    then show ?thesis
      using True ex by (simp add: supervise_turn_def wake nb snap port check judge_turn_def reply)
  next
    case False
    then show ?thesis
      using Suc.prems Suc.IH [of "turn + 1"] ex reply(2)
      by (simp add: supervise_turn_def wake nb snap port check judge_turn_def reply Let_def split_beta)
  qed
qed simp

subsection \<open>Lemmas on the outer loop\<close>

lemma supervise_script_Some:
  assumes "supervise_script e c w = (Some (r, err, ls), w')"
  shows "(sr_verdict r = ''done'' \<longrightarrow> err = None) \<and> length ls \<le> nat (sc_max_turns c) \<and>
    (sr_verdict r = [] \<and> ls = [] \<and> err \<noteq> None \<or>
     (sr_verdict r \<in> {''done'', ''intervene''} \<and>
      good_log e c 1 0 (int (nat (sc_max_turns c))) r ls))"
proof (cases "ae_start e w")
  case (Pair start w1)
  show ?thesis
  proof (cases start)
    case (Some m)
    then show ?thesis using assms Pair by (auto simp: supervise_script_def empty_supervise_def)
  next
    case None
    obtain q err' kill ls' w2
      where run: "supervise_loop e c (nat (sc_max_turns c)) 1 0 empty_supervise w1 = (((q, err', kill), ls'), w2)"
      by (metis prod.collapse)
    obtain code tail where r: "r = q\<lparr>sr_exit := code, sr_tail := tail\<rparr>" and eq: "err' = err" "ls' = ls"
      using assms Pair None run
      by (auto simp: supervise_script_def split: prod.splits option.splits)
    have "good_end (q, err', kill)" by (rule supervise_loop_end [OF run])
    moreover have "good_log e c 1 0 (int (nat (sc_max_turns c))) q ls"
      using supervise_loop_log [OF run] by (simp add: empty_supervise_def eq)
    moreover from this have "length ls \<le> nat (sc_max_turns c)"
      unfolding good_log_def of_nat_le_iff by blast
    ultimately show ?thesis by (auto simp: good_end_def good_log_def r eq)
  qed
qed

definition iteration_state :: "supervise_result \<times> agent_state + agent_state \<Rightarrow> agent_state" where
  "iteration_state out = (case out of Inl (_, s) \<Rightarrow> s | Inr s \<Rightarrow> s)"

lemma interrupted_sel [simp]:
  "st_plans (interrupted iter r err s) = st_plans s" "st_lines (interrupted iter r err s) = st_lines s"
  by (simp_all add: interrupted_def Let_def split: option.split)

lemma plan_failed_sel [simp]:
  "st_plans (plan_failed m p q s) = st_plans s" "st_lines (plan_failed m p q s) = st_lines s"
  by (simp_all add: plan_failed_def)

lemma supervised_sel [simp]:
  "st_plans (supervised now iter out s) = st_plans s"
  "st_lines (supervised now iter out s) = st_lines s @ snd (snd out)"
  by (simp_all add: supervised_def split: prod.split)

lemma agent_iteration_step:
  assumes "agent_iteration e now g iter s w = (Some out, w')"
  shows "st_plans (iteration_state out) = st_plans s @ [(iter, st_cost s)] \<and>
    length (st_lines (iteration_state out)) \<le> length (st_lines s) + nat (ag_max_turns g) \<and>
    (\<forall>r s'. out = Inl (r, s') \<longrightarrow> sr_verdict r = ''done'')"
proof -
  obtain plan perr w1 where plan: "ae_plan e (plan_input_of g iter s) (ae_remove_script e w) = ((plan, perr), w1)"
    by (metis prod.collapse)
  let ?s = "s\<lparr>st_plans := st_plans s @ [(iter, st_cost s)], st_cost := st_cost s + po_cost plan\<rparr>"
  show ?thesis
  proof (cases perr)
    case (Some m)
    then show ?thesis using assms plan by (auto simp: agent_iteration_def iteration_state_def)
  next
    case None
    show ?thesis
    proof (cases "ae_read_script e w1")
      case (Inl m)
      then show ?thesis using assms plan None by (auto simp: agent_iteration_def iteration_state_def)
    next
      case (Inr script)
      let ?t = "?s\<lparr>st_scripts := st_scripts ?s @ [(iter, script)]\<rparr>"
      obtain res w2 where run: "supervise_script e (supervise_config_of g iter script ?t) w1 = (res, w2)"
        by (metis prod.collapse)
      with assms plan None Inr obtain r err ls where res: "res = Some (r, err, ls)"
        by (cases res) (auto simp: agent_iteration_def)
      have "length ls \<le> nat (ag_max_turns g)"
        using supervise_script_Some [OF run [unfolded res]] by (simp add: supervise_config_of_def)
      moreover have "out = (if err = None \<and> sr_verdict r = ''done'' then Inl (r, supervised now iter (r, err, ls) ?t)
          else Inr (interrupted iter r err (supervised now iter (r, err, ls) ?t)))"
        using assms plan None Inr run res by (auto simp: agent_iteration_def Let_def split: if_splits)
      ultimately show ?thesis by (auto simp: iteration_state_def)
    qed
  qed
qed

lemma agent_loop_history:
  "agent_loop e now usd g n iter s w = (Some (ex, s'), w') \<Longrightarrow>
     (\<exists>ps. st_plans s' = st_plans s @ ps \<and> length ps \<le> n \<and>
        map fst ps = map (\<lambda>i. iter + int i) [0..<length ps] \<and>
        (\<forall>p \<in> set ps. ag_budget g \<le> 0 \<or> snd p < ag_budget g) \<and>
        (\<forall>i r. ex = Some (AgentDone i r) \<longrightarrow> sr_verdict r = ''done'' \<and> ps \<noteq> [] \<and> i = fst (last ps))) \<and>
     length (st_lines s') \<le> length (st_lines s) + n * nat (ag_max_turns g)"
proof (induction n arbitrary: iter s w)
  case (Suc n)
  show ?case
  proof (cases "ae_ctx e w = None \<and> \<not> (ag_budget g > 0 \<and> st_cost s \<ge> ag_budget g)")
    case False
    then show ?thesis using Suc.prems by (auto split: option.splits if_splits)
  next
    case True
    obtain out w1 where it: "agent_iteration e now g iter s w = (out, w1)" by (metis prod.collapse)
    with Suc.prems True obtain q where out: "out = Some q" by (cases out) auto
    note step = agent_iteration_step [OF it [unfolded out]]
    show ?thesis
    proof (cases q)
      case (Inl p)
      obtain r s1 where p: "p = (r, s1)" by (cases p)
      have "ex = Some (AgentDone iter r)" and "s' = s1"
        using Suc.prems True it out Inl p by auto
      then show ?thesis
        using step True Inl p by (auto simp: iteration_state_def)
    next
      case (Inr s1)
      have rec: "agent_loop e now usd g n (iter + 1) s1 w1 = (Some (ex, s'), w')"
        using Suc.prems True it out Inr by auto
      from Suc.IH [OF rec] obtain ps where ps: "st_plans s' = st_plans s1 @ ps" "length ps \<le> n"
        "map fst ps = map (\<lambda>i. iter + 1 + int i) [0..<length ps]"
        "\<forall>p \<in> set ps. ag_budget g \<le> 0 \<or> snd p < ag_budget g"
        "\<forall>i r. ex = Some (AgentDone i r) \<longrightarrow> sr_verdict r = ''done'' \<and> ps \<noteq> [] \<and> i = fst (last ps)"
        and len: "length (st_lines s') \<le> length (st_lines s1) + n * nat (ag_max_turns g)" by blast
      have up: "[0..<Suc (length ps)] = 0 # map Suc [0..<length ps]"
        by (simp add: map_Suc_upt upt_conv_Cons del: upt_Suc)
      have "map fst ((iter, st_cost s) # ps) = map (\<lambda>i. iter + int i) [0..<Suc (length ps)]"
        unfolding up by (simp add: ps(3) comp_def ac_simps)
      then show ?thesis
        using ps step True Inr len
        by (intro conjI exI [of _ "(iter, st_cost s) # ps"]) (auto simp: iteration_state_def)
    qed
  qed
qed simp

text \<open>The subprocess of the planner may write and read, that of the supervisor only read.\<close>

lemma planner_tools: "\<exists>pre post. claude_cli_args (planner_cli m) req = pre @ [''--allowedTools'', ''Write,Read''] @ post"
  unfolding claude_cli_args_def Let_def
  by (rule exI [of _ "take 7 (claude_cli_args (planner_cli m) req)"],
      rule exI [of _ "drop 9 (claude_cli_args (planner_cli m) req)"])
    (simp add: claude_cli_args_def planner_cli_def default_to_def Let_def)

lemma supervisor_tools: "\<exists>pre post. claude_cli_args (supervisor_cli m) req = pre @ [''--allowedTools'', ''Read''] @ post"
  unfolding claude_cli_args_def Let_def
  by (rule exI [of _ "take 7 (claude_cli_args (supervisor_cli m) req)"],
      rule exI [of _ "drop 9 (claude_cli_args (supervisor_cli m) req)"])
    (simp add: claude_cli_args_def supervisor_cli_def default_to_def Let_def)

text \<open>A world without state: bash exits at once with 0, and the supervisor says done at cost 5.\<close>

definition sample_agent_env :: "string \<Rightarrow> unit agent_env" where
  "sample_agent_env v = \<lparr>
     ae_plan = (\<lambda>_ w. ((\<lparr>po_script = ''x'', po_cost = 10, po_turns = 1\<rparr>, None), w)),
     ae_check = (\<lambda>_ w. (Inr \<lparr>so_verdict = \<lparr>sv_verdict = v, sv_note = ''n'', sv_reason = ''r''\<rparr>,
        so_raw = [], so_cost = 5, so_parse_error = []\<rparr>, w)),
     ae_ctx = (\<lambda>_. None), ae_remove_script = id, ae_read_script = (\<lambda>_. Inr ''x''),
     ae_start = (\<lambda>w. (None, w)), ae_wake = (\<lambda>w. (ProcExited, w)),
     ae_snapshot = (\<lambda>w. (\<lparr>sn_exited = True, sn_exit = Some 0, sn_tail = [], sn_live_bytes = 0,
        sn_idle_seconds = 0, sn_elapsed_min = 0\<rparr>, w)),
     ae_probe = (\<lambda>_ w. (0, w)), ae_kill = id, ae_reap = (\<lambda>w. (Some (0, ''t''), w))\<rparr>"

definition sample_supervise :: supervise_config where
  "sample_supervise = \<lparr>sc_iteration = 1, sc_script = ''x'', sc_goal = ''g'', sc_model = [],
     sc_max_turns = 2, sc_verify_port = 0, sc_budget = - 7\<rparr>"

definition sample_agent_vars :: environ where
  "sample_agent_vars k = (if k = ''AGENT_OPS_BOOTSTRAP_PROMPT'' then ''g'' else [])"

subsection \<open>Properties\<close>



text \<open>
  An overspent budget is no budget. If the planner has already spent more than is left, so
  that the remainder is negative, watching the script goes exactly as with no budget at all: the
  check stops the loop only at a remainder of exactly zero.
\<close>

lemma overspent_budget_is_unlimited:
  assumes "sc_budget c < 0"
    and "\<forall>i v. case fst (ae_check e i v) of Inl _ \<Rightarrow> True | Inr out \<Rightarrow> 0 \<le> so_cost out"
  shows "supervise_script e c w = supervise_script e (c\<lparr>sc_budget := - 1\<rparr>) w"
proof -
  have "supervise_loop e (c\<lparr>sc_budget := - 1\<rparr>) n 1 0 empty_supervise v =
      supervise_loop e c n 1 0 empty_supervise v" for n v
    using assms by (intro overspent_loop) (simp_all add: empty_supervise_def costs_nonneg_def)
  moreover have "sc_max_turns (c\<lparr>sc_budget := - 1\<rparr>) = sc_max_turns c" by simp
  ultimately show ?thesis by (simp only: supervise_script_def)
qed

lemma overspent_budget_is_unlimited_witness:
  "supervise_script (sample_agent_env ''continue'') sample_supervise () =
     supervise_script (sample_agent_env ''continue'') (sample_supervise\<lparr>sc_budget := - 1\<rparr>) ()"
  by (rule overspent_budget_is_unlimited) (simp_all add: sample_supervise_def sample_agent_env_def)

text \<open>
  C17: the bounds of a whole bootstrap. It reports success exactly if it writes a successful final
  status; it plans at most ten times, in iterations numbered from 1, starts none of them once the
  cost has reached the budget, and asks the supervisor at most 6000 times.
\<close>

theorem agent_script_bounds:
  assumes "run_agent_script e now env budget usd path mkdir_err w = (Some rep, w')"
  shows "(ar_error rep = None \<longleftrightarrow> (\<exists>f. ar_status rep = Some f \<and> fs_success f)) \<and>
     length (st_plans (ar_state rep)) \<le> 10 \<and>
     map fst (st_plans (ar_state rep)) = map (\<lambda>i. 1 + int i) [0..<length (st_plans (ar_state rep))] \<and>
     (budget > 0 \<longrightarrow> (\<forall>p \<in> set (st_plans (ar_state rep)). snd p < budget)) \<and>
     length (st_lines (ar_state rep)) \<le> 6000"
proof -
  let ?g = "agent_config_of env budget path"
  have g: "ag_max_iter ?g = agent_max_iterations env" "ag_budget ?g = budget"
    "ag_max_turns ?g = agent_max_supervisor_turns env"
    by (simp_all add: agent_config_of_def Let_def)
  show ?thesis
  proof (cases "ag_goal ?g = [] \<or> mkdir_err \<noteq> None")
    case True
    then obtain err where "rep = \<lparr>ar_error = Some err, ar_status = None, ar_state = agent_start\<rparr>"
      using assms by (cases "ag_goal ?g = []"; cases mkdir_err) (auto simp: run_agent_script_def Let_def)
    then show ?thesis by (simp add: agent_start_def)
  next
    case False
    obtain out w1 where run: "agent_loop e now usd ?g (nat (ag_max_iter ?g)) 1 agent_start w = (out, w1)"
      by (metis prod.collapse)
    with assms False obtain ex s where out: "out = Some (ex, s)" and rep: "rep = agent_finish ?g (ex, s)"
      by (cases out) (auto simp: run_agent_script_def Let_def)
    note hist = agent_loop_history [OF run [unfolded out]]
    then obtain ps where ps: "st_plans s = ps" "length ps \<le> nat (ag_max_iter ?g)"
      "map fst ps = map (\<lambda>i. 1 + int i) [0..<length ps]"
      "\<forall>p \<in> set ps. budget \<le> 0 \<or> snd p < budget"
      by (auto simp: agent_start_def g)
    have "nat (ag_max_iter ?g) \<le> 10" and "nat (ag_max_turns ?g) \<le> 600"
      using agent_max_iterations_range [of env] agent_max_supervisor_turns_range [of env] by (simp_all add: g nat_le_iff)
    then have "nat (ag_max_iter ?g) * nat (ag_max_turns ?g) \<le> 10 * 600" by (rule mult_le_mono)
    then have "length (st_lines s) \<le> 6000" using hist by (simp add: agent_start_def)
    moreover have "ar_state rep = s" and "ar_error rep = None \<longleftrightarrow> (\<exists>f. ar_status rep = Some f \<and> fs_success f)"
      by (auto simp: rep agent_finish_def split: option.split agent_exit.split)
    ultimately show ?thesis using ps \<open>nat (ag_max_iter ?g) \<le> 10\<close> by auto
  qed
qed

theorem agent_script_bounds_witness:
  "\<exists>rep. run_agent_script (sample_agent_env ''done'') (\<lambda>_. ''now'') sample_agent_vars 1000000 ''1.0'' ''/s'' None () =
      (Some rep, ()) \<and> ar_error rep = None \<and> length (st_lines (ar_state rep)) \<le> 6000"
proof -
  have env: "env_int sample_agent_vars k = None" if "k \<noteq> ''AGENT_OPS_BOOTSTRAP_PROMPT''" for k
    using that by (simp add: env_int_def sample_agent_vars_def atoi_def)
  have "\<exists>rep. run_agent_script (sample_agent_env ''done'') (\<lambda>_. ''now'') sample_agent_vars 1000000 ''1.0'' ''/s'' None () =
      (Some rep, ()) \<and> ar_error rep = None"
    by (simp add: run_agent_script_def agent_config_of_def agent_max_iterations_def agent_verify_port_def
        agent_max_supervisor_turns_def env sample_agent_vars_def trim_space_def trim_left_def
        trim_right_def is_space_def agent_start_def eval_nat_numeral agent_iteration_def
        sample_agent_env_def supervise_script_def supervise_config_of_def supervise_turn_def
        budget_spent_def port_serves_def judge_turn_def empty_supervise_def supervised_def
        agent_finish_def Let_def)
  then obtain rep where run: "run_agent_script (sample_agent_env ''done'') (\<lambda>_. ''now'') sample_agent_vars
      1000000 ''1.0'' ''/s'' None () = (Some rep, ())" and ok: "ar_error rep = None"
    by blast
  from agent_script_bounds [OF run] run ok show ?thesis by blast
qed

end
