(* ===== verification/Config.thy ===== *)
theory Config
  imports GoLib
begin

text \<open>
  \<^verbatim>\<open>internal/config/config.go\<close>: the configuration, its defaults and the overrides from the
  environment, and its validation. The YAML decoder and the cron parser are parameters. The
  reserved maps \<^verbatim>\<open>cluster\<close>, \<^verbatim>\<open>telemetry\<close> and \<^verbatim>\<open>connectors\<close> are never read and
  left out.
\<close>

subsection \<open>The structs\<close>

record agent_config =
  ac_provider :: string
  ac_model :: string
  ac_api_key_env :: string
  ac_max_tool_calls :: int
  ac_task_timeout :: duration

record schedule =
  sch_name :: string
  sch_cron :: string
  sch_prompt :: string
  sch_tools :: "string list"
  sch_model :: string
  sch_verify_prompt :: string
  sch_verify_model :: string
  sch_enabled :: "bool option"

record mcp_client_config =
  mc_name :: string
  mc_transport :: string
  mc_url :: string
  mc_command :: string
  mc_args :: "string list"
  mc_auth_env :: string
  mc_env :: "string \<rightharpoonup> string"

record mcp_config =
  mcp_listen_addr :: string
  mcp_token_env :: string

record config =
  cfg_state_dir :: string
  cfg_agent :: agent_config
  cfg_schedules :: "schedule list"
  cfg_bootstrap :: "schedule option"
  cfg_mcp :: mcp_config
  cfg_mcp_clients :: "mcp_client_config list"

subsection \<open>Defaults and overrides\<close>

definition or_default :: "string \<Rightarrow> string \<Rightarrow> string" where
  "or_default s dflt = (if s = [] then dflt else s)"

definition default_agent :: "agent_config \<Rightarrow> agent_config" where
  "default_agent a = a\<lparr>ac_provider := or_default (ac_provider a) ''claude'',
     ac_max_tool_calls := (if ac_max_tool_calls a = 0 then 25 else ac_max_tool_calls a),
     ac_task_timeout := (if ac_task_timeout a = 0 then 15 * minute else ac_task_timeout a)\<rparr>"

definition default_fields :: "config \<Rightarrow> config" where
  "default_fields c = c\<lparr>cfg_state_dir := or_default (cfg_state_dir c) ''/var/lib/agent-ops'',
     cfg_agent := default_agent (cfg_agent c),
     cfg_mcp := \<lparr>mcp_listen_addr = or_default (mcp_listen_addr (cfg_mcp c)) '':7842'',
       mcp_token_env = or_default (mcp_token_env (cfg_mcp c)) ''AGENT_OPS_TOKEN''\<rparr>\<rparr>"

definition env_value :: "environ \<Rightarrow> string \<Rightarrow> string" where
  "env_value env key = trim_space (env key)"

definition override_provider :: "environ \<Rightarrow> config \<Rightarrow> config" where
  "override_provider env c =
     (let p = env_value env ''AGENT_OPS_PROVIDER''
      in if p = [] then c else c\<lparr>cfg_agent := (cfg_agent c)\<lparr>ac_provider := p\<rparr>\<rparr>)"

text \<open>The bootstrap section that an override creates when the file has none.\<close>

definition synth_bootstrap :: schedule where
  "synth_bootstrap = \<lparr>sch_name = ''bootstrap'', sch_cron = ''@yearly'', sch_prompt = [],
     sch_tools = [''shell''], sch_model = [], sch_verify_prompt = [], sch_verify_model = [],
     sch_enabled = None\<rparr>"

definition bootstrap_or_synth :: "schedule option \<Rightarrow> schedule" where
  "bootstrap_or_synth b = (case b of None \<Rightarrow> synth_bootstrap | Some s \<Rightarrow> s)"

definition override_bootstrap_prompt :: "environ \<Rightarrow> config \<Rightarrow> config" where
  "override_bootstrap_prompt env c =
     (let p = env_value env ''AGENT_OPS_BOOTSTRAP_PROMPT''
      in if p = [] then c
         else c\<lparr>cfg_bootstrap := Some ((bootstrap_or_synth (cfg_bootstrap c))\<lparr>sch_prompt := p\<rparr>)\<rparr>)"

definition override_bootstrap_model :: "environ \<Rightarrow> config \<Rightarrow> config" where
  "override_bootstrap_model env c =
     (let m = env_value env ''AGENT_OPS_BOOTSTRAP_MODEL''
      in if m = [] then c
         else c\<lparr>cfg_bootstrap := Some ((bootstrap_or_synth (cfg_bootstrap c))\<lparr>sch_model := m\<rparr>)\<rparr>)"

definition positive_int :: "string \<Rightarrow> int option" where
  "positive_int v = (case atoi v of None \<Rightarrow> None | Some n \<Rightarrow> if n > 0 then Some n else None)"

definition override_max_turns :: "environ \<Rightarrow> config \<Rightarrow> config" where
  "override_max_turns env c =
     (let v = env_value env ''AGENT_OPS_BOOTSTRAP_MAX_TURNS''
      in if v = [] then c
         else case positive_int v of
           None \<Rightarrow> c
         | Some n \<Rightarrow> c\<lparr>cfg_agent := (cfg_agent c)\<lparr>ac_max_tool_calls := n\<rparr>\<rparr>)"

definition override_timeout_ms :: "environ \<Rightarrow> config \<Rightarrow> config" where
  "override_timeout_ms env c =
     (let v = env_value env ''AGENT_OPS_BOOTSTRAP_TIMEOUT_MS''
      in if v = [] then c
         else case positive_int v of
           None \<Rightarrow> c
         | Some n \<Rightarrow> c\<lparr>cfg_agent := (cfg_agent c)
                         \<lparr>ac_task_timeout := word_of_int n * millisecond\<rparr>\<rparr>)"

fun set_health_prompt :: "string \<Rightarrow> schedule list \<Rightarrow> schedule list" where
  "set_health_prompt p [] = []"
| "set_health_prompt p (s # ss) =
     (if sch_name s = ''hourly_health_check'' then s\<lparr>sch_prompt := p\<rparr> # ss
      else s # set_health_prompt p ss)"

definition override_health_prompt :: "environ \<Rightarrow> config \<Rightarrow> config" where
  "override_health_prompt env c =
     (let p = env_value env ''AGENT_OPS_HEALTH_CHECK_PROMPT''
      in if p = [] then c else c\<lparr>cfg_schedules := set_health_prompt p (cfg_schedules c)\<rparr>)"

definition apply_defaults :: "environ \<Rightarrow> config \<Rightarrow> config" where
  "apply_defaults env c =
     override_health_prompt env (override_timeout_ms env (override_max_turns env
       (override_bootstrap_model env (override_bootstrap_prompt env
         (override_provider env (default_fields c))))))"

subsection \<open>Validation\<close>

datatype config_error =
    ParseError string
  | BadProvider string
  | ModelRequired
  | ApiKeyEnvRequired
  | BadMaxToolCalls
  | ScheduleNameRequired nat
  | ScheduleDuplicate nat string
  | ScheduleCronRequired nat
  | ScheduleBadCron nat string string
  | SchedulePromptRequired nat
  | BootstrapPromptRequired
  | ClientNameRequired nat
  | ClientDuplicate nat string
  | ClientUrlRequired nat string
  | ClientCommandRequired nat string
  | ClientBadTransport nat string string

definition valid_providers :: "string list" where
  "valid_providers = [''claude'', ''claude-cli'', ''codex'', ''gemini'', ''ollama'', ''none'']"

definition check_agent :: "agent_config \<Rightarrow> config_error option" where
  "check_agent a =
     (if ac_provider a \<notin> set valid_providers then Some (BadProvider (ac_provider a))
      else if ac_provider a = ''claude'' \<and> ac_model a = [] then Some ModelRequired
      else if ac_api_key_env a = [] \<and> ac_provider a \<noteq> ''ollama'' \<and>
              ac_provider a \<noteq> ''claude-cli'' \<and> ac_provider a \<noteq> ''none'' then Some ApiKeyEnvRequired
      else if ac_max_tool_calls a < 1 then Some BadMaxToolCalls
      else None)"

text \<open>\<open>parse s\<close> is the error of the cron parser on \<open>s\<close>.\<close>

fun check_schedules ::
  "(string \<Rightarrow> string option) \<Rightarrow> nat \<Rightarrow> string list \<Rightarrow> schedule list \<Rightarrow> config_error option" where
  "check_schedules parse i names [] = None"
| "check_schedules parse i names (s # ss) =
     (if sch_name s = [] then Some (ScheduleNameRequired i)
      else if sch_name s \<in> set names then Some (ScheduleDuplicate i (sch_name s))
      else if sch_cron s = [] then Some (ScheduleCronRequired i)
      else case parse (sch_cron s) of
        Some e \<Rightarrow> Some (ScheduleBadCron i (sch_cron s) e)
      | None \<Rightarrow>
          if trim_space (sch_prompt s) = [] then Some (SchedulePromptRequired i)
          else check_schedules parse (Suc i) (sch_name s # names) ss)"

fun check_clients :: "nat \<Rightarrow> string list \<Rightarrow> mcp_client_config list \<Rightarrow> config_error option" where
  "check_clients i names [] = None"
| "check_clients i names (m # ms) =
     (if trim_space (mc_name m) = [] then Some (ClientNameRequired i)
      else if mc_name m \<in> set names then Some (ClientDuplicate i (mc_name m))
      else if mc_transport m = ''http'' then
        (if trim_space (mc_url m) = [] then Some (ClientUrlRequired i (mc_name m))
         else check_clients (Suc i) (mc_name m # names) ms)
      else if mc_transport m = ''stdio'' then
        (if trim_space (mc_command m) = [] then Some (ClientCommandRequired i (mc_name m))
         else check_clients (Suc i) (mc_name m # names) ms)
      else Some (ClientBadTransport i (mc_name m) (mc_transport m)))"

text \<open>\<^verbatim>\<open>validate\<close> names a nameless bootstrap section, so it returns the configuration.\<close>

definition name_bootstrap :: "schedule \<Rightarrow> schedule" where
  "name_bootstrap b = b\<lparr>sch_name := or_default (sch_name b) ''bootstrap''\<rparr>"

definition validate :: "(string \<Rightarrow> string option) \<Rightarrow> config \<Rightarrow> config_error + config" where
  "validate parse c =
     (case check_agent (cfg_agent c) of Some e \<Rightarrow> Inl e | None \<Rightarrow>
      (case check_schedules parse 0 [] (cfg_schedules c) of Some e \<Rightarrow> Inl e | None \<Rightarrow>
        (let c' = c\<lparr>cfg_bootstrap := map_option name_bootstrap (cfg_bootstrap c)\<rparr>
         in if (case cfg_bootstrap c of None \<Rightarrow> False | Some b \<Rightarrow> trim_space (sch_prompt b) = [])
            then Inl BootstrapPromptRequired
            else case check_clients 0 [] (cfg_mcp_clients c) of Some e \<Rightarrow> Inl e | None \<Rightarrow> Inr c')))"

definition parse_config ::
  "(string \<Rightarrow> string + config) \<Rightarrow> (string \<Rightarrow> string option) \<Rightarrow> environ \<Rightarrow> string \<Rightarrow> config_error + config" where
  "parse_config decode parse env s =
     (case decode s of
        Inl e \<Rightarrow> Inl (ParseError e)
      | Inr c \<Rightarrow> validate parse (apply_defaults env c))"

definition schedule_enabled :: "schedule \<Rightarrow> bool" where
  "schedule_enabled s = (case sch_enabled s of None \<Rightarrow> True | Some b \<Rightarrow> b)"

definition schedules_enabled :: "config \<Rightarrow> schedule list" where
  "schedules_enabled c = filter schedule_enabled (cfg_schedules c)"

subsection \<open>What the checks accept\<close>

definition good_schedule :: "(string \<Rightarrow> string option) \<Rightarrow> schedule \<Rightarrow> bool" where
  "good_schedule parse s \<longleftrightarrow> sch_name s \<noteq> [] \<and> sch_cron s \<noteq> [] \<and> parse (sch_cron s) = None \<and>
     trim_space (sch_prompt s) \<noteq> []"

definition good_client :: "mcp_client_config \<Rightarrow> bool" where
  "good_client m \<longleftrightarrow> trim_space (mc_name m) \<noteq> [] \<and>
     (mc_transport m = ''http'' \<and> trim_space (mc_url m) \<noteq> [] \<or>
      mc_transport m = ''stdio'' \<and> trim_space (mc_command m) \<noteq> [])"

lemma check_schedules_None:
  "check_schedules parse i names ss = None \<longleftrightarrow>
     (\<forall>s \<in> set ss. good_schedule parse s) \<and> distinct (map sch_name ss) \<and>
     set names \<inter> sch_name ` set ss = {}"
  by (induction ss arbitrary: i names)
    (auto simp: good_schedule_def split: option.splits)

lemma check_clients_None:
  "check_clients i names ms = None \<longleftrightarrow>
     (\<forall>m \<in> set ms. good_client m) \<and> distinct (map mc_name ms) \<and>
     set names \<inter> mc_name ` set ms = {}"
  by (induction ms arbitrary: i names) (auto simp: good_client_def)

lemma validate_Inr:
  "validate parse c = Inr c' \<longleftrightarrow>
     check_agent (cfg_agent c) = None \<and>
     (\<forall>s \<in> set (cfg_schedules c). good_schedule parse s) \<and>
     distinct (map sch_name (cfg_schedules c)) \<and>
     (\<forall>b. cfg_bootstrap c = Some b \<longrightarrow> trim_space (sch_prompt b) \<noteq> []) \<and>
     (\<forall>m \<in> set (cfg_mcp_clients c). good_client m) \<and>
     distinct (map mc_name (cfg_mcp_clients c)) \<and>
     c' = c\<lparr>cfg_bootstrap := map_option name_bootstrap (cfg_bootstrap c)\<rparr>"
proof -
  have "validate parse c = Inr c' \<longleftrightarrow>
     check_agent (cfg_agent c) = None \<and> check_schedules parse 0 [] (cfg_schedules c) = None \<and>
     (\<forall>b. cfg_bootstrap c = Some b \<longrightarrow> trim_space (sch_prompt b) \<noteq> []) \<and>
     check_clients 0 [] (cfg_mcp_clients c) = None \<and>
     c' = c\<lparr>cfg_bootstrap := map_option name_bootstrap (cfg_bootstrap c)\<rparr>"
    by (auto simp: validate_def Let_def split: option.splits)
  then show ?thesis by (simp add: check_schedules_None check_clients_None conj_ac)
qed

lemma check_agent_None:
  "check_agent a = None \<longleftrightarrow>
     ac_provider a \<in> set valid_providers \<and>
     (ac_provider a = ''claude'' \<longrightarrow> ac_model a \<noteq> []) \<and>
     (ac_api_key_env a \<noteq> [] \<or> ac_provider a \<in> {''ollama'', ''claude-cli'', ''none''}) \<and>
     1 \<le> ac_max_tool_calls a"
  by (auto simp: check_agent_def)

subsection \<open>Overrides are stable\<close>

lemma or_default_idem [simp]: "or_default (or_default s d) d = or_default s d"
  by (simp add: or_default_def)

lemma set_health_prompt_idem [simp]:
  "set_health_prompt p (set_health_prompt p ss) = set_health_prompt p ss"
  by (induction ss) auto

text \<open>What each override leaves alone, and what it writes.\<close>

lemma override_provider_sel [simp]:
  "cfg_state_dir (override_provider env c) = cfg_state_dir c"
  "cfg_schedules (override_provider env c) = cfg_schedules c"
  "cfg_bootstrap (override_provider env c) = cfg_bootstrap c"
  "cfg_mcp (override_provider env c) = cfg_mcp c"
  "cfg_mcp_clients (override_provider env c) = cfg_mcp_clients c"
  by (simp_all add: override_provider_def Let_def split: option.split)

lemma override_bootstrap_prompt_sel [simp]:
  "cfg_state_dir (override_bootstrap_prompt env c) = cfg_state_dir c"
  "cfg_agent (override_bootstrap_prompt env c) = cfg_agent c"
  "cfg_schedules (override_bootstrap_prompt env c) = cfg_schedules c"
  "cfg_mcp (override_bootstrap_prompt env c) = cfg_mcp c"
  "cfg_mcp_clients (override_bootstrap_prompt env c) = cfg_mcp_clients c"
  by (simp_all add: override_bootstrap_prompt_def Let_def split: option.split)

lemma override_bootstrap_model_sel [simp]:
  "cfg_state_dir (override_bootstrap_model env c) = cfg_state_dir c"
  "cfg_agent (override_bootstrap_model env c) = cfg_agent c"
  "cfg_schedules (override_bootstrap_model env c) = cfg_schedules c"
  "cfg_mcp (override_bootstrap_model env c) = cfg_mcp c"
  "cfg_mcp_clients (override_bootstrap_model env c) = cfg_mcp_clients c"
  by (simp_all add: override_bootstrap_model_def Let_def split: option.split)

lemma override_max_turns_sel [simp]:
  "cfg_state_dir (override_max_turns env c) = cfg_state_dir c"
  "cfg_schedules (override_max_turns env c) = cfg_schedules c"
  "cfg_bootstrap (override_max_turns env c) = cfg_bootstrap c"
  "cfg_mcp (override_max_turns env c) = cfg_mcp c"
  "cfg_mcp_clients (override_max_turns env c) = cfg_mcp_clients c"
  by (simp_all add: override_max_turns_def Let_def split: option.split)

lemma override_timeout_ms_sel [simp]:
  "cfg_state_dir (override_timeout_ms env c) = cfg_state_dir c"
  "cfg_schedules (override_timeout_ms env c) = cfg_schedules c"
  "cfg_bootstrap (override_timeout_ms env c) = cfg_bootstrap c"
  "cfg_mcp (override_timeout_ms env c) = cfg_mcp c"
  "cfg_mcp_clients (override_timeout_ms env c) = cfg_mcp_clients c"
  by (simp_all add: override_timeout_ms_def Let_def split: option.split)

lemma override_health_prompt_sel [simp]:
  "cfg_state_dir (override_health_prompt env c) = cfg_state_dir c"
  "cfg_agent (override_health_prompt env c) = cfg_agent c"
  "cfg_bootstrap (override_health_prompt env c) = cfg_bootstrap c"
  "cfg_mcp (override_health_prompt env c) = cfg_mcp c"
  "cfg_mcp_clients (override_health_prompt env c) = cfg_mcp_clients c"
  by (simp_all add: override_health_prompt_def Let_def split: option.split)

lemma positive_int_Nil [simp]: "positive_int [] = None"
  by (simp add: positive_int_def atoi_def)

lemma override_agent:
  "cfg_agent (override_provider env c) =
     (let p = env_value env ''AGENT_OPS_PROVIDER''
      in (cfg_agent c)\<lparr>ac_provider := (if p = [] then ac_provider (cfg_agent c) else p)\<rparr>)"
  "cfg_agent (override_max_turns env c) = (cfg_agent c)\<lparr>ac_max_tool_calls :=
     (case positive_int (env_value env ''AGENT_OPS_BOOTSTRAP_MAX_TURNS'') of
        None \<Rightarrow> ac_max_tool_calls (cfg_agent c) | Some n \<Rightarrow> n)\<rparr>"
  "cfg_agent (override_timeout_ms env c) = (cfg_agent c)\<lparr>ac_task_timeout :=
     (case positive_int (env_value env ''AGENT_OPS_BOOTSTRAP_TIMEOUT_MS'') of
        None \<Rightarrow> ac_task_timeout (cfg_agent c) | Some n \<Rightarrow> word_of_int n * millisecond)\<rparr>"
  by (simp_all add: override_provider_def override_max_turns_def override_timeout_ms_def Let_def
      split: option.split)

lemma override_bootstrap:
  "cfg_bootstrap (override_bootstrap_prompt env c) =
     (let p = env_value env ''AGENT_OPS_BOOTSTRAP_PROMPT''
      in if p = [] then cfg_bootstrap c
         else Some ((bootstrap_or_synth (cfg_bootstrap c))\<lparr>sch_prompt := p\<rparr>))"
  "cfg_bootstrap (override_bootstrap_model env c) =
     (let m = env_value env ''AGENT_OPS_BOOTSTRAP_MODEL''
      in if m = [] then cfg_bootstrap c
         else Some ((bootstrap_or_synth (cfg_bootstrap c))\<lparr>sch_model := m\<rparr>))"
  by (simp_all add: override_bootstrap_prompt_def override_bootstrap_model_def Let_def)

lemma override_health:
  "cfg_schedules (override_health_prompt env c) =
     (let p = env_value env ''AGENT_OPS_HEALTH_CHECK_PROMPT''
      in if p = [] then cfg_schedules c else set_health_prompt p (cfg_schedules c))"
  by (simp add: override_health_prompt_def Let_def)

text \<open>The configuration after all defaults and overrides, field by field.\<close>

lemma apply_defaults_agent:
  "cfg_agent (apply_defaults env c) =
     \<lparr>ac_provider = (let p = env_value env ''AGENT_OPS_PROVIDER''
        in if p = [] then or_default (ac_provider (cfg_agent c)) ''claude'' else p),
      ac_model = ac_model (cfg_agent c), ac_api_key_env = ac_api_key_env (cfg_agent c),
      ac_max_tool_calls = (case positive_int (env_value env ''AGENT_OPS_BOOTSTRAP_MAX_TURNS'') of
          None \<Rightarrow> if ac_max_tool_calls (cfg_agent c) = 0 then 25 else ac_max_tool_calls (cfg_agent c)
        | Some n \<Rightarrow> n),
      ac_task_timeout = (case positive_int (env_value env ''AGENT_OPS_BOOTSTRAP_TIMEOUT_MS'') of
          None \<Rightarrow> if ac_task_timeout (cfg_agent c) = 0 then 15 * minute
                  else ac_task_timeout (cfg_agent c)
        | Some n \<Rightarrow> word_of_int n * millisecond)\<rparr>"
  by (simp add: apply_defaults_def override_agent default_fields_def default_agent_def Let_def
      split: option.split)

definition final_bootstrap :: "environ \<Rightarrow> schedule option \<Rightarrow> schedule option" where
  "final_bootstrap env b =
     (let p = env_value env ''AGENT_OPS_BOOTSTRAP_PROMPT''; m = env_value env ''AGENT_OPS_BOOTSTRAP_MODEL''
      in if p = [] \<and> m = [] then b
         else (let s = bootstrap_or_synth b
               in Some (s\<lparr>sch_prompt := (if p = [] then sch_prompt s else p),
                           sch_model := (if m = [] then sch_model s else m)\<rparr>)))"

lemma apply_defaults_other:
  "cfg_bootstrap (apply_defaults env c) = final_bootstrap env (cfg_bootstrap c)"
  "cfg_schedules (apply_defaults env c) =
     (let p = env_value env ''AGENT_OPS_HEALTH_CHECK_PROMPT''
      in if p = [] then cfg_schedules c else set_health_prompt p (cfg_schedules c))"
  "cfg_mcp_clients (apply_defaults env c) = cfg_mcp_clients c"
  "cfg_state_dir (apply_defaults env c) = or_default (cfg_state_dir c) ''/var/lib/agent-ops''"
  "cfg_mcp (apply_defaults env c) =
     \<lparr>mcp_listen_addr = or_default (mcp_listen_addr (cfg_mcp c)) '':7842'',
      mcp_token_env = or_default (mcp_token_env (cfg_mcp c)) ''AGENT_OPS_TOKEN''\<rparr>"
  by (simp_all add: apply_defaults_def override_health override_bootstrap default_fields_def Let_def
      bootstrap_or_synth_def final_bootstrap_def)

lemma final_bootstrap_idem: "final_bootstrap env (final_bootstrap env b) = final_bootstrap env b"
  by (cases b) (auto simp: final_bootstrap_def bootstrap_or_synth_def Let_def)

subsection \<open>Stability of what was loaded\<close>

text \<open>
  Applying the defaults and the overrides twice is the same as once, for any environment and
  any configuration; so reading a written-back configuration in the same environment is stable.
\<close>

lemma apply_defaults_idem: "apply_defaults env (apply_defaults env c) = apply_defaults env c"
proof (rule config.equality)
  show "cfg_agent (apply_defaults env (apply_defaults env c)) = cfg_agent (apply_defaults env c)"
    by (simp add: apply_defaults_agent Let_def or_default_def split: option.split)
qed (simp_all add: apply_defaults_other Let_def final_bootstrap_idem)

text \<open>
  A configuration that the loader returned, written back with other clients, is read as it was
  written if those clients are good: the overrides and the naming of the bootstrap section have
  nothing left to change.
\<close>

lemma final_bootstrap_named:
  "final_bootstrap env (map_option name_bootstrap (final_bootstrap env b)) =
     map_option name_bootstrap (final_bootstrap env b)"
  by (cases b)
    (auto simp: final_bootstrap_def bootstrap_or_synth_def name_bootstrap_def or_default_def Let_def
      synth_bootstrap_def)

lemma apply_defaults_loaded:
  assumes "c = (apply_defaults env base)\<lparr>cfg_bootstrap :=
      map_option name_bootstrap (cfg_bootstrap (apply_defaults env base)), cfg_mcp_clients := ms\<rparr>"
  shows "apply_defaults env c = c"
proof (rule config.equality)
  show "cfg_agent (apply_defaults env c) = cfg_agent c"
    using assms by (simp add: apply_defaults_agent Let_def or_default_def split: option.split)
qed (simp_all add: assms apply_defaults_other Let_def final_bootstrap_named)

lemma name_bootstrap_idem [simp]: "name_bootstrap (name_bootstrap b) = name_bootstrap b"
  by (simp add: name_bootstrap_def or_default_def)

lemma sch_prompt_named [simp]: "sch_prompt (name_bootstrap b) = sch_prompt b"
  by (simp add: name_bootstrap_def)

lemma map_name_bootstrap_idem [simp]:
  "map_option name_bootstrap (map_option name_bootstrap b) = map_option name_bootstrap b"
  by (cases b) simp_all

lemma parse_config_clients:
  "parse_config decode parse env s = Inr c \<Longrightarrow>
     (\<forall>m \<in> set (cfg_mcp_clients c). good_client m) \<and> distinct (map mc_name (cfg_mcp_clients c))"
  by (cases "decode s") (auto simp: parse_config_def validate_Inr)

lemma parse_config_rewritten:
  assumes "parse_config decode parse env s = Inr c"
    and "decode s' = Inr (c\<lparr>cfg_mcp_clients := ms\<rparr>)"
    and "\<forall>m \<in> set ms. good_client m" and "distinct (map mc_name ms)"
  shows "parse_config decode parse env s' = Inr (c\<lparr>cfg_mcp_clients := ms\<rparr>)"
proof -
  from assms(1) obtain c0 where "decode s = Inr c0"
    and v: "validate parse (apply_defaults env c0) = Inr c"
    by (cases "decode s") (auto simp: parse_config_def)
  let ?d = "apply_defaults env c0" and ?c' = "c\<lparr>cfg_mcp_clients := ms\<rparr>"
  from v have c: "c = ?d\<lparr>cfg_bootstrap := map_option name_bootstrap (cfg_bootstrap ?d)\<rparr>"
    by (simp add: validate_Inr)
  have "apply_defaults env ?c' = ?c'"
    by (rule apply_defaults_loaded [where base = c0 and ms = ms]) (simp add: c)
  moreover have "validate parse ?c' = Inr ?c'"
    using v assms(3,4) unfolding validate_Inr
    by (intro conjI config.equality) (auto simp: c)
  ultimately show ?thesis using assms(2) by (simp add: parse_config_def)
qed

subsection \<open>Properties\<close>

text \<open>
  C31: what the loader accepts. A file is accepted exactly if it decodes and, after defaults and
  overrides, the provider is known and has its model and key, the tool-call limit is positive,
  every schedule has a name, a cron expression that parses and a prompt, names of schedules and
  of MCP clients do not repeat, a bootstrap section has a prompt, and every client has what
  its transport needs. The result is that configuration, with the bootstrap section named.
\<close>

theorem parse_config_accepts_iff:
  "parse_config decode parse env s = Inr c' \<longleftrightarrow>
     (\<exists>c0 c. decode s = Inr c0 \<and> c = apply_defaults env c0 \<and>
        ac_provider (cfg_agent c) \<in> set valid_providers \<and>
        (ac_provider (cfg_agent c) = ''claude'' \<longrightarrow> ac_model (cfg_agent c) \<noteq> []) \<and>
        (ac_api_key_env (cfg_agent c) \<noteq> [] \<or>
          ac_provider (cfg_agent c) \<in> {''ollama'', ''claude-cli'', ''none''}) \<and>
        1 \<le> ac_max_tool_calls (cfg_agent c) \<and>
        (\<forall>sch \<in> set (cfg_schedules c). good_schedule parse sch) \<and>
        distinct (map sch_name (cfg_schedules c)) \<and>
        (\<forall>b. cfg_bootstrap c = Some b \<longrightarrow> trim_space (sch_prompt b) \<noteq> []) \<and>
        (\<forall>m \<in> set (cfg_mcp_clients c). good_client m) \<and>
        distinct (map mc_name (cfg_mcp_clients c)) \<and>
        c' = c\<lparr>cfg_bootstrap := map_option name_bootstrap (cfg_bootstrap c)\<rparr>)"
  by (cases "decode s") (simp_all add: parse_config_def validate_Inr check_agent_None)

abbreviation bare_config :: config where
  "bare_config \<equiv> \<lparr>cfg_state_dir = [],
     cfg_agent = \<lparr>ac_provider = ''none'', ac_model = [], ac_api_key_env = [], ac_max_tool_calls = 0,
       ac_task_timeout = 0\<rparr>,
     cfg_schedules = [], cfg_bootstrap = None,
     cfg_mcp = \<lparr>mcp_listen_addr = [], mcp_token_env = []\<rparr>, cfg_mcp_clients = []\<rparr>"

theorem parse_config_accepts_iff_witness:
  "\<exists>c'. parse_config (\<lambda>_. Inr bare_config) (\<lambda>_. None) (\<lambda>_. []) [] = Inr c' \<and>
     ac_max_tool_calls (cfg_agent c') = 25"
  by (simp add: parse_config_accepts_iff apply_defaults_agent apply_defaults_other env_value_def
      valid_providers_def or_default_def positive_int_def atoi_def final_bootstrap_def)

text \<open>
  An override of the bootstrap model alone stops the daemon from starting. If the file has no
  bootstrap section and only the model is set in the environment, the section that the override
  creates has no prompt, and no configuration is accepted.
\<close>

lemma model_override_needs_prompt:
  assumes "decode s = Inr c" and "cfg_bootstrap c = None"
    and "env_value env ''AGENT_OPS_BOOTSTRAP_MODEL'' \<noteq> []"
    and "env_value env ''AGENT_OPS_BOOTSTRAP_PROMPT'' = []"
  shows "\<exists>e. parse_config decode parse env s = Inl e"
proof (cases "parse_config decode parse env s")
  case (Inr c')
  then have "\<forall>b. cfg_bootstrap (apply_defaults env c) = Some b \<longrightarrow> trim_space (sch_prompt b) \<noteq> []"
    using assms(1) by (simp add: parse_config_def validate_Inr)
  then show ?thesis
    using assms(2-4)
    by (simp add: apply_defaults_other final_bootstrap_def bootstrap_or_synth_def synth_bootstrap_def)
qed blast

lemma model_override_needs_prompt_witness:
  "\<exists>e. parse_config (\<lambda>_. Inr bare_config) (\<lambda>_. None)
     (\<lambda>k. if k = ''AGENT_OPS_BOOTSTRAP_MODEL'' then ''haiku'' else []) [] = Inl e"
  by (rule model_override_needs_prompt [of _ _ bare_config])
    (simp_all add: env_value_def trim_space_def trim_left_def trim_right_def is_space_def)

end
