(* ===== verification/RunReport.thy ===== *)
theory RunReport
  imports GoLib
begin

text \<open>
  \<^verbatim>\<open>internal/runreport/reporter.go\<close>: the record of a finished run and its delivery to the
  control plane, with two retries. The HTTP client, the wait between attempts and the codecs are
  the fields of \<open>report_net\<close>; the world has any type \<open>'w\<close>.
\<close>

record run_record =
  rec_run_id :: string
  rec_task_name :: string
  rec_trigger :: string
  rec_status :: string
  rec_started_at :: string
  rec_ended_at :: string
  rec_tool_calls :: int
  rec_num_turns :: int
  rec_cost_usd_micro :: int
  rec_model :: string
  rec_system_prompt :: string
  rec_user_prompt :: string
  rec_result :: string
  rec_summary :: string
  rec_error :: string

text \<open>
  \<open>rn_wait d\<close> waits for \<open>d\<close> unless the context ends first (its error); \<open>rn_post\<close> is the
  error of \<^verbatim>\<open>client.Do\<close> or the status code.
\<close>

record 'w report_net =
  rn_marshal :: "run_record \<Rightarrow> string + string"
  rn_path_escape :: "string \<Rightarrow> string"
  rn_new_request :: "string \<Rightarrow> string option"
  rn_wait :: "duration \<Rightarrow> 'w \<Rightarrow> string option \<times> 'w"
  rn_post :: "string \<Rightarrow> (string \<times> string) list \<Rightarrow> string \<Rightarrow> 'w \<Rightarrow> (string + int) \<times> 'w"

text \<open>What \<^verbatim>\<open>Report\<close> did; it returns no error in any case.\<close>

datatype report_outcome = NotConfigured | NotMarshalled string | Reported | GaveUp string

definition max_retries :: nat where "max_retries = 2"

definition base_backoff :: duration where "base_backoff = 500 * millisecond"

definition attempt ::
  "'w report_net \<Rightarrow> string \<Rightarrow> string \<Rightarrow> string \<Rightarrow> 'w \<Rightarrow> string option \<times> 'w" where
  "attempt net endpoint token body w =
     (case rn_new_request net endpoint of
        Some e \<Rightarrow> (Some (''build request: '' @ e), w)
      | None \<Rightarrow>
          (case rn_post net endpoint
                  [(''Content-Type'', ''application/json''), (''Accept'', ''application/json''),
                   (''Authorization'', ''Bearer '' @ token), (''User-Agent'', ''agent-ops/runreport'')]
                  body w of
             (Inl e, w') \<Rightarrow> (Some (''post: '' @ e), w')
           | (Inr code, w') \<Rightarrow>
               (if 200 \<le> code \<and> code < 300 then None
                else Some (''unexpected status '' @ itoa code), w')))"

text \<open>The loop at attempt number \<open>n\<close> with \<open>left\<close> attempts to go and the last error.\<close>

fun report_loop ::
  "'w report_net \<Rightarrow> string \<Rightarrow> string \<Rightarrow> string \<Rightarrow> nat \<Rightarrow> nat \<Rightarrow> string \<Rightarrow> 'w \<Rightarrow> report_outcome \<times> 'w" where
  "report_loop net endpoint token body 0 n last_err w = (GaveUp last_err, w)"
| "report_loop net endpoint token body (Suc left) n last_err w =
     (case (if n > 0 then rn_wait net (push_bit (n - 1) base_backoff) w else (None, w)) of
        (Some e, w1) \<Rightarrow> (GaveUp e, w1)
      | (None, w1) \<Rightarrow>
          (case attempt net endpoint token body w1 of
             (None, w2) \<Rightarrow> (Reported, w2)
           | (Some e, w2) \<Rightarrow> report_loop net endpoint token body left (Suc n) e w2))"

definition trim_right_slash :: "string \<Rightarrow> string" where
  "trim_right_slash s = rev (dropWhile (\<lambda>c. c = CHR ''/'') (rev s))"

definition report :: "'w report_net \<Rightarrow> environ \<Rightarrow> run_record \<Rightarrow> 'w \<Rightarrow> report_outcome \<times> 'w" where
  "report net env rec w =
     (let base_url = trim_space (env ''ZIBBY_API_BASE_URL'');
          instance_id = trim_space (env ''INSTANCE_ID'');
          token = trim_space (env ''AGENT_OPS_TOKEN'')
      in if base_url = [] \<or> instance_id = [] \<or> token = [] then (NotConfigured, w)
         else (let endpoint = trim_right_slash base_url @ ''/apps/'' @
                     rn_path_escape net instance_id @ ''/runs''
               in case rn_marshal net rec of
                    Inl e \<Rightarrow> (NotMarshalled e, w)
                  | Inr body \<Rightarrow> report_loop net endpoint token body (Suc max_retries) 0 [] w))"

lemma attempt_frame:
  assumes "\<And>e hs b w. Q w \<Longrightarrow> Q' (snd (rn_post net e hs b w))" and "\<And>w. Q w \<Longrightarrow> Q' w" and "Q w"
  shows "Q' (snd (attempt net endpoint token body w))"
  using assms by (auto simp: attempt_def split: option.splits prod.splits sum.splits)
    (metis snd_conv)+

lemma report_loop_frame:
  assumes "\<And>k e hs b w. Q k w \<Longrightarrow> Q (Suc k) (snd (rn_post net e hs b w))"
    and "\<And>k w. Q k w \<Longrightarrow> Q (Suc k) w"
    and "\<And>k w. 0 < k \<Longrightarrow> k < m \<Longrightarrow> Q k w \<Longrightarrow> Q k (snd (rn_wait net (push_bit (k - 1) base_backoff) w))"
  shows "n + left \<le> m \<Longrightarrow> Q n w \<Longrightarrow> Q (n + left) (snd (report_loop net endpoint token body left n e w))"
proof (induction left arbitrary: n e w)
  case (Suc left)
  have lift: "Q (k + j) w" if "Q k w" for k j w
    using that assms(2) by (induction j) auto
  obtain e1 w1 where wt: "(if n > 0 then rn_wait net (push_bit (n - 1) base_backoff) w else (None, w)) = (e1, w1)"
    by fastforce
  have Q1: "Q n w1"
    using Suc.prems assms(3) [of n w] wt by (auto split: if_splits)
  obtain e2 w2 where at: "attempt net endpoint token body w1 = (e2, w2)" by fastforce
  have Q2: "Q (Suc n) w2"
    using attempt_frame [of "Q n" "Q (Suc n)" net w1 endpoint token body] assms(1,2) Q1 at by auto
  have "Q (n + Suc left) w1" "Q (n + Suc left) w2"
    using lift [OF Q1, of "Suc left"] lift [OF Q2, of left] by simp_all
  moreover have "Q (n + Suc left) (snd (report_loop net endpoint token body left (Suc n) er w2))" for er
    using Suc.IH [OF _ Q2, of er] Suc.prems(1) by simp
  ultimately show ?case
    using wt at by (auto split: option.splits)
qed simp

subsection \<open>Properties\<close>

text \<open>
  The effort of a report. A deployment without the three variables touches nothing.
  Otherwise, for any world invariant counted by attempts that one POST moves by one and that
  the waits of half a second and of a second keep, the world is moved by at most three: there
  is no fourth attempt and no longer wait, whatever the control plane answers.
\<close>

lemma report_bounded:
  assumes "Q 0 w"
    and "\<And>k e hs b w. Q k w \<Longrightarrow> Q (Suc k) (snd (rn_post net e hs b w))"
    and "\<And>k w. Q k w \<Longrightarrow> Q (Suc k) w"
    and "\<And>k w. Q k w \<Longrightarrow> Q k (snd (rn_wait net (500 * millisecond) w))"
    and "\<And>k w. Q k w \<Longrightarrow> Q k (snd (rn_wait net second w))"
  shows "Q 3 (snd (report net env rec w)) \<and>
    (trim_space (env ''ZIBBY_API_BASE_URL'') = [] \<or> trim_space (env ''INSTANCE_ID'') = [] \<or>
      trim_space (env ''AGENT_OPS_TOKEN'') = [] \<longrightarrow> report net env rec w = (NotConfigured, w))"
proof (rule conjI)
  have wait: "Q k (snd (rn_wait net (push_bit (k - 1) base_backoff) v))"
    if "0 < k" "k < 3" "Q k v" for k v
  proof -
    have "k = 1 \<or> k = 2" using that by auto
    then show ?thesis
      using assms(4,5) that(3) by (auto simp: base_backoff_def)
  qed
  have "Q 3 w" using assms(3) [OF assms(3) [OF assms(3) [OF assms(1)]]] by (simp add: eval_nat_numeral)
  moreover have "Q 3 (snd (report_loop net endpoint token body 3 0 [] w))" for endpoint token body
    using report_loop_frame [of Q net 3 0 3 w endpoint token body "[]", OF assms(2,3) wait] assms(1) by simp
  ultimately show "Q 3 (snd (report net env rec w))"
    by (auto simp: report_def Let_def max_retries_def eval_nat_numeral split: sum.split)
qed (auto simp: report_def)

lemma report_bounded_witness:
  "\<forall>r. snd (report \<lparr>rn_marshal = (\<lambda>_. Inr []), rn_path_escape = (\<lambda>s. s), rn_new_request = (\<lambda>_. None),
       rn_wait = (\<lambda>_ w. (None, w)), rn_post = (\<lambda>_ _ _ w. (Inr 503, Suc w))\<rparr>
     (\<lambda>_. ''x'') r (0 :: nat)) \<le> 3"
  using report_bounded [of "\<lambda>k w. w \<le> k" "0 :: nat" "\<lparr>rn_marshal = (\<lambda>_. Inr []),
      rn_path_escape = (\<lambda>s. s), rn_new_request = (\<lambda>_. None), rn_wait = (\<lambda>_ w. (None, w)),
      rn_post = (\<lambda>_ _ _ w. (Inr 503, Suc w))\<rparr>" "\<lambda>_. ''x''"]
  by simp

end
