(* ===== verification/TaskRunner.thy ===== *)
theory TaskRunner
  imports Store Drivers RunReport
begin

text \<open>
  \<^verbatim>\<open>internal/task/runner.go\<close>: one invocation of a task. The runner marks the task as in
  flight, writes the run row, composes the prompts, calls the driver, classifies the outcome and
  closes the row. It uses the store through the locale \<open>run_store\<close> and the tools through
  \<open>tool_registry\<close>; the mutual exclusion per task is the locale \<open>single_flight\<close>.
\<close>

subsection \<open>The noise filter for facts\<close>

definition keep_needles :: "string list" where
  "keep_needles = [''error'', ''failed'', ''fatal'', ''eresolve'', ''enoent'', ''eaccess'',
     ''etimedout'', ''exit code'', ''exit_code'', ''exit status'']"

definition drop_prefixes :: "string list" where
  "drop_prefixes = [''npm warn deprecated'', ''npm warn '', ''npm WARN'']"

definition kept_line :: "string \<Rightarrow> bool" where
  "kept_line ln =
     (let lower = to_lower (trim_left_blank ln)
      in (\<exists>k \<in> set keep_needles. contains k lower) \<or>
         \<not> (\<exists>p \<in> set drop_prefixes. prefix (to_lower p) lower))"

lemma lower_drop_prefixes:
  "map to_lower drop_prefixes = [''npm warn deprecated'', ''npm warn '', ''npm warn'']"
  by code_simp

lemma dropped_line: "(\<exists>p \<in> set drop_prefixes. prefix (to_lower p) l) \<longleftrightarrow> prefix ''npm warn'' l"
proof -
  have "(\<exists>p \<in> set drop_prefixes. prefix (to_lower p) l) \<longleftrightarrow>
      (\<exists>q \<in> set (map to_lower drop_prefixes). prefix q l)" by simp
  also have "\<dots> \<longleftrightarrow> prefix ''npm warn'' l"
    unfolding lower_drop_prefixes by (auto simp: prefix_def)
  finally show ?thesis .
qed

fun filter_lines :: "string list \<Rightarrow> string list \<times> nat" where
  "filter_lines [] = ([], 0)"
| "filter_lines (ln # lns) =
     (let (kept, hidden) = filter_lines lns
      in if kept_line ln then (ln # kept, hidden) else (kept, Suc hidden))"

definition filter_hint :: "nat \<Rightarrow> nat \<Rightarrow> string" where
  "filter_hint hidden index =
     ''('' @ itoa (int hidden) @ '' lines filtered as npm-warn noise '' @ em_dash @
     '' call `fact_inspect('' @ itoa (int index) @ '')` to see full)''"

definition filter_fact_for_prompt :: "string \<Rightarrow> nat \<Rightarrow> string \<times> nat" where
  "filter_fact_for_prompt s index =
     (let (kept, hidden) = filter_lines (split_on nl s);
          out = join [nl] kept
      in if hidden > 0
         then (if out = [] then filter_hint hidden index else out @ [nl] @ filter_hint hidden index,
               hidden)
         else (out, hidden))"

lemma filter_lines_eq:
  "filter_lines lns = (filter kept_line lns, length (filter (\<lambda>l. \<not> kept_line l) lns))"
  by (induction lns) auto

lemma nl_notin_filter_hint [simp]: "nl \<notin> set (nat_string n)"
proof (induction n rule: nat_string.induct)
  case (1 n)
  have "of_char (char_of (48 + k) :: char) = (48 + k :: nat)" if "k < 10" for k :: nat
    using that by (simp add: take_bit_nat_def)
  then have d: "k < 10 \<Longrightarrow> nl \<noteq> digit_char k" for k by (auto dest: arg_cong [where f = "of_char :: char \<Rightarrow> nat"])
  then show ?case using 1 by (subst nat_string.simps) (auto dest: d)
qed

subsection \<open>The system prompt\<close>

text \<open>The facts of a mission that the prompt shows: the last 40, oldest first.\<close>

definition prompt_facts :: "mission \<Rightarrow> fact list" where
  "prompt_facts m = take_last 40 (m_facts m)"

text \<open>\<open>date\<close> is \<^verbatim>\<open>Format("2006-01-02")\<close>.\<close>

definition fact_line :: "(instant \<Rightarrow> string) \<Rightarrow> nat \<Rightarrow> fact \<Rightarrow> string" where
  "fact_line date index f =
     ''- ['' @ date (f_ts f) @ ''] ('' @ f_source f @ '') '' @
     fst (filter_fact_for_prompt (f_fact f) index) @ [nl]"

fun fact_lines :: "(instant \<Rightarrow> string) \<Rightarrow> fact list \<Rightarrow> string" where
  "fact_lines date [] = []"
| "fact_lines date (f # fs) = fact_line date (length fs) f @ fact_lines date fs"

definition compose_system_prompt :: "(instant \<Rightarrow> string) \<Rightarrow> string \<Rightarrow> mission \<Rightarrow> string" where
  "compose_system_prompt date base m =
     (if m_statement m = [] \<and> m_facts m = [] then base
      else ''You are agent-ops stewarding one specific instance.'' @ [nl, nl] @
        (if m_statement m \<noteq> [] then ''== MISSION =='' @ [nl] @ m_statement m @ [nl, nl] else []) @
        (if m_facts m \<noteq> []
         then ''== KNOWN FACTS (oldest first) =='' @ [nl] @ fact_lines date (prompt_facts m) @ [nl]
         else []) @
        ''== BASE GUIDANCE =='' @ [nl] @ base)"

definition apply_bootstrap_house_rules :: "string \<Rightarrow> string \<Rightarrow> string" where
  "apply_bootstrap_house_rules raw prompt =
     (let rules = trim_space raw in if rules = [] then prompt else rules @ [nl, nl] @ prompt)"

text \<open>
  The tool \<^verbatim>\<open>fact_inspect\<close> of \<^verbatim>\<open>internal/api/mcp/server.go\<close>, after its argument has
  been decoded: the index is counted from the newest fact.
\<close>

definition fact_inspect :: "mission \<Rightarrow> int \<Rightarrow> string + fact" where
  "fact_inspect m index =
     (if index < 0 then Inl ''index must be a non-negative integer''
      else if int (length (m_facts m)) \<le> index then Inl (''no fact at index '' @ itoa index)
      else Inr (m_facts m ! (length (m_facts m) - 1 - nat index)))"

subsection \<open>The runner\<close>

datatype trigger = TriggerSchedule | TriggerManual | TriggerBootstrap

fun trigger_text :: "trigger \<Rightarrow> string" where
  "trigger_text TriggerSchedule = ''schedule''"
| "trigger_text TriggerManual = ''manual''"
| "trigger_text TriggerBootstrap = ''bootstrap''"

record spec =
  sp_name :: string
  sp_trigger :: trigger
  sp_prompt :: string
  sp_tools :: "string list"
  sp_model :: string

text \<open>
  What a run acts on: the database, the runner's set of tasks in flight, the sequence numbers
  of the log sinks by run, the records handed to the reporter, and the rest.
\<close>

record 'x run_world =
  rw_db :: db
  rw_inflight :: "string set"
  rw_seqs :: "string \<Rightarrow> int"
  rw_reports :: "run_record list"
  rw_ext :: 'x

record 'x runner =
  rn_driver :: "'x run_world driver_request \<Rightarrow> 'x run_world \<Rightarrow> driver_outcome \<times> 'x run_world"
  rn_tools :: "'x run_world registry"
  rn_max_tool_calls :: int
  rn_task_timeout :: duration
  rn_system_prompt :: string
  rn_has_reporter :: bool

definition new_runner ::
  "('x run_world driver_request \<Rightarrow> 'x run_world \<Rightarrow> driver_outcome \<times> 'x run_world) \<Rightarrow>
   'x run_world registry \<Rightarrow> string \<Rightarrow> 'x runner" where
  "new_runner drv tools default_prompt =
     \<lparr>rn_driver = drv, rn_tools = tools, rn_max_tool_calls = 25, rn_task_timeout = 10 * minute,
      rn_system_prompt = default_prompt, rn_has_reporter = False\<rparr>"

text \<open>\<^verbatim>\<open>ctx.Err()\<close>\<close>

datatype ctx_err = CtxLive | DeadlineExceeded | Canceled

text \<open>
  What one run reads from outside: the random bytes of the run id, the clock and the failures of
  the database at each call, the environment variable with the house rules, the two contexts
  after the driver returned, and the formats of the dates.
\<close>

record run_inputs =
  ri_rand :: "string + 8 word list"
  ri_started :: instant
  ri_start_faults :: faults
  ri_start_now :: instant
  ri_mission_faults :: faults
  ri_log_faults :: "int \<Rightarrow> faults"
  ri_log_now :: "int \<Rightarrow> instant"
  ri_house_rules :: string
  ri_cctx :: ctx_err
  ri_ctx :: ctx_err
  ri_finish_faults :: faults
  ri_finish_now :: instant
  ri_ended :: instant
  ri_get_faults :: faults
  ri_date :: "instant \<Rightarrow> string"
  ri_rfc3339 :: "instant \<Rightarrow> string"

definition hex_digit :: "nat \<Rightarrow> char" where
  "hex_digit n = (if n < 10 then char_of (48 + n) else char_of (87 + n))"

definition hex_string :: "8 word list \<Rightarrow> string" where
  "hex_string bs = concat (map (\<lambda>b. [hex_digit (unat b div 16), hex_digit (unat b mod 16)]) bs)"

lemma length_hex_string: "length (hex_string bs) = 2 * length bs"
  by (induction bs) (simp_all add: hex_string_def)

definition generate_run_id :: "string + 8 word list \<Rightarrow> string + string" where
  "generate_run_id rand = map_sum id (\<lambda>bs. ''run-'' @ hex_string bs) rand"

definition mark_inflight :: "string \<Rightarrow> string set \<Rightarrow> bool \<times> string set" where
  "mark_inflight name s = (if name \<in> s then (False, s) else (True, insert name s))"

definition release_inflight :: "string \<Rightarrow> string set \<Rightarrow> string set" where
  "release_inflight name s = s - {name}"

text \<open>\<^verbatim>\<open>runLogSink.Log\<close>: the next number, then the row; the error is dropped by the callers.\<close>

definition sink_log :: "run_inputs \<Rightarrow> string \<Rightarrow> 'x run_world log_sink" where
  "sink_log inp i level message w =
     (let seq = rw_seqs w i + 1
      in w\<lparr>rw_seqs := (rw_seqs w)(i := seq),
           rw_db := snd (append_run_log i seq level message (ri_log_faults inp seq)
                           (ri_log_now inp seq) (rw_db w))\<rparr>)"

definition zero_run :: task_run where
  "zero_run = \<lparr>tr_id = [], tr_task_name = [], tr_trigger = [], tr_started_at = None,
     tr_ended_at = None, tr_status = StatusOther [], tr_summary = [], tr_tool_calls = 0,
     tr_cost_usd_micro = 0, tr_error = []\<rparr>"

definition empty_mission :: mission where
  "empty_mission = \<lparr>m_statement = [], m_facts = [], m_updated_at = 0\<rparr>"

text \<open>The status and the error text of a run; the context comes before the driver.\<close>

definition classify :: "ctx_err \<Rightarrow> ctx_err \<Rightarrow> string option \<Rightarrow> string \<Rightarrow> run_status \<times> string" where
  "classify cctx ctx drv_err res_error =
     (if cctx = DeadlineExceeded then (StatusTimeout, ''task exceeded configured timeout'')
      else if ctx = Canceled \<or> cctx = Canceled then (StatusCanceled, ''task canceled'')
      else case drv_err of
        Some e \<Rightarrow> (StatusFailed, e)
      | None \<Rightarrow> if res_error \<noteq> [] then (StatusFailed, res_error) else (StatusCompleted, []))"

definition run_prompt :: "run_inputs \<Rightarrow> 'x runner \<Rightarrow> mission \<Rightarrow> string" where
  "run_prompt inp r m =
     apply_bootstrap_house_rules (ri_house_rules inp)
       (compose_system_prompt (ri_date inp) (rn_system_prompt r) m)"

definition run_request ::
  "run_inputs \<Rightarrow> 'x runner \<Rightarrow> spec \<Rightarrow> string \<Rightarrow> mission \<Rightarrow> 'x run_world driver_request" where
  "run_request inp r sp i m =
     \<lparr>rq_system_prompt = run_prompt inp r m, rq_user_prompt = sp_prompt sp,
      rq_tools = Some (reg_subset (sp_tools sp) (rn_tools r)),
      rq_max_tool_calls = rn_max_tool_calls r, rq_model = sp_model sp,
      rq_log_sink = Some (sink_log inp i)\<rparr>"

text \<open>The mission as the run sees it; an unreadable one is logged and empty.\<close>

definition read_mission :: "run_inputs \<Rightarrow> string \<Rightarrow> 'x run_world \<Rightarrow> mission \<times> 'x run_world" where
  "read_mission inp i w =
     (case get_mission (ri_mission_faults inp) (rw_db w) of
        Inl e \<Rightarrow>
          (empty_mission,
           sink_log inp i ''warn'' (''could not read instance mission: '' @ store_error_text e) w)
      | Inr m \<Rightarrow> (m, w))"

definition report_record ::
  "run_inputs \<Rightarrow> 'x runner \<Rightarrow> spec \<Rightarrow> string \<Rightarrow> mission \<Rightarrow> driver_result \<Rightarrow> run_status \<times> string \<Rightarrow>
   run_record" where
  "report_record inp r sp i m res cls =
     \<lparr>rec_run_id = i, rec_task_name = sp_name sp, rec_trigger = trigger_text (sp_trigger sp),
      rec_status = status_text (fst cls), rec_started_at = ri_rfc3339 inp (ri_started inp),
      rec_ended_at = ri_rfc3339 inp (ri_ended inp), rec_tool_calls = dr_tool_calls res,
      rec_num_turns = dr_tool_calls res, rec_cost_usd_micro = dr_cost_usd_micro res,
      rec_model = sp_model sp, rec_system_prompt = run_prompt inp r m,
      rec_user_prompt = sp_prompt sp, rec_result = dr_final_message res,
      rec_summary = truncate_str (dr_final_message res) 2000, rec_error = snd cls\<rparr>"

text \<open>The error of \<^verbatim>\<open>Run\<close>; the second component of a result is nil without one.\<close>

type_synonym run_outcome = "(task_run \<times> driver_result \<times> string option) option"

text \<open>After the driver: close the row, hand out the report, read the row back.\<close>

definition conclude_run ::
  "run_inputs \<Rightarrow> 'x runner \<Rightarrow> spec \<Rightarrow> task_run \<Rightarrow> mission \<Rightarrow> driver_result \<Rightarrow> string option \<Rightarrow>
   'x run_world \<Rightarrow> run_outcome \<times> 'x run_world" where
  "conclude_run inp r sp run m res drv_err w =
     (let i = tr_id run;
          cls = classify (ri_cctx inp) (ri_ctx inp) drv_err (dr_error res)
      in case finish_run i (fst cls) (truncate_str (dr_final_message res) 2000) (snd cls)
                (dr_tool_calls res) (ri_finish_faults inp) (ri_finish_now inp) (rw_db w) of
           (Inl e, d) \<Rightarrow>
             (Some (run, res, Some (''task.Run: finish: '' @ store_error_text e)), w\<lparr>rw_db := d\<rparr>)
         | (Inr _, d) \<Rightarrow>
             (let w' = w\<lparr>rw_db := d,
                         rw_reports := rw_reports w @
                           (if rn_has_reporter r then [report_record inp r sp i m res cls] else [])\<rparr>
              in (Some (case get_run i (ri_get_faults inp) d of Inl _ \<Rightarrow> zero_run | Inr q \<Rightarrow> q,
                        res, None), w')))"

text \<open>The body of \<^verbatim>\<open>Run\<close> between the mark and the deferred release.\<close>

definition run_marked ::
  "run_inputs \<Rightarrow> 'x runner \<Rightarrow> spec \<Rightarrow> 'x run_world \<Rightarrow> run_outcome \<times> 'x run_world" where
  "run_marked inp r sp w =
     (case generate_run_id (ri_rand inp) of
        Inl e \<Rightarrow> (Some (zero_run, empty_driver_result, Some e), w)
      | Inr i \<Rightarrow>
          (let run = zero_run\<lparr>tr_id := i, tr_task_name := sp_name sp,
                       tr_trigger := trigger_text (sp_trigger sp),
                       tr_started_at := Some (ri_started inp)\<rparr>
           in case start_run run (ri_start_faults inp) (ri_start_now inp) (rw_db w) of
                (Inl e, d) \<Rightarrow>
                  (Some (zero_run, empty_driver_result,
                     Some (''task.Run: start: '' @ store_error_text e)), w\<lparr>rw_db := d\<rparr>)
              | (Inr _, d) \<Rightarrow>
                  (let w1 = w\<lparr>rw_db := d, rw_seqs := (rw_seqs w)(i := 0)\<rparr>;
                       (m, w2) = read_mission inp i w1
                   in case rn_driver r (run_request inp r sp i m) w2 of
                        (None, w3) \<Rightarrow> (None, w3)
                      | (Some (res, drv_err), w3) \<Rightarrow> conclude_run inp r sp run m res drv_err w3)))"

definition run_task ::
  "run_inputs \<Rightarrow> 'x runner \<Rightarrow> spec \<Rightarrow> 'x run_world \<Rightarrow> run_outcome \<times> 'x run_world" where
  "run_task inp r sp w =
     (if sp_name sp = []
      then (Some (zero_run, empty_driver_result, Some ''task.Run: spec.Name required''), w)
      else if sp_prompt sp = []
      then (Some (zero_run, empty_driver_result, Some ''task.Run: spec.Prompt required''), w)
      else case mark_inflight (sp_name sp) (rw_inflight w) of
        (False, _) \<Rightarrow>
          (Some (zero_run, empty_driver_result,
             Some (''task.Run: '' @ quoted (sp_name sp) @ '' is already running, skipping'')), w)
      | (True, s) \<Rightarrow>
          (let (out, w') = run_marked inp r sp (w\<lparr>rw_inflight := s\<rparr>)
           in (out, w'\<lparr>rw_inflight := release_inflight (sp_name sp) (rw_inflight w')\<rparr>)))"

lemma rw_sink_log [simp]:
  "rw_inflight (sink_log inp i lv m w) = rw_inflight w"
  "rw_reports (sink_log inp i lv m w) = rw_reports w"
  by (simp_all add: sink_log_def Let_def)

lemma run_runs_append_run_log [simp]: "db_runs (snd (append_run_log i s lv m f now d)) = db_runs d"
  by (auto simp: append_run_log_def split: option.splits)

subsection \<open>Effects through the store\<close>

text \<open>
  An action on the world reaches the database only through the store's operations, in any
  number, interleaved with those of other goroutines, with any failures.
\<close>

definition via_store :: "('x run_world \<Rightarrow> 'x run_world) \<Rightarrow> bool" where
  "via_store g \<longleftrightarrow> (\<forall>w. \<exists>h. rw_db (g w) = run_history h (rw_db w))"

definition driver_via_store ::
  "('x run_world driver_request \<Rightarrow> 'x run_world \<Rightarrow> driver_outcome \<times> 'x run_world) \<Rightarrow> bool" where
  "driver_via_store drv \<longleftrightarrow>
     (\<forall>req r. rq_tools req = Some r \<longrightarrow> reg_wf r \<longrightarrow>
        (\<forall>n t args. reg_get r n = Some t \<longrightarrow> via_store (\<lambda>w. snd (tool_invoke t args w))) \<longrightarrow>
        (\<forall>lv m. via_store (log_line (rq_log_sink req) lv m)) \<longrightarrow>
        via_store (\<lambda>w. snd (drv req w)))"

definition tools_via_store :: "'x run_world registry \<Rightarrow> bool" where
  "tools_via_store r \<longleftrightarrow>
     (\<forall>n t args. reg_get r n = Some t \<longrightarrow> via_store (\<lambda>w. snd (tool_invoke t args w)))"

lemma log_line_Some: "log_line (Some g) lv m = g lv m"
  by (rule ext) (simp add: log_line_def)

lemma via_store_sink: "via_store (sink_log inp i lv m)"
  unfolding via_store_def
proof
  fix w :: "'x run_world"
  let ?seq = "rw_seqs w i + 1"
  show "\<exists>h. rw_db (sink_log inp i lv m w) = run_history h (rw_db w)"
    by (intro exI [of _ "[(CRunLog i ?seq lv m, ri_log_faults inp ?seq, ri_log_now inp ?seq)]"])
      (simp add: sink_log_def Let_def)
qed

lemma via_store_trans:
  "via_store g \<Longrightarrow> rw_db w' = run_history h d \<Longrightarrow> \<exists>h. rw_db (g w') = run_history h d"
  unfolding via_store_def by (metis run_history_append)

text \<open>The Messages API driver qualifies, if the HTTP exchange leaves the database alone.\<close>

lemma claude_driver_via_store:
  fixes net :: "'x run_world claude_net"
  assumes "\<And>url hs b w. rw_db (snd (net_do net url hs b w)) = rw_db w"
  shows "driver_via_store (claude_run net d)"
  unfolding driver_via_store_def via_store_def [of "\<lambda>w. snd (claude_run net d _ w)"]
proof (intro allI impI)
  fix req :: "'x run_world driver_request" and r and w :: "'x run_world"
  assume r: "rq_tools req = Some r"
    and tools: "\<forall>n t args. reg_get r n = Some t \<longrightarrow> via_store (\<lambda>w. snd (tool_invoke t args w))"
    and logs: "\<forall>lv m. via_store (log_line (rq_log_sink req) lv m)"
  define Q where "Q = (\<lambda>(_ :: nat) (w' :: 'x run_world). \<exists>h. rw_db w' = run_history h (rw_db w))"
  have Q0: "Q 0 w" unfolding Q_def by (intro exI [of _ "[]"]) simp
  have step: "via_store g \<Longrightarrow> Q i w' \<Longrightarrow> Q i (g w')" for g i w'
    unfolding Q_def by (blast intro: via_store_trans)
  show "\<exists>h. rw_db (snd (claude_run net d req w)) = run_history h (rw_db w)"
  proof (cases "cd_api_key d = [] \<or> effective_model d req = []")
    case True
    then have "snd (claude_run net d req w) = w" by (auto simp: claude_run_def)
    then show ?thesis using Q0 by (simp add: Q_def)
  next
    case False
    have "\<exists>k \<le> effective_max_iter req. Q k (snd (claude_loop net (cd_api_key d) req (effective_model d req)
        (effective_base d) (effective_max_tokens d) (effective_max_iter req) 0 [first_message req] 0 w))"
    proof (rule claude_loop_frame [OF _ r])
      show "exchange_keeps net (turn_request d req) Q (effective_max_iter req)"
        using assms by (simp add: exchange_keeps_def Q_def)
    qed (use tools logs step Q0 in \<open>auto intro: step\<close>)
    with False show ?thesis by (auto simp: claude_run_loop Q_def)
  qed
qed

lemma run_request_sel [simp]:
  "rq_tools (run_request inp r sp i m) = Some (reg_subset (sp_tools sp) (rn_tools r))"
  "rq_log_sink (run_request inp r sp i m) = Some (sink_log inp i)"
  by (simp_all add: run_request_def)

lemma read_mission_via_store: "\<exists>h. rw_db (snd (read_mission inp i w)) = run_history h (rw_db w)"
proof (cases "get_mission (ri_mission_faults inp) (rw_db w)")
  case (Inl e)
  then show ?thesis
    using via_store_sink [of inp i] unfolding via_store_def
    by (simp only: read_mission_def sum.case snd_conv) blast
next
  case (Inr m)
  then show ?thesis by (intro exI [of _ "[]"]) (simp add: read_mission_def)
qed

lemma driver_call_via_store:
  assumes "driver_via_store (rn_driver r)" and "reg_wf (rn_tools r)" and "tools_via_store (rn_tools r)"
    and "rw_db w = run_history h d"
  shows "\<exists>h'. rw_db (snd (rn_driver r (run_request inp r sp i m) w)) = run_history h' d"
proof -
  have "via_store (\<lambda>w. snd (rn_driver r (run_request inp r sp i m) w))"
    by (rule assms(1) [unfolded driver_via_store_def, rule_format, OF run_request_sel(1)
        reg_wf_subset [OF assms(2)]])
      (use assms(2,3) in \<open>auto simp: tools_via_store_def reg_get_subset log_line_Some via_store_sink
         split: if_splits\<close>)
  then show ?thesis using assms(4) by (rule via_store_trans)
qed

subsection \<open>Single flight\<close>

text \<open>
  What the runner needs of its set of tasks in flight: marking succeeds exactly if the task is
  not busy and makes it busy, releasing makes only that task free. \<open>exclusive busy s H\<close> says
  that the busy tasks are those of the holders \<open>H\<close> and that no task has two holders.
\<close>

definition exclusive :: "('k \<Rightarrow> 's \<Rightarrow> bool) \<Rightarrow> 's \<Rightarrow> ('t \<times> 'k) set \<Rightarrow> bool" where
  "exclusive busy s H \<longleftrightarrow> (\<forall>k. busy k s \<longleftrightarrow> (\<exists>t. (t, k) \<in> H)) \<and>
     (\<forall>t t' k. (t, k) \<in> H \<longrightarrow> (t', k) \<in> H \<longrightarrow> t = t')"

locale single_flight =
  fixes mark :: "'k \<Rightarrow> 's \<Rightarrow> bool \<times> 's"
    and release :: "'k \<Rightarrow> 's \<Rightarrow> 's"
    and busy :: "'k \<Rightarrow> 's \<Rightarrow> bool"
  assumes mark_iff: "fst (mark k s) \<longleftrightarrow> \<not> busy k s"
    and busy_mark: "busy j (snd (mark k s)) \<longleftrightarrow> busy j s \<or> j = k"
    and busy_release: "busy j (release k s) \<longleftrightarrow> busy j s \<and> j \<noteq> k"
begin

lemma exclusive_mark:
  assumes "exclusive busy s H" and "mark k s = (True, s')"
  shows "exclusive busy s' (insert (t, k) H)"
proof -
  have "\<not> busy k s" using mark_iff [of k s] assms(2) by simp
  then have "(t', k) \<notin> H" for t' using assms(1) by (auto simp: exclusive_def)
  moreover have "busy j s' \<longleftrightarrow> busy j s \<or> j = k" for j using busy_mark [of j k s] assms(2) by simp
  ultimately show ?thesis using assms(1) by (auto simp: exclusive_def)
qed

lemma exclusive_release:
  "exclusive busy s H \<Longrightarrow> (t, k) \<in> H \<Longrightarrow> exclusive busy (release k s) (H - {(t, k)})"
  unfolding exclusive_def busy_release by blast

lemma refused_iff_held:
  "exclusive busy s H \<Longrightarrow> fst (mark k s) = False \<longleftrightarrow> (\<exists>t. (t, k) \<in> H)"
  using mark_iff [of k s] by (auto simp: exclusive_def)

end

interpretation flight: single_flight mark_inflight release_inflight "\<lambda>k s. k \<in> s"
  by unfold_locales (auto simp: mark_inflight_def release_inflight_def)

text \<open>
  Goroutines that call \<^verbatim>\<open>Run\<close>: each is idle, has a task in flight, or was refused. A step is
  one critical section of the mutex; everything else a run does lies between its steps.
\<close>

datatype phase = Idle | Flying string | Refused string

record flight_state =
  fs_inflight :: "string set"
  fs_phase :: "nat \<Rightarrow> phase"

inductive flight_step :: "flight_state \<Rightarrow> flight_state \<Rightarrow> bool" where
  flight_begin:
    "fs_phase s t = Idle \<Longrightarrow> mark_inflight n (fs_inflight s) = (True, i) \<Longrightarrow>
       flight_step s (s\<lparr>fs_inflight := i, fs_phase := (fs_phase s)(t := Flying n)\<rparr>)"
| flight_refuse:
    "fs_phase s t = Idle \<Longrightarrow> mark_inflight n (fs_inflight s) = (False, i) \<Longrightarrow>
       flight_step s (s\<lparr>fs_inflight := i, fs_phase := (fs_phase s)(t := Refused n)\<rparr>)"
| flight_end:
    "fs_phase s t = Flying n \<Longrightarrow>
       flight_step s (s\<lparr>fs_inflight := release_inflight n (fs_inflight s),
                        fs_phase := (fs_phase s)(t := Idle)\<rparr>)"
| flight_back:
    "fs_phase s t = Refused n \<Longrightarrow> flight_step s (s\<lparr>fs_phase := (fs_phase s)(t := Idle)\<rparr>)"

inductive_cases flight_stepE: "flight_step s s'"

definition flight_init :: flight_state where
  "flight_init = \<lparr>fs_inflight = {}, fs_phase = (\<lambda>_. Idle)\<rparr>"

definition holders :: "flight_state \<Rightarrow> (nat \<times> string) set" where
  "holders s = {(t, n). fs_phase s t = Flying n}"

definition flight_inv :: "flight_state \<Rightarrow> bool" where
  "flight_inv s \<longleftrightarrow> exclusive (\<lambda>k i. k \<in> i) (fs_inflight s) (holders s)"

lemma flight_inv_init [wf_intros]: "flight_inv flight_init"
  by (simp add: flight_inv_def flight_init_def holders_def exclusive_def)

lemma flight_inv_step [wf_intros]:
  assumes "flight_step s s'" and "flight_inv s"
  shows "flight_inv s'"
  using assms
proof cases
  case (flight_begin t n i)
  then have "holders s' = insert (t, n) (holders s)" by (auto simp: holders_def split: if_splits)
  with flight_begin assms(2) flight.exclusive_mark show ?thesis
    by (simp add: flight_inv_def)
next
  case (flight_refuse t n i)
  then have "holders s' = holders s" "i = fs_inflight s"
    by (auto simp: holders_def mark_inflight_def split: if_splits)
  with flight_refuse assms(2) show ?thesis by (simp add: flight_inv_def)
next
  case (flight_end t n)
  then have "holders s' = holders s - {(t, n)}" "(t, n) \<in> holders s" by (auto simp: holders_def split: if_splits)
  with flight_end assms(2) flight.exclusive_release show ?thesis by (simp add: flight_inv_def)
next
  case (flight_back t n)
  then have "holders s' = holders s" by (auto simp: holders_def split: if_splits)
  with flight_back assms(2) show ?thesis by (simp add: flight_inv_def)
qed

lemma flight_inv_reachable: "flight_step\<^sup>*\<^sup>* flight_init s \<Longrightarrow> flight_inv s"
  by (induction rule: rtranclp_induct) (auto intro: wf_intros)

subsection \<open>Runs that return\<close>

lemma classify_terminal: "is_terminal (fst (classify cctx ctx e m))"
  by (simp add: classify_def split: option.split)

lemma get_run_row: "get_run i no_faults d = Inr q \<longleftrightarrow>
    (\<exists>r. find_row rr_id i (db_runs d) = Some r \<and> q = run_of_row r)"
  by (auto simp: get_run_def split: option.splits)

lemma run_marked_done:
  assumes wf: "db_wf (rw_db w)" and drv: "driver_via_store (rn_driver r)"
    and tools: "reg_wf (rn_tools r)" "tools_via_store (rn_tools r)"
    and run: "run_marked inp r sp w = (Some (out, res, None), w')"
  obtains i m drv_err w2 w3 q where "generate_run_id (ri_rand inp) = Inr i"
    and "get_run i no_faults (rw_db w) = Inl NoRows"
    and "rn_driver r (run_request inp r sp i m) w2 = (Some (res, drv_err), w3)"
    and "get_run i no_faults (rw_db w') = Inr q"
    and "out = (if ri_get_faults inp 0 = None then q else zero_run)"
    and "tr_task_name q = sp_name sp" and "tr_trigger q = trigger_text (sp_trigger sp)"
    and "(tr_status q, tr_error q) = classify (ri_cctx inp) (ri_ctx inp) drv_err (dr_error res)"
    and "tr_summary q = truncate_str (dr_final_message res) 2000"
    and "tr_tool_calls q = dr_tool_calls res" and "tr_ended_at q = Some (ri_finish_now inp)"
    and "db_wf (rw_db w')"
proof -
  from run obtain i where i: "generate_run_id (ri_rand inp) = Inr i"
    by (auto simp: run_marked_def split: sum.splits)
  let ?run = "zero_run\<lparr>tr_id := i, tr_task_name := sp_name sp,
    tr_trigger := trigger_text (sp_trigger sp), tr_started_at := Some (ri_started inp)\<rparr>"
  obtain d where st: "start_run ?run (ri_start_faults inp) (ri_start_now inp) (rw_db w) = (Inr (), d)"
    using run i by (auto simp: run_marked_def Let_def split: sum.splits prod.splits)
  define w1 where "w1 = w\<lparr>rw_db := d, rw_seqs := (rw_seqs w)(i := 0)\<rparr>"
  obtain m w2 where rm: "read_mission inp i w1 = (m, w2)" by fastforce
  obtain drv_err w3 where dr: "rn_driver r (run_request inp r sp i m) w2 = (Some (res, drv_err), w3)"
    and con: "conclude_run inp r sp ?run m res drv_err w3 = (Some (out, res, None), w')"
    using run i st rm
    by (auto simp: run_marked_def Let_def w1_def conclude_run_def split: sum.splits prod.splits option.splits)
  have wfd: "db_wf d" using start_run_wf [OF wf, of ?run] st by (metis snd_conv)
  obtain h where h: "rw_db w3 = run_history h d"
    using driver_call_via_store [OF drv tools, of w2 _ d inp sp i m] read_mission_via_store [of inp i w1]
      dr rm by (auto simp: w1_def)
  have wf3: "db_wf (rw_db w3)" by (simp add: h run_history_wf wfd)
  define cls where "cls = classify (ri_cctx inp) (ri_ctx inp) drv_err (dr_error res)"
  obtain d' where fin: "finish_run i (fst cls) (truncate_str (dr_final_message res) 2000) (snd cls)
      (dr_tool_calls res) (ri_finish_faults inp) (ri_finish_now inp) (rw_db w3) = (Inr (), d')"
    and w': "rw_db w' = d'"
    and out: "out = (case get_run i (ri_get_faults inp) d' of Inl _ \<Rightarrow> zero_run | Inr q \<Rightarrow> q)"
    using con by (auto simp: conclude_run_def cls_def Let_def split: sum.splits prod.splits)
  obtain q0 where q0: "get_run i no_faults d = Inr q0" "tr_task_name q0 = sp_name sp"
      "tr_trigger q0 = trigger_text (sp_trigger sp)"
    using runs.start_running [OF wf st] by auto
  obtain q q' where q: "get_run i no_faults (rw_db w3) = Inr q" "get_run i no_faults d' = Inr q'"
      "q' = q\<lparr>tr_status := fst cls, tr_summary := truncate_str (dr_final_message res) 2000,
         tr_error := snd cls, tr_tool_calls := dr_tool_calls res, tr_ended_at := Some (ri_finish_now inp)\<rparr>"
    using runs.finish_recorded [OF wf3 fin] by blast
  have "out = (if ri_get_faults inp 0 = None then q' else zero_run)"
    using q(2) by (simp add: out get_run_def split: option.splits)
  moreover have "tr_task_name q = tr_task_name q0 \<and> tr_trigger q = tr_trigger q0"
    using q(1) q0(1) run_history_keeps_ident [of i d _ h]
    by (auto simp: get_run_row h run_ident_def run_of_row_def)
  moreover have "db_wf d'"
    using finish_run_wf [OF wf3] fin by (metis snd_conv)
  ultimately show thesis
    by (intro that [where q = q', OF i _ dr]) (use runs.start_fresh [OF wf st] q q0 w' in \<open>auto simp: cls_def\<close>)
qed

lemma read_mission_inflight [simp]: "rw_inflight (snd (read_mission inp i w)) = rw_inflight w"
  by (simp add: read_mission_def split: sum.split)

lemma conclude_run_inflight [simp]:
  "rw_inflight (snd (conclude_run inp r sp run m res e w)) = rw_inflight w"
  by (simp add: conclude_run_def Let_def split: sum.split prod.split)

lemma run_marked_inflight:
  assumes "\<And>req w. rw_inflight (snd (rn_driver r req w)) = rw_inflight w"
  shows "rw_inflight (snd (run_marked inp r sp w)) = rw_inflight w"
proof (cases "generate_run_id (ri_rand inp)")
  case (Inr i)
  let ?run = "zero_run\<lparr>tr_id := i, tr_task_name := sp_name sp,
    tr_trigger := trigger_text (sp_trigger sp), tr_started_at := Some (ri_started inp)\<rparr>"
  obtain e d where st: "start_run ?run (ri_start_faults inp) (ri_start_now inp) (rw_db w) = (e, d)"
    by fastforce
  define w1 where "w1 = w\<lparr>rw_db := d, rw_seqs := (rw_seqs w)(i := 0)\<rparr>"
  obtain m w2 where rm: "read_mission inp i w1 = (m, w2)" by fastforce
  obtain out w3 where dr: "rn_driver r (run_request inp r sp i m) w2 = (out, w3)" by fastforce
  have "rw_inflight w2 = rw_inflight w1" "rw_inflight w3 = rw_inflight w2" "rw_inflight w1 = rw_inflight w"
    using read_mission_inflight [of inp i w1] rm assms [of "run_request inp r sp i m" w2] dr
    by (simp_all only: snd_conv) (simp add: w1_def)
  with st rm dr Inr show ?thesis
    by (simp add: run_marked_def Let_def w1_def split: sum.split option.split prod.split)
qed (simp add: run_marked_def)

subsection \<open>Properties\<close>

text \<open>
  C1: a run that returns without error is recorded. With a driver whose tools reach the
  database only through the store (whatever else happens there meanwhile), the run gets a fresh
  row of the task that is terminal in the end. If the time limit of the run is over, the row is a
  timeout, whatever the driver said; otherwise, if the run was canceled, from outside or by its own
  context, it is canceled, whatever the driver said; otherwise an error of the driver makes it a
  failure with that text, and so does an error text in the driver's result; otherwise it is
  completed, without an error text. The summary is the final message, cut at 2000 bytes, and tool
  calls and end time are those of the driver's result and of the clock. The driver was called with
  the prompt, the model, the limit and the allowlisted tools of the task. What is returned is that
  row if it can be read back, and the zero run, still without an error, if it cannot.
\<close>

theorem run_task_recorded:
  assumes "db_wf (rw_db w)" and "driver_via_store (rn_driver r)"
    and "reg_wf (rn_tools r)" and "tools_via_store (rn_tools r)"
    and "run_task inp r sp w = (Some (out, res, None), w')"
  shows "\<exists>i req drv_err w2 w3 row. get_run i no_faults (rw_db w) = Inl NoRows \<and>
    rn_driver r req w2 = (Some (res, drv_err), w3) \<and>
    rq_user_prompt req = sp_prompt sp \<and> rq_model req = sp_model sp \<and>
    rq_max_tool_calls req = rn_max_tool_calls r \<and>
    rq_tools req = Some (reg_subset (sp_tools sp) (rn_tools r)) \<and>
    get_run i no_faults (rw_db w') = Inr row \<and> is_terminal (tr_status row) \<and>
    tr_task_name row = sp_name sp \<and> tr_trigger row = trigger_text (sp_trigger sp) \<and>
    (ri_cctx inp = DeadlineExceeded \<longrightarrow>
       tr_status row = StatusTimeout \<and> tr_error row = ''task exceeded configured timeout'') \<and>
    (ri_cctx inp \<noteq> DeadlineExceeded \<longrightarrow>
       (ri_ctx inp = Canceled \<or> ri_cctx inp = Canceled \<longrightarrow>
          tr_status row = StatusCanceled \<and> tr_error row = ''task canceled'') \<and>
       (ri_ctx inp \<noteq> Canceled \<and> ri_cctx inp \<noteq> Canceled \<longrightarrow>
          (\<forall>e. drv_err = Some e \<longrightarrow> tr_status row = StatusFailed \<and> tr_error row = e) \<and>
          (drv_err = None \<and> dr_error res \<noteq> [] \<longrightarrow>
             tr_status row = StatusFailed \<and> tr_error row = dr_error res) \<and>
          (drv_err = None \<and> dr_error res = [] \<longrightarrow>
             tr_status row = StatusCompleted \<and> tr_error row = []))) \<and>
    tr_summary row = truncate_str (dr_final_message res) 2000 \<and>
    tr_tool_calls row = dr_tool_calls res \<and> tr_ended_at row = Some (ri_finish_now inp) \<and>
    out = (if ri_get_faults inp 0 = None then row else zero_run) \<and> db_wf (rw_db w')"
proof -
  define wm where "wm = w\<lparr>rw_inflight := snd (mark_inflight (sp_name sp) (rw_inflight w))\<rparr>"
  obtain wr where run: "run_marked inp r sp wm = (Some (out, res, None), wr)"
    and w': "rw_db w' = rw_db wr"
    using assms(5) by (auto simp: run_task_def wm_def split: if_splits prod.splits bool.splits)
  have wf: "db_wf (rw_db wm)" using assms(1) by (simp add: wm_def)
  obtain i m drv_err w2 w3 row where
    i: "get_run i no_faults (rw_db wm) = Inl NoRows"
      "rn_driver r (run_request inp r sp i m) w2 = (Some (res, drv_err), w3)"
      "get_run i no_faults (rw_db wr) = Inr row"
      "out = (if ri_get_faults inp 0 = None then row else zero_run)"
      "tr_task_name row = sp_name sp" "tr_trigger row = trigger_text (sp_trigger sp)"
      "(tr_status row, tr_error row) = classify (ri_cctx inp) (ri_ctx inp) drv_err (dr_error res)"
      "tr_summary row = truncate_str (dr_final_message res) 2000"
      "tr_tool_calls row = dr_tool_calls res" "tr_ended_at row = Some (ri_finish_now inp)"
      "db_wf (rw_db wr)"
    by (rule run_marked_done [OF wf assms(2-4) run])
  have c: "is_terminal (tr_status row)" "tr_status row = fst (classify (ri_cctx inp) (ri_ctx inp) drv_err (dr_error res))"
    "tr_error row = snd (classify (ri_cctx inp) (ri_ctx inp) drv_err (dr_error res))"
    using classify_terminal [of "ri_cctx inp" "ri_ctx inp" drv_err "dr_error res"] i(7)
    by (metis fst_conv snd_conv)+
  from i w' c(1) show ?thesis
    by (intro exI [of _ i] exI [of _ "run_request inp r sp i m"] exI [of _ drv_err] exI [of _ w2]
        exI [of _ w3] exI [of _ row])
      (simp add: wm_def run_request_def c(2,3) classify_def)
qed

abbreviation sample_inputs :: run_inputs where
  "sample_inputs \<equiv> \<lparr>ri_rand = Inr [1], ri_started = 5, ri_start_faults = no_faults, ri_start_now = 5,
     ri_mission_faults = no_faults, ri_log_faults = (\<lambda>_. no_faults), ri_log_now = (\<lambda>s. s),
     ri_house_rules = [], ri_cctx = CtxLive, ri_ctx = CtxLive, ri_finish_faults = no_faults,
     ri_finish_now = 9, ri_ended = 9, ri_get_faults = no_faults, ri_date = (\<lambda>_. []),
     ri_rfc3339 = (\<lambda>_. [])\<rparr>"

abbreviation sample_result :: driver_result where
  "sample_result \<equiv> \<lparr>dr_final_message = ''ok'', dr_tool_calls = 2, dr_cost_usd_micro = 0, dr_error = ''max''\<rparr>"

abbreviation sample_runner :: "unit runner" where
  "sample_runner \<equiv> new_runner (\<lambda>req w. (Some (sample_result, None), w)) [] []"

abbreviation sample_spec :: spec where
  "sample_spec \<equiv> \<lparr>sp_name = ''t'', sp_trigger = TriggerManual, sp_prompt = ''p'', sp_tools = [], sp_model = []\<rparr>"

abbreviation sample_world :: "unit run_world" where
  "sample_world \<equiv> \<lparr>rw_db = migrate_mission 1 empty_db, rw_inflight = {}, rw_seqs = (\<lambda>_. 0),
     rw_reports = [], rw_ext = ()\<rparr>"

lemma sample_driver: "driver_via_store (rn_driver sample_runner)"
  unfolding driver_via_store_def via_store_def new_runner_def
  by (simp add: exI [of _ "[]"] run_history_def)

lemma sample_run:
  "\<exists>out w'. run_task sample_inputs sample_runner sample_spec sample_world = (Some (out, sample_result, None), w')"
  by (simp add: run_task_def mark_inflight_def run_marked_def generate_run_id_def hex_string_def
      hex_digit_def new_runner_def read_mission_def conclude_run_def classify_def db_simps zero_run_def
      get_mission_def get_run_def)

theorem run_task_recorded_witness:
  "\<exists>out w'. run_task sample_inputs sample_runner sample_spec sample_world = (Some (out, sample_result, None), w') \<and>
     tr_status out = StatusFailed \<and> tr_error out = ''max'' \<and> tr_tool_calls out = 2"
proof -
  obtain out w' where run: "run_task sample_inputs sample_runner sample_spec sample_world =
      (Some (out, sample_result, None), w')"
    using sample_run by blast
  have "reg_wf (rn_tools sample_runner)" "tools_via_store (rn_tools sample_runner)"
    by (simp_all add: new_runner_def reg_wf_def keyed_def tools_via_store_def reg_get_def)
  from run_task_recorded [OF _ sample_driver this run]
  obtain req drv_err w2 w3 where
    "rn_driver sample_runner req w2 = (Some (sample_result, drv_err), w3)"
    "drv_err = None \<longrightarrow> tr_status out = StatusFailed \<and> tr_error out = ''max''"
    "tr_tool_calls out = 2"
    using db_wf_init [of 1] by auto
  with run show ?thesis by (auto simp: new_runner_def)
qed

text \<open>
  C13: the mark is always released. If the task is in flight, \<open>Run\<close> changes nothing and says
  so; otherwise the task is free again after \<open>Run\<close> on every path: rejected input, failed id,
  failed start, failed finish, driver error, success, and a panic in the driver. Tasks that the
  driver does not touch are left as they were.
\<close>

theorem run_task_releases:
  assumes "sp_name sp \<noteq> []" and "sp_prompt sp \<noteq> []"
  shows "(sp_name sp \<in> rw_inflight w \<longrightarrow> run_task inp r sp w =
      (Some (zero_run, empty_driver_result,
         Some (''task.Run: '' @ quoted (sp_name sp) @ '' is already running, skipping'')), w)) \<and>
    (sp_name sp \<notin> rw_inflight w \<longrightarrow>
       sp_name sp \<notin> rw_inflight (snd (run_task inp r sp w)) \<and>
       ((\<forall>req w. rw_inflight (snd (rn_driver r req w)) = rw_inflight w) \<longrightarrow>
          rw_inflight (snd (run_task inp r sp w)) = rw_inflight w))"
proof (intro conjI impI)
  assume "sp_name sp \<in> rw_inflight w"
  with assms show "run_task inp r sp w = (Some (zero_run, empty_driver_result,
      Some (''task.Run: '' @ quoted (sp_name sp) @ '' is already running, skipping'')), w)"
    by (simp add: run_task_def mark_inflight_def)
next
  assume free: "sp_name sp \<notin> rw_inflight w"
  with assms show "sp_name sp \<notin> rw_inflight (snd (run_task inp r sp w))"
    by (simp add: run_task_def mark_inflight_def release_inflight_def split_beta)
  assume drv: "\<forall>req w. rw_inflight (snd (rn_driver r req w)) = rw_inflight w"
  have "rw_inflight (snd (run_marked inp r sp v)) = rw_inflight v" for v
    by (rule run_marked_inflight) (use drv in blast)
  with free assms show "rw_inflight (snd (run_task inp r sp w)) = rw_inflight w"
    by (simp add: run_task_def mark_inflight_def release_inflight_def split_beta)
qed

theorem run_task_releases_witness:
  "''t'' \<notin> rw_inflight (snd (run_task sample_inputs sample_runner sample_spec sample_world))"
  using run_task_releases [of sample_spec sample_world sample_inputs sample_runner] by simp

text \<open>
  C8: no task runs twice at once. In every state reachable by goroutines that call \<open>Run\<close> in
  any interleaving, two that have the same task in flight are the same goroutine, the set in
  flight is exactly the tasks of the goroutines, and a call is refused exactly if another
  goroutine has the task in flight at that moment.
\<close>

theorem single_flight_exclusion:
  assumes "flight_step\<^sup>*\<^sup>* flight_init s"
  shows "(\<forall>t t' n. fs_phase s t = Flying n \<longrightarrow> fs_phase s t' = Flying n \<longrightarrow> t = t') \<and>
    fs_inflight s = {n. \<exists>t. fs_phase s t = Flying n} \<and>
    (\<forall>n. fst (mark_inflight n (fs_inflight s)) = False \<longleftrightarrow> (\<exists>t. fs_phase s t = Flying n))"
proof -
  have inv: "exclusive (\<lambda>k i. k \<in> i) (fs_inflight s) (holders s)"
    using flight_inv_reachable [OF assms] by (simp add: flight_inv_def)
  then show ?thesis
    using flight.refused_iff_held [OF inv] by (auto simp: exclusive_def holders_def)
qed

theorem single_flight_exclusion_witness:
  "\<exists>s. flight_step\<^sup>*\<^sup>* flight_init s \<and> fs_phase s 0 = Flying ''a'' \<and> fs_phase s 1 = Refused ''a'' \<and>
     fs_inflight s = {''a''}"
proof -
  let ?s1 = "flight_init\<lparr>fs_inflight := {''a''}, fs_phase := (fs_phase flight_init)(0 := Flying ''a'')\<rparr>"
  let ?s2 = "?s1\<lparr>fs_inflight := {''a''}, fs_phase := (fs_phase ?s1)(1 := Refused ''a'')\<rparr>"
  have "flight_step flight_init ?s1"
    by (rule flight_begin) (simp_all add: flight_init_def mark_inflight_def)
  moreover have "flight_step ?s1 ?s2"
    by (rule flight_refuse) (simp_all add: flight_init_def mark_inflight_def)
  ultimately have reach: "flight_step\<^sup>*\<^sup>* flight_init ?s2" by simp
  have "fs_inflight ?s2 = {n. \<exists>t. fs_phase ?s2 t = Flying n}"
    using single_flight_exclusion [OF reach] by blast
  with reach show ?thesis by (intro exI [of _ ?s2]) simp
qed

text \<open>
  The noise filter. Exactly the lines that begin (after blanks, in any case) with
  \<^verbatim>\<open>npm warn\<close> and contain none of the needles are removed; the other lines stay as they
  are and in order; if any line was removed, one last line tells how many, with the index to
  look them up; if none was, the text is unchanged.
\<close>

lemma filter_fact_spec:
  fixes s :: string
  defines "noise \<equiv> \<lambda>ln. prefix ''npm warn'' (to_lower (trim_left_blank ln)) \<and>
    (\<forall>k \<in> set keep_needles. \<not> sublist k (to_lower (trim_left_blank ln)))"
    and "lns \<equiv> split_on nl s"
  shows "snd (filter_fact_for_prompt s index) = length (filter noise lns) \<and>
    (filter noise lns = [] \<longrightarrow> fst (filter_fact_for_prompt s index) = s) \<and>
    (filter noise lns \<noteq> [] \<longrightarrow>
       split_on nl (fst (filter_fact_for_prompt s index)) =
       (if join [nl] (filter (\<lambda>l. \<not> noise l) lns) = [] then [] else filter (\<lambda>l. \<not> noise l) lns) @
       [filter_hint (length (filter noise lns)) index])"
proof -
  have kept: "kept_line = (\<lambda>ln. \<not> noise ln)"
    by (rule ext) (auto simp: kept_line_def noise_def Let_def contains_iff_sublist dropped_line)
  have hint: "nl \<notin> set (filter_hint n index)" for n
    by (simp add: filter_hint_def itoa_def em_dash_def)
  have no_nl: "nl \<notin> set l" if "l \<in> set lns" for l
    using that by (auto simp: lns_def dest: split_on_no_sep)
  have split: "split_on nl (join [nl] (filter (\<lambda>l. \<not> noise l) lns) @ nl # filter_hint n index) =
      filter (\<lambda>l. \<not> noise l) lns @ [filter_hint n index]"
    if "join [nl] (filter (\<lambda>l. \<not> noise l) lns) \<noteq> []" for n
  proof -
    have "filter (\<lambda>l. \<not> noise l) lns \<noteq> []" using that by auto
    then have "split_on nl (join [nl] (filter (\<lambda>l. \<not> noise l) lns)) = filter (\<lambda>l. \<not> noise l) lns"
      by (rule split_on_join) (use no_nl in auto)
    then show ?thesis by (simp add: split_on_append_sep split_on_no_sep_id hint)
  qed
  have same: "join [nl] (filter (\<lambda>l. \<not> noise l) lns) = s" if "filter noise lns = []"
  proof -
    have "filter (\<lambda>l. \<not> noise l) lns = lns" using that by (simp add: filter_empty_conv filter_id_conv)
    then show ?thesis by (simp add: lns_def)
  qed
  show ?thesis
    using split same
    by (auto simp: filter_fact_for_prompt_def filter_lines_eq kept lns_def [symmetric] Let_def
        split_on_no_sep_id hint)
qed

lemma filter_fact_spec_witness:
  "snd (filter_fact_for_prompt (''ok'' @ [nl] @ ''npm WARN deprecated x'') 0) = 1"
proof -
  let ?s = "''ok'' @ [nl] @ ''npm WARN deprecated x''"
  let ?noise = "\<lambda>ln. prefix ''npm warn'' (to_lower (trim_left_blank ln)) \<and>
    (\<forall>k \<in> set keep_needles. \<not> contains k (to_lower (trim_left_blank ln)))"
  have "length (filter ?noise (split_on nl ?s)) = 1" by code_simp
  with filter_fact_spec [of ?s 0] show ?thesis
    by (simp only: contains_iff_sublist)
qed

lemma fact_lines_indexed:
  "fact_lines date fs = concat (map (\<lambda>k. fact_line date k (rev fs ! k)) (rev [0..<length fs]))"
proof (induction fs)
  case (Cons f fs)
  have "map (\<lambda>k. fact_line date k (rev (f # fs) ! k)) (rev [0..<length fs]) =
      map (\<lambda>k. fact_line date k (rev fs ! k)) (rev [0..<length fs])"
    by (rule map_cong) (auto simp: nth_append)
  moreover have "rev (f # fs) ! length fs = f" by (simp add: nth_append)
  moreover have "rev [0..<length (f # fs)] = length fs # rev [0..<length fs]" by simp
  ultimately show ?case
    by (simp only: fact_lines.simps list.map concat.simps Cons.IH)
qed simp

lemma rev_prompt_facts_nth:
  assumes "k < min 40 (length (m_facts m))"
  shows "rev (prompt_facts m) ! k = m_facts m ! (length (m_facts m) - 1 - k)"
  using assms by (simp add: prompt_facts_def take_last_def rev_nth min_def split: if_splits)

text \<open>
  The numbers in the prompt. The facts block of the prompt lists the newest facts, at most
  40, oldest first, each with a number \<open>k\<close>; calling \<^verbatim>\<open>fact_inspect\<close> with that number
  returns exactly the fact of that line, unfiltered.
\<close>

lemma prompt_facts_inspectable:
  assumes "m_facts m \<noteq> []"
  shows "\<exists>fs. length fs = min 40 (length (m_facts m)) \<and>
    (\<forall>k < length fs. fact_inspect m (int k) = Inr (fs ! k)) \<and>
    sublist (concat (map (\<lambda>k. fact_line date k (fs ! k)) (rev [0..<length fs])))
      (compose_system_prompt date base m)"
proof (intro exI [of _ "rev (prompt_facts m)"] conjI allI impI)
  show len: "length (rev (prompt_facts m)) = min 40 (length (m_facts m))"
    by (simp add: prompt_facts_def take_last_def)
  fix k assume "k < length (rev (prompt_facts m))"
  then show "fact_inspect m (int k) = Inr (rev (prompt_facts m) ! k)"
    using rev_prompt_facts_nth [of k m] len by (simp add: fact_inspect_def)
next
  have "\<exists>us vs. compose_system_prompt date base m = us @ fact_lines date (prompt_facts m) @ vs"
    by (intro exI [of _ "''You are agent-ops stewarding one specific instance.'' @ [nl, nl] @
        (if m_statement m \<noteq> [] then ''== MISSION =='' @ [nl] @ m_statement m @ [nl, nl] else []) @
        ''== KNOWN FACTS (oldest first) =='' @ [nl]"]
        exI [of _ "[nl] @ ''== BASE GUIDANCE =='' @ [nl] @ base"])
      (simp add: compose_system_prompt_def assms)
  then show "sublist (concat (map (\<lambda>k. fact_line date k (rev (prompt_facts m) ! k))
      (rev [0..<length (rev (prompt_facts m))]))) (compose_system_prompt date base m)"
    by (simp add: fact_lines_indexed [symmetric] sublist_def)
qed

lemma prompt_facts_inspectable_witness:
  "sublist (fact_line (\<lambda>_. ''d'') 0 \<lparr>f_ts = 1, f_source = ''auto'', f_fact = ''up''\<rparr>)
     (compose_system_prompt (\<lambda>_. ''d'') ''base''
        \<lparr>m_statement = [], m_facts = [\<lparr>f_ts = 1, f_source = ''auto'', f_fact = ''up''\<rparr>], m_updated_at = 1\<rparr>)"
proof -
  let ?f = "\<lparr>f_ts = 1, f_source = ''auto'', f_fact = ''up''\<rparr>"
  let ?m = "\<lparr>m_statement = [], m_facts = [?f], m_updated_at = 1\<rparr>"
  obtain fs where "length fs = 1" "\<forall>k < length fs. fact_inspect ?m (int k) = Inr (fs ! k)"
    "sublist (concat (map (\<lambda>k. fact_line (\<lambda>_. ''d'') k (fs ! k)) (rev [0..<length fs])))
      (compose_system_prompt (\<lambda>_. ''d'') ''base'' ?m)"
    using prompt_facts_inspectable [of ?m "\<lambda>_. ''d''" "''base''"] by auto
  then show ?thesis by (simp add: fact_inspect_def)
qed

end
