(* ===== verification/Scheduler.thy ===== *)
theory Scheduler
  imports Config TaskRunner
begin

text \<open>
  \<^verbatim>\<open>internal/scheduler/scheduler.go\<close>: the cron-driven dispatcher. The cron library is a
  parameter: its operations and the table of its entries are the fields of \<open>cron_lib\<close>, and
  \<open>cron_contract\<close> states what its documentation promises of them. The task table is used
  through the locale \<open>task_source\<close>.
\<close>

subsection \<open>The cron library\<close>

text \<open>
  A job is known by the name of the task that its closure captured; an entry is an expression
  and a job.
\<close>

record 'c cron_lib =
  cron_add :: "string \<Rightarrow> string \<Rightarrow> 'c \<Rightarrow> (string + int) \<times> 'c"
  cron_remove :: "int \<Rightarrow> 'c \<Rightarrow> 'c"
  cron_entries :: "'c \<Rightarrow> int \<rightharpoonup> string \<times> string"

definition cron_contract :: "'c cron_lib \<Rightarrow> bool" where
  "cron_contract lib \<longleftrightarrow>
     (\<forall>spec job c i c'. cron_add lib spec job c = (Inr i, c') \<longrightarrow>
        cron_entries lib c i = None \<and> cron_entries lib c' = (cron_entries lib c)(i \<mapsto> (spec, job))) \<and>
     (\<forall>spec job c e c'. cron_add lib spec job c = (Inl e, c') \<longrightarrow>
        cron_entries lib c' = cron_entries lib c) \<and>
     (\<forall>i c. cron_entries lib (cron_remove lib i c) = (cron_entries lib c)(i := None))"

subsection \<open>The scheduler\<close>

record ('c, 'x) scheduler =
  sc_cron :: 'c
  sc_entries :: "string \<rightharpoonup> int"
  sc_models :: "string \<rightharpoonup> string"
  sc_world :: "'x run_world"

definition new_scheduler :: "'c \<Rightarrow> 'x run_world \<Rightarrow> ('c, 'x) scheduler" where
  "new_scheduler c w = \<lparr>sc_cron = c, sc_entries = Map.empty, sc_models = Map.empty, sc_world = w\<rparr>"

definition sched_db :: "('c, 'x) scheduler \<Rightarrow> db" where
  "sched_db s = rw_db (sc_world s)"

definition set_sched_db :: "db \<Rightarrow> ('c, 'x) scheduler \<Rightarrow> ('c, 'x) scheduler" where
  "set_sched_db d s = s\<lparr>sc_world := (sc_world s)\<lparr>rw_db := d\<rparr>\<rparr>"

text \<open>\<^verbatim>\<open>cron.Remove\<close> and \<^verbatim>\<open>delete\<close> under the mutex, if the task has an entry.\<close>

definition drop_entry :: "'c cron_lib \<Rightarrow> string \<Rightarrow> ('c, 'x) scheduler \<Rightarrow> ('c, 'x) scheduler" where
  "drop_entry lib name s =
     (case sc_entries s name of
        None \<Rightarrow> s
      | Some old \<Rightarrow> s\<lparr>sc_cron := cron_remove lib old (sc_cron s),
                      sc_entries := (sc_entries s)(name := None)\<rparr>)"

definition register ::
  "'c cron_lib \<Rightarrow> task \<Rightarrow> ('c, 'x) scheduler \<Rightarrow> string option \<times> ('c, 'x) scheduler" where
  "register lib t s =
     (let s1 = drop_entry lib (t_name t) s
      in case cron_add lib (t_cron t) (t_name t) (sc_cron s1) of
           (Inl e, c) \<Rightarrow>
             (Some (''scheduler.register: '' @ quoted (t_name t) @ '' (cron='' @ quoted (t_cron t) @
                    ''): '' @ e), s1\<lparr>sc_cron := c\<rparr>)
         | (Inr i, c) \<Rightarrow>
             (None, s1\<lparr>sc_cron := c, sc_entries := (sc_entries s1)(t_name t \<mapsto> i)\<rparr>))"

fun register_all ::
  "'c cron_lib \<Rightarrow> task list \<Rightarrow> ('c, 'x) scheduler \<Rightarrow> string option \<times> ('c, 'x) scheduler" where
  "register_all lib [] s = (None, s)"
| "register_all lib (t # ts) s =
     (if \<not> t_enabled t then register_all lib ts s
      else case register lib t s of
        (Some e, s') \<Rightarrow> (Some e, s')
      | (None, s') \<Rightarrow> register_all lib ts s')"

definition task_of_schedule :: "schedule \<Rightarrow> task" where
  "task_of_schedule sch =
     \<lparr>t_name = sch_name sch, t_cron = sch_cron sch, t_prompt = sch_prompt sch,
      t_tools = sch_tools sch, t_enabled = schedule_enabled sch, t_updated_at = 0\<rparr>"

text \<open>
  The loop that writes the configured schedules; \<open>by_name\<close> is the Go map, as rows under the
  task's name.
\<close>

fun upsert_schedules ::
  "(nat \<Rightarrow> faults) \<Rightarrow> (nat \<Rightarrow> instant) \<Rightarrow> nat \<Rightarrow> schedule list \<Rightarrow> task list \<Rightarrow>
   ('c, 'x) scheduler \<Rightarrow> string option \<times> task list \<times> ('c, 'x) scheduler" where
  "upsert_schedules fs now n [] by_name s = (None, by_name, s)"
| "upsert_schedules fs now n (sch # schs) by_name s =
     (let t = task_of_schedule sch
      in case upsert_task t (fs n) (now n) (sched_db s) of
           (Inl e, d) \<Rightarrow>
             (Some (''scheduler.Hydrate: upsert '' @ quoted (sch_name sch) @ '': '' @
                    store_error_text e), by_name, set_sched_db d s)
         | (Inr _, d) \<Rightarrow>
             upsert_schedules fs now (Suc n) schs (put_row t_name t by_name) (set_sched_db d s))"

definition hydrate_models :: "config \<Rightarrow> (string \<rightharpoonup> string) \<Rightarrow> (string \<rightharpoonup> string)" where
  "hydrate_models cfg m =
     (let m1 = fold (\<lambda>sch m. if sch_model sch \<noteq> [] then m(sch_name sch \<mapsto> sch_model sch) else m)
                 (cfg_schedules cfg) m
      in case cfg_bootstrap cfg of
           None \<Rightarrow> m1
         | Some b \<Rightarrow> if sch_model b \<noteq> [] then m1(sch_name b \<mapsto> sch_model b) else m1)"

text \<open>\<open>pick\<close> is the order in which Go ranges over the map.\<close>

definition hydrate ::
  "'c cron_lib \<Rightarrow> (task list \<Rightarrow> task list) \<Rightarrow> faults \<Rightarrow> (nat \<Rightarrow> faults) \<Rightarrow> (nat \<Rightarrow> instant) \<Rightarrow>
   config \<Rightarrow> ('c, 'x) scheduler \<Rightarrow> string option \<times> ('c, 'x) scheduler" where
  "hydrate lib pick f fs now cfg s =
     (case list_tasks f (sched_db s) of
        Inl e \<Rightarrow> (Some (''scheduler.Hydrate: list: '' @ store_error_text e), s)
      | Inr stored \<Rightarrow>
          (let by_name = fold (put_row t_name) stored [];
               s1 = s\<lparr>sc_models := hydrate_models cfg (sc_models s)\<rparr>
           in case upsert_schedules fs now 0 (cfg_schedules cfg) by_name s1 of
                (Some e, _, s2) \<Rightarrow> (Some e, s2)
              | (None, by_name', s2) \<Rightarrow> register_all lib (pick by_name') s2))"

definition set_task ::
  "'c cron_lib \<Rightarrow> task \<Rightarrow> faults \<Rightarrow> instant \<Rightarrow> ('c, 'x) scheduler \<Rightarrow> string option \<times> ('c, 'x) scheduler" where
  "set_task lib t f now s =
     (if t_name t = [] then (Some ''scheduler.SetTask: Name required'', s)
      else if t_enabled t \<and> t_cron t = []
      then (Some ''scheduler.SetTask: enabled task requires Cron'', s)
      else case upsert_task t f now (sched_db s) of
        (Inl e, d) \<Rightarrow> (Some (store_error_text e), set_sched_db d s)
      | (Inr _, d) \<Rightarrow>
          (let s1 = set_sched_db d s
           in if \<not> t_enabled t then (None, drop_entry lib (t_name t) s1) else register lib t s1))"

definition set_model_override :: "string \<Rightarrow> string \<Rightarrow> ('c, 'x) scheduler \<Rightarrow> ('c, 'x) scheduler" where
  "set_model_override name model s =
     (if name = [] then s
      else if model = [] then s\<lparr>sc_models := (sc_models s)(name := None)\<rparr>
      else s\<lparr>sc_models := (sc_models s)(name \<mapsto> model)\<rparr>)"

definition model_for :: "string \<Rightarrow> ('c, 'x) scheduler \<Rightarrow> string" where
  "model_for name s = (case sc_models s name of None \<Rightarrow> [] | Some m \<Rightarrow> m)"

definition append_notify_clause :: "environ \<Rightarrow> string \<Rightarrow> string" where
  "append_notify_clause env prompt =
     (let wf_id = trim_space (env ''AGENT_OPS_NOTIFY_WORKFLOW_ID'')
      in if wf_id = [] then prompt
         else prompt @ [nl, nl] @
           ''If the application is down AND you cannot recover it (soft-restart did not'' @ [nl] @
           ''bring it back), run the shell command:'' @ [nl] @
           ''  zibby workflow trigger '' @ wf_id @ '' '' @ [backslash, nl] @
           ''    --input instance_id='' @ quoted ''$INSTANCE_ID'' @ '' '' @ [backslash, nl] @
           ''    --input error='' @ quoted ''<your one-line summary>'' @ '' '' @ [backslash, nl] @
           ''    --input severity='' @ quoted ''high'' @ [nl] @
           ''so the operator gets paged.'')"

definition task_spec :: "environ \<Rightarrow> trigger \<Rightarrow> string \<Rightarrow> task \<Rightarrow> ('c, 'x) scheduler \<Rightarrow> spec" where
  "task_spec env tr prompt t s =
     \<lparr>sp_name = t_name t, sp_trigger = tr, sp_prompt = append_notify_clause env prompt,
      sp_tools = t_tools t, sp_model = model_for (t_name t) s\<rparr>"

text \<open>
  The closure of \<^verbatim>\<open>makeJob\<close> for the task \<open>name\<close>: what it ran, if it ran anything.
\<close>

definition fire ::
  "environ \<Rightarrow> run_inputs \<Rightarrow> 'x runner option \<Rightarrow> faults \<Rightarrow> string \<Rightarrow> ('c, 'x) scheduler \<Rightarrow>
   (spec \<times> run_outcome) option \<times> ('c, 'x) scheduler" where
  "fire env inp rn f name s =
     (case get_task name f (sched_db s) of
        Inl _ \<Rightarrow> (None, s)
      | Inr cur \<Rightarrow>
          if \<not> t_enabled cur then (None, s)
          else case rn of
            None \<Rightarrow> (None, s)
          | Some r \<Rightarrow>
              (let sp = task_spec env TriggerSchedule (t_prompt cur) cur s;
                   (out, w) = run_task inp r sp (sc_world s)
               in (Some (sp, out), s\<lparr>sc_world := w\<rparr>)))"

definition run_now ::
  "environ \<Rightarrow> run_inputs \<Rightarrow> 'x runner option \<Rightarrow> faults \<Rightarrow> string \<Rightarrow> string \<Rightarrow> ('c, 'x) scheduler \<Rightarrow>
   (task_run \<times> string option) option \<times> ('c, 'x) scheduler" where
  "run_now env inp rn f name override s =
     (case rn of
        None \<Rightarrow>
          (Some (zero_run, Some (''scheduler.RunNow: agent-ops scheduler is disabled (no Claude token configured or AGENT_OPS_SCHEDULER_ENABLED=false) '' @ em_dash @ '' nothing to run'')), s)
      | Some r \<Rightarrow>
          (case get_task name f (sched_db s) of
             Inl e \<Rightarrow>
               (Some (zero_run, Some (''scheduler.RunNow: get task '' @ quoted name @ '': '' @
                        store_error_text e)), s)
           | Inr t \<Rightarrow>
               (let sp = task_spec env TriggerManual (if override \<noteq> [] then override else t_prompt t) t s;
                    (out, w) = run_task inp r sp (sc_world s)
                in (map_option (\<lambda>(run, _, e). (run, e)) out, s\<lparr>sc_world := w\<rparr>))))"

text \<open>The registered names; Go's order of the map is left open.\<close>

definition entry_names :: "('c, 'x) scheduler \<Rightarrow> string set" where
  "entry_names s = dom (sc_entries s)"

subsection \<open>Entries and the cron table\<close>

text \<open>
  Each task has at most the one cron entry that the scheduler remembers for it: a map from names
  to ids and a table of entries are linked if they are inverse to each other.
\<close>

definition linked :: "(string \<rightharpoonup> int) \<Rightarrow> (int \<rightharpoonup> string \<times> string) \<Rightarrow> bool" where
  "linked es cs \<longleftrightarrow> (\<forall>n i. es n = Some i \<longleftrightarrow> (\<exists>spec. cs i = Some (spec, n)))"

definition cron_of :: "(string \<rightharpoonup> int) \<Rightarrow> (int \<rightharpoonup> string \<times> string) \<Rightarrow> (string \<rightharpoonup> string)" where
  "cron_of es cs n = (case es n of None \<Rightarrow> None | Some i \<Rightarrow> map_option fst (cs i))"

lemma linkedD: "linked es cs \<Longrightarrow> es n = Some i \<longleftrightarrow> (\<exists>spec. cs i = Some (spec, n))"
  by (simp add: linked_def)

lemma linked_entry: "linked es cs \<Longrightarrow> es n = Some i \<Longrightarrow> \<exists>spec. cs i = Some (spec, n)"
  by (simp add: linked_def)

lemma linked_drop:
  assumes "linked es cs" and "es n = Some i"
  shows "linked (es(n := None)) (cs(i := None))"
    and "cron_of (es(n := None)) (cs(i := None)) = (cron_of es cs)(n := None)"
proof -
  obtain spec where ci: "cs i = Some (spec, n)" using linked_entry [OF assms] by blast
  have iff: "(es(n := None)) m = Some j \<longleftrightarrow> (\<exists>spec. (cs(i := None)) j = Some (spec, m))" for m j
  proof (cases "j = i")
    case True
    then show ?thesis using linkedD [OF assms(1), of m i] ci by auto
  next
    case False
    then show ?thesis using linkedD [OF assms(1), of m j] linkedD [OF assms(1), of n j] assms(2) by auto
  qed
  then show "linked (es(n := None)) (cs(i := None))" unfolding linked_def by blast
  have "es m = Some j \<Longrightarrow> m \<noteq> n \<Longrightarrow> j \<noteq> i" for m j
    using iff [of m j] by auto
  then show "cron_of (es(n := None)) (cs(i := None)) = (cron_of es cs)(n := None)"
    by (intro ext) (simp add: cron_of_def split: option.split)
qed

lemma linked_add:
  assumes "linked es cs" and "es n = None" and "cs i = None"
  shows "linked (es(n \<mapsto> i)) (cs(i \<mapsto> (spec, n)))"
    and "cron_of (es(n \<mapsto> i)) (cs(i \<mapsto> (spec, n))) = (cron_of es cs)(n \<mapsto> spec)"
proof -
  have ne: "es m \<noteq> Some i" for m using linkedD [OF assms(1), of m i] assms(3) by simp
  have nn: "cs j \<noteq> Some (sp, n)" for j sp using linkedD [OF assms(1), of n j] assms(2) by auto
  have "(es(n \<mapsto> i)) m = Some j \<longleftrightarrow> (\<exists>sp. (cs(i \<mapsto> (spec, n))) j = Some (sp, m))" for m j
    using linkedD [OF assms(1), of m j] ne [of m] nn [of j] by (cases "m = n"; cases "j = i") auto
  then show "linked (es(n \<mapsto> i)) (cs(i \<mapsto> (spec, n)))" unfolding linked_def by blast
  show "cron_of (es(n \<mapsto> i)) (cs(i \<mapsto> (spec, n))) = (cron_of es cs)(n \<mapsto> spec)"
    using ne by (intro ext) (auto simp: cron_of_def split: option.split)
qed

definition sched_inv :: "'c cron_lib \<Rightarrow> ('c, 'x) scheduler \<Rightarrow> bool" where
  "sched_inv lib s \<longleftrightarrow> linked (sc_entries s) (cron_entries lib (sc_cron s))"

text \<open>The expression under which a task fires.\<close>

definition task_cron :: "'c cron_lib \<Rightarrow> ('c, 'x) scheduler \<Rightarrow> string \<rightharpoonup> string" where
  "task_cron lib s = cron_of (sc_entries s) (cron_entries lib (sc_cron s))"

lemma task_cron_iff:
  assumes "sched_inv lib s"
  shows "task_cron lib s n = Some spec \<longleftrightarrow> (\<exists>i. cron_entries lib (sc_cron s) i = Some (spec, n))"
proof -
  note l = linkedD [OF assms [unfolded sched_inv_def]]
  have "task_cron lib s n = Some spec \<longleftrightarrow>
      (\<exists>i. sc_entries s n = Some i \<and> map_option fst (cron_entries lib (sc_cron s) i) = Some spec)"
    by (simp add: task_cron_def cron_of_def split: option.split)
  also have "\<dots> \<longleftrightarrow> (\<exists>i. cron_entries lib (sc_cron s) i = Some (spec, n))"
    unfolding l by fastforce
  finally show ?thesis .
qed

lemma new_scheduler_sel [simp]:
  "sc_cron (new_scheduler c w) = c" "sc_entries (new_scheduler c w) = Map.empty"
  "sc_world (new_scheduler c w) = w"
  by (simp_all add: new_scheduler_def)

lemma sched_sel [simp]:
  "sc_cron (set_sched_db d s) = sc_cron s" "sc_entries (set_sched_db d s) = sc_entries s"
  "sched_db (set_sched_db d s) = d" "sc_models (set_sched_db d s) = sc_models s"
  by (simp_all add: set_sched_db_def sched_db_def)

lemma sched_inv_cong:
  "sc_cron s' = sc_cron s \<Longrightarrow> sc_entries s' = sc_entries s \<Longrightarrow> sched_inv lib s' = sched_inv lib s"
  by (simp add: sched_inv_def)

lemma drop_entry_inv:
  assumes "cron_contract lib" and inv: "sched_inv lib s"
  shows "sched_inv lib (drop_entry lib n s) \<and>
    task_cron lib (drop_entry lib n s) = (task_cron lib s)(n := None) \<and>
    sc_entries (drop_entry lib n s) n = None \<and> sc_world (drop_entry lib n s) = sc_world s"
proof (cases "sc_entries s n")
  case None
  then have "task_cron lib s n = None" by (simp add: task_cron_def cron_of_def)
  then have "task_cron lib s = (task_cron lib s)(n := None)" by (simp add: fun_upd_idem)
  then show ?thesis using inv None by (simp add: drop_entry_def)
next
  case (Some i)
  have rem: "cron_entries lib (cron_remove lib i c) = (cron_entries lib c)(i := None)" for c
    using assms(1) by (simp add: cron_contract_def)
  from linked_drop [OF inv [unfolded sched_inv_def] Some] show ?thesis
    by (simp add: drop_entry_def Some sched_inv_def task_cron_def rem)
qed

lemma register_inv:
  assumes con: "cron_contract lib" and inv: "sched_inv lib s" and run: "register lib t s = (e, s')"
  shows "sched_inv lib s' \<and> sc_world s' = sc_world s \<and>
    task_cron lib s' = (task_cron lib s)(t_name t := (if e = None then Some (t_cron t) else None))"
proof -
  define s1 where "s1 = drop_entry lib (t_name t) s"
  note s1 = drop_entry_inv [OF con inv, of "t_name t", folded s1_def]
  obtain r c where add: "cron_add lib (t_cron t) (t_name t) (sc_cron s1) = (r, c)" by fastforce
  show ?thesis
  proof (cases r)
    case (Inl err)
    then have "cron_entries lib c = cron_entries lib (sc_cron s1)"
      using con add unfolding cron_contract_def by blast
    moreover have "s' = s1\<lparr>sc_cron := c\<rparr>" "e \<noteq> None"
      using run add Inl by (auto simp: register_def s1_def [symmetric] Let_def)
    ultimately show ?thesis using s1 by (auto simp: sched_inv_def task_cron_def)
  next
    case (Inr i)
    then have ce: "cron_entries lib (sc_cron s1) i = None"
        "cron_entries lib c = (cron_entries lib (sc_cron s1))(i \<mapsto> (t_cron t, t_name t))"
      using con add unfolding cron_contract_def by blast+
    have s': "s' = s1\<lparr>sc_cron := c, sc_entries := (sc_entries s1)(t_name t \<mapsto> i)\<rparr>" "e = None"
      using run add Inr by (auto simp: register_def s1_def [symmetric] Let_def)
    have "linked (sc_entries s1) (cron_entries lib (sc_cron s1))" "sc_entries s1 (t_name t) = None"
      using s1 by (simp_all add: sched_inv_def)
    from linked_add [OF this ce(1), of "t_cron t"] s1 show ?thesis
      by (simp add: s' sched_inv_def task_cron_def ce(2))
  qed
qed

lemma register_all_inv:
  "cron_contract lib \<Longrightarrow> sched_inv lib s \<Longrightarrow> sched_inv lib (snd (register_all lib ts s)) \<and>
     sc_world (snd (register_all lib ts s)) = sc_world s"
proof (induction ts arbitrary: s)
  case (Cons t ts)
  obtain e s1 where r: "register lib t s = (e, s1)" by fastforce
  from register_inv [OF Cons.prems r] Cons.IH [OF Cons.prems(1)] Cons.prems r show ?case
    by (auto split: option.split)
qed simp

lemma register_all_done:
  assumes "cron_contract lib"
  shows "sched_inv lib s \<Longrightarrow> register_all lib ts s = (None, s') \<Longrightarrow> distinct (map t_name ts) \<Longrightarrow>
    task_cron lib s' n =
      (case find (\<lambda>t. t_name t = n \<and> t_enabled t) ts of None \<Rightarrow> task_cron lib s n | Some t \<Rightarrow> Some (t_cron t))"
proof (induction ts arbitrary: s)
  case (Cons t ts)
  show ?case
  proof (cases "t_enabled t")
    case True
    obtain s1 where r: "register lib t s = (None, s1)" and rest: "register_all lib ts s1 = (None, s')"
      using Cons.prems(2) True by (auto split: option.splits prod.splits)
    note r1 = register_inv [OF assms Cons.prems(1) r]
    have "find (\<lambda>u. t_name u = t_name t \<and> t_enabled u) ts = None"
      using Cons.prems(3) by (auto simp: find_None_iff image_iff)
    with r1 Cons.IH [OF _ rest] Cons.prems(3) True show ?thesis
      by (auto split: option.split)
  qed (use Cons in auto)
qed simp

text \<open>The configured tasks, the last of a name winning.\<close>

definition config_tasks :: "schedule list \<Rightarrow> (string \<rightharpoonup> task)" where
  "config_tasks schs = map_of (rev (map (\<lambda>sch. (sch_name sch, task_of_schedule sch)) schs))"

lemma config_tasks_Cons:
  "config_tasks (sch # schs) = [sch_name sch \<mapsto> task_of_schedule sch] ++ config_tasks schs"
  by (simp add: config_tasks_def map_of_append)

lemma upsert_schedules_done:
  "upsert_schedules fs now n schs m s = (None, m', s') \<Longrightarrow> db_wf (sched_db s) \<Longrightarrow> keyed t_name m \<Longrightarrow>
     keyed t_name m' \<and> db_wf (sched_db s') \<and>
     (\<forall>k. find_row t_name k m' =
        (case config_tasks schs k of None \<Rightarrow> find_row t_name k m | Some t \<Rightarrow> Some t)) \<and>
     (\<forall>k. case config_tasks schs k of
        None \<Rightarrow> get_task k no_faults (sched_db s') = get_task k no_faults (sched_db s)
      | Some t \<Rightarrow> \<exists>ts. get_task k no_faults (sched_db s') = Inr (t\<lparr>t_updated_at := ts\<rparr>))"
proof (induction schs arbitrary: n m s)
  case Nil
  then show ?case by (simp add: config_tasks_def)
next
  case (Cons sch schs)
  let ?t = "task_of_schedule sch"
  obtain u d where up: "upsert_task ?t (fs n) (now n) (sched_db s) = (Inr u, d)"
    and rest: "upsert_schedules fs now (Suc n) schs (put_row t_name ?t m) (set_sched_db d s) = (None, m', s')"
    using Cons.prems(1) by (auto simp: Let_def split: sum.splits prod.splits)
  have wf: "db_wf (sched_db (set_sched_db d s))"
    using tasks.upsert_inv [OF Cons.prems(2), of ?t "fs n" "now n"] up by simp
  have name: "t_name ?t = sch_name sch" by (simp add: task_of_schedule_def)
  have get: "get_task k no_faults d =
      (if k = sch_name sch then Inr (?t\<lparr>t_updated_at := now n\<rparr>) else get_task k no_faults (sched_db s))" for k
    using tasks.get_upsert [OF Cons.prems(2) up] by (simp add: name)
  have find: "find_row t_name k (put_row t_name ?t m) =
      (if k = sch_name sch then Some ?t else find_row t_name k m)" for k
    by (simp add: find_row_put_row name)
  note IH = Cons.IH [OF rest wf keyed_put_row [OF Cons.prems(3)], unfolded sched_sel get find]
  have cfg: "config_tasks (sch # schs) k =
      (case config_tasks schs k of None \<Rightarrow> if k = sch_name sch then Some ?t else None | Some t \<Rightarrow> Some t)" for k
    by (simp add: config_tasks_Cons map_add_def split: option.split)
  show ?case unfolding cfg using IH by (auto split: option.splits if_splits)
qed

lemma upsert_schedules_inv:
  "sched_inv lib s \<Longrightarrow> sched_inv lib (snd (snd (upsert_schedules fs now n schs m s)))"
  by (induction schs arbitrary: n m s)
    (auto simp: Let_def sched_inv_def split: sum.split prod.split)

lemma upsert_schedules_keeps:
  "upsert_schedules fs now n schs m s = (e, m', s') \<Longrightarrow>
     sc_cron s' = sc_cron s \<and> sc_entries s' = sc_entries s"
  by (induction schs arbitrary: n m s)
    (auto simp: Let_def split: sum.splits prod.splits)

lemma fold_put_row_id:
  "distinct (map key xs @ map key ys) \<Longrightarrow> fold (put_row key) ys xs = xs @ ys"
proof (induction ys arbitrary: xs)
  case (Cons y ys)
  have "put_row key y xs = xs @ [y]"
    using Cons.prems by (induction xs) auto
  with Cons.IH [of "xs @ [y]"] Cons.prems show ?case by simp
qed simp

lemma list_tasks_no_faults: "list_tasks f d = Inr ts \<Longrightarrow> list_tasks no_faults d = Inr ts"
  by (auto simp: list_tasks_def split: option.splits)

lemma find_enabled_pick:
  assumes "keyed t_name m" and "mset ts = mset m"
  shows "find (\<lambda>t. t_name t = n \<and> t_enabled t) ts =
    (case find_row t_name n m of None \<Rightarrow> None | Some t \<Rightarrow> if t_enabled t then Some t else None)"
proof -
  have set: "set ts = set m" using assms(2) by (rule mset_eq_setD)
  show ?thesis
  proof (cases "find (\<lambda>t. t_name t = n \<and> t_enabled t) ts")
    case None
    then have "\<not> (t_name t = n \<and> t_enabled t)" if "t \<in> set m" for t
      using that by (auto simp: find_None_iff set)
    with None show ?thesis
      by (auto simp: find_row_keyed_iff [OF assms(1)] split: option.split)
  next
    case (Some t)
    then have t: "t \<in> set m" "t_name t = n" "t_enabled t"
      by (auto simp: find_Some_iff set [symmetric])
    then have "find_row t_name n m = Some t" by (simp add: find_row_keyed_iff [OF assms(1)])
    with Some t show ?thesis by simp
  qed
qed

lemma set_task_inv:
  assumes "cron_contract lib" and "sched_inv lib s"
  shows "sched_inv lib (snd (set_task lib t f now s))"
proof -
  have inv: "sched_inv lib (set_sched_db d s)" for d using assms(2) by (simp add: sched_inv_def)
  have "sched_inv lib (snd (register lib t (set_sched_db d s)))" for d
    using register_inv [OF assms(1) inv, of t d] by (metis prod.collapse)
  then show ?thesis
    using drop_entry_inv [OF assms(1) inv] inv assms(2)
    by (auto simp: set_task_def Let_def split: sum.split prod.split)
qed

lemma hydrate_inv:
  assumes "cron_contract lib" and "sched_inv lib s"
  shows "sched_inv lib (snd (hydrate lib pick f fs now cfg s))"
proof -
  have inv: "sched_inv lib (s\<lparr>sc_models := m\<rparr>)" for m using assms(2) by (simp add: sched_inv_def)
  have "sched_inv lib s2" if "upsert_schedules fs now 0 schs m (s\<lparr>sc_models := x\<rparr>) = (e, m', s2)"
    for schs m x e m' s2
    using upsert_schedules_inv [OF inv, of fs now 0 schs m x] that by simp
  note upserted = this
  show ?thesis
    using assms(2)
    by (auto simp: hydrate_def Let_def register_all_inv [OF assms(1)] dest: upserted
        split: sum.split prod.split option.split)
qed

lemma set_model_inv: "sched_inv lib s \<Longrightarrow> sched_inv lib (set_model_override name model s)"
  by (simp add: set_model_override_def sched_inv_def)

lemma fire_inv: "sched_inv lib s \<Longrightarrow> sched_inv lib (snd (fire env inp rn f name s))"
  by (auto simp: fire_def sched_inv_def Let_def split: sum.split prod.split option.split)

lemma run_now_inv: "sched_inv lib s \<Longrightarrow> sched_inv lib (snd (run_now env inp rn f name ov s))"
  by (auto simp: run_now_def sched_inv_def Let_def split: sum.split prod.split option.split)

subsection \<open>Histories\<close>

text \<open>Whatever the daemon calls on its scheduler, in any order.\<close>

datatype 'x sched_cmd =
    SHydrate "task list \<Rightarrow> task list" faults "nat \<Rightarrow> faults" "nat \<Rightarrow> instant" config
  | SSetTask task faults instant
  | SSetModel string string
  | SFire environ run_inputs "'x runner option" faults string
  | SRunNow environ run_inputs "'x runner option" faults string string

fun exec_sched :: "'c cron_lib \<Rightarrow> 'x sched_cmd \<Rightarrow> ('c, 'x) scheduler \<Rightarrow> ('c, 'x) scheduler" where
  "exec_sched lib (SHydrate pick f fs now cfg) s = snd (hydrate lib pick f fs now cfg s)"
| "exec_sched lib (SSetTask t f now) s = snd (set_task lib t f now s)"
| "exec_sched lib (SSetModel name model) s = set_model_override name model s"
| "exec_sched lib (SFire env inp rn f name) s = snd (fire env inp rn f name s)"
| "exec_sched lib (SRunNow env inp rn f name ov) s = snd (run_now env inp rn f name ov s)"

lemma exec_sched_inv:
  "cron_contract lib \<Longrightarrow> sched_inv lib s \<Longrightarrow> sched_inv lib (exec_sched lib c s)"
  by (cases c) (simp_all add: hydrate_inv set_task_inv fire_inv run_now_inv set_model_inv)

lemma fold_exec_sched_inv:
  "cron_contract lib \<Longrightarrow> sched_inv lib s \<Longrightarrow> sched_inv lib (fold (exec_sched lib) cs s)"
  by (induction cs arbitrary: s) (simp_all add: exec_sched_inv)

text \<open>A small cron table, for concrete runs: expressions with a slash are refused.\<close>

abbreviation list_cron :: "(string \<times> string) list cron_lib" where
  "list_cron \<equiv> \<lparr>cron_add = (\<lambda>spec job c. if CHR ''/'' \<in> set spec then (Inl ''bad spec'', c)
       else (Inr (int (length c)), c @ [(spec, job)])),
     cron_remove = (\<lambda>i c. if 0 \<le> i \<and> nat i < length c then c[nat i := ([CHR ''/''], [])] else c),
     cron_entries = (\<lambda>c i. if 0 \<le> i \<and> nat i < length c \<and> c ! nat i \<noteq> ([CHR ''/''], [])
       then Some (c ! nat i) else None)\<rparr>"

lemma list_cron_contract: "cron_contract list_cron"
  unfolding cron_contract_def
  by (auto simp: fun_eq_iff nth_append nth_list_update split: if_splits)

subsection \<open>Properties\<close>

text \<open>
  C29: one cron entry per task. After any calls of the scheduler's operations, successful or not,
  the ids it remembers and the entries of the cron table are inverse to each other: every task
  has at most one entry, and no entry is left that no task owns.
\<close>

theorem one_entry_per_task:
  fixes cs :: "'x sched_cmd list" and w :: "'x run_world"
  assumes "cron_contract lib" and "cron_entries lib c = Map.empty"
  defines "s \<equiv> fold (exec_sched lib) cs (new_scheduler c w)"
  shows "(\<forall>n i. sc_entries s n = Some i \<longleftrightarrow> (\<exists>spec. cron_entries lib (sc_cron s) i = Some (spec, n))) \<and>
    (\<forall>i j spec spec' n. cron_entries lib (sc_cron s) i = Some (spec, n) \<longrightarrow>
       cron_entries lib (sc_cron s) j = Some (spec', n) \<longrightarrow> i = j)"
proof -
  have "sched_inv lib (new_scheduler c w)"
    using assms(2) by (simp add: sched_inv_def linked_def new_scheduler_def)
  then have "linked (sc_entries s) (cron_entries lib (sc_cron s))"
    unfolding s_def sched_inv_def [symmetric] by (rule fold_exec_sched_inv [OF assms(1)])
  note l = linkedD [OF this]
  have "i = j" if "cron_entries lib (sc_cron s) i = Some (spec, n)"
    "cron_entries lib (sc_cron s) j = Some (spec', n)" for i j spec spec' n
    using that l [of n i] l [of n j] by auto
  with l show ?thesis by blast
qed

abbreviation hourly :: task where
  "hourly \<equiv> \<lparr>t_name = ''h'', t_cron = ''@hourly'', t_prompt = ''p'', t_tools = [], t_enabled = True,
     t_updated_at = 0\<rparr>"

theorem one_entry_per_task_witness:
  "let s = fold (exec_sched list_cron) [SSetTask hourly no_faults 1, SSetTask hourly no_faults 2]
         (new_scheduler [] sample_world)
   in \<forall>i j spec spec'. cron_entries list_cron (sc_cron s) i = Some (spec, ''h'') \<longrightarrow>
        cron_entries list_cron (sc_cron s) j = Some (spec', ''h'') \<longrightarrow> i = j"
proof -
  have "cron_entries list_cron [] = Map.empty" by (simp add: fun_eq_iff)
  from one_entry_per_task [OF list_cron_contract this,
      of "[SSetTask hourly no_faults 1, SSetTask hourly no_faults 2]" sample_world]
  show ?thesis unfolding Let_def by blast
qed

text \<open>
  What \<open>SetTask\<close> leaves behind. If it returns no error, the stored task is the one given,
  and it fires under its expression exactly if it is enabled; no other task is affected. If
  only the expression is refused, the call fails although the stored task has been replaced
  already, and the task has lost the entry it had: the update is not atomic.
\<close>

lemma set_task_outcome:
  assumes "cron_contract lib" and "sched_inv lib s" and "db_wf (sched_db s)"
    and "upsert_task t f now (sched_db s) = (Inr u, d)"
    and "t_name t \<noteq> []" and "t_enabled t \<longrightarrow> t_cron t \<noteq> []"
    and "set_task lib t f now s = (e, s')"
  shows "get_task (t_name t) no_faults (sched_db s') = Inr (t\<lparr>t_updated_at := now\<rparr>) \<and>
    (e = None \<longrightarrow> task_cron lib s' = (task_cron lib s)
       (t_name t := (if t_enabled t then Some (t_cron t) else None))) \<and>
    (e \<noteq> None \<longrightarrow> t_enabled t \<and> task_cron lib s' = (task_cron lib s)(t_name t := None)) \<and>
    (\<forall>n. n \<noteq> t_name t \<longrightarrow> get_task n no_faults (sched_db s') = get_task n no_faults (sched_db s))"
proof -
  let ?s1 = "set_sched_db d s"
  have inv: "sched_inv lib ?s1" using assms(2) by (simp add: sched_inv_def)
  have same: "task_cron lib ?s1 = task_cron lib s" by (simp add: task_cron_def)
  have run: "(if \<not> t_enabled t then (None, drop_entry lib (t_name t) ?s1) else register lib t ?s1) = (e, s')"
    using assms(4-7) by (simp add: set_task_def Let_def split: if_splits)
  have w: "sc_world s' = sc_world ?s1"
    using run drop_entry_inv [OF assms(1) inv, of "t_name t"] register_inv [OF assms(1) inv, of t]
    by (auto split: if_splits)
  then have db: "sched_db s' = d" by (simp add: sched_db_def set_sched_db_def)
  have "e = None \<longrightarrow> task_cron lib s' = (task_cron lib s)
      (t_name t := (if t_enabled t then Some (t_cron t) else None))"
    "e \<noteq> None \<longrightarrow> t_enabled t \<and> task_cron lib s' = (task_cron lib s)(t_name t := None)"
    using run drop_entry_inv [OF assms(1) inv, of "t_name t"] register_inv [OF assms(1) inv, of t e s']
    by (auto simp: same split: if_splits)
  with tasks.get_upsert [OF assms(3,4)] show ?thesis by (simp add: db)
qed

lemma set_task_outcome_witness:
  "\<exists>e s'. set_task list_cron (hourly\<lparr>t_cron := ''a/b''\<rparr>) no_faults 1 (new_scheduler [] sample_world) = (Some e, s') \<and>
     get_task ''h'' no_faults (sched_db s') = Inr (hourly\<lparr>t_cron := ''a/b'', t_updated_at := 1\<rparr>)"
proof -
  let ?t = "hourly\<lparr>t_cron := ''a/b''\<rparr>" and ?s = "new_scheduler ([] :: (string \<times> string) list) sample_world"
  obtain e s' where st: "set_task list_cron ?t no_faults 1 ?s = (e, s')" by fastforce
  obtain u d where up: "upsert_task ?t no_faults 1 (sched_db ?s) = (Inr u, d)"
    by (simp add: db_simps upsert_task_def sched_db_def new_scheduler_def)
  have inv: "sched_inv list_cron ?s" by (simp add: sched_inv_def linked_def new_scheduler_def)
  have wf: "db_wf (sched_db ?s)"
    using db_wf_init [of 1] by (simp add: sched_db_def new_scheduler_def)
  have e: "e \<noteq> None"
    using st by (simp only: set_task_def up prod.case sum.case Let_def)
      (auto simp: Let_def register_def drop_entry_def split: if_splits)
  from set_task_outcome [OF list_cron_contract inv wf up _ _ st] e st show ?thesis by auto
qed

text \<open>
  What the daemon fires after boot. If \<open>Hydrate\<close> succeeds, in whatever order Go ranges
  over the tasks, every configured task is stored as configured and fires under the configured
  expression exactly if it is enabled there; a stored task that is not configured is kept and
  fires under its stored expression if it is enabled; nothing else gets an entry.
\<close>

lemma hydrate_config_wins:
  assumes "cron_contract lib" and "sched_inv lib s" and "db_wf (sched_db s)"
    and "\<And>m. mset (pick m) = mset m"
    and "hydrate lib pick f fs now cfg s = (None, s')"
  shows "case config_tasks (cfg_schedules cfg) n of
      Some t \<Rightarrow> (\<exists>ts. get_task n no_faults (sched_db s') = Inr (t\<lparr>t_updated_at := ts\<rparr>)) \<and>
        task_cron lib s' n = (if t_enabled t then Some (t_cron t) else task_cron lib s n)
    | None \<Rightarrow> get_task n no_faults (sched_db s') = get_task n no_faults (sched_db s) \<and>
        task_cron lib s' n = (case get_task n no_faults (sched_db s) of
            Inr t \<Rightarrow> if t_enabled t then Some (t_cron t) else task_cron lib s n
          | Inl _ \<Rightarrow> task_cron lib s n)"
proof -
  let ?s1 = "s\<lparr>sc_models := hydrate_models cfg (sc_models s)\<rparr>"
  obtain stored where st: "list_tasks f (sched_db s) = Inr stored"
    using assms(5) by (auto simp: hydrate_def split: sum.splits)
  note all = tasks.all_get [OF assms(3) list_tasks_no_faults [OF st]]
  have stored: "fold (put_row t_name) stored [] = stored"
    using fold_put_row_id [of t_name "[]" stored] all by simp
  have keyed: "keyed t_name stored" using all by (simp add: keyed_def)
  obtain m s2 where up: "upsert_schedules fs now 0 (cfg_schedules cfg) stored ?s1 = (None, m, s2)"
    and reg: "register_all lib (pick m) s2 = (None, s')"
    using assms(5) st by (auto simp: hydrate_def Let_def stored split: prod.splits option.splits)
  have wf1: "db_wf (sched_db ?s1)" using assms(3) by (simp add: sched_db_def)
  note upd = upsert_schedules_done [OF up wf1 keyed]
  have same: "task_cron lib s2 = task_cron lib s" "sched_inv lib s2"
    using upsert_schedules_keeps [OF up] assms(2) by (simp_all add: task_cron_def sched_inv_def)
  have mset: "mset (pick m) = mset m" by (rule assms(4))
  have "distinct (map t_name (pick m))"
    using upd mset by (metis keyed_def mset_eq_imp_distinct_iff mset_map)
  note cron = register_all_done [OF assms(1) same(2) reg this, of n,
      unfolded find_enabled_pick [OF conjunct1 [OF upd] mset] same(1)]
  have db: "sched_db s' = sched_db s2"
    using register_all_inv [OF assms(1) same(2), of "pick m"] reg by (simp add: sched_db_def)
  have row: "find_row t_name n stored = (case get_task n no_faults (sched_db s) of Inr t \<Rightarrow> Some t | Inl _ \<Rightarrow> None)"
  proof (cases "get_task n no_faults (sched_db s)")
    case (Inl e)
    then have "find_row t_name n stored \<noteq> Some t" for t
      using all [of t] find_row_keyed_iff [OF keyed, of n t] by auto
    then show ?thesis using Inl by (cases "find_row t_name n stored") auto
  next
    case (Inr t)
    then have "t_name t = n" by (auto simp: get_task_def split: option.splits dest: find_row_Some_key)
    then show ?thesis using all [of t] Inr by (simp add: find_row_keyed_iff [OF keyed])
  qed
  have db1: "sched_db ?s1 = sched_db s" by (simp add: sched_db_def)
  have one: "find_row t_name n m = (case config_tasks (cfg_schedules cfg) n of
        None \<Rightarrow> find_row t_name n stored | Some t \<Rightarrow> Some t)"
    "case config_tasks (cfg_schedules cfg) n of
        None \<Rightarrow> get_task n no_faults (sched_db s2) = get_task n no_faults (sched_db s)
      | Some t \<Rightarrow> \<exists>ts. get_task n no_faults (sched_db s2) = Inr (t\<lparr>t_updated_at := ts\<rparr>)"
    using upd unfolding db1 by blast+
  show ?thesis
    using one cron unfolding db row by (auto split: option.splits sum.splits if_splits)
qed

abbreviation hourly_config :: config where
  "hourly_config \<equiv> bare_config\<lparr>cfg_schedules := [\<lparr>sch_name = ''h'', sch_cron = ''@hourly'', sch_prompt = ''p'',
     sch_tools = [], sch_model = [], sch_verify_prompt = [], sch_verify_model = [], sch_enabled = None\<rparr>]\<rparr>"

lemma hourly_hydrate:
  "\<exists>s'. hydrate list_cron (\<lambda>m. m) no_faults (\<lambda>_. no_faults) int hourly_config
     (new_scheduler [] sample_world) = (None, s')"
  by (simp add: hydrate_def sched_db_def list_tasks_def db_simps upsert_task_def task_of_schedule_def
      schedule_enabled_def register_def drop_entry_def set_sched_db_def)

lemma hydrate_config_wins_witness:
  "\<exists>s'. hydrate list_cron (\<lambda>m. m) no_faults (\<lambda>_. no_faults) int hourly_config
     (new_scheduler [] sample_world) = (None, s') \<and> task_cron list_cron s' ''h'' = Some ''@hourly''"
proof -
  let ?s = "new_scheduler ([] :: (string \<times> string) list) sample_world"
  obtain s' where run: "hydrate list_cron (\<lambda>m. m) no_faults (\<lambda>_. no_faults) int hourly_config ?s = (None, s')"
    using hourly_hydrate by blast
  have inv: "sched_inv list_cron ?s" by (simp add: sched_inv_def linked_def)
  have wf: "db_wf (sched_db ?s)" using db_wf_init [of 1] by (simp add: sched_db_def)
  show ?thesis
    using hydrate_config_wins [OF list_cron_contract inv wf _ run, of "''h''"] run
    by (simp add: config_tasks_def task_of_schedule_def schedule_enabled_def)
qed

text \<open>
  A tick uses the task as it is now. After a successful \<open>SetTask\<close>, a tick of that task,
  also a late one of a replaced entry, runs the new prompt (with the notification clause if one
  is configured), the new tool list and the model override of the task; after a \<open>SetTask\<close>
  that disables the task, or without a runner, the tick does nothing at all.
\<close>

lemma tick_uses_current_task:
  assumes "cron_contract lib" and "sched_inv lib s" and "db_wf (sched_db s)"
    and "set_task lib t f now s = (None, s')" and "f' 0 = None"
  shows "(t_enabled t \<longrightarrow>
      (let sp = \<lparr>sp_name = t_name t, sp_trigger = TriggerSchedule,
                 sp_prompt = append_notify_clause env (t_prompt t), sp_tools = t_tools t,
                 sp_model = model_for (t_name t) s'\<rparr>
       in fire env inp (Some r) f' (t_name t) s' =
            (Some (sp, fst (run_task inp r sp (sc_world s'))),
             s'\<lparr>sc_world := snd (run_task inp r sp (sc_world s'))\<rparr>))) \<and>
    (\<not> t_enabled t \<longrightarrow> fire env inp rn f' (t_name t) s' = (None, s')) \<and>
    fire env inp None f' (t_name t) s' = (None, s')"
proof -
  obtain u d where up: "upsert_task t f now (sched_db s) = (Inr u, d)"
    using assms(4) by (auto simp: set_task_def split: if_splits sum.splits prod.splits)
  let ?s1 = "set_sched_db d s"
  have inv: "sched_inv lib ?s1" using assms(2) by (simp add: sched_inv_def)
  have run: "(if \<not> t_enabled t then (None, drop_entry lib (t_name t) ?s1) else register lib t ?s1) = (None, s')"
    using assms(4) up by (simp add: set_task_def Let_def split: if_splits)
  have "sc_world s' = sc_world ?s1"
    using run drop_entry_inv [OF assms(1) inv, of "t_name t"] register_inv [OF assms(1) inv, of t]
    by (auto split: if_splits)
  then have "sched_db s' = d" by (simp add: sched_db_def set_sched_db_def)
  then have "get_task (t_name t) no_faults (sched_db s') = Inr (t\<lparr>t_updated_at := now\<rparr>)"
    using tasks.get_upsert [OF assms(3) up] by simp
  then have "get_task (t_name t) f' (sched_db s') = Inr (t\<lparr>t_updated_at := now\<rparr>)"
    using assms(5) by (simp add: get_task_def)
  then show ?thesis
    by (simp add: fire_def task_spec_def Let_def split_beta)
qed

lemma tick_uses_current_task_witness:
  "\<exists>s'. set_task list_cron (hourly\<lparr>t_enabled := False\<rparr>) no_faults 1 (new_scheduler [] sample_world) = (None, s') \<and>
     fire (\<lambda>_. []) sample_inputs (Some sample_runner) no_faults ''h'' s' = (None, s')"
proof -
  let ?s = "new_scheduler ([] :: (string \<times> string) list) sample_world"
  obtain s' where run: "set_task list_cron (hourly\<lparr>t_enabled := False\<rparr>) no_faults 1 ?s = (None, s')"
    by (simp add: set_task_def sched_db_def db_simps upsert_task_def drop_entry_def)
  have inv: "sched_inv list_cron ?s" by (simp add: sched_inv_def linked_def)
  have wf: "db_wf (sched_db ?s)" using db_wf_init [of 1] by (simp add: sched_db_def)
  show ?thesis
    using tick_uses_current_task [OF list_cron_contract inv wf run, of no_faults "\<lambda>_. []" sample_inputs
        sample_runner "Some sample_runner"] run
    by simp
qed

end
