(* ===== verification/AppAuth.thy ===== *)
theory AppAuth
  imports NetAddr
begin

text \<open>
  \<^verbatim>\<open>internal/appauth/appauth.go\<close>: the access control in front of the app, its hot swap and
  the client address it trusts. The JSON decoder, base64, bcrypt and SHA-256 are parameters.
\<close>

record basic_cred =
  bc_user :: string
  bc_hash :: string

record auth_config =
  au_basic :: "basic_cred option"
  au_token_sha256 :: string
  au_nets :: "ip_net list"

record wire =
  wi_basic :: "basic_cred option"
  wi_token :: "string option"
  wi_allow :: "string list"

record http_request =
  rq_header :: "string \<Rightarrow> string"
  rq_remote_addr :: string

record auth_crypto =
  cr_bcrypt_ok :: "string \<Rightarrow> string \<Rightarrow> bool"
  cr_sha256_hex :: "string \<Rightarrow> string"
  cr_base64 :: "string \<Rightarrow> string option"

subsection \<open>Apply\<close>

definition host_route :: "string \<Rightarrow> string" where
  "host_route s =
     (if contains ''/'' s then s else if contains '':'' s then s @ ''/128'' else s @ ''/32'')"

definition private_net :: "ip_net \<Rightarrow> bool" where
  "private_net n \<longleftrightarrow> is_loopback (net_ip n) \<or> is_private (net_ip n) \<or> is_link_local (net_ip n) \<or>
     is_unspecified (net_ip n)"

definition allow_entry :: "string \<Rightarrow> ip_net list" where
  "allow_entry raw =
     (let s = trim_space raw
      in if s = [] then []
         else case parse_cidr (host_route s) of
           None \<Rightarrow> []
         | Some n \<Rightarrow> if private_net n then [] else [n])"

definition auth_of_wire :: "wire \<Rightarrow> auth_config" where
  "auth_of_wire w = \<lparr>
     au_basic = (case wi_basic w of
         None \<Rightarrow> None
       | Some b \<Rightarrow> if bc_user b \<noteq> [] \<and> bc_hash b \<noteq> [] then Some b else None),
     au_token_sha256 = (case wi_token w of
         None \<Rightarrow> []
       | Some t \<Rightarrow> if t \<noteq> [] then to_lower (trim_space t) else []),
     au_nets = concat (map allow_entry (wi_allow w))\<rparr>"

text \<open>\<open>Inl\<close>: the JSON error, the live configuration stays; \<open>Inr\<close>: the configuration that is stored.\<close>

definition apply_auth :: "(string \<Rightarrow> string + wire) \<Rightarrow> string \<Rightarrow> string + auth_config option" where
  "apply_auth decode raw0 =
     (let raw = trim_space raw0
      in if raw = [] \<or> raw = ''null'' then Inr None
         else case decode raw of
           Inl e \<Rightarrow> Inl e
         | Inr w \<Rightarrow>
             (let c = auth_of_wire w
              in if au_basic c = None \<and> au_token_sha256 c = [] \<and> au_nets c = [] then Inr None
                 else Inr (Some c)))"

text \<open>The atomic pointer: the configuration after a call, and what the call answers.\<close>

definition apply_live ::
  "(string \<Rightarrow> string + wire) \<Rightarrow> string \<Rightarrow> auth_config option \<Rightarrow> string option \<times> auth_config option" where
  "apply_live decode raw live =
     (case apply_auth decode raw of Inl e \<Rightarrow> (Some e, live) | Inr c \<Rightarrow> (None, c))"

subsection \<open>The client's address\<close>

definition hop_ip :: "string \<Rightarrow> ip option" where
  "hop_ip part = parse_ip (trim_space part)"

definition internal_ip :: "ip \<Rightarrow> bool" where
  "internal_ip b \<longleftrightarrow> is_loopback b \<or> is_private b \<or> is_link_local b"

text \<open>The two loops of \<^verbatim>\<open>RealClientIP\<close>, over the parts from the right.\<close>

fun first_public :: "string list \<Rightarrow> ip option" where
  "first_public [] = None"
| "first_public (p # ps) =
     (case hop_ip p of
        None \<Rightarrow> first_public ps
      | Some b \<Rightarrow> if internal_ip b then first_public ps else Some b)"

fun first_parsed :: "string list \<Rightarrow> ip option" where
  "first_parsed [] = None"
| "first_parsed (p # ps) = (case hop_ip p of None \<Rightarrow> first_parsed ps | Some b \<Rightarrow> Some b)"

definition forwarded_ip :: "string \<Rightarrow> ip option" where
  "forwarded_ip xff =
     (let parts = rev (split_on (CHR '','') xff)
      in case first_public parts of Some b \<Rightarrow> Some b | None \<Rightarrow> first_parsed parts)"

definition direct_ip :: "string \<Rightarrow> ip option" where
  "direct_ip addr = parse_ip (case split_host_port addr of None \<Rightarrow> [] | Some (h, _) \<Rightarrow> h)"

definition real_client_ip :: "http_request \<Rightarrow> ip option" where
  "real_client_ip r =
     (let xff = rq_header r ''X-Forwarded-For''
      in case (if xff \<noteq> [] then forwarded_ip xff else None) of
           Some b \<Rightarrow> Some b
         | None \<Rightarrow> direct_ip (rq_remote_addr r))"

subsection \<open>Enforce\<close>

text \<open>\<^verbatim>\<open>Request.BasicAuth\<close>: the scheme in any case, base64, cut at the first colon.\<close>

definition basic_auth :: "auth_crypto \<Rightarrow> http_request \<Rightarrow> (string \<times> string) option" where
  "basic_auth k r =
     (let h = rq_header r ''Authorization''
      in if length h < 6 \<or> to_lower (take 6 h) \<noteq> ''basic '' then None
         else case cr_base64 k (drop 6 h) of
           None \<Rightarrow> None
         | Some c \<Rightarrow> map_option (\<lambda>i. (take i c, drop (Suc i) c)) (index_byte (CHR '':'') c))"

definition request_token :: "http_request \<Rightarrow> string" where
  "request_token r =
     (let h = rq_header r ''Authorization''
      in if prefix ''Bearer '' h then trim_space (drop 7 h)
         else trim_space (rq_header r ''X-Webhook-Token''))"

definition ip_gate :: "auth_config \<Rightarrow> http_request \<Rightarrow> bool" where
  "ip_gate c r =
     (if au_nets c = [] then True
      else case real_client_ip r of None \<Rightarrow> False | Some b \<Rightarrow> list_ex (\<lambda>n. net_contains n b) (au_nets c))"

definition basic_gate :: "auth_crypto \<Rightarrow> auth_config \<Rightarrow> http_request \<Rightarrow> bool" where
  "basic_gate k c r =
     (case au_basic c of
        None \<Rightarrow> True
      | Some b \<Rightarrow>
          (case basic_auth k r of
             None \<Rightarrow> False
           | Some (u, p) \<Rightarrow> u = bc_user b \<and> cr_bcrypt_ok k (bc_hash b) p))"

definition token_gate :: "auth_crypto \<Rightarrow> auth_config \<Rightarrow> http_request \<Rightarrow> bool" where
  "token_gate k c r =
     (if au_token_sha256 c = [] then True
      else request_token r \<noteq> [] \<and> cr_sha256_hex k (request_token r) = au_token_sha256 c)"

text \<open>The answer: allowed, the status, and the \<^verbatim>\<open>WWW-Authenticate\<close> header.\<close>

definition enforce ::
  "auth_crypto \<Rightarrow> auth_config option \<Rightarrow> http_request \<Rightarrow> bool \<times> nat \<times> string" where
  "enforce k live r =
     (case live of
        None \<Rightarrow> (True, 0, [])
      | Some c \<Rightarrow>
          if \<not> ip_gate c r then (False, 403, [])
          else if \<not> basic_gate k c r then (False, 401, ''Basic realm='' @ quoted ''Restricted'')
          else if \<not> token_gate k c r then (False, 401, [])
          else (True, 0, []))"

subsection \<open>Lemmas\<close>

lemma first_public_append:
  "first_public (ps @ qs) = (case first_public ps of Some b \<Rightarrow> Some b | None \<Rightarrow> first_public qs)"
  by (induction ps) (auto split: option.split)

lemma first_public_Some: "first_public ps = Some b \<Longrightarrow> \<not> internal_ip b"
  by (induction ps) (auto split: option.splits if_splits)

text \<open>What the client puts before the hops that the balancer appended does not matter.\<close>

lemma forwarded_ip_spoof:
  assumes "first_public (rev (split_on (CHR '','') trusted)) = Some b"
  shows "forwarded_ip (spoof @ CHR '','' # trusted) = Some b"
  using assms by (simp add: forwarded_ip_def split_on_append_sep first_public_append Let_def)

lemma au_nets_public: "n \<in> set (au_nets (auth_of_wire w)) \<Longrightarrow> \<not> private_net n"
  by (auto simp: auth_of_wire_def allow_entry_def Let_def split: if_splits option.splits)

definition usable_entry :: "string \<Rightarrow> ip_net \<Rightarrow> bool" where
  "usable_entry s n \<longleftrightarrow>
     trim_space s \<noteq> [] \<and> parse_cidr (host_route (trim_space s)) = Some n \<and> \<not> private_net n"

lemma allow_entry_iff: "n \<in> set (allow_entry s) \<longleftrightarrow> usable_entry s n"
  by (auto simp: allow_entry_def usable_entry_def Let_def split: option.splits)

lemma au_nets_iff: "n \<in> set (au_nets (auth_of_wire w)) \<longleftrightarrow> (\<exists>s \<in> set (wi_allow w). usable_entry s n)"
  by (simp add: auth_of_wire_def allow_entry_iff)

lemma au_nets_Nil: "au_nets (auth_of_wire w) = [] \<longleftrightarrow> (\<forall>s \<in> set (wi_allow w). \<forall>n. \<not> usable_entry s n)"
  using au_nets_iff [of _ w] by (metis list.set_intros(1) list.set_cases list.set(1) empty_iff neq_Nil_conv)

lemma trim_lower_Nil: "to_lower s = [] \<longleftrightarrow> s = []"
  by (simp add: to_lower_def)

lemma auth_of_wire_creds:
  "au_basic (auth_of_wire w) =
     (case wi_basic w of None \<Rightarrow> None | Some b \<Rightarrow> if bc_user b \<noteq> [] \<and> bc_hash b \<noteq> [] then Some b else None)"
  "au_token_sha256 (auth_of_wire w) = (case wi_token w of None \<Rightarrow> [] | Some t \<Rightarrow> to_lower (trim_space t))"
  by (auto simp: auth_of_wire_def to_lower_def split: option.split)

lemma enforce_empty:
  "au_basic c = None \<Longrightarrow> au_token_sha256 c = [] \<Longrightarrow> au_nets c = [] \<Longrightarrow> enforce k (Some c) r = (True, 0, [])"
  by (simp add: enforce_def ip_gate_def basic_gate_def token_gate_def)

lemma enforce_None: "enforce k None r = (True, 0, [])"
  by (simp add: enforce_def)

lemma enforce_applied:
  assumes "decode (trim_space raw) = Inr w" and "trim_space raw \<noteq> []" and "trim_space raw \<noteq> ''null''"
  shows "enforce k (snd (apply_live decode raw live)) r = enforce k (Some (auth_of_wire w)) r"
proof (cases "au_basic (auth_of_wire w) = None \<and> au_token_sha256 (auth_of_wire w) = [] \<and>
    au_nets (auth_of_wire w) = []")
  case True
  then show ?thesis
    using assms by (simp add: apply_live_def apply_auth_def Let_def enforce_None enforce_empty)
qed (use assms in \<open>auto simp: apply_live_def apply_auth_def Let_def\<close>)

subsection \<open>Properties\<close>

text \<open>
  C23: a client cannot choose its own address. If the balancers append the real address and
  then internal hops to \<^verbatim>\<open>X-Forwarded-For\<close>, the address found is the real one, whatever text
  the client sent in the header before it.
\<close>

theorem forwarded_address_not_spoofable:
  assumes "rq_header r ''X-Forwarded-For'' = spoof @ '','' @ join '','' (real # hops)"
    and "hop_ip real = Some b" and "\<not> internal_ip b"
    and "\<forall>h \<in> set hops. case hop_ip h of None \<Rightarrow> True | Some x \<Rightarrow> internal_ip x"
    and "\<forall>p \<in> set (real # hops). CHR '','' \<notin> set p"
  shows "real_client_ip r = Some b"
proof -
  have hops: "first_public ps = None" if "\<forall>h \<in> set ps. case hop_ip h of None \<Rightarrow> True | Some x \<Rightarrow> internal_ip x" for ps
    using that by (induction ps) (auto split: option.splits)
  have "split_on (CHR '','') (join '','' (real # hops)) = real # hops"
    using assms(5) by (intro split_on_join) auto
  moreover have "first_public (rev (real # hops)) = Some b"
    using hops [of "rev hops"] assms(2-4) by (simp add: first_public_append)
  ultimately have "forwarded_ip (spoof @ CHR '','' # join '','' (real # hops)) = Some b"
    by (intro forwarded_ip_spoof) (simp only:)
  then show ?thesis
    using assms(1) by (simp add: real_client_ip_def Let_def)
qed

text \<open>
  C28: what an applied configuration lets through. After a decodable, non-null configuration was
  applied, whatever was live before, a request passes exactly if it meets each restriction that
  survives: the credentials if user and hash are given, the token if one is given, and, if at
  least one allow-list entry is a public network, an address inside one of those. A request from
  a blocked address gets 403 without looking at its credentials.
\<close>

theorem applied_auth_is_enforced:
  assumes "decode (trim_space raw) = Inr w" and "trim_space raw \<noteq> []" and "trim_space raw \<noteq> ''null''"
  shows "(fst (enforce k (snd (apply_live decode raw live)) r) \<longleftrightarrow>
      (\<forall>u. wi_basic w = Some u \<and> bc_user u \<noteq> [] \<and> bc_hash u \<noteq> [] \<longrightarrow>
         (\<exists>p. basic_auth k r = Some (bc_user u, p) \<and> cr_bcrypt_ok k (bc_hash u) p)) \<and>
      (\<forall>t. wi_token w = Some t \<and> trim_space t \<noteq> [] \<longrightarrow>
         request_token r \<noteq> [] \<and> cr_sha256_hex k (request_token r) = to_lower (trim_space t)) \<and>
      ((\<exists>s \<in> set (wi_allow w). \<exists>n. usable_entry s n) \<longrightarrow>
         (\<exists>s \<in> set (wi_allow w). \<exists>n b. usable_entry s n \<and> real_client_ip r = Some b \<and> net_contains n b))) \<and>
    ((\<exists>s \<in> set (wi_allow w). \<exists>n. usable_entry s n) \<and>
     (\<forall>s \<in> set (wi_allow w). \<forall>n b. usable_entry s n \<and> real_client_ip r = Some b \<longrightarrow> \<not> net_contains n b) \<longrightarrow>
     enforce k (snd (apply_live decode raw live)) r = (False, 403, []))"
proof -
  let ?c = "auth_of_wire w"
  have basic: "basic_gate k ?c r \<longleftrightarrow>
      (\<forall>u. wi_basic w = Some u \<and> bc_user u \<noteq> [] \<and> bc_hash u \<noteq> [] \<longrightarrow>
         (\<exists>p. basic_auth k r = Some (bc_user u, p) \<and> cr_bcrypt_ok k (bc_hash u) p))"
    by (auto simp: basic_gate_def auth_of_wire_creds split: option.splits)
  have token: "token_gate k ?c r \<longleftrightarrow>
      (\<forall>t. wi_token w = Some t \<and> trim_space t \<noteq> [] \<longrightarrow>
         request_token r \<noteq> [] \<and> cr_sha256_hex k (request_token r) = to_lower (trim_space t))"
    by (auto simp: token_gate_def auth_of_wire_creds trim_lower_Nil split: option.splits)
  have ip: "ip_gate ?c r \<longleftrightarrow>
      ((\<exists>s \<in> set (wi_allow w). \<exists>n. usable_entry s n) \<longrightarrow>
         (\<exists>s \<in> set (wi_allow w). \<exists>n b. usable_entry s n \<and> real_client_ip r = Some b \<and> net_contains n b))"
  proof (cases "au_nets ?c = []")
    case True
    then show ?thesis using au_nets_Nil [of w] by (simp add: ip_gate_def)
  next
    case False
    then have "ip_gate ?c r \<longleftrightarrow> (\<exists>b. real_client_ip r = Some b \<and>
        (\<exists>n \<in> set (au_nets ?c). net_contains n b))"
      by (simp add: ip_gate_def list_ex_iff split: option.split)
    with False au_nets_Nil [of w] show ?thesis
      unfolding Bex_def au_nets_iff by blast
  qed
  show ?thesis
    unfolding enforce_applied [of decode, OF assms]
    using basic token ip by (auto simp: enforce_def)
qed

text \<open>
  An allow list whose entries are all private or not networks, with no credentials, opens
  the app. It is stored as no configuration, and every request passes.
\<close>

lemma unusable_allow_list_opens:
  assumes "decode (trim_space raw) = Inr w" and "wi_basic w = None" and "wi_token w = None"
    and "\<forall>s \<in> set (wi_allow w). case parse_cidr (host_route (trim_space s)) of
           None \<Rightarrow> True | Some n \<Rightarrow> private_net n"
  shows "apply_auth decode raw = Inr None \<and> enforce k (snd (apply_live decode raw live)) r = (True, 0, [])"
proof -
  have "au_nets (auth_of_wire w) = []"
    using assms(4) by (auto simp: au_nets_Nil usable_entry_def)
  then have "apply_auth decode raw = Inr None"
    using assms(1-3) by (auto simp: apply_auth_def auth_of_wire_def Let_def)
  then show ?thesis by (simp add: apply_live_def enforce_def)
qed

text \<open>Instances.\<close>

definition sample_request :: "string \<Rightarrow> http_request" where
  "sample_request xff =
     \<lparr>rq_header = (\<lambda>h. if h = ''X-Forwarded-For'' then xff else []), rq_remote_addr = ''10.0.0.9:80''\<rparr>"

lemma sample_hops: "hop_ip ''1.2.3.4'' = Some (v4_prefix @ [1, 2, 3, 4])"
  "hop_ip ''10.0.0.1'' = Some (v4_prefix @ [10, 0, 0, 1])"
  by (simp_all add: hop_ip_def parse_ip_def parse_addr_def parse_ipv4_def ipv4_field_def digit_value_def
      as16_def trim_space_def trim_left_def trim_right_def is_space_def)

theorem forwarded_address_not_spoofable_witness:
  "real_client_ip (sample_request ''8.8.8.8,1.2.3.4,10.0.0.1'') = Some (v4_prefix @ [1, 2, 3, 4])"
  by (rule forwarded_address_not_spoofable [where spoof = "''8.8.8.8''" and real = "''1.2.3.4''"
        and hops = "[''10.0.0.1'']"])
    (simp_all add: sample_request_def sample_hops internal_ip_def is_loopback_def is_private_def
      is_link_local_def to4_def v4_prefix_def byte_def)

definition sample_wire :: "string \<Rightarrow> wire" where
  "sample_wire cidr = \<lparr>wi_basic = None, wi_token = None, wi_allow = [cidr]\<rparr>"

definition sample_crypto :: auth_crypto where
  "sample_crypto = \<lparr>cr_bcrypt_ok = (=), cr_sha256_hex = id, cr_base64 = Some\<rparr>"

lemma sample_cidr: "parse_cidr (host_route (trim_space ''1.2.3.4'')) =
    Some \<lparr>net_ip = [1, 2, 3, 4], net_mask = [255, 255, 255, 255]\<rparr>"
  "parse_cidr (host_route (trim_space ''10.0.0.0/8'')) =
    Some \<lparr>net_ip = [10, 0, 0, 0], net_mask = [255, 0, 0, 0]\<rparr>"
  by (simp_all add: parse_cidr_def host_route_def parse_addr_def parse_ipv4_def ipv4_field_def
      digit_value_def mask_ip_def trim_space_def trim_left_def trim_right_def is_space_def
      eval_nat_numeral)

theorem applied_auth_is_enforced_witness:
  "enforce sample_crypto (snd (apply_live (\<lambda>_. Inr (sample_wire ''1.2.3.4'')) ''{}'' None))
     (sample_request ''5.6.7.8'') = (False, 403, []) \<and>
   fst (enforce sample_crypto (snd (apply_live (\<lambda>_. Inr (sample_wire ''1.2.3.4'')) ''{}'' None))
     (sample_request ''1.2.3.4''))"
proof -
  let ?d = "\<lambda>_ :: string. Inr (sample_wire ''1.2.3.4'') :: string + wire"
  let ?n = "\<lparr>net_ip = [1, 2, 3, 4], net_mask = [255, 255, 255, 255]\<rparr> :: ip_net"
  have raw: "trim_space ''{}'' \<noteq> []" "trim_space ''{}'' \<noteq> ''null''"
    by (simp_all add: trim_space_def trim_left_def trim_right_def is_space_def)
  have "\<not> is_unspecified (net_ip ?n)"
    by (simp add: is_unspecified_def v4_prefix_def numeral_eq_Suc)
  then have "\<not> private_net ?n" and "trim_space ''1.2.3.4'' \<noteq> []"
    by (simp_all add: private_net_def is_loopback_def is_private_def is_link_local_def to4_def v4_prefix_def byte_def trim_space_def trim_left_def trim_right_def is_space_def)
  then have usable: "usable_entry ''1.2.3.4'' n \<longleftrightarrow> n = ?n" for n
    using sample_cidr(1) by (auto simp only: usable_entry_def option.inject)
  have hop: "hop_ip ''5.6.7.8'' = Some (v4_prefix @ [5, 6, 7, 8])"
    by (simp add: hop_ip_def parse_ip_def parse_addr_def parse_ipv4_def ipv4_field_def digit_value_def
        as16_def trim_space_def trim_left_def trim_right_def is_space_def)
  have ips: "real_client_ip (sample_request ''5.6.7.8'') = Some (v4_prefix @ [5, 6, 7, 8])"
    "real_client_ip (sample_request ''1.2.3.4'') = Some (v4_prefix @ [1, 2, 3, 4])"
    by (simp_all add: real_client_ip_def sample_request_def forwarded_ip_def hop sample_hops
        internal_ip_def is_loopback_def is_private_def is_link_local_def to4_def v4_prefix_def byte_def)
  have inside: "\<not> net_contains ?n (v4_prefix @ [5, 6, 7, 8])" "net_contains ?n (v4_prefix @ [1, 2, 3, 4])"
    by (simp_all add: net_contains_def to4_def v4_prefix_def mask_ip_def)
  have w: "wi_basic (sample_wire x) = None" "wi_token (sample_wire x) = None" "wi_allow (sample_wire x) = [x]"
    for x by (simp_all add: sample_wire_def)
  note enf = applied_auth_is_enforced [where decode = ?d and raw = "''{}''" and k = sample_crypto
      and live = None, OF refl raw, unfolded w]
  have "enforce sample_crypto (snd (apply_live ?d ''{}'' None)) (sample_request ''5.6.7.8'') = (False, 403, [])"
    using conjunct2 [OF enf [where r = "sample_request ''5.6.7.8''"]]
    by (simp add: usable ips inside)
  moreover have "fst (enforce sample_crypto (snd (apply_live ?d ''{}'' None)) (sample_request ''1.2.3.4''))"
    using conjunct1 [OF enf [where r = "sample_request ''1.2.3.4''"]]
    by (simp add: usable ips inside)
  ultimately show ?thesis by blast
qed

lemma unusable_allow_list_opens_witness:
  "enforce sample_crypto (snd (apply_live (\<lambda>_. Inr (sample_wire ''10.0.0.0/8'')) ''{}'' None))
     (sample_request ''5.6.7.8'') = (True, 0, [])"
  by (rule conjunct2 [OF unusable_allow_list_opens [where w = "sample_wire ''10.0.0.0/8''"]])
    (simp_all add: sample_wire_def sample_cidr private_net_def is_private_def to4_def byte_def)

end
