(* ===== verification/Register.thy ===== *)
theory Register
  imports BootText AppAuth RunReport
begin

text \<open>
  \<^verbatim>\<open>internal/zibby/register.go\<close>: telling the control plane which port the installed app
  listens on, and applying the access configuration that comes back. The socket tables, the HTTP
  request and the JSON of the reply are parameters.
\<close>

subsection \<open>Which port\<close>

datatype port_error = NotAnInt string | OutOfRange int | NoListener

definition resolve_app_port :: "environ \<Rightarrow> string option list \<Rightarrow> int \<Rightarrow> port_error + int \<times> string" where
  "resolve_app_port env tables mcp_port =
     (let raw = trim_space (env ''AGENT_OPS_APP_PORT'')
      in if raw \<noteq> []
         then (case atoi raw of
                 None \<Rightarrow> Inl (NotAnInt raw)
               | Some n \<Rightarrow> if n \<le> 0 \<or> n > 65535 then Inl (OutOfRange n) else Inr (n, ''env''))
         else (case detect_app_port tables mcp_port of
                 None \<Rightarrow> Inl NoListener
               | Some p \<Rightarrow> Inr (p, ''proc-scan'')))"

subsection \<open>The request\<close>

text \<open>
  \<open>cp_post\<close> sends the port to a URL with a bearer token, and answers the failure or the status
  and the body; \<open>cp_reply_auth\<close> is the raw \<^verbatim>\<open>auth\<close> member of a reply, empty if it has
  none, and \<open>None\<close> if the reply does not decode.
\<close>

record 'w control_plane =
  cp_tables :: "'w \<Rightarrow> string option list"
  cp_post :: "string \<Rightarrow> string \<Rightarrow> int \<Rightarrow> 'w \<Rightarrow> (string + int \<times> string) \<times> 'w"
  cp_reply_auth :: "string \<Rightarrow> string option"
  cp_decode :: "string \<Rightarrow> string + wire"

definition reply_limit :: nat where
  "reply_limit = 4096"

definition apply_reply :: "'w control_plane \<Rightarrow> string \<Rightarrow> auth_config option \<Rightarrow> auth_config option" where
  "apply_reply cp rb live =
     (case cp_reply_auth cp rb of
        None \<Rightarrow> live
      | Some raw \<Rightarrow> if raw = [] \<or> raw = ''null'' then live else snd (apply_live (cp_decode cp) raw live))"

definition register_url :: "string \<Rightarrow> string \<Rightarrow> string" where
  "register_url base instance = base @ ''/apps/'' @ instance @ ''/register-port''"

definition register_port ::
  "'w control_plane \<Rightarrow> environ \<Rightarrow> int \<Rightarrow> auth_config option \<times> 'w \<Rightarrow> auth_config option \<times> 'w" where
  "register_port cp env mcp_port s =
     (case s of (live, w) \<Rightarrow>
        (let base = trim_right_slash (env ''ZIBBY_API_BASE_URL'');
             instance = env ''INSTANCE_ID'';
             token = env ''AGENT_OPS_TOKEN''
         in if base = [] \<or> instance = [] \<or> token = [] then (live, w)
            else case resolve_app_port env (cp_tables cp w) mcp_port of
                   Inl _ \<Rightarrow> (live, w)
                 | Inr (port, _) \<Rightarrow>
                     (case cp_post cp (register_url base instance) token port w of
                        (Inl _, w) \<Rightarrow> (live, w)
                      | (Inr (status, body), w) \<Rightarrow>
                          if status \<ge> 400 then (live, w)
                          else (apply_reply cp (take reply_limit body) live, w))))"

subsection \<open>Lemmas\<close>

lemma scan_port_lines_Some:
  "scan_port_lines skip ls = Some p \<Longrightarrow>
     p \<noteq> skip \<and> (\<exists>l \<in> set ls. Option.bind (listen_port_text l) port_of_text = Some p)"
  by (induction ls) (auto split: option.splits if_splits)

lemma detect_app_port_Some:
  "detect_app_port ts skip = Some p \<Longrightarrow>
     p \<noteq> skip \<and> (\<exists>t l. Some t \<in> set ts \<and> l \<in> set (drop 1 (split_on nl t)) \<and>
        Option.bind (listen_port_text l) port_of_text = Some p)"
proof (induction ts)
  case (Cons t ts)
  show ?case
  proof (cases "scan_listen_ports t skip")
    case None
    then show ?thesis using Cons by fastforce
  next
    case (Some q)
    then obtain s where t: "t = Some s" and "scan_port_lines skip (drop 1 (split_on nl s)) = Some p"
      using Cons.prems by (auto simp: scan_listen_ports_def split: option.splits)
    from scan_port_lines_Some [OF this(2)] t show ?thesis by auto
  qed
qed simp

text \<open>Whatever the request does to the outside, nothing else of it is touched.\<close>

lemma register_port_frame:
  assumes "\<And>u t p w. Q w \<Longrightarrow> Q (snd (cp_post cp u t p w))" and "Q w"
  shows "Q (snd (register_port cp env mcp (live, w)))"
proof -
  have "Q w'" if "cp_post cp u t p w = (r, w')" for u t p r w'
    using assms(1) [OF assms(2), of u t p] that by simp
  then show ?thesis
    using assms(2) by (auto simp: register_port_def Let_def split: sum.splits prod.splits)
qed

lemma register_port_accepted:
  assumes "trim_right_slash (env ''ZIBBY_API_BASE_URL'') = base" and "base \<noteq> []"
    and "env ''INSTANCE_ID'' \<noteq> []" and "env ''AGENT_OPS_TOKEN'' \<noteq> []"
    and "resolve_app_port env (cp_tables cp w) mcp = Inr (p, src)"
    and "cp_post cp (register_url base (env ''INSTANCE_ID'')) (env ''AGENT_OPS_TOKEN'') p w = (Inr (status, body), w')"
    and "status < 400"
  shows "register_port cp env mcp (live, w) = (apply_reply cp (take reply_limit body) live, w')"
  using assms by (simp add: register_port_def)

subsection \<open>Properties\<close>

text \<open>
  Which port is registered. A declared port is taken, whatever listens, exactly if it is a
  number from 1 to 65535; a bad declaration is never replaced by a scan. Without a declaration the
  port is one that a line of the socket tables shows listening, never the daemon's own, and there
  is none exactly if no other listener is there.
\<close>

lemma resolved_port_sound:
  "(resolve_app_port env tables mcp = Inr (p, ''env'') \<longleftrightarrow>
      atoi (trim_space (env ''AGENT_OPS_APP_PORT'')) = Some p \<and> 1 \<le> p \<and> p \<le> 65535) \<and>
   ((\<exists>q. resolve_app_port env tables mcp = Inr (q, ''proc-scan'')) \<longleftrightarrow>
      trim_space (env ''AGENT_OPS_APP_PORT'') = [] \<and> has_non_mcp_listener tables mcp) \<and>
   (resolve_app_port env tables mcp = Inr (p, ''proc-scan'') \<longrightarrow> p \<noteq> mcp \<and>
      (\<exists>t l. Some t \<in> set tables \<and> l \<in> set (drop 1 (split_on nl t)) \<and>
         Option.bind (listen_port_text l) port_of_text = Some p))"
proof (cases "trim_space (env ''AGENT_OPS_APP_PORT'') = []")
  case True
  have "atoi [] = None" by (simp add: atoi_def)
  with True show ?thesis
    using detect_app_port_None [of tables mcp] detect_app_port_Some [of tables mcp p]
    by (auto simp: resolve_app_port_def split: option.split)
next
  case False
  then show ?thesis by (auto simp: resolve_app_port_def Let_def split: option.splits if_splits)
qed

definition sample_table :: string where
  "sample_table = ''head'' @ [nl] @ ''0: 00000000:1622 00000000:0000 0A'' @ [nl]"

lemma sample_table_port: "resolve_app_port (\<lambda>_. []) [Some sample_table] 7842 = Inr (5666, ''proc-scan'')"
  by (simp add: resolve_app_port_def sample_table_def scan_listen_ports_def listen_port_text_def
      trim_space_def trim_left_def trim_right_def is_space_def str_fields_def port_of_text_def
      hex_value_def last_index_byte_def)

lemma resolved_port_sound_witness:
  "\<exists>t l. Some t \<in> set [Some sample_table] \<and> l \<in> set (drop 1 (split_on nl t)) \<and>
     Option.bind (listen_port_text l) port_of_text = Some 5666"
  using resolved_port_sound [of "\<lambda>_. []" "[Some sample_table]" 7842 5666] sample_table_port by blast

text \<open>
  A long reply changes nothing. The reply is cut at 4096 bytes before it is decoded, and the
  decoder accepts no document from which more than white space was cut off; so a reply that goes on
  after the limit leaves the access configuration as it was, whatever restriction the control plane
  sent, and no error is seen.
\<close>

lemma long_reply_keeps_old_auth:
  assumes "\<And>p q. cp_reply_auth cp (p @ q) \<noteq> None \<Longrightarrow> \<not> list_all is_space q \<Longrightarrow>
      cp_reply_auth cp p = None"
    and "\<And>u t p w. case fst (cp_post cp u t p w) of Inl _ \<Rightarrow> True
           | Inr (status, body) \<Rightarrow> \<not> list_all is_space (drop reply_limit body) \<and> cp_reply_auth cp body \<noteq> None"
  shows "fst (register_port cp env mcp (live, w)) = live"
proof -
  have "apply_reply cp (take reply_limit body) live = live"
    if "\<not> list_all is_space (drop reply_limit body)" "cp_reply_auth cp body \<noteq> None" for body
    using assms(1) [of "take reply_limit body" "drop reply_limit body"] that
    by (simp add: apply_reply_def)
  moreover have "\<not> list_all is_space (drop reply_limit body) \<and> cp_reply_auth cp body \<noteq> None"
    if "cp_post cp u t p w = (Inr (status, body), w')" for u t p w status body w'
    using assms(2) [of u t p w] that by simp
  ultimately show ?thesis
    by (auto simp: register_port_def Let_def split: sum.split prod.split)
qed

definition sample_plane :: "nat \<Rightarrow> unit control_plane" where
  "sample_plane n = \<lparr>cp_tables = (\<lambda>_. []),
     cp_post = (\<lambda>_ _ _ w. (Inr (200, replicate n (CHR ''x'')), w)),
     cp_reply_auth = (\<lambda>s. if length s = n then Some ''x'' else None),
     cp_decode = (\<lambda>_. Inr \<lparr>wi_basic = None, wi_token = Some ''t'', wi_allow = []\<rparr>)\<rparr>"

lemma long_reply_keeps_old_auth_witness:
  "fst (register_port (sample_plane 5000) (\<lambda>_. ''80'') 7842 (None, ())) = None"
proof (rule long_reply_keeps_old_auth)
  show "cp_reply_auth (sample_plane 5000) p = None"
    if "cp_reply_auth (sample_plane 5000) (p @ q) \<noteq> None" "\<not> list_all is_space q" for p q
    using that by (auto simp: sample_plane_def split: if_splits)
  show "case fst (cp_post (sample_plane 5000) u t p w) of Inl _ \<Rightarrow> True
      | Inr (status, body) \<Rightarrow> \<not> list_all is_space (drop reply_limit body) \<and>
        cp_reply_auth (sample_plane 5000) body \<noteq> None"
    for u t p w by (simp add: sample_plane_def reply_limit_def list_all_iff is_space_def)
qed

text \<open>The same plane with a reply that fits sets the token gate.\<close>

lemma short_reply_sets_auth:
  "fst (register_port (sample_plane 9) (\<lambda>_. ''80'') 7842 (None, ())) \<noteq> None"
  by (simp add: register_port_def sample_plane_def trim_right_slash_def resolve_app_port_def
      trim_space_def trim_left_def trim_right_def is_space_def atoi_def digit_value_def
      apply_reply_def reply_limit_def apply_live_def apply_auth_def auth_of_wire_def to_lower_def lower_char_def)

end
