(* ===== verification/Integrate.thy ===== *)
theory Integrate
  imports Config
begin

text \<open>
  \<^verbatim>\<open>internal/integrate/integrate.go\<close>: adding, removing and listing the MCP clients of the
  configuration file and their secrets in the environment file. Files are contents with a mode
  under a path; every system call can fail where the code handles its failure. The YAML codec,
  the cron parser, the iteration order of Go's maps and the names of temporary files are
  parameters.
\<close>

subsection \<open>The environment file\<close>

text \<open>The loop of \<^verbatim>\<open>validEnvKey\<close>; \<open>i\<close> is the index of the next byte.\<close>

fun env_key_from :: "nat \<Rightarrow> string \<Rightarrow> bool" where
  "env_key_from i [] = True"
| "env_key_from i (c # cs) =
     (let r = (of_char c :: nat)
      in if c = CHR ''_'' then env_key_from (Suc i) cs
         else if 65 \<le> r \<and> r \<le> 90 then env_key_from (Suc i) cs
         else if 97 \<le> r \<and> r \<le> 122 then env_key_from (Suc i) cs
         else if 48 \<le> r \<and> r \<le> 57 then (if i = 0 then False else env_key_from (Suc i) cs)
         else False)"

definition valid_env_key :: "string \<Rightarrow> bool" where
  "valid_env_key s = (if s = [] then False else env_key_from 0 s)"

definition env_line_key :: "string \<Rightarrow> string" where
  "env_line_key ln =
     (let s = trim_space ln
      in if s = [] \<or> prefix ''#'' s then []
         else case index_byte (CHR ''='') s of
           None \<Rightarrow> []
         | Some eq \<Rightarrow>
             if eq = 0 then []
             else (let key = trim_space (take eq s) in if valid_env_key key then key else []))"

text \<open>
  The first pass over the lines of the file: what is written, and the keys it replaced. A Go map
  \<open>m\<close> is a partial function; \<open>iter m\<close> lists its keys in the order of an iteration.
\<close>

type_synonym str_map = "string \<rightharpoonup> string"
type_synonym map_order = "str_map \<Rightarrow> string list"

definition assign_line :: "string \<Rightarrow> string \<Rightarrow> string" where
  "assign_line k v = k @ ''='' @ v"

fun rewrite_lines :: "str_map \<Rightarrow> string list \<Rightarrow> string list \<Rightarrow> string list \<times> string list" where
  "rewrite_lines st del [] = ([], [])"
| "rewrite_lines st del (ln # lns) =
     (let key = env_line_key ln; (out, seen) = rewrite_lines st del lns
      in if key = [] then (ln # out, seen)
         else if key \<in> set del then (out, seen)
         else case st key of
           Some v \<Rightarrow> (assign_line key v # out, key # seen)
         | None \<Rightarrow> (ln # out, seen))"

definition new_lines :: "str_map \<Rightarrow> string list \<Rightarrow> string list \<Rightarrow> string list" where
  "new_lines st seen ks =
     concat (map (\<lambda>k. if k \<in> set seen then []
                      else case st k of None \<Rightarrow> [] | Some v \<Rightarrow> [assign_line k v]) ks)"

definition blank_line :: "string \<Rightarrow> bool" where
  "blank_line l \<longleftrightarrow> trim_space l = []"

definition drop_trailing_blanks :: "string list \<Rightarrow> string list" where
  "drop_trailing_blanks ls = rev (dropWhile blank_line (rev ls))"

definition merged_lines :: "map_order \<Rightarrow> str_map \<Rightarrow> string list \<Rightarrow> string \<Rightarrow> string list" where
  "merged_lines iter st del old =
     (let (out, seen) = rewrite_lines st del (split_on nl old)
      in drop_trailing_blanks (out @ new_lines st seen (iter st)))"

definition merged_env :: "map_order \<Rightarrow> str_map \<Rightarrow> string list \<Rightarrow> string \<Rightarrow> string" where
  "merged_env iter st del old = join [nl] (merged_lines iter st del old) @ [nl]"

text \<open>The lines that set a key, and those that are comments or not understood.\<close>

definition env_lines :: "string \<Rightarrow> string \<Rightarrow> string list" where
  "env_lines k body = filter (\<lambda>l. env_line_key l = k) (split_on nl body)"

definition comment_lines :: "string \<Rightarrow> string list" where
  "comment_lines body = filter (\<lambda>l. env_line_key l = [] \<and> \<not> blank_line l) (split_on nl body)"

subsection \<open>Files\<close>

record disk_file =
  f_content :: string
  f_mode :: nat

text \<open>The permission bits 0600 and 0644.\<close>

abbreviation mode_private :: nat where "mode_private \<equiv> 384"
abbreviation mode_public :: nat where "mode_public \<equiv> 420"

type_synonym files = "string \<rightharpoonup> disk_file"

datatype file_op = MkdirAll | CreateTemp | WriteTemp | ChmodTemp | SyncTemp | CloseTemp | RenameTemp

text \<open>
  The system calls of \<^verbatim>\<open>writeFileAtomic\<close> in their order, each with its effect when it
  succeeds. \<open>fails op\<close> is the error of a call, and the calls after a failed one are not made;
  the deferred clean-up then removes the temporary file, unless that fails too
  (\<open>stuck\<close>).
\<close>

definition atomic_steps ::
  "string \<Rightarrow> string \<Rightarrow> string \<Rightarrow> nat \<Rightarrow> (file_op \<times> (files \<Rightarrow> files)) list" where
  "atomic_steps tmp path body md =
     [(MkdirAll, \<lambda>fs. fs),
      (CreateTemp, \<lambda>fs. fs(tmp \<mapsto> \<lparr>f_content = [], f_mode = mode_private\<rparr>)),
      (WriteTemp, \<lambda>fs. fs(tmp \<mapsto> \<lparr>f_content = body, f_mode = mode_private\<rparr>)),
      (ChmodTemp, \<lambda>fs. fs(tmp \<mapsto> \<lparr>f_content = body, f_mode = md\<rparr>)),
      (SyncTemp, \<lambda>fs. fs),
      (CloseTemp, \<lambda>fs. fs),
      (RenameTemp, \<lambda>fs. fs(path := fs tmp, tmp := None))]"

fun run_steps ::
  "(file_op \<Rightarrow> string option) \<Rightarrow> (file_op \<times> (files \<Rightarrow> files)) list \<Rightarrow> files \<Rightarrow> (file_op \<times> string) option \<times> files" where
  "run_steps fails [] fs = (None, fs)"
| "run_steps fails ((p, f) # ps) fs =
     (case fails p of Some e \<Rightarrow> (Some (p, e), fs) | None \<Rightarrow> run_steps fails ps (f fs))"

definition clean_temp :: "bool \<Rightarrow> string \<Rightarrow> files \<Rightarrow> files" where
  "clean_temp stuck tmp fs = (if stuck then fs else fs(tmp := None))"

definition write_file_atomic ::
  "(file_op \<Rightarrow> string option) \<Rightarrow> bool \<Rightarrow> string \<Rightarrow> string \<Rightarrow> string \<Rightarrow> nat \<Rightarrow> files
     \<Rightarrow> (file_op \<times> string) option \<times> files" where
  "write_file_atomic fails stuck tmp path body md fs =
     (case run_steps fails (atomic_steps tmp path body md) fs of
        (None, fs') \<Rightarrow> (None, fs')
      | (Some (p, e), fs') \<Rightarrow>
          (Some (p, e), if p = MkdirAll \<or> p = CreateTemp then fs' else clean_temp stuck tmp fs'))"

text \<open>
  \<^verbatim>\<open>os.WriteFile\<close> on an existing file keeps its mode. A failure is the error of opening the
  file, or of the write after the file was truncated, with some of the bytes written.
\<close>

datatype write_outcome = Written | OpenFailed | WriteFailed nat

definition write_file :: "write_outcome \<Rightarrow> string \<Rightarrow> string \<Rightarrow> nat \<Rightarrow> files \<Rightarrow> files" where
  "write_file w path body md fs =
     (let m = (case fs path of None \<Rightarrow> md | Some f \<Rightarrow> f_mode f)
      in case w of
           Written \<Rightarrow> fs(path \<mapsto> \<lparr>f_content = body, f_mode = m\<rparr>)
         | OpenFailed \<Rightarrow> fs
         | WriteFailed n \<Rightarrow> fs(path \<mapsto> \<lparr>f_content = take n body, f_mode = m\<rparr>))"

subsection \<open>The lock\<close>

text \<open>
  The attempts of \<^verbatim>\<open>lockConfig\<close>: what \<^verbatim>\<open>flock\<close> answers, and the time read after a busy
  answer. \<open>None\<close>: the attempts listed so far do not end the loop.
\<close>

datatype flock_answer = Acquired | WouldBlock | FlockError

fun await_lock :: "instant \<Rightarrow> (flock_answer \<times> instant) list \<Rightarrow> bool option" where
  "await_lock deadline [] = None"
| "await_lock deadline ((a, now) # rest) =
     (case a of
        Acquired \<Rightarrow> Some True
      | FlockError \<Rightarrow> Some True
      | WouldBlock \<Rightarrow> if deadline < now then Some False else await_lock deadline rest)"

subsection \<open>Options, arguments, results\<close>

record options =
  opt_config :: string
  opt_env :: string
  opt_lock_timeout :: duration

definition resolve_opts :: "options \<Rightarrow> options" where
  "resolve_opts o' = o'\<lparr>opt_config := or_default (opt_config o') ''/etc/agent-ops/config.yaml'',
     opt_env := or_default (opt_env o') ''/etc/agent-ops/agent-ops.env'',
     opt_lock_timeout := (if opt_lock_timeout o' = 0 then 10 * second else opt_lock_timeout o')\<rparr>"

record add_spec =
  as_name :: string
  as_transport :: string
  as_url :: string
  as_command :: string
  as_args :: "string list"
  as_auth_env :: string
  as_token :: string
  as_extra_env :: str_map
  as_stdio_env :: str_map

datatype integrate_error =
    NameRequired
  | UrlRequired
  | CommandRequired
  | BadTransport string
  | BadAuthEnv string
  | BadExtraKey string
  | BadStdioKey string
  | LockFailed string
  | LockTimeout
  | ConfigNotFound string
  | ReadConfigFailed string
  | ParseCurrent config_error
  | AlreadyExists string
  | NotFound string
  | MarshalFailed string
  | StepFailed file_op string
  | ReadEnvFailed string
  | EnvWriteFailed integrate_error

record add_result =
  ar_name :: string
  ar_restart :: bool
  ar_config :: string
  ar_env :: string

record remove_result =
  rr_name :: string
  rr_restart :: bool
  rr_config :: string
  rr_env :: string
  rr_auth_env :: string

definition first_bad_key :: "string list \<Rightarrow> string option" where
  "first_bad_key ks = find (\<lambda>k. \<not> valid_env_key k) ks"

definition validate_add :: "map_order \<Rightarrow> add_spec \<Rightarrow> integrate_error option" where
  "validate_add iter s =
     (let keys = (if as_auth_env s \<noteq> [] \<and> \<not> valid_env_key (as_auth_env s)
                  then Some (BadAuthEnv (as_auth_env s))
                  else case first_bad_key (iter (as_extra_env s)) of
                    Some k \<Rightarrow> Some (BadExtraKey k)
                  | None \<Rightarrow> map_option BadStdioKey (first_bad_key (iter (as_stdio_env s))))
      in if trim_space (as_name s) = [] then Some NameRequired
         else if as_transport s = ''http'' then
           (if trim_space (as_url s) = [] then Some UrlRequired else keys)
         else if as_transport s = ''stdio'' then
           (if trim_space (as_command s) = [] then Some CommandRequired else keys)
         else Some (BadTransport (as_transport s)))"

text \<open>
  One call of the package: how the lock is answered, which calls fail, and the codecs it uses.
  \<^verbatim>\<open>io_lock\<close> is \<open>None\<close> when the lock file cannot be opened, otherwise the answers of
  \<^verbatim>\<open>flock\<close> from the time \<^verbatim>\<open>io_now\<close> on.
\<close>

record codec =
  co_decode :: "string \<Rightarrow> string + config"
  co_encode :: "config \<Rightarrow> string + string"
  co_cron :: "string \<Rightarrow> string option"
  co_iter :: map_order

record io =
  io_environ :: environ
  io_lock_open :: "string option"
  io_now :: instant
  io_flock :: "(flock_answer \<times> instant) list"
  io_read_config :: "string option"
  io_read_env :: "string option"
  io_config_fails :: "file_op \<Rightarrow> string option"
  io_env_fails :: "file_op \<Rightarrow> string option"
  io_stuck :: bool
  io_tmp :: string
  io_rollback :: write_outcome

subsection \<open>The operations\<close>

definition lock_path :: "string \<Rightarrow> string" where
  "lock_path path = path @ ''.lock''"

definition create_lock :: "string \<Rightarrow> files \<Rightarrow> files" where
  "create_lock path fs =
     (case fs (lock_path path) of
        None \<Rightarrow> fs(lock_path path \<mapsto> \<lparr>f_content = [], f_mode = mode_public\<rparr>)
      | Some _ \<Rightarrow> fs)"

text \<open>\<open>None\<close>: still waiting; \<open>Some (Some e)\<close>: refused; \<open>Some None\<close>: the lock is held.\<close>

definition lock_config :: "io \<Rightarrow> options \<Rightarrow> files \<Rightarrow> (integrate_error option \<times> files) option" where
  "lock_config w opts fs =
     (case io_lock_open w of
        Some e \<Rightarrow> Some (Some (LockFailed e), fs)
      | None \<Rightarrow>
          map_option (\<lambda>got. (if got then None else Some LockTimeout, create_lock (opt_config opts) fs))
            (await_lock (io_now w + sint (opt_lock_timeout opts)) (io_flock w)))"

definition read_config :: "codec \<Rightarrow> io \<Rightarrow> string \<Rightarrow> files \<Rightarrow> integrate_error + (config \<times> string)" where
  "read_config co w path fs =
     (case io_read_config w of
        Some e \<Rightarrow> Inl (ReadConfigFailed e)
      | None \<Rightarrow>
          (case fs path of
             None \<Rightarrow> Inl (ConfigNotFound path)
           | Some f \<Rightarrow>
               (case parse_config (co_decode co) (co_cron co) (io_environ w) (f_content f) of
                  Inl e \<Rightarrow> Inl (ParseCurrent e)
                | Inr c \<Rightarrow> Inr (c, f_content f))))"

definition write_config_atomic ::
  "codec \<Rightarrow> io \<Rightarrow> string \<Rightarrow> config \<Rightarrow> files \<Rightarrow> integrate_error option \<times> files" where
  "write_config_atomic co w path c fs =
     (case co_encode co c of
        Inl e \<Rightarrow> (Some (MarshalFailed e), fs)
      | Inr body \<Rightarrow>
          (let (err, fs') = write_file_atomic (io_config_fails w) (io_stuck w) (io_tmp w) path body
             mode_public fs
           in (map_option (\<lambda>(p, e). StepFailed p e) err, fs')))"

definition merge_env_file ::
  "codec \<Rightarrow> io \<Rightarrow> string \<Rightarrow> str_map \<Rightarrow> string list \<Rightarrow> files \<Rightarrow> integrate_error option \<times> files" where
  "merge_env_file co w path st del fs =
     (case io_read_env w of
        Some e \<Rightarrow> (Some (ReadEnvFailed e), fs)
      | None \<Rightarrow>
          (let old = (case fs path of None \<Rightarrow> [] | Some f \<Rightarrow> f_content f);
               (err, fs') = write_file_atomic (io_env_fails w) (io_stuck w) (io_tmp w) path
                 (merged_env (co_iter co) st del old) mode_private fs
           in (map_option (\<lambda>(p, e). StepFailed p e) err, fs')))"

definition new_client_config :: "add_spec \<Rightarrow> mcp_client_config" where
  "new_client_config s = \<lparr>mc_name = as_name s, mc_transport = as_transport s, mc_url = as_url s,
     mc_command = as_command s, mc_args = as_args s, mc_auth_env = as_auth_env s,
     mc_env = as_stdio_env s\<rparr>"

definition env_pairs :: "add_spec \<Rightarrow> str_map" where
  "env_pairs s =
     (if as_auth_env s \<noteq> [] \<and> as_token s \<noteq> [] then (as_extra_env s)(as_auth_env s \<mapsto> as_token s)
      else as_extra_env s)"

definition add_locked ::
  "codec \<Rightarrow> io \<Rightarrow> add_spec \<Rightarrow> options \<Rightarrow> files \<Rightarrow> (integrate_error + add_result) \<times> files" where
  "add_locked co w s opts fs =
     (case read_config co w (opt_config opts) fs of
        Inl e \<Rightarrow> (Inl e, fs)
      | Inr (c, prev) \<Rightarrow>
          (if \<exists>m \<in> set (cfg_mcp_clients c). mc_name m = as_name s
           then (Inl (AlreadyExists (as_name s)), fs)
           else (let c' = c\<lparr>cfg_mcp_clients := cfg_mcp_clients c @ [new_client_config s]\<rparr>;
                     r = \<lparr>ar_name = as_name s, ar_restart = True, ar_config = opt_config opts,
                          ar_env = opt_env opts\<rparr>
                 in case write_config_atomic co w (opt_config opts) c' fs of
                      (Some e, fs1) \<Rightarrow> (Inl e, fs1)
                    | (None, fs1) \<Rightarrow>
                        if co_iter co (env_pairs s) = [] then (Inr r, fs1)
                        else case merge_env_file co w (opt_env opts) (env_pairs s) [] fs1 of
                          (None, fs2) \<Rightarrow> (Inr r, fs2)
                        | (Some e, fs2) \<Rightarrow>
                            (Inl (EnvWriteFailed e),
                             write_file (io_rollback w) (opt_config opts) prev mode_public fs2))))"

definition integrate_add ::
  "codec \<Rightarrow> io \<Rightarrow> add_spec \<Rightarrow> options \<Rightarrow> files \<Rightarrow> ((integrate_error + add_result) \<times> files) option" where
  "integrate_add co w s opts0 fs =
     (case validate_add (co_iter co) s of
        Some e \<Rightarrow> Some (Inl e, fs)
      | None \<Rightarrow>
          (let opts = resolve_opts opts0
           in case lock_config w opts fs of
                None \<Rightarrow> None
              | Some (Some e, fs') \<Rightarrow> Some (Inl e, fs')
              | Some (None, fs') \<Rightarrow> Some (add_locked co w s opts fs')))"

text \<open>
  \<^verbatim>\<open>Remove\<close> filters every entry of that name out of the list, and remembers the last one.
\<close>

definition remove_locked ::
  "codec \<Rightarrow> io \<Rightarrow> string \<Rightarrow> options \<Rightarrow> files \<Rightarrow> (integrate_error + remove_result) \<times> files" where
  "remove_locked co w name opts fs =
     (case read_config co w (opt_config opts) fs of
        Inl e \<Rightarrow> (Inl e, fs)
      | Inr (c, prev) \<Rightarrow>
          (case filter (\<lambda>m. mc_name m = name) (cfg_mcp_clients c) of
             [] \<Rightarrow> (Inl (NotFound name), fs)
           | m # ms \<Rightarrow>
               (let removed = last (m # ms);
                    c' = c\<lparr>cfg_mcp_clients := filter (\<lambda>m. mc_name m \<noteq> name) (cfg_mcp_clients c)\<rparr>;
                    r = \<lparr>rr_name = name, rr_restart = True, rr_config = opt_config opts,
                         rr_env = opt_env opts, rr_auth_env = mc_auth_env removed\<rparr>
                in case write_config_atomic co w (opt_config opts) c' fs of
                     (Some e, fs1) \<Rightarrow> (Inl e, fs1)
                   | (None, fs1) \<Rightarrow>
                       if mc_auth_env removed = [] then (Inr r, fs1)
                       else case merge_env_file co w (opt_env opts) Map.empty [mc_auth_env removed] fs1 of
                         (None, fs2) \<Rightarrow> (Inr r, fs2)
                       | (Some e, fs2) \<Rightarrow>
                           (Inl (EnvWriteFailed e),
                            write_file (io_rollback w) (opt_config opts) prev mode_public fs2))))"

definition integrate_remove ::
  "codec \<Rightarrow> io \<Rightarrow> string \<Rightarrow> options \<Rightarrow> files \<Rightarrow> ((integrate_error + remove_result) \<times> files) option" where
  "integrate_remove co w name opts0 fs =
     (if trim_space name = [] then Some (Inl NameRequired, fs)
      else (let opts = resolve_opts opts0
            in case lock_config w opts fs of
                 None \<Rightarrow> None
               | Some (Some e, fs') \<Rightarrow> Some (Inl e, fs')
               | Some (None, fs') \<Rightarrow> Some (remove_locked co w name opts fs')))"

text \<open>\<^verbatim>\<open>List\<close> takes no lock; a \<^verbatim>\<open>ListItem\<close> has the fields of the client.\<close>

definition integrate_list ::
  "codec \<Rightarrow> io \<Rightarrow> options \<Rightarrow> files \<Rightarrow> integrate_error + mcp_client_config list" where
  "integrate_list co w opts0 fs =
     map_sum id (\<lambda>(c, _). sort_key mc_name (cfg_mcp_clients c))
       (read_config co w (opt_config (resolve_opts opts0)) fs)"

subsection \<open>Keys and lines\<close>

lemma env_key_from_chars:
  "env_key_from i s \<Longrightarrow> c \<in> set s \<Longrightarrow> \<not> is_space c \<and> c \<noteq> CHR ''='' \<and> c \<noteq> CHR ''#''"
  by (induction i s rule: env_key_from.induct) (auto simp: Let_def is_space_def split: if_splits)

lemma valid_env_key_chars:
  "valid_env_key k \<Longrightarrow> c \<in> set k \<Longrightarrow> \<not> is_space c \<and> c \<noteq> CHR ''='' \<and> c \<noteq> CHR ''#''"
  by (auto simp: valid_env_key_def env_key_from_chars split: if_splits)

lemma valid_env_key_not_Nil: "valid_env_key k \<Longrightarrow> k \<noteq> []"
  by (auto simp: valid_env_key_def)

lemma nl_notin_key: "valid_env_key k \<Longrightarrow> nl \<notin> set k"
  using valid_env_key_chars [of k nl] by (auto simp: is_space_def)

lemma trim_right_append_stop:
  "\<not> is_space c \<Longrightarrow> trim_right (xs @ c # ys) = xs @ c # trim_right ys"
  by (simp add: trim_right_def dropWhile_append)

lemma env_line_key_valid: "env_line_key l = [] \<or> valid_env_key (env_line_key l)"
  by (simp add: env_line_key_def Let_def split: option.split)

lemma env_line_key_assign:
  assumes "valid_env_key k"
  shows "env_line_key (assign_line k v) = k"
proof -
  from assms obtain c cs where k: "k = c # cs" using valid_env_key_not_Nil by (cases k) auto
  note chars = valid_env_key_chars [OF assms]
  have hd: "\<not> is_space c" "c \<noteq> CHR ''#''" using chars [of c] k by auto
  have eq: "\<not> is_space (CHR ''='')" by (simp add: is_space_def)
  have trim: "trim_space (assign_line k v) = k @ CHR ''='' # trim_right v"
  proof -
    have "trim_left (assign_line k v) = assign_line k v"
      using hd by (intro trim_left_id) (simp add: assign_line_def k)
    then show ?thesis
      by (simp add: trim_space_def assign_line_def trim_right_append_stop [OF eq])
  qed
  have "CHR ''='' \<notin> set k" using chars by blast
  moreover have "trim_space k = k"
    using chars k by (intro trim_space_id) auto
  moreover have "\<not> prefix ''#'' (k @ CHR ''='' # trim_right v)" and "k \<noteq> []"
    using hd by (auto simp: k)
  ultimately show ?thesis
    using assms trim by (simp add: env_line_key_def Let_def)
qed

lemma env_line_key_blank: "blank_line l \<Longrightarrow> env_line_key l = []"
  by (simp add: blank_line_def env_line_key_def)

lemma filter_drop_trailing_blanks:
  assumes "\<And>l. blank_line l \<Longrightarrow> \<not> P l"
  shows "filter P (drop_trailing_blanks ls) = filter P ls"
proof -
  have "filter P (dropWhile blank_line xs) = filter P xs" for xs
    using assms by (induction xs) auto
  then show ?thesis
    by (simp add: drop_trailing_blanks_def flip: rev_filter)
qed

lemma set_drop_trailing_blanks: "set (drop_trailing_blanks ls) \<subseteq> set ls"
  using set_dropWhileD [of _ blank_line "rev ls"] by (auto simp: drop_trailing_blanks_def)

text \<open>Reading back the lines of a file that was written as lines.\<close>

lemma filter_split_join:
  assumes "\<And>l. l \<in> set ls \<Longrightarrow> nl \<notin> set l" and "\<not> P []"
  shows "filter P (split_on nl (join [nl] ls @ [nl])) = filter P ls"
proof (cases "ls = []")
  case True
  then show ?thesis using assms(2) by simp
next
  case False
  then have "split_on nl (join [nl] ls @ [nl]) = ls @ [[]]"
    using split_on_append_sep [of nl "join [nl] ls" "[]"] split_on_join [of ls nl] assms(1)
    by simp
  then show ?thesis using assms(2) by simp
qed

subsection \<open>What the merge writes\<close>

definition clean_map :: "str_map \<Rightarrow> bool" where
  "clean_map st \<longleftrightarrow> (\<forall>k v. st k = Some v \<longrightarrow> valid_env_key k \<and> nl \<notin> set v)"

definition good_order :: "map_order \<Rightarrow> str_map \<Rightarrow> bool" where
  "good_order iter m \<longleftrightarrow> distinct (iter m) \<and> set (iter m) = dom m"

text \<open>The lines of the first pass, and the keys that it replaced.\<close>

lemma rewrite_lines_keyed:
  assumes "clean_map st" and "k \<noteq> []"
  shows "filter (\<lambda>l. env_line_key l = k) (fst (rewrite_lines st del lns)) =
     (if k \<in> set del then []
      else case st k of None \<Rightarrow> filter (\<lambda>l. env_line_key l = k) lns
           | Some v \<Rightarrow> map (\<lambda>_. assign_line k v) (filter (\<lambda>l. env_line_key l = k) lns))"
  using assms
  by (induction lns)
    (auto simp: Let_def split_beta clean_map_def env_line_key_assign split: option.splits)

lemma rewrite_lines_seen:
  "k \<in> set (snd (rewrite_lines st del lns)) \<longleftrightarrow>
     k \<noteq> [] \<and> k \<notin> set del \<and> k \<in> dom st \<and> filter (\<lambda>l. env_line_key l = k) lns \<noteq> []"
  by (induction lns) (auto simp: Let_def split_beta split: option.splits)

lemma rewrite_lines_comments:
  assumes "clean_map st"
  shows "filter (\<lambda>l. env_line_key l = [] \<and> \<not> blank_line l) (fst (rewrite_lines st del lns)) =
     filter (\<lambda>l. env_line_key l = [] \<and> \<not> blank_line l) lns"
  using assms valid_env_key_not_Nil
  by (induction lns)
    (auto simp: Let_def split_beta clean_map_def env_line_key_assign split: option.splits)

lemma new_lines_keyed:
  assumes "clean_map st" and "distinct ks"
  shows "filter (\<lambda>l. env_line_key l = k) (new_lines st seen ks) =
     (if k \<in> set ks \<and> k \<notin> set seen then case st k of None \<Rightarrow> [] | Some v \<Rightarrow> [assign_line k v] else [])"
  using assms
  by (induction ks)
    (auto simp: new_lines_def clean_map_def env_line_key_assign split: option.splits)

lemma new_lines_comments:
  assumes "clean_map st"
  shows "filter (\<lambda>l. env_line_key l = [] \<and> \<not> blank_line l) (new_lines st seen ks) = []"
  using assms valid_env_key_not_Nil
  by (induction ks) (auto simp: new_lines_def clean_map_def env_line_key_assign split: option.splits)

lemma merged_lines_no_nl:
  assumes "clean_map st" and "l \<in> set (merged_lines iter st del old)"
  shows "nl \<notin> set l"
proof -
  have first: "l \<in> set (fst (rewrite_lines st del lns)) \<Longrightarrow> \<forall>x \<in> set lns. nl \<notin> set x \<Longrightarrow> nl \<notin> set l"
    for lns
    using assms(1)
    by (induction lns)
      (auto simp: Let_def split_beta clean_map_def assign_line_def nl_notin_key
        split: if_splits option.splits)
  have second: "nl \<notin> set l" if "l \<in> set (new_lines st seen ks)" for seen ks
  proof -
    have "\<exists>k v. st k = Some v \<and> l = assign_line k v"
      using that
      by (induction ks) (auto simp: new_lines_def split: if_splits option.splits intro: sym)
    then show ?thesis
      using assms(1) by (auto simp: clean_map_def assign_line_def nl_notin_key)
  qed
  show ?thesis
    using assms(2) first [of "split_on nl old"] second split_on_no_sep [of _ nl old]
      set_drop_trailing_blanks
    by (fastforce simp: merged_lines_def split_beta Let_def)
qed

lemma env_lines_merged:
  assumes "clean_map st" and "good_order iter st" and "k \<noteq> []"
  shows "env_lines k (merged_env iter st del old) =
     (case st k of
        None \<Rightarrow> if k \<in> set del then [] else env_lines k old
      | Some v \<Rightarrow> if k \<in> set del \<or> env_lines k old = [] then [assign_line k v]
                  else map (\<lambda>_. assign_line k v) (env_lines k old))"
proof -
  have "env_lines k (merged_env iter st del old) =
      filter (\<lambda>l. env_line_key l = k) (merged_lines iter st del old)"
    unfolding env_lines_def merged_env_def
    by (rule filter_split_join)
      (use assms merged_lines_no_nl in \<open>auto simp: env_line_key_def\<close>)
  also have "\<dots> = filter (\<lambda>l. env_line_key l = k)
      (fst (rewrite_lines st del (split_on nl old)) @
       new_lines st (snd (rewrite_lines st del (split_on nl old))) (iter st))"
    unfolding merged_lines_def split_beta Let_def
    by (rule filter_drop_trailing_blanks) (use assms(3) in \<open>auto simp: env_line_key_blank\<close>)
  finally show ?thesis
    using assms
    by (auto simp: rewrite_lines_keyed new_lines_keyed rewrite_lines_seen env_lines_def good_order_def
        split: option.splits)
qed

lemma comment_lines_merged:
  assumes "clean_map st"
  shows "comment_lines (merged_env iter st del old) = comment_lines old"
proof -
  let ?P = "\<lambda>l. env_line_key l = [] \<and> \<not> blank_line l"
  have "comment_lines (merged_env iter st del old) = filter ?P (merged_lines iter st del old)"
    unfolding comment_lines_def merged_env_def
    by (rule filter_split_join) (use assms merged_lines_no_nl in \<open>auto simp: blank_line_def\<close>)
  also have "\<dots> = filter ?P
      (fst (rewrite_lines st del (split_on nl old)) @
       new_lines st (snd (rewrite_lines st del (split_on nl old))) (iter st))"
    unfolding merged_lines_def split_beta Let_def
    by (rule filter_drop_trailing_blanks) simp
  finally show ?thesis
    using assms by (simp only: filter_append rewrite_lines_comments new_lines_comments comment_lines_def) simp
qed

subsection \<open>Atomic writes\<close>

text \<open>
  The states that a crash can leave: those after each prefix of the calls. The path holds its
  old file or the complete new one in each of them.
\<close>

lemma atomic_prefix:
  assumes "prefix ps (atomic_steps tmp path body md)" and "tmp \<noteq> path"
  shows "fold (\<lambda>(p, f) fs. f fs) ps fs path \<in> {fs path, Some \<lparr>f_content = body, f_mode = md\<rparr>}"
  using assms by (auto simp: atomic_steps_def prefix_Cons)

lemma write_file_atomic_path:
  assumes "tmp \<noteq> path"
  shows "snd (write_file_atomic fails stuck tmp path body md fs) path =
     (if fst (write_file_atomic fails stuck tmp path body md fs) = None
      then Some \<lparr>f_content = body, f_mode = md\<rparr> else fs path)"
  using assms
  by (auto simp: write_file_atomic_def atomic_steps_def clean_temp_def split: option.splits)

lemma write_file_atomic_other:
  assumes "p \<noteq> tmp" and "p \<noteq> path"
  shows "snd (write_file_atomic fails stuck tmp path body md fs) p = fs p"
  using assms
  by (auto simp: write_file_atomic_def atomic_steps_def clean_temp_def split: option.splits)

lemma write_file_atomic_ok:
  "fst (write_file_atomic (\<lambda>_. None) stuck tmp path body md fs) = None"
  by (simp add: write_file_atomic_def atomic_steps_def)

subsection \<open>The operations on the two files\<close>

definition separate_paths :: "io \<Rightarrow> options \<Rightarrow> bool" where
  "separate_paths w opts \<longleftrightarrow>
     (let o' = resolve_opts opts
      in opt_config o' \<noteq> opt_env o' \<and> io_tmp w \<notin> {opt_config o', opt_env o'} \<and>
         lock_path (opt_config o') \<noteq> opt_env o')"

definition codec_roundtrip :: "codec \<Rightarrow> bool" where
  "codec_roundtrip co \<longleftrightarrow> (\<forall>c b. co_encode co c = Inr b \<longrightarrow> co_decode co b = Inr c)"

definition file_text :: "files \<Rightarrow> string \<Rightarrow> string" where
  "file_text fs path = (case fs path of None \<Rightarrow> [] | Some f \<Rightarrow> f_content f)"

lemma create_lock_other: "p \<noteq> lock_path path \<Longrightarrow> create_lock path fs p = fs p"
  by (simp add: create_lock_def split: option.split)

lemma lock_path_neq [simp]: "lock_path p \<noteq> p" "p \<noteq> lock_path p"
  by (simp_all add: lock_path_def)

lemma write_config_atomic_Some:
  assumes "write_config_atomic co w path c fs = (Some e, fs')" and "io_tmp w \<noteq> path"
    and "p \<noteq> io_tmp w"
  shows "fs' p = fs p"
  using assms write_file_atomic_path [of "io_tmp w" path] write_file_atomic_other [of p "io_tmp w" path]
  by (cases "p = path") (force simp: write_config_atomic_def split_beta Let_def split: sum.splits)+

lemma write_config_atomic_None:
  assumes "write_config_atomic co w path c fs = (None, fs')" and "io_tmp w \<noteq> path"
  shows "\<exists>b. co_encode co c = Inr b \<and> fs' path = Some \<lparr>f_content = b, f_mode = mode_public\<rparr> \<and>
    (\<forall>p. p \<noteq> path \<and> p \<noteq> io_tmp w \<longrightarrow> fs' p = fs p)"
  using assms
  by (auto simp: write_config_atomic_def split_beta Let_def write_file_atomic_path
      write_file_atomic_other split: sum.splits)

lemma merge_env_file_Some:
  assumes "merge_env_file co w path st del fs = (Some e, fs')" and "io_tmp w \<noteq> path"
    and "p \<noteq> io_tmp w"
  shows "fs' p = fs p"
  using assms write_file_atomic_path [of "io_tmp w" path] write_file_atomic_other [of p "io_tmp w" path]
  by (cases "p = path") (force simp: merge_env_file_def split_beta Let_def split: option.splits)+

lemma merge_env_file_None:
  assumes "merge_env_file co w path st del fs = (None, fs')" and "io_tmp w \<noteq> path"
  shows "fs' path = Some \<lparr>f_content = merged_env (co_iter co) st del (file_text fs path),
      f_mode = mode_private\<rparr> \<and> (\<forall>p. p \<noteq> path \<and> p \<noteq> io_tmp w \<longrightarrow> fs' p = fs p)"
  using assms
  by (auto simp: merge_env_file_def split_beta Let_def file_text_def write_file_atomic_path
      write_file_atomic_other split: option.splits)

text \<open>A client that passes the checks of \<^verbatim>\<open>Add\<close> also passes those of the loader.\<close>

lemma validate_add_good: "validate_add iter s = None \<Longrightarrow> good_client (new_client_config s)"
  by (auto simp: validate_add_def good_client_def new_client_config_def Let_def split: if_splits)

lemma find_None_all: "find P xs = None \<longleftrightarrow> (\<forall>x \<in> set xs. \<not> P x)"
  by (induction xs) auto

lemma validate_add_keys:
  assumes "validate_add iter s = None" and "good_order iter (as_extra_env s)"
  shows "\<forall>k \<in> dom (env_pairs s). valid_env_key k"
proof -
  have "as_auth_env s \<noteq> [] \<longrightarrow> valid_env_key (as_auth_env s)"
    and "first_bad_key (iter (as_extra_env s)) = None"
    using assms(1) by (auto simp: validate_add_def Let_def split: if_splits option.splits)
  then show ?thesis
    using assms(2) by (auto simp: env_pairs_def first_bad_key_def find_None_all good_order_def)
qed

abbreviation parse_file :: "codec \<Rightarrow> io \<Rightarrow> files \<Rightarrow> string \<Rightarrow> config_error + config" where
  "parse_file co w fs path \<equiv> parse_config (co_decode co) (co_cron co) (io_environ w) (file_text fs path)"

lemma read_config_Inr:
  "read_config co w path fs = Inr (c, prev) \<Longrightarrow>
     parse_file co w fs path = Inr c \<and> prev = file_text fs path \<and> fs path \<noteq> None"
  by (auto simp: read_config_def file_text_def split: option.splits sum.splits)

definition with_clients :: "config \<Rightarrow> mcp_client_config list \<Rightarrow> config" where
  "with_clients c ms = c\<lparr>cfg_mcp_clients := ms\<rparr>"

text \<open>After a successful write of other clients the file parses to them.\<close>

lemma rewritten_config:
  assumes wr: "write_config_atomic co w path (c\<lparr>cfg_mcp_clients := ms\<rparr>) fs = (None, fsa)"
    and "codec_roundtrip co" and parsed: "parse_file co w fs path = Inr c"
    and good: "\<forall>m \<in> set ms. good_client m" "distinct (map mc_name ms)"
    and "io_tmp w \<noteq> path" and "fsb path = fsa path"
  shows "parse_file co w fsb path = Inr (with_clients c ms)"
proof -
  from write_config_atomic_None [OF wr] assms obtain b
    where dec: "co_decode co b = Inr (c\<lparr>cfg_mcp_clients := ms\<rparr>)" and "file_text fsb path = b"
    by (auto simp: codec_roundtrip_def file_text_def)
  with parse_config_rewritten [OF parsed dec good] show ?thesis by (simp add: with_clients_def)
qed

lemma add_locked_Inr:
  assumes run: "add_locked co w s opts fs = (Inr r, fs')"
    and paths: "opt_config opts \<noteq> opt_env opts" "io_tmp w \<noteq> opt_config opts" "io_tmp w \<noteq> opt_env opts"
    and ok: "codec_roundtrip co" "validate_add (co_iter co) s = None" "clean_map (env_pairs s)"
      "good_order (co_iter co) (env_pairs s)"
  shows "\<exists>c. parse_file co w fs (opt_config opts) = Inr c \<and> as_name s \<notin> mc_name ` set (cfg_mcp_clients c) \<and>
      parse_file co w fs' (opt_config opts) =
        Inr (with_clients c (cfg_mcp_clients c @ [new_client_config s])) \<and>
      (file_text fs' (opt_env opts) = file_text fs (opt_env opts) \<and> env_pairs s = Map.empty \<or>
       file_text fs' (opt_env opts) =
         merged_env (co_iter co) (env_pairs s) [] (file_text fs (opt_env opts)))"
proof -
  let ?path = "opt_config opts" and ?env = "opt_env opts"
  from run obtain c prev where rd: "read_config co w ?path fs = Inr (c, prev)"
    by (auto simp: add_locked_def split: sum.splits)
  note parsed = conjunct1 [OF read_config_Inr [OF rd]]
  let ?ms = "cfg_mcp_clients c @ [new_client_config s]"
  from run rd have fresh: "as_name s \<notin> mc_name ` set (cfg_mcp_clients c)"
    by (auto simp: add_locked_def split: if_splits)
  from run rd obtain fs1 where wr: "write_config_atomic co w ?path (c\<lparr>cfg_mcp_clients := ?ms\<rparr>) fs = (None, fs1)"
    and rest: "co_iter co (env_pairs s) = [] \<and> fs' = fs1 \<or>
      merge_env_file co w ?env (env_pairs s) [] fs1 = (None, fs')"
    by (auto simp: add_locked_def Let_def split: if_splits prod.splits option.splits)
  from write_config_atomic_None [OF wr] paths have env1: "fs1 ?env = fs ?env" by auto
  have path': "fs' ?path = fs1 ?path"
    using rest merge_env_file_None [of co w ?env] paths by metis
  have new: "parse_file co w fs' ?path = Inr (with_clients c ?ms)"
    by (rule rewritten_config [where c = c and ms = ?ms and path = ?path and fsa = fs1 and fsb = fs', OF wr ok(1) parsed _ _ paths(2) path'])
      (use parse_config_clients [OF parsed] validate_add_good [OF ok(2)] fresh
       in \<open>auto simp: new_client_config_def\<close>)
  have "file_text fs' ?env = file_text fs ?env \<and> env_pairs s = Map.empty \<or>
      file_text fs' ?env = merged_env (co_iter co) (env_pairs s) [] (file_text fs ?env)"
    using rest
  proof
    assume "co_iter co (env_pairs s) = [] \<and> fs' = fs1"
    then have "env_pairs s = Map.empty" and "fs' = fs1" using ok(4) dom_eq_empty_conv [of "env_pairs s"] by (simp_all add: good_order_def)
    then show ?thesis using env1 by (simp add: file_text_def)
  next
    assume "merge_env_file co w ?env (env_pairs s) [] fs1 = (None, fs')"
    from merge_env_file_None [OF this paths(3)] env1 show ?thesis by (simp add: file_text_def)
  qed
  with parsed fresh new show ?thesis by blast
qed

lemma remove_locked_Inr:
  assumes run: "remove_locked co w name opts fs = (Inr r, fs')"
    and paths: "opt_config opts \<noteq> opt_env opts" "io_tmp w \<noteq> opt_config opts" "io_tmp w \<noteq> opt_env opts"
    and ok: "codec_roundtrip co"
    and parsed: "parse_file co w fs (opt_config opts) = Inr c"
  shows "parse_file co w fs' (opt_config opts) =
        Inr (with_clients c (filter (\<lambda>m. mc_name m \<noteq> name) (cfg_mcp_clients c))) \<and>
      filter (\<lambda>m. mc_name m = name) (cfg_mcp_clients c) \<noteq> [] \<and>
      (let a = mc_auth_env (last (filter (\<lambda>m. mc_name m = name) (cfg_mcp_clients c)))
       in rr_auth_env r = a \<and>
          file_text fs' (opt_env opts) =
            (if a = [] then file_text fs (opt_env opts)
             else merged_env (co_iter co) Map.empty [a] (file_text fs (opt_env opts))))"
proof -
  let ?path = "opt_config opts" and ?env = "opt_env opts"
  let ?gone = "filter (\<lambda>m. mc_name m = name) (cfg_mcp_clients c)"
  let ?ms = "filter (\<lambda>m. mc_name m \<noteq> name) (cfg_mcp_clients c)"
  let ?a = "mc_auth_env (last ?gone)"
  from run obtain c1 prev where rd1: "read_config co w ?path fs = Inr (c1, prev)"
    by (auto simp: remove_locked_def split: sum.splits)
  with read_config_Inr [OF rd1] parsed have rd: "read_config co w ?path fs = Inr (c, prev)" by simp
  from run rd have some: "?gone \<noteq> []"
    by (auto simp: remove_locked_def split: list.splits)
  from run rd some obtain fs1 where wr: "write_config_atomic co w ?path (c\<lparr>cfg_mcp_clients := ?ms\<rparr>) fs = (None, fs1)"
    and rest: "?a = [] \<and> fs' = fs1 \<or>
      ?a \<noteq> [] \<and> merge_env_file co w ?env Map.empty [?a] fs1 = (None, fs')"
    and res: "rr_auth_env r = ?a"
    by (auto simp: remove_locked_def Let_def split: if_splits prod.splits option.splits list.splits)
  from write_config_atomic_None [OF wr] paths have env1: "fs1 ?env = fs ?env" by auto
  have path': "fs' ?path = fs1 ?path"
    using rest merge_env_file_None [of co w ?env] paths by metis
  have new: "parse_file co w fs' ?path = Inr (with_clients c ?ms)"
    by (rule rewritten_config [where c = c and ms = ?ms and path = ?path and fsa = fs1 and fsb = fs', OF wr ok parsed _ _ paths(2) path'])
      (use parse_config_clients [OF parsed] in \<open>auto simp: distinct_map_filter\<close>)
  have "file_text fs' ?env =
      (if ?a = [] then file_text fs ?env else merged_env (co_iter co) Map.empty [?a] (file_text fs ?env))"
    using rest
  proof
    assume "?a = [] \<and> fs' = fs1"
    then show ?thesis using env1 by (simp add: file_text_def)
  next
    assume m: "?a \<noteq> [] \<and> merge_env_file co w ?env Map.empty [?a] fs1 = (None, fs')"
    from merge_env_file_None [OF conjunct2 [OF m] paths(3)] env1 m show ?thesis
      by (simp add: file_text_def)
  qed
  with some new res show ?thesis by (simp add: Let_def)
qed

lemma add_locked_Inl:
  assumes run: "add_locked co w s opts fs = (Inl e, fs')"
    and paths: "opt_config opts \<noteq> opt_env opts" "io_tmp w \<noteq> opt_config opts" "io_tmp w \<noteq> opt_env opts"
    and "io_rollback w = Written"
  shows "file_text fs' (opt_config opts) = file_text fs (opt_config opts) \<and>
    fs' (opt_env opts) = fs (opt_env opts) \<and> (fs' (opt_config opts) = None \<longleftrightarrow> fs (opt_config opts) = None)"
proof (cases "fs' = fs")
  case False
  let ?path = "opt_config opts" and ?env = "opt_env opts"
  from run False obtain c prev where rd: "read_config co w ?path fs = Inr (c, prev)"
    by (auto simp: add_locked_def split: sum.splits)
  let ?c' = "c\<lparr>cfg_mcp_clients := cfg_mcp_clients c @ [new_client_config s]\<rparr>"
  from run rd False consider (config) e1 where "write_config_atomic co w ?path ?c' fs = (Some e1, fs')"
    | (env) fs1 fs2 e2 where "write_config_atomic co w ?path ?c' fs = (None, fs1)"
        "merge_env_file co w ?env (env_pairs s) [] fs1 = (Some e2, fs2)"
        "fs' = write_file Written ?path prev mode_public fs2"
    using assms(5)
    by (auto simp: add_locked_def Let_def split: if_splits prod.splits option.splits)
  then show ?thesis
  proof cases
    case config
    from write_config_atomic_Some [OF this paths(2)] paths show ?thesis by (simp add: file_text_def)
  next
    case env
    from write_config_atomic_None [OF env(1) paths(2)] merge_env_file_Some [OF env(2) paths(3)] paths
    have "fs2 ?env = fs ?env" by auto
    then show ?thesis
      using env(3) paths read_config_Inr [OF rd]
      by (auto simp: write_file_def file_text_def Let_def split: option.splits)
  qed
qed simp

abbreviation same_files :: "options \<Rightarrow> files \<Rightarrow> files \<Rightarrow> bool" where
  "same_files opts fs fs' \<equiv> fs' (opt_config (resolve_opts opts)) = fs (opt_config (resolve_opts opts)) \<and>
     fs' (opt_env (resolve_opts opts)) = fs (opt_env (resolve_opts opts))"

lemma create_lock_same:
  "separate_paths w opts \<Longrightarrow> same_files opts fs (create_lock (opt_config (resolve_opts opts)) fs)"
  by (auto simp: separate_paths_def Let_def create_lock_other)

lemma integrate_add_Some:
  assumes run: "integrate_add co w s opts fs = Some (res, fs')" and sep: "separate_paths w opts"
  shows "(\<exists>e. res = Inl e \<and> same_files opts fs fs') \<or>
    (\<exists>fs0. validate_add (co_iter co) s = None \<and> add_locked co w s (resolve_opts opts) fs0 = (res, fs') \<and>
       same_files opts fs fs0)"
proof -
  let ?fs0 = "create_lock (opt_config (resolve_opts opts)) fs"
  from run consider "\<exists>e. res = Inl e" "fs' = fs \<or> fs' = ?fs0"
    | "validate_add (co_iter co) s = None" "add_locked co w s (resolve_opts opts) ?fs0 = (res, fs')"
    by (auto simp: integrate_add_def lock_config_def Let_def split: option.splits if_splits)
  then show ?thesis
    using create_lock_same [OF sep] by cases blast+
qed

lemma integrate_remove_Inr:
  assumes run: "integrate_remove co w name opts fs = Some (Inr r, fs')" and sep: "separate_paths w opts"
  shows "\<exists>fs0. remove_locked co w name (resolve_opts opts) fs0 = (Inr r, fs') \<and> same_files opts fs fs0"
proof -
  from run have "remove_locked co w name (resolve_opts opts)
      (create_lock (opt_config (resolve_opts opts)) fs) = (Inr r, fs')"
    by (auto simp: integrate_remove_def lock_config_def Let_def split: option.splits if_splits)
  then show ?thesis using create_lock_same [OF sep] by blast
qed

text \<open>
  The lock loop ends: if the clock moves on by at least \<open>d\<close> between two attempts, then after
  enough attempts to pass the deadline the lock is held or refused.
\<close>

lemma await_lock_ends:
  assumes "\<And>i. i < length as \<Longrightarrow> start + int i * d \<le> snd (as ! i)"
    and "deadline < start + int (length as - 1) * d" and "as \<noteq> []"
  shows "await_lock deadline as \<noteq> None"
  using assms
proof (induction as arbitrary: start)
  case (Cons x xs)
  obtain a now where x: "x = (a, now)" by (cases x)
  show ?case
  proof (cases "xs = []")
    case True
    with Cons.prems(1) [of 0] Cons.prems(2) show ?thesis by (cases a) (auto simp: x)
  next
    case False
    have "await_lock deadline xs \<noteq> None"
    proof (rule Cons.IH [of "start + d"])
      show "start + d + int i * d \<le> snd (xs ! i)" if "i < length xs" for i
        using Cons.prems(1) [of "Suc i"] that by (simp add: algebra_simps)
      show "deadline < start + d + int (length xs - 1) * d"
        using Cons.prems(2) False by (simp add: of_nat_diff algebra_simps Suc_le_eq)
    qed (rule False)
    then show ?thesis by (cases a) (auto simp: x)
  qed
qed simp

subsection \<open>Properties\<close>

text \<open>
  What a merge does to the environment file. If the new values hold no newline, each key
  given has exactly its new value on every line that set it (or on one new line), each deleted
  key has no line, every other key keeps its lines in order, and so do the comments.
\<close>

lemma merge_env_effect:
  assumes "\<forall>k v. st k = Some v \<longrightarrow> valid_env_key k \<and> nl \<notin> set v" and "k \<noteq> []"
    and "distinct (iter st)" and "set (iter st) = dom st"
  shows "env_lines k (merged_env iter st del old) =
     (case st k of
        None \<Rightarrow> if k \<in> set del then [] else env_lines k old
      | Some v \<Rightarrow> if k \<in> set del \<or> env_lines k old = [] then [assign_line k v]
                  else map (\<lambda>_. assign_line k v) (env_lines k old)) \<and>
     comment_lines (merged_env iter st del old) = comment_lines old"
  using assms env_lines_merged [of st iter k del old] comment_lines_merged [of st iter del old]
  by (simp add: clean_map_def good_order_def)

lemma merge_env_effect_witness:
  "env_lines ''B'' (merged_env (\<lambda>_. [''A'']) [''A'' \<mapsto> ''1''] [] (''#c'' @ [nl] @ ''B=2'')) = [''B=2'']"
  using merge_env_effect [of "[''A'' \<mapsto> ''1'']" "''B''" "\<lambda>_. [''A'']" "[]" "''#c'' @ [nl] @ ''B=2''"]
  by (simp add: valid_env_key_def env_lines_def env_line_key_def trim_space_def trim_left_def
      trim_right_def is_space_def)

text \<open>A small instance.\<close>

definition sample_config :: config where
  "sample_config = \<lparr>cfg_state_dir = ''s'',
     cfg_agent = \<lparr>ac_provider = ''none'', ac_model = [], ac_api_key_env = [], ac_max_tool_calls = 25,
       ac_task_timeout = 15 * minute\<rparr>,
     cfg_schedules = [], cfg_bootstrap = None,
     cfg_mcp = \<lparr>mcp_listen_addr = '':7842'', mcp_token_env = ''T''\<rparr>, cfg_mcp_clients = []\<rparr>"

definition sample_spec :: add_spec where
  "sample_spec = \<lparr>as_name = ''z'', as_transport = ''http'', as_url = ''u'', as_command = [], as_args = [],
     as_auth_env = ''K'', as_token = ''t'', as_extra_env = Map.empty, as_stdio_env = Map.empty\<rparr>"

definition sample_added :: config where
  "sample_added = with_clients sample_config [new_client_config sample_spec]"

text \<open>A codec for these two configurations, and a map order for the maps that occur.\<close>

definition sample_codec :: codec where
  "sample_codec = \<lparr>
     co_decode = (\<lambda>b. if b = ''0'' then Inr sample_config else if b = ''1'' then Inr sample_added else Inl []),
     co_encode = (\<lambda>c. if c = sample_config then Inr ''0'' else if c = sample_added then Inr ''1'' else Inl []),
     co_cron = (\<lambda>_. None), co_iter = (\<lambda>m. if m ''K'' = None then [] else [''K''])\<rparr>"

definition sample_io :: io where
  "sample_io = \<lparr>io_environ = (\<lambda>_. []), io_lock_open = None, io_now = 0, io_flock = [(Acquired, 0)],
     io_read_config = None, io_read_env = None, io_config_fails = (\<lambda>_. None),
     io_env_fails = (\<lambda>_. None), io_stuck = False, io_tmp = ''t'', io_rollback = Written\<rparr>"

definition sample_opts :: options where
  "sample_opts = \<lparr>opt_config = ''c'', opt_env = ''e'', opt_lock_timeout = 0\<rparr>"

definition sample_files :: files where
  "sample_files = [''c'' \<mapsto> \<lparr>f_content = ''0'', f_mode = mode_public\<rparr>]"

lemmas sample_defs = sample_config_def sample_spec_def sample_added_def sample_codec_def sample_io_def
  sample_opts_def sample_files_def

text \<open>
  C21: removing what was added restores the configuration. After a successful \<^verbatim>\<open>Add\<close> the
  configuration file is loaded as before with the new client at the end, so an accepted
  \<^verbatim>\<open>Add\<close> never writes a file the daemon refuses; after a successful \<^verbatim>\<open>Remove\<close> of that
  client it is loaded as before the \<^verbatim>\<open>Add\<close>. In the environment file the \<^verbatim>\<open>Add\<close> sets
  every pair, and the \<^verbatim>\<open>Remove\<close> deletes the lines of the client's auth key, whoever wrote
  them, and leaves the other keys as the \<^verbatim>\<open>Add\<close> left them.
\<close>

theorem add_remove_roundtrip:
  assumes add: "integrate_add co w s opts fs = Some (Inr r, fs1)"
    and remove: "integrate_remove co w' (as_name s) opts fs1 = Some (Inr r', fs2)"
    and paths: "separate_paths w opts" "separate_paths w' opts"
    and same_environ: "io_environ w' = io_environ w"
    and codec: "codec_roundtrip co"
    and order: "good_order (co_iter co) (as_extra_env s)" "good_order (co_iter co) (env_pairs s)"
      "good_order (co_iter co) Map.empty"
    and no_newline: "\<forall>k v. env_pairs s k = Some v \<longrightarrow> nl \<notin> set v"
  shows "(\<exists>c. parse_file co w fs (opt_config (resolve_opts opts)) = Inr c \<and>
       parse_file co w fs1 (opt_config (resolve_opts opts)) =
         Inr (with_clients c (cfg_mcp_clients c @ [new_client_config s])) \<and>
       parse_file co w fs2 (opt_config (resolve_opts opts)) = Inr c) \<and>
    (\<forall>k. k \<noteq> [] \<longrightarrow>
       (case env_pairs s k of
          None \<Rightarrow> env_lines k (file_text fs1 (opt_env (resolve_opts opts))) =
                    env_lines k (file_text fs (opt_env (resolve_opts opts)))
        | Some v \<Rightarrow> env_lines k (file_text fs1 (opt_env (resolve_opts opts))) \<noteq> [] \<and>
            set (env_lines k (file_text fs1 (opt_env (resolve_opts opts)))) = {assign_line k v}) \<and>
       env_lines k (file_text fs2 (opt_env (resolve_opts opts))) =
         (if k = as_auth_env s then [] else env_lines k (file_text fs1 (opt_env (resolve_opts opts)))))"
proof -
  let ?o = "resolve_opts opts"
  let ?env = "\<lambda>fs. file_text fs (opt_env ?o)"
  have sep: "opt_config ?o \<noteq> opt_env ?o" "io_tmp w \<noteq> opt_config ?o" "io_tmp w \<noteq> opt_env ?o"
    "io_tmp w' \<noteq> opt_config ?o" "io_tmp w' \<noteq> opt_env ?o"
    using paths by (auto simp: separate_paths_def Let_def)
  from integrate_add_Some [OF add paths(1)] obtain fs0
    where valid: "validate_add (co_iter co) s = None"
      and run: "add_locked co w s ?o fs0 = (Inr r, fs1)" and fs0: "same_files opts fs fs0"
    by auto
  have clean: "clean_map (env_pairs s)"
    using validate_add_keys [OF valid order(1)] no_newline by (auto simp: clean_map_def)
  from add_locked_Inr [OF run sep(1-3) codec valid clean order(2)] fs0 obtain c
    where c: "parse_file co w fs (opt_config ?o) = Inr c"
      and fresh: "as_name s \<notin> mc_name ` set (cfg_mcp_clients c)"
      and c1: "parse_file co w fs1 (opt_config ?o) =
        Inr (with_clients c (cfg_mcp_clients c @ [new_client_config s]))"
      and env1: "?env fs1 = ?env fs \<and> env_pairs s = Map.empty \<or>
        ?env fs1 = merged_env (co_iter co) (env_pairs s) [] (?env fs)"
    by (auto simp: file_text_def)
  from integrate_remove_Inr [OF remove paths(2)] obtain fs3
    where run': "remove_locked co w' (as_name s) ?o fs3 = (Inr r', fs2)" and fs3: "same_files opts fs1 fs3"
    by blast
  let ?c1 = "with_clients c (cfg_mcp_clients c @ [new_client_config s])"
  have gone: "filter (\<lambda>m. mc_name m = as_name s) (cfg_mcp_clients ?c1) = [new_client_config s]"
    and kept: "filter (\<lambda>m. mc_name m \<noteq> as_name s) (cfg_mcp_clients ?c1) = cfg_mcp_clients c"
    using fresh
    by (auto simp: with_clients_def new_client_config_def filter_empty_conv filter_id_conv image_iff
        eq_commute [of "mc_name _"])
  have "parse_file co w' fs3 (opt_config ?o) = Inr ?c1"
    using c1 fs3 same_environ by (simp add: file_text_def)
  note removed = remove_locked_Inr [OF run' sep(1,4,5) codec this, unfolded gone kept]
  have c2: "parse_file co w fs2 (opt_config ?o) = Inr c"
    using removed same_environ by (simp add: with_clients_def)
  have env2: "?env fs2 = (if as_auth_env s = [] then ?env fs1
      else merged_env (co_iter co) Map.empty [as_auth_env s] (?env fs1))"
    using removed fs3 by (simp add: Let_def new_client_config_def file_text_def)
  have "env_lines k (?env fs2) = (if k = as_auth_env s then [] else env_lines k (?env fs1))"
    if "k \<noteq> []" for k
    using env2 that env_lines_merged [of Map.empty "co_iter co" k "[as_auth_env s]" "?env fs1"] order(3)
    by (auto simp: clean_map_def split: if_splits)
  moreover have "case env_pairs s k of
        None \<Rightarrow> env_lines k (?env fs1) = env_lines k (?env fs)
      | Some v \<Rightarrow> env_lines k (?env fs1) \<noteq> [] \<and> set (env_lines k (?env fs1)) = {assign_line k v}"
    if "k \<noteq> []" for k
    using env1 that env_lines_merged [OF clean order(2) that, of "[]" "?env fs"]
    by (auto simp: image_constant_conv split: option.splits if_splits)
  ultimately show ?thesis using c c1 c2 by blast
qed

text \<open>
  C36: a failed \<^verbatim>\<open>Add\<close> leaves no trace. Whatever step fails, if the roll-back itself can be
  written, the configuration file has its old contents and the environment file is untouched.
\<close>

theorem failed_add_rolls_back:
  assumes "integrate_add co w s opts fs = Some (Inl e, fs')" and "separate_paths w opts"
    and "io_rollback w = Written"
  shows "file_text fs' (opt_config (resolve_opts opts)) = file_text fs (opt_config (resolve_opts opts)) \<and>
    (fs' (opt_config (resolve_opts opts)) = None \<longleftrightarrow> fs (opt_config (resolve_opts opts)) = None) \<and>
    fs' (opt_env (resolve_opts opts)) = fs (opt_env (resolve_opts opts))"
proof -
  have sep: "opt_config (resolve_opts opts) \<noteq> opt_env (resolve_opts opts)"
    "io_tmp w \<noteq> opt_config (resolve_opts opts)" "io_tmp w \<noteq> opt_env (resolve_opts opts)"
    using assms(2) by (auto simp: separate_paths_def Let_def)
  from integrate_add_Some [OF assms(1,2)] consider "same_files opts fs fs'"
    | fs0 where "add_locked co w s (resolve_opts opts) fs0 = (Inl e, fs')" "same_files opts fs fs0"
    by blast
  then show ?thesis
  proof cases
    case (2 fs0)
    from add_locked_Inl [OF 2(1) sep assms(3)] 2(2) show ?thesis by (simp add: file_text_def)
  qed (simp add: file_text_def)
qed

lemma sample_loads: "parse_config (co_decode sample_codec) (co_cron sample_codec) (\<lambda>_. []) ''0'' = Inr sample_config"
  by (simp add: parse_config_def sample_codec_def sample_config_def validate_def apply_defaults_def
      override_provider_def override_bootstrap_prompt_def override_bootstrap_model_def
      override_max_turns_def override_timeout_ms_def override_health_prompt_def default_fields_def
      default_agent_def or_default_def env_value_def check_agent_def valid_providers_def)

lemma sample_loads_added:
  "parse_config (co_decode sample_codec) (co_cron sample_codec) (\<lambda>_. []) ''1'' = Inr sample_added"
  unfolding sample_added_def with_clients_def
  by (rule parse_config_rewritten [OF sample_loads])
    (simp_all add: sample_defs with_clients_def new_client_config_def good_client_def
      trim_space_def trim_left_def trim_right_def is_space_def)

definition sample_files_added :: files where
  "sample_files_added = [''c'' \<mapsto> \<lparr>f_content = ''1'', f_mode = mode_public\<rparr>,
     ''c.lock'' \<mapsto> \<lparr>f_content = [], f_mode = mode_public\<rparr>,
     ''e'' \<mapsto> \<lparr>f_content = nl # ''K=t'' @ [nl], f_mode = mode_private\<rparr>]"

lemma sample_added_neq: "sample_added \<noteq> sample_config"
  by (simp add: sample_added_def with_clients_def sample_config_def)

lemma sample_opts_resolved:
  "resolve_opts sample_opts = \<lparr>opt_config = ''c'', opt_env = ''e'', opt_lock_timeout = 10 * second\<rparr>"
  by (simp add: resolve_opts_def sample_opts_def or_default_def)

lemma sample_spec_valid: "validate_add (co_iter sample_codec) sample_spec = None"
  by (simp add: validate_add_def sample_defs trim_space_def trim_left_def trim_right_def is_space_def
      first_bad_key_def valid_env_key_def)

lemma sample_pairs: "env_pairs sample_spec = [''K'' \<mapsto> ''t'']"
  by (simp add: env_pairs_def sample_spec_def)

lemma sample_write_config:
  assumes "io_config_fails w = (\<lambda>_. None)" and "io_tmp w = ''t''"
  shows "write_config_atomic sample_codec w ''c'' sample_added fs =
    (None, fs(''c'' \<mapsto> \<lparr>f_content = ''1'', f_mode = mode_public\<rparr>, ''t'' := None))"
  using assms sample_added_neq
  by (simp add: write_config_atomic_def write_file_atomic_def atomic_steps_def sample_codec_def
      fun_eq_iff Let_def)

lemma sample_add_locked:
  assumes "io_environ w = (\<lambda>_. [])" and "io_read_config w = None"
    and "io_config_fails w = (\<lambda>_. None)" and "io_tmp w = ''t''"
    and "fs ''c'' = Some \<lparr>f_content = ''0'', f_mode = mode_public\<rparr>"
  shows "add_locked sample_codec w sample_spec (resolve_opts sample_opts) fs =
    (case merge_env_file sample_codec w ''e'' [''K'' \<mapsto> ''t''] []
        (fs(''c'' \<mapsto> \<lparr>f_content = ''1'', f_mode = mode_public\<rparr>, ''t'' := None)) of
       (None, fs2) \<Rightarrow> (Inr \<lparr>ar_name = ''z'', ar_restart = True, ar_config = ''c'', ar_env = ''e''\<rparr>, fs2)
     | (Some e, fs2) \<Rightarrow>
         (Inl (EnvWriteFailed e), write_file (io_rollback w) ''c'' ''0'' mode_public fs2))"
proof -
  have read: "read_config sample_codec w ''c'' fs = Inr (sample_config, ''0'')"
    using sample_loads assms by (simp add: read_config_def)
  have sel: "cfg_mcp_clients sample_config = []" "as_name sample_spec = ''z''"
    "co_iter sample_codec [''K'' \<mapsto> ''t''] = [''K'']"
    "sample_config\<lparr>cfg_mcp_clients := [new_client_config sample_spec]\<rparr> = sample_added"
    by (simp_all add: sample_config_def sample_spec_def sample_codec_def sample_added_def with_clients_def)
  show ?thesis
    by (simp add: add_locked_def sample_opts_resolved read sel sample_pairs Let_def
        sample_write_config [OF assms(3,4)] split: prod.split option.split)
qed

lemma sample_lock:
  assumes "io_lock_open w = None" and "io_flock w = [(Acquired, 0)]"
  shows "lock_config w (resolve_opts sample_opts) sample_files =
    Some (None, sample_files(''c.lock'' \<mapsto> \<lparr>f_content = [], f_mode = mode_public\<rparr>))"
  using assms
  by (simp add: lock_config_def sample_opts_resolved create_lock_def lock_path_def sample_files_def)

lemma sample_merge:
  assumes "fs ''e'' = None"
  shows "merge_env_file sample_codec sample_io ''e'' [''K'' \<mapsto> ''t''] [] fs =
    (None, fs(''e'' \<mapsto> \<lparr>f_content = nl # ''K=t'' @ [nl], f_mode = mode_private\<rparr>, ''t'' := None))"
proof -
  have "merged_env (co_iter sample_codec) [''K'' \<mapsto> ''t''] [] [] = nl # ''K=t'' @ [nl]"
    by (simp add: merged_env_def merged_lines_def sample_codec_def new_lines_def env_line_key_def
        drop_trailing_blanks_def blank_line_def trim_space_def trim_left_def trim_right_def is_space_def
        assign_line_def)
  then show ?thesis
    using assms
    by (simp add: merge_env_file_def write_file_atomic_def atomic_steps_def sample_io_def fun_eq_iff Let_def)
qed

lemma sample_add_runs:
  "integrate_add sample_codec sample_io sample_spec sample_opts sample_files =
     Some (Inr \<lparr>ar_name = ''z'', ar_restart = True, ar_config = ''c'', ar_env = ''e''\<rparr>, sample_files_added)"
proof -
  let ?fs = "sample_files(''c.lock'' \<mapsto> \<lparr>f_content = [], f_mode = mode_public\<rparr>)"
  have lock: "lock_config sample_io (resolve_opts sample_opts) sample_files = Some (None, ?fs)"
    by (rule sample_lock) (simp_all add: sample_io_def)
  have "add_locked sample_codec sample_io sample_spec (resolve_opts sample_opts) ?fs =
      (Inr \<lparr>ar_name = ''z'', ar_restart = True, ar_config = ''c'', ar_env = ''e''\<rparr>, sample_files_added)"
  proof (subst sample_add_locked)
    show "io_environ sample_io = (\<lambda>_. [])" and "io_read_config sample_io = None"
      and "io_config_fails sample_io = (\<lambda>_. None)" and "io_tmp sample_io = ''t''"
      by (simp_all add: sample_io_def)
  qed (simp_all add: sample_merge sample_files_def sample_files_added_def fun_eq_iff)
  then show ?thesis by (simp add: integrate_add_def sample_spec_valid lock)
qed

theorem failed_add_rolls_back_witness:
  "file_text (snd (the (integrate_add sample_codec (sample_io\<lparr>io_read_env := Some ''EIO''\<rparr>) sample_spec
     sample_opts sample_files))) ''c'' = ''0''"
proof -
  let ?w = "sample_io\<lparr>io_read_env := Some ''EIO''\<rparr>"
  let ?fs = "sample_files(''c.lock'' \<mapsto> \<lparr>f_content = [], f_mode = mode_public\<rparr>)"
  have lock: "lock_config ?w (resolve_opts sample_opts) sample_files = Some (None, ?fs)"
    by (rule sample_lock) (simp_all add: sample_io_def)
  have "fst (add_locked sample_codec ?w sample_spec (resolve_opts sample_opts) ?fs) =
      Inl (EnvWriteFailed (ReadEnvFailed ''EIO''))"
    by (subst sample_add_locked) (simp_all add: merge_env_file_def sample_io_def sample_files_def)
  then obtain fs' where run: "integrate_add sample_codec ?w sample_spec sample_opts sample_files =
      Some (Inl (EnvWriteFailed (ReadEnvFailed ''EIO'')), fs')"
    by (cases "add_locked sample_codec ?w sample_spec (resolve_opts sample_opts) ?fs")
      (simp add: integrate_add_def sample_spec_valid lock)
  have "separate_paths ?w sample_opts" and "io_rollback ?w = Written"
    by (simp_all add: separate_paths_def sample_opts_resolved sample_io_def lock_path_def)
  from failed_add_rolls_back [OF run this] have "file_text fs' ''c'' = file_text sample_files ''c''"
    by (simp add: sample_opts_resolved)
  also have "\<dots> = ''0''" by (simp add: file_text_def sample_files_def)
  finally show ?thesis by (simp only: run option.sel prod.sel)
qed

text \<open>Removing the sample client again.\<close>

lemma sample_remove_runs:
  "\<exists>r fs2. integrate_remove sample_codec sample_io ''z'' sample_opts sample_files_added = Some (Inr r, fs2)"
proof -
  have lock: "lock_config sample_io (resolve_opts sample_opts) sample_files_added =
      Some (None, sample_files_added)"
    by (simp add: lock_config_def sample_io_def sample_opts_resolved create_lock_def lock_path_def
        sample_files_added_def)
  have read: "read_config sample_codec sample_io ''c'' sample_files_added = Inr (sample_added, ''1'')"
    using sample_loads_added by (simp add: read_config_def sample_io_def sample_files_added_def)
  have sel: "cfg_mcp_clients sample_added = [new_client_config sample_spec]"
    "mc_name (new_client_config sample_spec) = ''z''" "mc_auth_env (new_client_config sample_spec) = ''K''"
    "sample_added\<lparr>cfg_mcp_clients := []\<rparr> = sample_config"
    "co_encode sample_codec sample_config = Inr ''0''"
    by (simp_all add: sample_added_def with_clients_def new_client_config_def sample_spec_def
        sample_config_def sample_codec_def)
  have ok: "fst (write_config_atomic sample_codec sample_io ''c'' sample_config fs) = None"
    "fst (merge_env_file sample_codec sample_io ''e'' st del fs) = None" for fs st del
    using sel(5)
    by (simp_all add: write_config_atomic_def merge_env_file_def write_file_atomic_ok sample_io_def
        split_beta Let_def)
  obtain fs1 fs2
    where w: "write_config_atomic sample_codec sample_io ''c'' sample_config sample_files_added = (None, fs1)"
      and m: "merge_env_file sample_codec sample_io ''e'' Map.empty [''K''] fs1 = (None, fs2)"
    using ok by (metis prod.collapse)
  have "\<exists>r. remove_locked sample_codec sample_io ''z'' (resolve_opts sample_opts) sample_files_added = (Inr r, fs2)"
    by (simp add: remove_locked_def sample_opts_resolved read sel w m Let_def)
  moreover have "trim_space ''z'' \<noteq> []"
    by (simp add: trim_space_def trim_left_def trim_right_def is_space_def)
  ultimately show ?thesis by (auto simp: integrate_remove_def lock)
qed

theorem add_remove_roundtrip_witness:
  "\<exists>r fs2. integrate_remove sample_codec sample_io ''z'' sample_opts sample_files_added = Some (Inr r, fs2) \<and>
     parse_file sample_codec sample_io fs2 ''c'' = Inr sample_config \<and>
     env_lines ''K'' (file_text fs2 ''e'') = []"
proof -
  obtain r fs2 where rm: "integrate_remove sample_codec sample_io (as_name sample_spec) sample_opts
      sample_files_added = Some (Inr r, fs2)"
    using sample_remove_runs by (auto simp: sample_spec_def)
  have paths: "separate_paths sample_io sample_opts"
    by (simp add: separate_paths_def sample_opts_resolved sample_io_def lock_path_def)
  have codec: "codec_roundtrip sample_codec"
    using sample_added_neq by (auto simp: codec_roundtrip_def sample_codec_def split: if_splits)
  have order: "good_order (co_iter sample_codec) m" if "dom m \<subseteq> {''K''}" for m
    using that by (auto simp: good_order_def sample_codec_def)
  have extra: "as_extra_env sample_spec = Map.empty" and auth: "as_auth_env sample_spec = ''K''"
    by (simp_all add: sample_spec_def)
  have no_nl: "\<forall>k v. env_pairs sample_spec k = Some v \<longrightarrow> nl \<notin> set v"
    by (simp add: sample_pairs)
  have orders: "good_order (co_iter sample_codec) (as_extra_env sample_spec)"
    "good_order (co_iter sample_codec) (env_pairs sample_spec)" "good_order (co_iter sample_codec) Map.empty"
    by (rule order; simp add: extra sample_pairs)+
  note round = add_remove_roundtrip [OF sample_add_runs rm paths paths refl codec orders no_nl,
      unfolded auth sample_opts_resolved options.simps]
  have "\<exists>c. parse_file sample_codec sample_io sample_files ''c'' = Inr c \<and>
        parse_file sample_codec sample_io fs2 ''c'' = Inr c"
    using conjunct1 [OF round] by blast
  moreover have "env_lines ''K'' (file_text fs2 ''e'') = []"
    using spec [OF conjunct2 [OF round], of "''K''"] by simp
  moreover have "parse_file sample_codec sample_io sample_files ''c'' = Inr sample_config"
    using sample_loads by (simp add: file_text_def sample_files_def sample_io_def)
  ultimately show ?thesis using rm by (auto simp: sample_spec_def)
qed

end
