(* ===== verification/Cheatsheet.thy ===== *)
theory Cheatsheet
  imports Integrate
begin

text \<open>
  \<^verbatim>\<open>internal/bootstrap/cheatsheet.go\<close> up to its prompts: decoding and defaults of a
  cheatsheet, the sort of its environment keys, and the two prompts. The JSON decoder and the
  floating-point budget are parameters.
\<close>

subsection \<open>The cheatsheet\<close>

record pitfall =
  pf_symptom :: string
  pf_fix :: string

record 'b cheatsheet =
  cs_image :: string
  cs_steps :: "string list"
  cs_start :: string
  cs_port :: int
  cs_env :: str_map
  cs_pitfalls :: "pitfall list"
  cs_max_turns :: int
  cs_budget :: 'b

text \<open>
  What the code does with its floating-point dollars: the test \<^verbatim>\<open><= 0\<close>, the default of 0.50,
  the comparison of a cost in micro-dollars with a budget, and the texts with four decimals.
\<close>

record 'b dollars =
  dl_not_positive :: "'b \<Rightarrow> bool"
  dl_default :: 'b
  dl_overrun :: "int \<Rightarrow> 'b \<Rightarrow> bool"
  dl_cost_text :: "int \<Rightarrow> string"
  dl_budget_text :: "'b \<Rightarrow> string"

definition cheatsheet_defaults :: "'b dollars \<Rightarrow> 'b cheatsheet \<Rightarrow> 'b cheatsheet" where
  "cheatsheet_defaults dl c =
     (let c = (if cs_max_turns c \<le> 0 then c\<lparr>cs_max_turns := 50\<rparr> else c)
      in if dl_not_positive dl (cs_budget c) then c\<lparr>cs_budget := dl_default dl\<rparr> else c)"

definition parse_cheatsheet ::
  "'b dollars \<Rightarrow> (string \<Rightarrow> string + 'b cheatsheet) \<Rightarrow> string \<Rightarrow> string + 'b cheatsheet" where
  "parse_cheatsheet dl decode raw =
     (if trim_space raw = [] then Inl ''cheatsheet: AGENT_OPS_CHEATSHEET_JSON is empty''
      else case decode raw of
        Inl e \<Rightarrow> Inl (''cheatsheet: parse JSON: '' @ e)
      | Inr c \<Rightarrow>
          if cs_port c < 1 \<or> cs_port c > 65535
          then Inl (''cheatsheet: port must be 1..65535 (got '' @ itoa (cs_port c) @ '')'')
          else Inr (cheatsheet_defaults dl c))"

subsection \<open>The insertion sort of the keys\<close>

text \<open>The inner loop, from position \<open>j\<close> down.\<close>

fun sink :: "nat \<Rightarrow> string list \<Rightarrow> string list" where
  "sink 0 xs = xs"
| "sink (Suc j) xs =
     (if xs ! j > xs ! Suc j then sink j (xs[j := xs ! Suc j, Suc j := xs ! j]) else xs)"

definition sorted_keys :: "map_order \<Rightarrow> str_map \<Rightarrow> string list" where
  "sorted_keys iter m = (let out = iter m in fold sink [1..<length out] out)"

lemma sink_insort: "sorted ys \<Longrightarrow> sink (length ys) (ys @ x # zs) = insort x ys @ zs"
proof (induction ys arbitrary: zs rule: rev_induct)
  case (snoc y ys)
  have "sorted ys" and below: "\<forall>z \<in> set ys. z \<le> y" using snoc.prems by (auto simp: sorted_append)
  show ?case
  proof (cases "x < y")
    case True
    have "insort x (ys @ [y]) = insort x ys @ [y]"
      using True below by (induction ys) auto
    then show ?thesis
      using True snoc.IH [OF \<open>sorted ys\<close>, of "y # zs"]
      by (simp add: nth_append list_update_append)
  next
    case False
    have srt: "sorted (ys @ [y, x])" using snoc.prems below False by (auto simp: sorted_append)
    have "insort x (ys @ [y]) = sort (ys @ [y, x])"
      using snoc.prems by (intro properties_for_sort [symmetric]) (auto simp: sorted_insort)
    also have "\<dots> = ys @ [y, x]" by (rule properties_for_sort) (use srt in auto)
    finally show ?thesis using False by (simp add: nth_append)
  qed
qed simp

lemma sorted_keys_sort: "sorted_keys iter m = sort (iter m)"
proof -
  let ?xs = "iter m"
  have "fold sink [1..<i] ?xs = sort (take i ?xs) @ drop i ?xs" if "1 \<le> i" "i \<le> length ?xs" for i
    using that
  proof (induction i rule: dec_induct)
    case base
    then show ?case by (cases ?xs) auto
  next
    case (step n)
    have n: "n < length ?xs" using step by simp
    have "fold sink [1..<Suc n] ?xs = sink n (sort (take n ?xs) @ drop n ?xs)"
      using step by simp
    also have "drop n ?xs = ?xs ! n # drop (Suc n) ?xs" by (rule Cons_nth_drop_Suc [symmetric, OF n])
    also have "sink n (sort (take n ?xs) @ ?xs ! n # drop (Suc n) ?xs) =
        insort (?xs ! n) (sort (take n ?xs)) @ drop (Suc n) ?xs"
      using sink_insort [of "sort (take n ?xs)" "?xs ! n" "drop (Suc n) ?xs"] n by simp
    also have "insort (?xs ! n) (sort (take n ?xs)) = sort (take (Suc n) ?xs)"
      using n by (intro properties_for_sort [symmetric])
        (simp_all add: take_Suc_conv_app_nth sorted_insort)
    finally show ?case .
  qed
  from this [of "length ?xs"] show ?thesis
    by (cases ?xs) (simp_all add: sorted_keys_def)
qed

subsection \<open>Prompts\<close>

definition cheat_image :: "'b cheatsheet \<Rightarrow> string" where
  "cheat_image c = (let s = trim_space (cs_image c)
     in if s = [] then ''none '' @ em_dash @ '' build from source per steps below'' else s)"

definition cheat_start :: "'b cheatsheet \<Rightarrow> string" where
  "cheat_start c = (let s = trim_space (cs_start c)
     in if s = [] then ''(unspecified '' @ em_dash @ '' derive from steps)'' else s)"

definition steps_block :: "'b cheatsheet \<Rightarrow> string" where
  "steps_block c =
     (if cs_steps c = [] then ''(no preset steps '' @ em_dash @ '' improvise)''
      else concat (map (\<lambda>(i, s). ''  '' @ itoa (int i + 1) @ ''. '' @ s @ [nl]) (enumerate 0 (cs_steps c))))"

definition env_text :: "str_map \<Rightarrow> string \<Rightarrow> string" where
  "env_text m k = (case m k of None \<Rightarrow> [] | Some v \<Rightarrow> v)"

definition env_block :: "map_order \<Rightarrow> 'b cheatsheet \<Rightarrow> string" where
  "env_block iter c =
     (if iter (cs_env c) = [] then []
      else ''Known-good env (export before running steps):'' @ [nl] @
           concat (map (\<lambda>k. ''  '' @ k @ ''='' @ env_text (cs_env c) k @ [nl]) (sorted_keys iter (cs_env c))))"

definition pitfalls_block :: "'b cheatsheet \<Rightarrow> string" where
  "pitfalls_block c =
     (if cs_pitfalls c = [] then ''(none recorded)''
      else concat (map (\<lambda>(i, p). ''  '' @ itoa (int i + 1) @ ''. symptom: '' @ pf_symptom p @ [nl] @
             ''     fix:     '' @ pf_fix p @ [nl]) (enumerate 0 (cs_pitfalls c))))"

definition cheat_system :: "map_order \<Rightarrow> string \<Rightarrow> 'b cheatsheet \<Rightarrow> string" where
  "cheat_system iter app c =
     join [nl]
      [''You are agent-ops installing the '' @ app @ '' app on this Fargate container.'',
       ''Use the cheatsheet below as a STARTING POINT '' @ em_dash @ '' adapt freely when steps fail.'',
       [],
       ''==== CHEATSHEET ===='',
       ''Recommended image: '' @ cheat_image c,
       ''Port to bind: '' @ itoa (cs_port c),
       ''Recommended steps:'',
       steps_block c @ ''Start command: '' @ cheat_start c,
       env_block iter c @ ''Known pitfalls (try the fix if you see the symptom):'',
       pitfalls_block c @ ''==== END CHEATSHEET ===='',
       [],
       ''Success criteria: the app responds on http://127.0.0.1:'' @ itoa (cs_port c) @ '' within 12 minutes.'',
       [],
       ''Tools: Bash, Read, Edit. You have root inside the container.'',
       [],
       ''If the cheatsheet says X but X fails, try the suggested fix or your own alternative '' @ em_dash @ '' DON'T just report the failure. Self-healing is the whole point of this mode. Only declare failure if every reasonable attempt is exhausted.'']"

definition cheat_user :: "string \<Rightarrow> 'b cheatsheet \<Rightarrow> string" where
  "cheat_user app c =
     join [nl]
      [''Install '' @ app @ ''. Cheatsheet attached above. Verify health on :'' @ itoa (cs_port c) @ '' before reporting done.'']"

definition build_cheat_prompts :: "map_order \<Rightarrow> 'b cheatsheet \<Rightarrow> string \<Rightarrow> string \<times> string" where
  "build_cheat_prompts iter c app_type =
     (let app = (if trim_space app_type = [] then ''app'' else app_type)
      in (cheat_system iter app c, cheat_user app c))"

subsection \<open>Properties\<close>

text \<open>
  The prompts of a cheatsheet do not depend on the order in which the environment map is
  ranged over, which the language leaves open: the hand-written sort of the keys makes the two
  prompts the same for every order.
\<close>

lemma prompts_order_free:
  assumes "set (iter (cs_env c)) = dom (cs_env c)" and "distinct (iter (cs_env c))"
    and "set (iter' (cs_env c)) = dom (cs_env c)" and "distinct (iter' (cs_env c))"
  shows "build_cheat_prompts iter c app = build_cheat_prompts iter' c app"
proof -
  have "mset (iter (cs_env c)) = mset (iter' (cs_env c))"
    using assms by (simp add: set_eq_iff_mset_eq_distinct [symmetric])
  then have "sorted_keys iter (cs_env c) = sorted_keys iter' (cs_env c)"
    and "iter (cs_env c) = [] \<longleftrightarrow> iter' (cs_env c) = []"
    by (simp_all add: sorted_keys_sort properties_for_sort) (metis mset_zero_iff)
  then show ?thesis
    by (simp add: build_cheat_prompts_def cheat_system_def env_block_def)
qed

definition sample_sheet :: "unit cheatsheet" where
  "sample_sheet = \<lparr>cs_image = [], cs_steps = [], cs_start = [], cs_port = 80,
     cs_env = [''B'' \<mapsto> ''2'', ''A'' \<mapsto> ''1''], cs_pitfalls = [], cs_max_turns = 0, cs_budget = ()\<rparr>"

lemma prompts_order_free_witness:
  "build_cheat_prompts (\<lambda>_. [''A'', ''B'']) sample_sheet ''x'' =
   build_cheat_prompts (\<lambda>_. [''B'', ''A'']) sample_sheet ''x''"
  by (rule prompts_order_free) (auto simp: sample_sheet_def)

end
