(* ===== verification/Bootstrap.thy ===== *)
theory Bootstrap
  imports Supervise Scheduler Register Cheatsheet
begin

text \<open>
  \<^verbatim>\<open>internal/bootstrap/bootstrap.go\<close> and \<^verbatim>\<open>runCheatsheetBootstrap\<close>: the daemon's token, and
  the first run, which installs the application once in one of four modes, checks that it
  listens, registers its port and leaves a marker file. The outside (sockets, the marker, bash,
  the clock) is a world of any type \<open>'w\<close>; the scheduler with its store, the access
  configuration and the daemon's configuration are the state.
\<close>

subsection \<open>The token\<close>

definition new_token :: "string + 8 word list \<Rightarrow> string + string" where
  "new_token rand = map_sum id (\<lambda>bs. ''ao_'' @ hex_string bs) rand"

text \<open>
  The state directory as \<^verbatim>\<open>EnsureToken\<close> meets it: whether it can be made, whether reading
  the file fails for another reason than its absence, and, if writing fails, with what and what
  the file holds then.
\<close>

record token_io =
  tk_mkdir :: "string option"
  tk_read :: "string option"
  tk_rand :: "string + 8 word list"
  tk_write :: "(string \<times> string option) option"

definition make_token :: "token_io \<Rightarrow> string option \<Rightarrow> (string + string) \<times> string option" where
  "make_token io f =
     (case new_token (tk_rand io) of
        Inl e \<Rightarrow> (Inl e, f)
      | Inr tok \<Rightarrow>
          (case tk_write io of
             None \<Rightarrow> (Inr tok, Some tok)
           | Some (e, left) \<Rightarrow> (Inl (''bootstrap.EnsureToken: persist: '' @ e), left)))"

definition ensure_token ::
  "environ \<Rightarrow> token_io \<Rightarrow> string \<Rightarrow> string option \<Rightarrow> (string + string) \<times> string option" where
  "ensure_token env io env_name f =
     (if env_name \<noteq> [] \<and> env env_name \<noteq> [] then (Inr (env env_name), f)
      else case tk_mkdir io of
        Some e \<Rightarrow> (Inl (''bootstrap.EnsureToken: state dir: '' @ e), f)
      | None \<Rightarrow>
          (case tk_read io of
             Some e \<Rightarrow> (Inl (''bootstrap.EnsureToken: read: '' @ e), f)
           | None \<Rightarrow>
               (case f of
                  None \<Rightarrow> make_token io f
                | Some raw \<Rightarrow> if raw \<noteq> [] then (Inr raw, f) else make_token io f)))"

subsection \<open>The state of the first run\<close>

datatype marker = MarkerThere | MarkerAbsent | MarkerUnknown string

text \<open>
  A run of the install script: not started, or its lines of output in the order in which the two
  readers wrote them to the tail, the exit code, the error of the wait, and whether the deadline
  had passed.
\<close>

datatype script_run = NotStarted string | Ran "string list" int "string option" bool

record 'w boot_io =
  bo_marker :: "'w \<Rightarrow> marker"
  bo_write_marker :: "'w \<Rightarrow> string option \<times> 'w"
  bo_dial :: "int \<Rightarrow> 'w \<Rightarrow> bool \<times> 'w"
  bo_tries :: "'w \<Rightarrow> nat"
  bo_pause :: "'w \<Rightarrow> bool \<times> 'w"
  bo_script :: "string \<Rightarrow> duration \<Rightarrow> 'w \<Rightarrow> script_run \<times> 'w"
  bo_plane :: "'w control_plane"
  bo_agent :: "'w agent_env"

record verifier_result =
  vr_pass :: bool
  vr_evidence :: string
  vr_fail_reason :: string

text \<open>
  What is read once: the environment, the codecs, the inputs of the two agent runs, and for the
  \<open>k\<close>-th access to the store its failures, its time, and that time as text.
\<close>

record ('x, 'b) boot_inputs =
  bi_env :: environ
  bi_runner :: "'x runner option"
  bi_run :: run_inputs
  bi_verify_run :: run_inputs
  bi_faults :: "nat \<Rightarrow> faults"
  bi_now :: "nat \<Rightarrow> instant"
  bi_stamp :: "nat \<Rightarrow> string"
  bi_iter_stamp :: "int \<Rightarrow> string"
  bi_parse_duration :: "string \<Rightarrow> duration option"
  bi_duration_text :: "duration \<Rightarrow> string"
  bi_verifier_json :: "string \<Rightarrow> string + verifier_result"
  bi_sheet_json :: "string \<Rightarrow> string + 'b cheatsheet"
  bi_dollars :: "'b dollars"
  bi_iter :: map_order
  bi_budget :: int
  bi_budget_text :: string
  bi_script_path :: string
  bi_mkdir :: "string option"

record ('c, 'x, 'w) boot =
  b_sched :: "('c, 'x) scheduler"
  b_auth :: "auth_config option"
  b_cfg :: config
  b_ops :: nat
  b_out :: 'w

abbreviation boot_db :: "('c, 'x, 'w) boot \<Rightarrow> db" where
  "boot_db b \<equiv> sched_db (b_sched b)"

abbreviation mcp_port_of :: "('c, 'x, 'w) boot \<Rightarrow> int" where
  "mcp_port_of b \<equiv> parse_mcp_port (mcp_listen_addr (cfg_mcp (b_cfg b)))"

text \<open>An access to the store, by an operation that takes the failures and the time.\<close>

definition boot_access ::
  "('x, 'b) boot_inputs \<Rightarrow> (faults \<Rightarrow> instant \<Rightarrow> db \<Rightarrow> (store_error + 'r) \<times> db) \<Rightarrow>
   ('c, 'x, 'w) boot \<Rightarrow> (store_error + 'r) \<times> ('c, 'x, 'w) boot" where
  "boot_access n f b =
     (case f (bi_faults n (b_ops b)) (bi_now n (b_ops b)) (boot_db b) of
        (r, d) \<Rightarrow> (r, b\<lparr>b_sched := set_sched_db d (b_sched b), b_ops := Suc (b_ops b)\<rparr>))"

text \<open>A fact whose text has the time of the access in it; the answer is dropped by most callers.\<close>

definition boot_fact ::
  "('x, 'b) boot_inputs \<Rightarrow> string \<Rightarrow> (string \<Rightarrow> string) \<Rightarrow> ('c, 'x, 'w) boot \<Rightarrow> ('c, 'x, 'w) boot" where
  "boot_fact n source txt b = snd (boot_access n (add_fact source (txt (bi_stamp n (b_ops b)))) b)"

subsection \<open>Listening and registering\<close>

text \<open>The polling loop; \<open>k\<close> is how often the clock is still before the deadline.\<close>

fun poll_listening ::
  "'w boot_io \<Rightarrow> int option \<Rightarrow> int \<Rightarrow> nat \<Rightarrow> 'w \<Rightarrow> bool \<times> 'w" where
  "poll_listening io declared skip 0 w = (False, w)"
| "poll_listening io declared skip (Suc k) w =
     (let (up, w) = (case declared of
                       Some p \<Rightarrow> bo_dial io p w
                     | None \<Rightarrow> (has_non_mcp_listener (cp_tables (bo_plane io) w) skip, w))
      in if up then (True, w)
         else (let (cancelled, w) = bo_pause io w
               in if cancelled then (False, w) else poll_listening io declared skip k w))"

definition declared_port :: "environ \<Rightarrow> int option" where
  "declared_port env =
     (case atoi (trim_space (env ''AGENT_OPS_APP_PORT'')) of
        None \<Rightarrow> None | Some n \<Rightarrow> if n > 0 \<and> n < 65536 then Some n else None)"

definition app_is_listening ::
  "'w boot_io \<Rightarrow> ('x, 'b) boot_inputs \<Rightarrow> ('c, 'x, 'w) boot \<Rightarrow> bool \<times> ('c, 'x, 'w) boot" where
  "app_is_listening io n b =
     (let (up, w) = poll_listening io (declared_port (bi_env n)) (mcp_port_of b)
                      (bo_tries io (b_out b)) (b_out b)
      in (up, b\<lparr>b_out := w\<rparr>))"

definition wait_for_any_listener :: "'w boot_io \<Rightarrow> ('c, 'x, 'w) boot \<Rightarrow> ('c, 'x, 'w) boot" where
  "wait_for_any_listener io b =
     b\<lparr>b_out := snd (poll_listening io None (mcp_port_of b) (bo_tries io (b_out b)) (b_out b))\<rparr>"

definition register_app ::
  "'w boot_io \<Rightarrow> ('x, 'b) boot_inputs \<Rightarrow> ('c, 'x, 'w) boot \<Rightarrow> ('c, 'x, 'w) boot" where
  "register_app io n b =
     (let (live, w) = register_port (bo_plane io) (bi_env n) (mcp_port_of b) (b_auth b, b_out b)
      in b\<lparr>b_auth := live, b_out := w\<rparr>)"

definition finalize_success ::
  "'w boot_io \<Rightarrow> ('x, 'b) boot_inputs \<Rightarrow> ('c, 'x, 'w) boot \<Rightarrow> string option \<times> ('c, 'x, 'w) boot" where
  "finalize_success io n b =
     (let b = (if trim_space (bi_env n ''AGENT_OPS_APP_PORT'') = [] then wait_for_any_listener io b else b);
          b = register_app io n b;
          (err, w) = bo_write_marker io (b_out b)
      in (err, b\<lparr>b_out := w\<rparr>))"

subsection \<open>Script mode\<close>

definition script_timeout :: "('x, 'b) boot_inputs \<Rightarrow> config \<Rightarrow> duration" where
  "script_timeout n cfg =
     (let v = trim_space (bi_env n ''AGENT_OPS_BOOTSTRAP_TIMEOUT'');
          fallback = (if sint (ac_task_timeout (cfg_agent cfg)) > 0 then 2 * ac_task_timeout (cfg_agent cfg)
                      else 30 * minute)
      in if v = [] then fallback
         else case bi_parse_duration n v of
           None \<Rightarrow> fallback | Some d \<Rightarrow> if sint d > 0 then d else fallback)"

definition run_script ::
  "'w boot_io \<Rightarrow> ('x, 'b) boot_inputs \<Rightarrow> ('c, 'x, 'w) boot \<Rightarrow> string option \<times> ('c, 'x, 'w) boot" where
  "run_script io n b =
     (let script = bi_env n ''AGENT_OPS_BOOTSTRAP_SCRIPT''; timeout = script_timeout n (b_cfg b)
      in if trim_space script = []
         then (Some ''bootstrap: AGENT_OPS_BOOTSTRAP_MODE=script but AGENT_OPS_BOOTSTRAP_SCRIPT is empty'', b)
         else case bo_script io script timeout (b_out b) of
           (NotStarted e, w) \<Rightarrow> (Some e, b\<lparr>b_out := w\<rparr>)
         | (Ran lines code werr late, w) \<Rightarrow>
             (let b = b\<lparr>b_out := w\<rparr>;
                  tail = tail_string (fold tail_write (map (\<lambda>l. l @ [nl]) lines) empty_tail)
              in if late
                 then (Some (''bootstrap: script timed out after '' @ bi_duration_text n timeout),
                       boot_fact n ''bootstrap'' (\<lambda>t. ''script_timeout at '' @ t @ '' after '' @
                         bi_duration_text n timeout @ ''; tail: '' @ truncate_str tail 800) b)
                 else case werr of
                   Some e \<Rightarrow>
                     (Some (''bootstrap: script exit '' @ itoa code @ '': '' @ e),
                      boot_fact n ''bootstrap'' (\<lambda>t. ''script_failed at '' @ t @ '' exit='' @ itoa code @
                        ''; tail: '' @ truncate_str tail 800) b)
                 | None \<Rightarrow>
                     (None, boot_fact n ''bootstrap'' (\<lambda>t. ''script_ok at '' @ t @ '' exit=0; tail: '' @
                        truncate_str tail 600) b)))"

subsection \<open>Cheatsheet mode\<close>

text \<open>\<open>None\<close> in the first component is a panic of the driver, which ends the daemon.\<close>

definition cheat_task :: "string \<times> string \<Rightarrow> schedule" where
  "cheat_task prompts =
     \<lparr>sch_name = ''bootstrap'', sch_cron = ''@yearly'', sch_prompt = fst prompts @ [nl, nl] @ snd prompts,
      sch_tools = [''shell''], sch_model = [], sch_verify_prompt = [], sch_verify_model = [],
      sch_enabled = None\<rparr>"

definition manual_task :: "schedule \<Rightarrow> string \<Rightarrow> string \<Rightarrow> task" where
  "manual_task sch name prompt = \<lparr>t_name = name, t_cron = ''@yearly'', t_prompt = prompt,
     t_tools = sch_tools sch, t_enabled = False, t_updated_at = 0\<rparr>"

definition boot_run ::
  "('x, 'b) boot_inputs \<Rightarrow> run_inputs \<Rightarrow> string \<Rightarrow> string \<Rightarrow> ('c, 'x, 'w) boot \<Rightarrow>
   (task_run \<times> string option) option \<times> ('c, 'x, 'w) boot" where
  "boot_run n inp name prompt b =
     (let (out, s) = run_now (bi_env n) inp (bi_runner n) (bi_faults n (b_ops b)) name prompt (b_sched b)
      in (out, b\<lparr>b_sched := s, b_ops := Suc (b_ops b)\<rparr>))"

definition run_cheatsheet ::
  "('x, 'b) boot_inputs \<Rightarrow> ('c, 'x, 'w) boot \<Rightarrow> string option option \<times> ('c, 'x, 'w) boot" where
  "run_cheatsheet n b =
     (case parse_cheatsheet (bi_dollars n) (bi_sheet_json n) (bi_env n ''AGENT_OPS_CHEATSHEET_JSON'') of
        Inl e \<Rightarrow> (Some (Some e), b)
      | Inr cs \<Rightarrow>
          (let app = trim_space (bi_env n ''AGENT_OPS_APP_TYPE'');
               bs = cheat_task (build_cheat_prompts (bi_iter n) cs app);
               b = b\<lparr>b_cfg := (b_cfg b)\<lparr>cfg_bootstrap := Some bs\<rparr>\<rparr>
           in case boot_access n (upsert_task (manual_task bs (sch_name bs) (sch_prompt bs))) b of
                (Inl e, b) \<Rightarrow> (Some (Some (''cheatsheet: upsert task: '' @ store_error_text e)), b)
              | (Inr _, b) \<Rightarrow>
                  (case boot_run n (bi_run n) (sch_name bs) (sch_prompt bs) b of
                     (None, b) \<Rightarrow> (None, b)
                   | (Some (_, Some e), b) \<Rightarrow> (Some (Some (''cheatsheet: run failed: '' @ e)), b)
                   | (Some (run, None), b) \<Rightarrow>
                       (let cost = tr_cost_usd_micro run;
                            b = (if dl_overrun (bi_dollars n) cost (cs_budget cs)
                                 then boot_fact n ''cheatsheet'' (\<lambda>t. ''budget_overrun at '' @ t @ '': cost=$'' @
                                        dl_cost_text (bi_dollars n) cost @ '' budget=$'' @
                                        dl_budget_text (bi_dollars n) (cs_budget cs)) b
                                 else b)
                        in (Some None,
                            boot_fact n ''cheatsheet'' (\<lambda>t. ''bootstrap_'' @
                              (if tr_error run \<noteq> [] then ''failed'' else ''ok'') @ '' at '' @ t @
                              '': turns='' @ itoa (tr_tool_calls run) @ '' cost=$'' @
                              dl_cost_text (bi_dollars n) cost) b)))))"


subsection \<open>Agent-script mode\<close>

text \<open>
  The run of \<^verbatim>\<open>agent_script.go\<close> on the world outside; the facts it collected go to the store
  in their order, each with its own access. \<open>None\<close>: it never returns.
\<close>

definition run_agent_mode ::
  "'w boot_io \<Rightarrow> ('x, 'b) boot_inputs \<Rightarrow> ('c, 'x, 'w) boot \<Rightarrow> string option option \<times> ('c, 'x, 'w) boot" where
  "run_agent_mode io n b =
     (case run_agent_script (bo_agent io) (bi_iter_stamp n) (bi_env n) (bi_budget n)
             (bi_budget_text n) (bi_script_path n) (bi_mkdir n) (b_out b) of
        (None, w) \<Rightarrow> (None, b\<lparr>b_out := w\<rparr>)
      | (Some rep, w) \<Rightarrow>
          (Some (ar_error rep),
           fold (\<lambda>f. boot_fact n ''agent_script'' (\<lambda>_. f)) (st_facts (ar_state rep)) (b\<lparr>b_out := w\<rparr>)))"

subsection \<open>The verifier\<close>

definition parse_verifier_json :: "(string \<Rightarrow> string + verifier_result) \<Rightarrow> string \<Rightarrow> string + verifier_result" where
  "parse_verifier_json unmarshal s =
     (case extract_json_object s of
        None \<Rightarrow> Inl ''no JSON object found in verifier output''
      | Some raw \<Rightarrow> map_sum (\<lambda>e. ''unmarshal: '' @ e) id (unmarshal raw))"

definition run_verifier ::
  "('x, 'b) boot_inputs \<Rightarrow> schedule \<Rightarrow> string \<Rightarrow> ('c, 'x, 'w) boot \<Rightarrow> bool option \<times> ('c, 'x, 'w) boot" where
  "run_verifier n bs task_name b =
     (let name = task_name @ ''.verify''
      in case boot_access n (upsert_task (manual_task bs name (sch_verify_prompt bs))) b of
           (Inl _, b) \<Rightarrow> (Some False, b)
         | (Inr _, b) \<Rightarrow>
             (let b = b\<lparr>b_sched := set_model_override name (sch_verify_model bs) (b_sched b)\<rparr>
              in case boot_run n (bi_verify_run n) name (sch_verify_prompt bs) b of
                   (None, b) \<Rightarrow> (None, b)
                 | (Some (_, Some e), b) \<Rightarrow>
                     (Some False, boot_fact n ''bootstrap'' (\<lambda>t. ''verify_failed: verifier run errored at '' @ t @
                        '': '' @ e) b)
                 | (Some (run, None), b) \<Rightarrow>
                     (case parse_verifier_json (bi_verifier_json n) (tr_summary run) of
                        Inl e \<Rightarrow>
                          (Some False, boot_fact n ''bootstrap'' (\<lambda>t. ''verify_failed: could not parse verifier JSON at '' @
                             t @ '': '' @ e) b)
                      | Inr res \<Rightarrow>
                          if \<not> vr_pass res
                          then (Some False, boot_fact n ''bootstrap'' (\<lambda>t. ''verify_failed at '' @ t @ '': '' @
                                  vr_fail_reason res @ '' (evidence: '' @ vr_evidence res @ '')'') b)
                          else (Some True, boot_fact n ''bootstrap'' (\<lambda>t. ''verify_passed at '' @ t @ '': '' @
                                  vr_evidence res) b))))"

subsection \<open>The modes\<close>

definition boot_mode :: "environ \<Rightarrow> string" where
  "boot_mode env = to_lower (trim_space (env ''AGENT_OPS_BOOTSTRAP_MODE''))"

definition is_llm_free_mode :: "environ \<Rightarrow> bool" where
  "is_llm_free_mode env \<longleftrightarrow> boot_mode env = ''script''"

definition nothing_to_install :: "environ \<Rightarrow> config \<Rightarrow> bool" where
  "nothing_to_install env cfg \<longleftrightarrow> cfg_bootstrap cfg = None \<and>
     trim_space (env ''AGENT_OPS_BOOTSTRAP_SCRIPT'') = [] \<and>
     boot_mode env \<noteq> ''cheatsheet'' \<and> boot_mode env \<noteq> ''agent_script''"

text \<open>The common end of three modes: an error counts only if nothing listens after it.\<close>

definition settle ::
  "'w boot_io \<Rightarrow> ('x, 'b) boot_inputs \<Rightarrow> string \<Rightarrow> string \<Rightarrow> string option \<times> ('c, 'x, 'w) boot \<Rightarrow>
   string option \<times> ('c, 'x, 'w) boot" where
  "settle io n source what out =
     (case out of
        (None, b) \<Rightarrow> finalize_success io n b
      | (Some e, b) \<Rightarrow>
          (let (up, b) = app_is_listening io n b
           in if \<not> up then (Some e, b)
              else finalize_success io n
                     (boot_fact n source (\<lambda>t. what @ '' at '' @ t @ '': '' @ e) b)))"

definition first_run_summary :: "task_run \<Rightarrow> string" where
  "first_run_summary run =
     (let s = trim_space (tr_summary run)
      in if s = [] then ''(no summary returned by bootstrap agent)'' else s)"

text \<open>
  The fact after a first run; when it cannot be stored a warning goes to the run's log instead,
  as an access of its own.
\<close>

definition first_run_fact ::
  "('x, 'b) boot_inputs \<Rightarrow> task_run \<Rightarrow> ('c, 'x, 'w) boot \<Rightarrow> ('c, 'x, 'w) boot" where
  "first_run_fact n run b =
     (case boot_access n (add_fact ''bootstrap'' (''Initial setup completed at '' @ bi_stamp n (b_ops b) @
             '': '' @ truncate_str (first_run_summary run) 600)) b of
        (Inr _, b) \<Rightarrow> b
      | (Inl e, b) \<Rightarrow>
          snd (boot_access n (append_run_log (tr_id run) 99999 ''warn''
                 (''could not persist bootstrap fact: '' @ store_error_text e)) b))"

definition run_agent_bootstrap ::
  "'w boot_io \<Rightarrow> ('x, 'b) boot_inputs \<Rightarrow> schedule \<Rightarrow> ('c, 'x, 'w) boot \<Rightarrow>
   string option option \<times> ('c, 'x, 'w) boot" where
  "run_agent_bootstrap io n bs b =
     (case boot_access n (upsert_task (manual_task bs (sch_name bs) (sch_prompt bs))) b of
        (Inl e, b) \<Rightarrow> (Some (Some (store_error_text e)), b)
      | (Inr _, b) \<Rightarrow>
          (case boot_run n (bi_run n) (sch_name bs) (sch_prompt bs) b of
             (None, b) \<Rightarrow> (None, b)
           | (Some (_, Some e), b) \<Rightarrow>
               (Some (Some (''bootstrap: first-run task failed: '' @ e)), b)
           | (Some (run, None), b) \<Rightarrow>
               (let b = first_run_fact n run b
                in if trim_space (sch_verify_prompt bs) \<noteq> []
                   then (case run_verifier n bs (sch_name bs) b of
                           (None, b) \<Rightarrow> (None, b)
                         | (Some ok, b) \<Rightarrow>
                             if \<not> ok then (Some None, b) else map_prod Some id (finalize_success io n b))
                   else map_prod Some id (finalize_success io n b))))"

definition install_app ::
  "'w boot_io \<Rightarrow> ('x, 'b) boot_inputs \<Rightarrow> ('c, 'x, 'w) boot \<Rightarrow> string option option \<times> ('c, 'x, 'w) boot" where
  "install_app io n b =
     (let mode = boot_mode (bi_env n)
      in if mode = ''script''
         then map_prod Some id (settle io n ''bootstrap'' ''script_exit_nonzero_but_port_open'' (run_script io n b))
         else if mode = ''cheatsheet''
         then (case run_cheatsheet n b of
                 (None, b) \<Rightarrow> (None, b)
               | (Some err, b) \<Rightarrow>
                   map_prod Some id (settle io n ''cheatsheet'' ''agent_errored_but_port_open'' (err, b)))
         else if mode = ''agent_script''
         then (case run_agent_mode io n b of
                 (None, b) \<Rightarrow> (None, b)
               | (Some err, b) \<Rightarrow>
                   map_prod Some id (settle io n ''agent_script'' ''errored_but_port_open'' (err, b)))
         else case cfg_bootstrap (b_cfg b) of
                None \<Rightarrow> (Some None, b)
              | Some bs \<Rightarrow> run_agent_bootstrap io n bs b)"

definition maybe_run_first_run ::
  "'w boot_io \<Rightarrow> ('x, 'b) boot_inputs \<Rightarrow> ('c, 'x, 'w) boot \<Rightarrow> string option option \<times> ('c, 'x, 'w) boot" where
  "maybe_run_first_run io n b =
     (if nothing_to_install (bi_env n) (b_cfg b) then (Some None, b)
      else case bo_marker io (b_out b) of
        MarkerUnknown e \<Rightarrow> (Some (Some (''bootstrap.MaybeRunFirstRun: stat marker: '' @ e)), b)
      | MarkerAbsent \<Rightarrow> install_app io n b
      | MarkerThere \<Rightarrow>
          (let (up, b) = app_is_listening io n b
           in if up then (Some None, register_app io n b) else install_app io n b))"

end
