(* ===== verification/FirstRun.thy ===== *)
theory FirstRun
  imports Bootstrap
begin

text \<open>
  What the first run of \<^theory_text>\<open>Bootstrap\<close> does to the store, to the scheduler and to the world outside:
  it reaches the database only through the store's operations, never touches the cron table, and
  writes its marker only after a success.
\<close>

subsection \<open>Reaching the database through the store\<close>

definition reaches :: "db \<Rightarrow> db \<Rightarrow> bool" where
  "reaches d d' \<longleftrightarrow> (\<exists>h. d' = run_history h d)"

lemma reaches_refl [simp, intro]: "reaches d d"
  unfolding reaches_def by (rule exI [of _ "[]"]) simp

lemma reaches_trans [trans]: "reaches d d' \<Longrightarrow> reaches d' d'' \<Longrightarrow> reaches d d''"
  unfolding reaches_def by (metis run_history_append)

lemma reaches_exec: "reaches d (exec_cmd c f now d)"
  unfolding reaches_def by (rule exI [of _ "[(c, f, now)]"]) simp

lemma reaches_wf: "reaches d d' \<Longrightarrow> db_wf d \<Longrightarrow> db_wf d'"
  by (auto simp: reaches_def run_history_wf)

definition runner_ok :: "'x runner \<Rightarrow> bool" where
  "runner_ok r \<longleftrightarrow> driver_via_store (rn_driver r) \<and> reg_wf (rn_tools r) \<and> tools_via_store (rn_tools r)"

lemma conclude_run_reaches: "reaches (rw_db w) (rw_db (snd (conclude_run inp r sp run m res e w)))"
proof -
  define cls where "cls = classify (ri_cctx inp) (ri_ctx inp) e (dr_error res)"
  obtain q d where fin: "finish_run (tr_id run) (fst cls) (truncate_str (dr_final_message res) 2000) (snd cls)
      (dr_tool_calls res) (ri_finish_faults inp) (ri_finish_now inp) (rw_db w) = (q, d)" by fastforce
  then have "reaches (rw_db w) d"
    using reaches_exec [of "rw_db w" "CFinishRun (tr_id run) (fst cls) (truncate_str (dr_final_message res) 2000)
      (snd cls) (dr_tool_calls res)"] by (metis exec_cmd.simps(3) snd_conv)
  then show ?thesis
    using fin by (cases q) (simp_all add: conclude_run_def cls_def [symmetric] Let_def)
qed

lemma run_marked_reaches:
  assumes "runner_ok r"
  shows "reaches (rw_db w) (rw_db (snd (run_marked inp r sp w)))"
proof (cases "generate_run_id (ri_rand inp)")
  case (Inr i)
  let ?run = "zero_run\<lparr>tr_id := i, tr_task_name := sp_name sp,
    tr_trigger := trigger_text (sp_trigger sp), tr_started_at := Some (ri_started inp)\<rparr>"
  obtain q d where st: "start_run ?run (ri_start_faults inp) (ri_start_now inp) (rw_db w) = (q, d)"
    by fastforce
  then have d: "reaches (rw_db w) d"
    using reaches_exec [of "rw_db w" "CStartRun ?run"] by (metis exec_cmd.simps(2) snd_conv)
  show ?thesis
  proof (cases q)
    case (Inl e)
    then show ?thesis using st Inr d by (simp add: run_marked_def Let_def)
  next
    case (Inr u)
    define w1 where "w1 = w\<lparr>rw_db := d, rw_seqs := (rw_seqs w)(i := 0)\<rparr>"
    obtain m w2 where rm: "read_mission inp i w1 = (m, w2)" by fastforce
    obtain out w3 where dr: "rn_driver r (run_request inp r sp i m) w2 = (out, w3)" by fastforce
    obtain h where h: "rw_db w2 = run_history h d"
      using read_mission_via_store [of inp i w1] rm by (auto simp: w1_def)
    have "\<exists>h'. rw_db w3 = run_history h' d"
      using driver_call_via_store [of r w2 h d inp sp i m] assms h dr by (simp add: runner_ok_def)
    then have d3: "reaches (rw_db w) (rw_db w3)" using reaches_trans [OF d] by (simp add: reaches_def)
    have eq: "run_marked inp r sp w = (case out of None \<Rightarrow> (None, w3)
        | Some (res, e) \<Rightarrow> conclude_run inp r sp ?run m res e w3)"
      using st Inr \<open>generate_run_id (ri_rand inp) = Inr i\<close> rm dr by (simp add: run_marked_def w1_def Let_def)
    show ?thesis
    proof (cases out)
      case (Some p)
      then show ?thesis
        using reaches_trans [OF d3 conclude_run_reaches [of w3 inp r sp ?run m "fst p" "snd p"]]
        by (simp add: eq split_beta)
    qed (simp add: eq d3)
  qed
qed (simp add: run_marked_def)

lemma run_task_reaches:
  assumes "runner_ok r"
  shows "reaches (rw_db w) (rw_db (snd (run_task inp r sp w)))"
  using run_marked_reaches [OF assms, of "w\<lparr>rw_inflight := insert (sp_name sp) (rw_inflight w)\<rparr>" inp sp]
  by (simp add: run_task_def mark_inflight_def split_beta Let_def)

lemma run_now_reaches:
  assumes "case rn of None \<Rightarrow> True | Some r \<Rightarrow> runner_ok r"
  shows "reaches (sched_db s) (sched_db (snd (run_now env inp rn f name ov s)))"
  using assms run_task_reaches
  by (auto simp: run_now_def sched_db_def Let_def split_beta split: option.splits sum.splits)


subsection \<open>The first run and the scheduler\<close>

text \<open>The database moved by store operations only, and the cron side of the scheduler is as it was.\<close>

definition boot_kept :: "('c, 'x, 'w) boot \<Rightarrow> ('c, 'x, 'w) boot \<Rightarrow> bool" where
  "boot_kept b b' \<longleftrightarrow> reaches (boot_db b) (boot_db b') \<and>
     sc_cron (b_sched b') = sc_cron (b_sched b) \<and> sc_entries (b_sched b') = sc_entries (b_sched b)"

named_theorems kept_intros \<open>steps of the first run that keep the scheduler\<close>

lemma boot_kept_refl [intro, simp]: "boot_kept b b"
  by (simp add: boot_kept_def)

lemma boot_kept_trans [trans]: "boot_kept b b' \<Longrightarrow> boot_kept b' b'' \<Longrightarrow> boot_kept b b''"
  by (auto simp: boot_kept_def intro: reaches_trans)

lemma boot_kept_eq: "boot_kept b b' \<Longrightarrow> b_sched b'' = b_sched b' \<Longrightarrow> boot_kept b b''"
  by (simp add: boot_kept_def)

lemma boot_access_kept:
  assumes "\<And>fs now d. \<exists>c. snd (f fs now d) = exec_cmd c fs now d"
  shows "boot_kept b (snd (boot_access n f b))"
proof -
  obtain c where "snd (f (bi_faults n (b_ops b)) (bi_now n (b_ops b)) (boot_db b)) =
      exec_cmd c (bi_faults n (b_ops b)) (bi_now n (b_ops b)) (boot_db b)"
    using assms by blast
  then show ?thesis
    using reaches_exec by (simp add: boot_kept_def boot_access_def split_beta)
qed

lemma upsert_kept: "boot_kept b (snd (boot_access n (upsert_task t) b))"
  by (rule boot_access_kept) (metis exec_cmd.simps(1))

lemma fact_kept: "boot_kept b (snd (boot_access n (add_fact s t) b))"
  by (rule boot_access_kept) (metis exec_cmd.simps(5))

lemma run_log_kept: "boot_kept b (snd (boot_access n (append_run_log i q lv m) b))"
  by (rule boot_access_kept) (metis exec_cmd.simps(7))

lemma facts_kept: "boot_kept b (fold (\<lambda>f. boot_fact n s (tx f)) fs b)"
proof (induction fs arbitrary: b)
  case (Cons f fs)
  have "boot_kept b (boot_fact n s (tx f) b)" by (simp add: boot_fact_def fact_kept)
  also have "boot_kept \<dots> (fold (\<lambda>f. boot_fact n s (tx f)) fs (boot_fact n s (tx f) b))" by (rule Cons.IH)
  finally show ?case by simp
qed simp

definition inputs_ok :: "('x, 'b) boot_inputs \<Rightarrow> bool" where
  "inputs_ok n \<longleftrightarrow> (case bi_runner n of None \<Rightarrow> True | Some r \<Rightarrow> runner_ok r)"

lemma run_now_cron: "sc_cron (snd (run_now env inp rn f name ov s)) = sc_cron s \<and>
    sc_entries (snd (run_now env inp rn f name ov s)) = sc_entries s"
  by (simp add: run_now_def Let_def split_beta split: option.split sum.split)

lemma boot_run_kept: "inputs_ok n \<Longrightarrow> boot_kept b (snd (boot_run n inp name prompt b))"
  by (simp add: boot_kept_def boot_run_def split_beta inputs_ok_def run_now_reaches run_now_cron)

lemma sched_free_kept [simp]:
  "b_sched (snd (app_is_listening io n b)) = b_sched b"
  "b_sched (wait_for_any_listener io b) = b_sched b"
  "b_sched (register_app io n b) = b_sched b"
  by (simp_all add: app_is_listening_def wait_for_any_listener_def register_app_def split_beta Let_def)

lemma finalize_sched [simp]: "b_sched (snd (finalize_success io n b)) = b_sched b"
  by (simp add: finalize_success_def split_beta Let_def)

text \<open>The same rules, chained onto what was kept before.\<close>

lemma step_kept [kept_intros]:
  "boot_kept b b' \<Longrightarrow> boot_kept b (boot_fact n s tx b')"
  "boot_kept b b' \<Longrightarrow> boot_kept b (snd (boot_access n (upsert_task t) b'))"
  "boot_kept b b' \<Longrightarrow> boot_kept b (snd (boot_access n (add_fact s u) b'))"
  "boot_kept b b' \<Longrightarrow> boot_kept b (snd (boot_access n (append_run_log i q lv m) b'))"
  "inputs_ok n \<Longrightarrow> boot_kept b b' \<Longrightarrow> boot_kept b (snd (boot_run n inp name prompt b'))"
  unfolding boot_fact_def
  by (blast intro: boot_kept_trans fact_kept upsert_kept run_log_kept boot_run_kept)+

lemma boot_out_kept [simp]: "boot_kept b (b'\<lparr>b_out := w\<rparr>) = boot_kept b b'"
  "boot_kept b (b'\<lparr>b_cfg := c\<rparr>) = boot_kept b b'"
  by (simp_all add: boot_kept_def)

lemma run_script_kept: "boot_kept b (snd (run_script io n b))"
  by (auto simp: run_script_def Let_def split_beta intro!: kept_intros split: script_run.split option.split)


lemma run_cheatsheet_kept: "inputs_ok n \<Longrightarrow> boot_kept b (snd (run_cheatsheet n b))"
  by (auto simp: run_cheatsheet_def Let_def split_beta split: sum.split option.split
      intro!: kept_intros)

lemma run_agent_mode_kept: "boot_kept b (snd (run_agent_mode io n b))"
  by (auto simp: run_agent_mode_def split: option.split prod.split intro: boot_kept_trans [OF _ facts_kept])

lemma set_model_kept [simp]:
  "boot_kept b (b'\<lparr>b_sched := set_model_override m v (b_sched b')\<rparr>) = boot_kept b b'"
  by (simp add: boot_kept_def set_model_override_def sched_db_def)

lemma run_verifier_kept: "inputs_ok n \<Longrightarrow> boot_kept b (snd (run_verifier n bs t b))"
  by (auto simp: run_verifier_def Let_def split_beta split: sum.split option.split
      intro!: kept_intros)

lemma first_run_fact_kept: "boot_kept b b' \<Longrightarrow> boot_kept b (first_run_fact n run b')"
  by (auto simp: first_run_fact_def split_beta split: sum.split
      intro!: kept_intros)

lemma finalize_kept: "boot_kept b b' \<Longrightarrow> boot_kept b (snd (finalize_success io n b'))"
  by (rule boot_kept_eq) simp_all

lemma listening_kept: "boot_kept b b' \<Longrightarrow> boot_kept b (snd (app_is_listening io n b'))"
  by (rule boot_kept_eq) simp_all

lemma settle_kept: "boot_kept b (snd out) \<Longrightarrow> boot_kept b (snd (settle io n src what out))"
  by (auto simp: settle_def Let_def split_beta split: option.split
      intro!: finalize_kept kept_intros listening_kept)

lemma run_agent_bootstrap_kept: "inputs_ok n \<Longrightarrow> boot_kept b (snd (run_agent_bootstrap io n bs b))"
  by (auto simp: run_agent_bootstrap_def Let_def split_beta split: sum.split option.split
      intro!: finalize_kept boot_kept_trans [OF _ run_verifier_kept] first_run_fact_kept kept_intros)

lemma install_app_kept: "inputs_ok n \<Longrightarrow> boot_kept b (snd (install_app io n b))"
  by (auto simp: install_app_def Let_def split_beta split: option.split
      intro!: settle_kept run_script_kept run_agent_bootstrap_kept intro: run_cheatsheet_kept run_agent_mode_kept)

lemma maybe_run_first_run_kept:
  assumes "inputs_ok n"
  shows "boot_kept b (snd (maybe_run_first_run io n b))"
proof -
  have "boot_kept b (snd (install_app io n (snd (app_is_listening io n b))))"
    by (rule boot_kept_trans [OF listening_kept [OF boot_kept_refl] install_app_kept [OF assms]])
  moreover have "boot_kept b (register_app io n (snd (app_is_listening io n b)))"
    by (rule boot_kept_eq [OF boot_kept_refl]) simp
  ultimately show ?thesis
    using install_app_kept [OF assms, of b io]
    by (simp add: maybe_run_first_run_def Let_def split_beta split: marker.split)
qed


subsection \<open>The world outside\<close>

text \<open>A property of the world that every step of the agent script keeps.\<close>

definition agent_keeps :: "'w agent_env \<Rightarrow> ('w \<Rightarrow> bool) \<Rightarrow> bool" where
  "agent_keeps e Q \<longleftrightarrow>
     (\<forall>i w. Q w \<longrightarrow> Q (snd (ae_plan e i w))) \<and> (\<forall>i w. Q w \<longrightarrow> Q (snd (ae_check e i w))) \<and>
     (\<forall>w. Q w \<longrightarrow> Q (ae_remove_script e w)) \<and> (\<forall>w. Q w \<longrightarrow> Q (snd (ae_start e w))) \<and>
     (\<forall>w. Q w \<longrightarrow> Q (snd (ae_wake e w))) \<and> (\<forall>w. Q w \<longrightarrow> Q (snd (ae_snapshot e w))) \<and>
     (\<forall>p w. Q w \<longrightarrow> Q (snd (ae_probe e p w))) \<and> (\<forall>w. Q w \<longrightarrow> Q (ae_kill e w)) \<and>
     (\<forall>w. Q w \<longrightarrow> Q (snd (ae_reap e w)))"

lemma agent_keepsD:
  assumes "agent_keeps e Q"
  shows "Q w \<Longrightarrow> Q (snd (ae_plan e i w))" "Q w \<Longrightarrow> Q (snd (ae_check e j w))" "Q w \<Longrightarrow> Q (ae_remove_script e w)"
    "Q w \<Longrightarrow> Q (snd (ae_start e w))" "Q w \<Longrightarrow> Q (snd (ae_wake e w))" "Q w \<Longrightarrow> Q (snd (ae_snapshot e w))"
    "Q w \<Longrightarrow> Q (snd (ae_probe e p w))" "Q w \<Longrightarrow> Q (ae_kill e w)" "Q w \<Longrightarrow> Q (snd (ae_reap e w))"
  using assms by (simp_all add: agent_keeps_def)

lemma supervise_turn_keeps:
  assumes "agent_keeps e Q" and "Q w"
  shows "Q (snd (supervise_turn e c turn prev res w))"
  using assms(2) by (auto simp: supervise_turn_def port_serves_def split_beta Let_def
      intro!: agent_keepsD [OF assms(1)] split: wake.split option.split)

lemma supervise_loop_keeps:
  assumes "agent_keeps e Q" and "Q w"
  shows "Q (snd (supervise_loop e c n turn prev res w))"
  using assms(2)
proof (induction n arbitrary: turn prev res w)
  case (Suc n)
  have "Q (snd (supervise_turn e c turn prev res w))"
    by (rule supervise_turn_keeps [OF assms(1) Suc.prems])
  then show ?case using Suc.IH by (auto simp: split_beta split: sum.split)
qed simp

lemma supervise_script_keeps:
  assumes "agent_keeps e Q" and "Q w"
  shows "Q (snd (supervise_script e c w))"
proof -
  have "Q (snd (supervise_loop e c n turn prev res (snd (ae_start e w))))" for n turn prev res
    by (intro supervise_loop_keeps [OF assms(1)] agent_keepsD [OF assms(1)] assms(2))
  then show ?thesis
    using assms(2) by (auto simp: supervise_script_def split_beta
        intro!: agent_keepsD [OF assms(1)] split: option.split)
qed

lemma agent_iteration_keeps:
  assumes "agent_keeps e Q" and "Q w"
  shows "Q (snd (agent_iteration e now g iter s w))"
  using assms(2) by (auto simp: agent_iteration_def split_beta Let_def
      intro!: agent_keepsD [OF assms(1)] supervise_script_keeps [OF assms(1)] split: option.split sum.split)

lemma agent_loop_keeps:
  assumes "agent_keeps e Q" and "Q w"
  shows "Q (snd (agent_loop e now usd g n iter s w))"
  using assms(2)
proof (induction n arbitrary: iter s w)
  case (Suc n)
  have "Q (snd (agent_iteration e now g iter s w))"
    by (rule agent_iteration_keeps [OF assms(1) Suc.prems])
  then show ?case using Suc.IH Suc.prems by (auto simp: split_beta split: option.split sum.split)
qed simp

lemma run_agent_script_keeps:
  assumes "agent_keeps e Q" and "Q w"
  shows "Q (snd (run_agent_script e now env budget usd path mk w))"
  using assms(2) by (auto simp: run_agent_script_def split_beta Let_def
      intro!: agent_loop_keeps [OF assms(1)] split: option.split)

text \<open>A property that everything but the writing of the marker keeps.\<close>

definition boot_keeps :: "'w boot_io \<Rightarrow> ('w \<Rightarrow> bool) \<Rightarrow> bool" where
  "boot_keeps io Q \<longleftrightarrow>
     (\<forall>p w. Q w \<longrightarrow> Q (snd (bo_dial io p w))) \<and> (\<forall>w. Q w \<longrightarrow> Q (snd (bo_pause io w))) \<and>
     (\<forall>u t p w. Q w \<longrightarrow> Q (snd (cp_post (bo_plane io) u t p w))) \<and>
     (\<forall>s d w. Q w \<longrightarrow> Q (snd (bo_script io s d w))) \<and> agent_keeps (bo_agent io) Q"

lemma poll_listening_keeps:
  assumes "\<And>p w. Q w \<Longrightarrow> Q (snd (bo_dial io p w))" and "\<And>w. Q w \<Longrightarrow> Q (snd (bo_pause io w))" and "Q w"
  shows "Q (snd (poll_listening io decl skip k w))"
  using assms(3)
proof (induction k arbitrary: w)
  case (Suc k)
  then show ?case using assms(1,2) by (auto simp: split_beta Let_def split: option.split)
qed simp


lemma boot_access_out [simp]:
  "b_out (snd (boot_access n f b)) = b_out b" "b_cfg (snd (boot_access n f b)) = b_cfg b"
  "b_auth (snd (boot_access n f b)) = b_auth b"
  by (simp_all add: boot_access_def split_beta)

lemma boot_fact_out [simp]:
  "b_out (boot_fact n s tx b) = b_out b" "b_cfg (boot_fact n s tx b) = b_cfg b"
  "b_auth (boot_fact n s tx b) = b_auth b"
  by (simp_all add: boot_fact_def)

lemma boot_run_out [simp]: "b_out (snd (boot_run n inp name prompt b)) = b_out b"
  by (simp add: boot_run_def split_beta)

lemma fold_fact_out [simp]: "b_out (fold (\<lambda>f. boot_fact n s (tx f)) fs b) = b_out b"
  by (induction fs arbitrary: b) simp_all

lemma first_run_fact_out [simp]: "b_out (first_run_fact n run b) = b_out b"
  by (simp add: first_run_fact_def split_beta split: sum.split)

lemma run_cheatsheet_out [simp]: "b_out (snd (run_cheatsheet n b)) = b_out b"
  by (simp add: run_cheatsheet_def Let_def split_beta split: sum.split option.split)

lemma run_verifier_out [simp]: "b_out (snd (run_verifier n bs t b)) = b_out b"
  by (simp add: run_verifier_def Let_def split_beta split: sum.split option.split)

lemma app_is_listening_keeps:
  assumes "boot_keeps io Q" and "Q (b_out b)"
  shows "Q (b_out (snd (app_is_listening io n b)))"
  using assms unfolding app_is_listening_def boot_keeps_def
  by (simp add: split_beta poll_listening_keeps)

lemma run_script_keeps:
  assumes "boot_keeps io Q" and "Q (b_out b)"
  shows "Q (b_out (snd (run_script io n b)))"
proof -
  have "Q (snd (bo_script io s d (b_out b)))" for s d using assms by (simp add: boot_keeps_def)
  then show ?thesis
    using assms(2) by (simp add: run_script_def Let_def split_beta split: script_run.split option.split)
qed

lemma run_agent_mode_keeps:
  assumes "boot_keeps io Q" and "Q (b_out b)"
  shows "Q (b_out (snd (run_agent_mode io n b)))"
proof -
  have "Q (snd (run_agent_script (bo_agent io) now env bud usd path mk (b_out b)))" for now env bud usd path mk
    using assms by (simp add: boot_keeps_def run_agent_script_keeps [of _ Q])
  then show ?thesis by (simp add: run_agent_mode_def split_beta split: option.split)
qed

lemma register_app_keeps:
  assumes "boot_keeps io Q" and "Q (b_out b)"
  shows "Q (b_out (register_app io n b))"
proof -
  have "Q (snd (register_port (bo_plane io) (bi_env n) p (live, b_out b)))" for p live
    by (rule register_port_frame [of Q]) (use assms in \<open>simp_all add: boot_keeps_def\<close>)
  then show ?thesis by (simp add: register_app_def split_beta Let_def)
qed

lemma wait_for_any_keeps:
  assumes "boot_keeps io Q" and "Q (b_out b)"
  shows "Q (b_out (wait_for_any_listener io b))"
  using assms unfolding wait_for_any_listener_def boot_keeps_def
  by (simp add: poll_listening_keeps)

text \<open>
  The marker is written by \<^verbatim>\<open>finalizeBootstrapSuccess\<close> only, at its end, and what that writes
  is the error returned.
\<close>

lemma finalize_marks:
  assumes "boot_keeps io Q" and "Q (b_out b)"
  shows "\<exists>w. Q w \<and> fst (finalize_success io n b) = fst (bo_write_marker io w) \<and>
    b_out (snd (finalize_success io n b)) = snd (bo_write_marker io w)"
proof -
  have "Q (b_out (register_app io n b))" "Q (b_out (register_app io n (wait_for_any_listener io b)))"
    by (intro register_app_keeps [OF assms(1)] wait_for_any_keeps [OF assms(1)] assms(2))+
  then show ?thesis by (auto simp: finalize_success_def Let_def split_beta)
qed

text \<open>\<open>unmarked\<close>: not returned without an error, or left by the verifier's refusal.\<close>

definition marks_only_at_end ::
  "'w boot_io \<Rightarrow> ('w \<Rightarrow> bool) \<Rightarrow> string option option \<times> ('c, 'x, 'w) boot \<Rightarrow> bool" where
  "marks_only_at_end io Q out \<longleftrightarrow>
     Q (b_out (snd out)) \<or>
     (\<exists>w. Q w \<and> fst out = Some (fst (bo_write_marker io w)) \<and> b_out (snd out) = snd (bo_write_marker io w))"

lemma marks_finalize:
  "boot_keeps io Q \<Longrightarrow> Q (b_out b) \<Longrightarrow> marks_only_at_end io Q (map_prod Some id (finalize_success io n b))"
  using finalize_marks [of io Q b n] by (simp add: marks_only_at_end_def map_prod_def split_beta)

lemma marks_now: "Q (b_out b) \<Longrightarrow> marks_only_at_end io Q (r, b)"
  by (simp add: marks_only_at_end_def)

lemma marks_settle:
  assumes "boot_keeps io Q" and "Q (b_out (snd out))"
  shows "marks_only_at_end io Q (map_prod Some id (settle io n src what out))"
proof -
  obtain e b where out: "out = (e, b)" by fastforce
  obtain up b' where up: "app_is_listening io n b = (up, b')" by fastforce
  have b': "Q (b_out b')" using app_is_listening_keeps [OF assms(1), of b n] assms(2) by (simp add: out up)
  have fin: "marks_only_at_end io Q (map_prod Some id (finalize_success io n (boot_fact n src tx b')))" for tx
    by (rule marks_finalize [OF assms(1)]) (simp add: b')
  show ?thesis
  proof (cases e)
    case None
    then show ?thesis using marks_finalize [OF assms(1), of b n] assms(2) by (simp add: settle_def out)
  next
    case (Some m)
    then show ?thesis
      using fin marks_now [of Q b' io "Some (Some m)", OF b'] by (cases up) (simp_all add: settle_def out up)
  qed
qed

lemma marks_agent_bootstrap:
  assumes "boot_keeps io Q" and "Q (b_out b)"
  shows "marks_only_at_end io Q (run_agent_bootstrap io n bs b)"
proof -
  have fin: "marks_only_at_end io Q (map_prod Some id (finalize_success io n b'))" if "b_out b' = b_out b" for b'
    by (rule marks_finalize [OF assms(1)]) (simp add: that assms(2))
  have now: "marks_only_at_end io Q (r, b')" if "b_out b' = b_out b" for r b'
    by (rule marks_now) (simp add: that assms(2))
  show ?thesis
    unfolding run_agent_bootstrap_def Let_def split_beta
    by (simp add: fin now split: sum.split option.split)
qed

lemma marks_install:
  assumes "boot_keeps io Q" and "Q (b_out b)"
  shows "marks_only_at_end io Q (install_app io n b)"
proof -
  note settle = marks_settle [OF assms(1)]
  have script: "marks_only_at_end io Q (map_prod Some id (settle io n s t (run_script io n b)))" for s t
    by (rule settle) (rule run_script_keeps [OF assms])
  have cheat: "marks_only_at_end io Q (map_prod Some id (settle io n s t (e, snd (run_cheatsheet n b))))" for s t e
    by (rule settle) (simp add: assms(2))
  have mode: "marks_only_at_end io Q (map_prod Some id (settle io n s t (e, snd (run_agent_mode io n b))))" for s t e
    by (rule settle) (simp add: run_agent_mode_keeps [OF assms])
  have now: "marks_only_at_end io Q (r, snd (run_agent_mode io n b))" for r
    by (rule marks_now [of Q, OF run_agent_mode_keeps [OF assms]])
  show ?thesis
    unfolding install_app_def Let_def split_beta
    by (simp add: script cheat mode now marks_agent_bootstrap [OF assms] marks_now [of Q] assms(2)
        split: option.split)
qed


subsection \<open>Properties\<close>

text \<open>
  C10: the marker is the last thing a successful first run does. Take any property of the outside
  that polling, the registration request, the install script and the agent script keep. Then either
  it still holds at the end, so that nothing wrote the marker; or the marker was written as the last
  action, in a world with the property, and the answer of that write is what is returned. So, if
  that write cannot fail, an error is never returned with the marker in place.
\<close>

theorem marker_only_after_success:
  assumes "boot_keeps io Q" and "Q (b_out b)"
  shows "(Q (b_out (snd (maybe_run_first_run io n b))) \<or>
      (\<exists>w. Q w \<and> fst (maybe_run_first_run io n b) = Some (fst (bo_write_marker io w)) \<and>
         b_out (snd (maybe_run_first_run io n b)) = snd (bo_write_marker io w))) \<and>
    ((\<forall>w. fst (bo_write_marker io w) = None) \<longrightarrow> fst (maybe_run_first_run io n b) \<noteq> Some None \<longrightarrow>
      Q (b_out (snd (maybe_run_first_run io n b))))"
proof -
  have again: "marks_only_at_end io Q (install_app io n (snd (app_is_listening io n b)))"
    by (rule marks_install [OF assms(1) app_is_listening_keeps [OF assms]])
  have reg: "marks_only_at_end io Q (Some None, register_app io n (snd (app_is_listening io n b)))"
    by (rule marks_now [of Q]) (rule register_app_keeps [OF assms(1) app_is_listening_keeps [OF assms]])
  have "marks_only_at_end io Q (maybe_run_first_run io n b)"
    unfolding maybe_run_first_run_def Let_def split_beta
    by (simp add: again reg marks_install [OF assms] marks_now [of Q] assms(2) split: marker.split)
  then show ?thesis by (auto simp: marks_only_at_end_def)
qed

text \<open>
  C11: the first run moves the store only by the store's own operations, whatever mode it takes and
  whatever fails, if the driver and its tools do; so a well-formed database stays well-formed, and
  the cron entries of the scheduler are neither added to nor removed.
\<close>

theorem first_run_through_store:
  assumes "inputs_ok n" and "db_wf (boot_db b)" and "sched_inv lib (b_sched b)"
  shows "(\<exists>h. boot_db (snd (maybe_run_first_run io n b)) = run_history h (boot_db b)) \<and>
    db_wf (boot_db (snd (maybe_run_first_run io n b))) \<and>
    sched_inv lib (b_sched (snd (maybe_run_first_run io n b))) \<and>
    entry_names (b_sched (snd (maybe_run_first_run io n b))) = entry_names (b_sched b)"
proof -
  have kept: "boot_kept b (snd (maybe_run_first_run io n b))"
    by (rule maybe_run_first_run_kept [OF assms(1)])
  then have "reaches (boot_db b) (boot_db (snd (maybe_run_first_run io n b)))"
    by (simp add: boot_kept_def)
  then show ?thesis
    using kept assms(3) reaches_wf [OF _ assms(2)] sched_inv_cong
    by (auto simp: boot_kept_def reaches_def entry_names_def sched_inv_def)
qed

text \<open>
  In agent mode without a verifier, any run that was recorded counts as a completed
  installation: the marker is written whatever status the run has, a failed or timed-out one
  included, because only an error of \<^verbatim>\<open>RunNow\<close> itself is looked at.
\<close>

lemma any_recorded_run_marks_done:
  assumes "boot_mode (bi_env n) \<notin> {''script'', ''cheatsheet'', ''agent_script''}"
    and "cfg_bootstrap (b_cfg b) = Some bs" and "trim_space (sch_verify_prompt bs) = []"
    and "bo_marker io (b_out b) = MarkerAbsent"
    and "boot_access n (upsert_task (manual_task bs (sch_name bs) (sch_prompt bs))) b = (Inr (), b1)"
    and "fst (boot_run n (bi_run n) (sch_name bs) (sch_prompt bs) b1) = Some (run, None)"
  shows "\<exists>w. fst (maybe_run_first_run io n b) = Some (fst (bo_write_marker io w)) \<and>
    b_out (snd (maybe_run_first_run io n b)) = snd (bo_write_marker io w)"
proof -
  obtain b2 where run: "boot_run n (bi_run n) (sch_name bs) (sch_prompt bs) b1 = (Some (run, None), b2)"
    using assms(6) by (cases "boot_run n (bi_run n) (sch_name bs) (sch_prompt bs) b1") simp
  have "maybe_run_first_run io n b = map_prod Some id (finalize_success io n (first_run_fact n run b2))"
    using assms(1-5) run
    by (simp add: maybe_run_first_run_def nothing_to_install_def install_app_def run_agent_bootstrap_def Let_def)
  then show ?thesis by (auto simp: finalize_success_def Let_def split_beta)
qed

text \<open>A world that counts the writes of the marker, and a runner whose driver reports an error.\<close>

definition sample_boot_io :: "nat boot_io" where
  "sample_boot_io = \<lparr>bo_marker = (\<lambda>_. MarkerAbsent), bo_write_marker = (\<lambda>w. (None, Suc w)),
     bo_dial = (\<lambda>_ w. (False, w)), bo_tries = (\<lambda>_. 1), bo_pause = (\<lambda>w. (True, w)),
     bo_script = (\<lambda>_ _ w. (Ran [] 1 (Some ''exit status 1'') False, w)),
     bo_plane = \<lparr>cp_tables = (\<lambda>_. []), cp_post = (\<lambda>_ _ _ w. (Inl [], w)), cp_reply_auth = (\<lambda>_. None),
       cp_decode = Inl\<rparr>,
     bo_agent = \<lparr>ae_plan = (\<lambda>_ w. ((empty_plan, None), w)), ae_check = (\<lambda>_ w. (Inl [], w)), ae_ctx = (\<lambda>_. None),
       ae_remove_script = id, ae_read_script = (\<lambda>_. Inl []), ae_start = (\<lambda>w. (None, w)),
       ae_wake = (\<lambda>w. (Tick, w)), ae_snapshot = (\<lambda>w. (\<lparr>sn_exited = True, sn_exit = Some 1, sn_tail = [],
          sn_live_bytes = 0, sn_idle_seconds = 0, sn_elapsed_min = 0\<rparr>, w)),
       ae_probe = (\<lambda>_ w. (0, w)), ae_kill = id, ae_reap = (\<lambda>w. (Some (1, []), w))\<rparr>\<rparr>"

definition sample_boot_inputs :: "environ \<Rightarrow> (unit, unit) boot_inputs" where
  "sample_boot_inputs env = \<lparr>bi_env = env, bi_runner = Some sample_runner, bi_run = sample_inputs,
     bi_verify_run = sample_inputs, bi_faults = (\<lambda>_. no_faults), bi_now = int, bi_stamp = (\<lambda>_. ''now''),
     bi_iter_stamp = (\<lambda>_. ''now''), bi_parse_duration = (\<lambda>_. None), bi_duration_text = (\<lambda>_. ''30m''),
     bi_verifier_json = Inl, bi_sheet_json = (\<lambda>_. Inl []), bi_dollars = \<lparr>dl_not_positive = (\<lambda>_. False),
       dl_default = (), dl_overrun = (\<lambda>_ _. False), dl_cost_text = itoa, dl_budget_text = (\<lambda>_. [])\<rparr>,
     bi_iter = (\<lambda>_. []), bi_budget = 0, bi_budget_text = [], bi_script_path = ''/s'', bi_mkdir = None\<rparr>"

definition sample_bootstrap :: schedule where
  "sample_bootstrap = \<lparr>sch_name = ''bootstrap'', sch_cron = ''@yearly'', sch_prompt = ''p'', sch_tools = [],
     sch_model = [], sch_verify_prompt = [], sch_verify_model = [], sch_enabled = None\<rparr>"

definition sample_boot :: "schedule option \<Rightarrow> (unit, unit, nat) boot" where
  "sample_boot bs = \<lparr>b_sched = new_scheduler () sample_world, b_auth = None,
     b_cfg = \<lparr>cfg_state_dir = ''/d'', cfg_agent = \<lparr>ac_provider = ''claude'', ac_model = [], ac_api_key_env = [],
          ac_max_tool_calls = 0, ac_task_timeout = 0\<rparr>, cfg_schedules = [], cfg_bootstrap = bs,
       cfg_mcp = \<lparr>mcp_listen_addr = [], mcp_token_env = []\<rparr>, cfg_mcp_clients = []\<rparr>,
     b_ops = 0, b_out = 0\<rparr>"


definition script_env :: environ where
  "script_env k = (if k = ''AGENT_OPS_BOOTSTRAP_MODE'' then ''script''
     else if k = ''AGENT_OPS_BOOTSTRAP_SCRIPT'' then ''x'' else [])"

lemma sample_io_keeps: "boot_keeps sample_boot_io Q"
  by (simp add: boot_keeps_def sample_boot_io_def agent_keeps_def)

lemma trim_space_plain [simp]: "trim_space [] = []" "trim_space ''x'' = ''x''" "trim_space ''script'' = ''script''"
  "trim_space ''p'' = ''p''"
  by (simp_all add: trim_space_def trim_left_def trim_right_def is_space_def)

theorem marker_only_after_success_witness:
  "b_out (snd (maybe_run_first_run sample_boot_io (sample_boot_inputs script_env) (sample_boot None))) = 0"
proof -
  let ?r = "maybe_run_first_run sample_boot_io (sample_boot_inputs script_env) (sample_boot None)"
  have "fst ?r \<noteq> Some None"
    by (simp add: maybe_run_first_run_def nothing_to_install_def sample_boot_inputs_def sample_boot_def
        script_env_def sample_boot_io_def install_app_def boot_mode_def to_lower_def lower_char_def
        settle_def run_script_def app_is_listening_def declared_port_def atoi_def has_non_mcp_listener_def
        Let_def)
  moreover have "\<forall>w. fst (bo_write_marker sample_boot_io w) = None" by (simp add: sample_boot_io_def)
  moreover have "b_out (sample_boot None) = 0" by (simp add: sample_boot_def)
  ultimately show ?thesis
    using marker_only_after_success [where Q = "\<lambda>w. w = 0", OF sample_io_keeps, of "sample_boot None" "sample_boot_inputs script_env"]
    by blast
qed

definition empty_cron :: "unit cron_lib" where
  "empty_cron = \<lparr>cron_add = (\<lambda>_ _ c. (Inl [], c)), cron_remove = (\<lambda>_ c. c), cron_entries = (\<lambda>_. Map.empty)\<rparr>"

lemma sample_inputs_ok: "inputs_ok (sample_boot_inputs env)"
proof -
  have "reg_get (rn_tools sample_runner) k = None" for k by (simp add: new_runner_def reg_get_def)
  then show ?thesis
    using sample_driver
    by (simp add: inputs_ok_def sample_boot_inputs_def runner_ok_def tools_via_store_def)
      (simp add: new_runner_def reg_wf_def)
qed

theorem first_run_through_store_witness:
  "db_wf (boot_db (snd (maybe_run_first_run sample_boot_io (sample_boot_inputs script_env) (sample_boot None))))"
proof -
  have "db_wf (boot_db (sample_boot None))" by (simp add: sample_boot_def sched_db_def db_wf_init)
  moreover have "sched_inv empty_cron (b_sched (sample_boot None))"
    by (simp add: sched_inv_def sample_boot_def linked_def empty_cron_def)
  ultimately show ?thesis
    using first_run_through_store [OF sample_inputs_ok] by blast
qed

text \<open>The run of the sample runner ends as failed.\<close>

lemma sample_boot_access:
  "\<exists>b1. boot_access (sample_boot_inputs (\<lambda>_. [])) (upsert_task (manual_task sample_bootstrap ''bootstrap'' ''p''))
      (sample_boot (Some sample_bootstrap)) = (Inr (), b1) \<and>
    (\<exists>run. fst (boot_run (sample_boot_inputs (\<lambda>_. [])) sample_inputs ''bootstrap'' ''p'' b1) = Some (run, None) \<and>
      tr_status run = StatusFailed)"
  by (simp add: boot_access_def sample_boot_inputs_def sample_boot_def sched_db_def set_sched_db_def
      manual_task_def upsert_task_def upsert_task_stmts_def sample_bootstrap_def db_simps boot_run_def run_now_def
      get_task_def task_spec_def append_notify_clause_def run_task_def mark_inflight_def run_marked_def
      generate_run_id_def hex_string_def hex_digit_def new_runner_def read_mission_def conclude_run_def
      classify_def zero_run_def Let_def)

lemma any_recorded_run_marks_done_witness:
  "0 < b_out (snd (maybe_run_first_run sample_boot_io (sample_boot_inputs (\<lambda>_. []))
       (sample_boot (Some sample_bootstrap))))"
proof -
  let ?n = "sample_boot_inputs (\<lambda>_. [])" and ?b = "sample_boot (Some sample_bootstrap)"
  obtain b1 run where a: "boot_access ?n (upsert_task (manual_task sample_bootstrap (sch_name sample_bootstrap)
        (sch_prompt sample_bootstrap))) ?b = (Inr (), b1)"
    and r: "fst (boot_run ?n (bi_run ?n) (sch_name sample_bootstrap) (sch_prompt sample_bootstrap) b1) = Some (run, None)"
    using sample_boot_access by (auto simp: sample_bootstrap_def sample_boot_inputs_def)
  have "\<exists>w. fst (maybe_run_first_run sample_boot_io ?n ?b) = Some (fst (bo_write_marker sample_boot_io w)) \<and>
      b_out (snd (maybe_run_first_run sample_boot_io ?n ?b)) = snd (bo_write_marker sample_boot_io w)"
    by (rule any_recorded_run_marks_done [OF _ _ _ _ a r])
      (simp_all add: boot_mode_def sample_boot_inputs_def to_lower_def sample_boot_def sample_bootstrap_def
        sample_boot_io_def)
  then show ?thesis by (auto simp: sample_boot_io_def)
qed


text \<open>
  The token survives restarts. Whenever a token was returned it is not empty, and every later
  call in the same environment, whatever random bytes it would draw and whether or not it could
  write, returns the same token and leaves the file alone, as long as the directory and the file
  can be reached.
\<close>

lemma token_survives_restarts:
  assumes "ensure_token env io name f = (Inr tok, f')" and "tk_mkdir io' = None" and "tk_read io' = None"
  shows "tok \<noteq> [] \<and> ensure_token env io' name f' = (Inr tok, f')"
proof (cases "name \<noteq> [] \<and> env name \<noteq> []")
  case True
  then show ?thesis using assms(1) by (auto simp: ensure_token_def)
next
  case False
  have made: "tok \<noteq> [] \<and> f' = Some tok" if "make_token io f = (Inr tok, f')"
    using that by (cases "tk_rand io") (auto simp: make_token_def new_token_def split: option.splits)
  then have "tok \<noteq> [] \<and> f' = Some tok"
    using False assms(1) by (auto simp: ensure_token_def split: option.splits if_splits)
  then show ?thesis using False assms(2,3) by (auto simp: ensure_token_def)
qed

lemma token_survives_restarts_witness:
  "ensure_token (\<lambda>_. []) \<lparr>tk_mkdir = None, tk_read = None, tk_rand = Inr [7], tk_write = Some ([], None)\<rparr> ''T''
     (snd (ensure_token (\<lambda>_. []) \<lparr>tk_mkdir = None, tk_read = None, tk_rand = Inr [16], tk_write = None\<rparr> ''T'' None)) =
   (Inr ''ao_10'', Some ''ao_10'')"
proof -
  have "ensure_token (\<lambda>_. []) \<lparr>tk_mkdir = None, tk_read = None, tk_rand = Inr [16], tk_write = None\<rparr> ''T'' None =
      (Inr ''ao_10'', Some ''ao_10'')"
    by (simp add: ensure_token_def make_token_def new_token_def hex_string_def hex_digit_def char_of_def bit_0)
  from token_survives_restarts [OF this, of "\<lparr>tk_mkdir = None, tk_read = None, tk_rand = Inr [7], tk_write = Some ([], None)\<rparr>"] this
  show ?thesis by simp
qed

end
