(* ===== verification/McpClient.thy ===== *)
theory McpClient
  imports GoLib
begin

text \<open>
  \<^verbatim>\<open>internal/mcpclient\<close>: the outbound MCP clients. \<^verbatim>\<open>client.go\<close> and \<^verbatim>\<open>http.go\<close> are
  functions over a world of any type \<open>'w\<close>; the demultiplexer of \<^verbatim>\<open>stdio.go\<close> and the
  supervisor of \<^verbatim>\<open>manager.go\<close> are state machines, because a reader, callers, a supervisor
  and the subprocess move independently there. JSON codec, transport and processes are
  parameters.
\<close>

subsection \<open>JSON-RPC\<close>

record rpc_request =
  rq_id :: int
  rq_method :: string
  rq_params :: string

record rpc_error =
  re_code :: int
  re_message :: string

record rpc_response =
  rs_id :: int
  rs_result :: string
  rs_error :: "rpc_error option"

definition rpc_error_text :: "rpc_error \<Rightarrow> string" where
  "rpc_error_text e = ''mcp rpc error '' @ itoa (re_code e) @ '': '' @ re_message e"

definition next_id :: "int \<Rightarrow> int \<times> int" where
  "next_id n = (n + 1, n + 1)"

record call_result =
  cr_text :: string
  cr_is_error :: bool

text \<open>
  \<^verbatim>\<open>flattenContent\<close>; the decoder gives the texts of the blocks and the error flag.
\<close>

definition flatten_content :: "(string \<Rightarrow> string + string list \<times> bool) \<Rightarrow> string \<Rightarrow> string + call_result" where
  "flatten_content decode raw =
     (case decode raw of
        Inl e \<Rightarrow> Inl (''mcp: decode tools/call result: '' @ e)
      | Inr (texts, is_err) \<Rightarrow> Inr \<lparr>cr_text = join [nl] texts, cr_is_error = is_err\<rparr>)"

text \<open>\<open>encode name args\<close> is \<^verbatim>\<open>json.Marshal\<close> of the two fields.\<close>

definition call_tool_params :: "(string \<Rightarrow> string \<Rightarrow> string) \<Rightarrow> string \<Rightarrow> string \<Rightarrow> string" where
  "call_tool_params encode name args = encode name (if args = [] then ''{}'' else args)"

subsection \<open>Configuration\<close>

record client_config =
  cc_name :: string
  cc_transport :: string
  cc_url :: string
  cc_command :: string
  cc_args :: "string list"
  cc_auth_token :: string
  cc_env :: "string \<rightharpoonup> string"
  cc_max_backoff :: int

datatype client_kind = HttpClient | StdioClient

definition new_client :: "client_config \<Rightarrow> string + client_kind" where
  "new_client cfg =
     (if cc_transport cfg = ''http'' then
        (if cc_url cfg = [] then Inl (''mcpclient: '' @ cc_name cfg @ '': http transport requires URL'')
         else Inr HttpClient)
      else if cc_transport cfg = ''stdio'' then
        (if cc_command cfg = []
         then Inl (''mcpclient: '' @ cc_name cfg @ '': stdio transport requires Command'')
         else Inr StdioClient)
      else Inl (''mcpclient: '' @ cc_name cfg @ '': unknown transport '' @ quoted (cc_transport cfg) @
                '' (want http|stdio)''))"

subsection \<open>The HTTP client\<close>

record http_client =
  hc_cfg :: client_config
  hc_last_id :: int
  hc_closed :: bool

text \<open>
  \<open>hn_do url headers body w\<close> is the transport error, or the status and the body (as far as
  it was read, at most 8 MiB) with the error of reading it.
\<close>

record 'w http_net =
  hn_marshal :: "rpc_request \<Rightarrow> string"
  hn_new_request :: "string \<Rightarrow> string option"
  hn_do :: "string \<Rightarrow> (string \<times> string) list \<Rightarrow> string \<Rightarrow> 'w \<Rightarrow>
    (string + int \<times> string \<times> string option) \<times> 'w"
  hn_unmarshal :: "string \<Rightarrow> string + rpc_response"

definition auth_headers :: "client_config \<Rightarrow> (string \<times> string) list" where
  "auth_headers cfg =
     [(''Content-Type'', ''application/json''), (''Accept'', ''application/json'')] @
     (if cc_auth_token cfg \<noteq> [] then [(''Authorization'', ''Bearer '' @ cc_auth_token cfg)] else [])"

definition http_result ::
  "'w http_net \<Rightarrow> client_config \<Rightarrow> string \<Rightarrow> string + int \<times> string \<times> string option \<Rightarrow> string + string" where
  "http_result net cfg method resp =
     (case resp of
        Inl e \<Rightarrow> Inl (''mcpclient: '' @ cc_name cfg @ '': '' @ method @ '': http: '' @ e)
      | Inr (status, body, read_err) \<Rightarrow>
          (case read_err of
             Some e \<Rightarrow> Inl (''mcpclient: '' @ cc_name cfg @ '': read body: '' @ e)
           | None \<Rightarrow>
               if method = ''notifications/initialized'' then Inr []
               else if status < 200 \<or> 300 \<le> status
               then Inl (''mcpclient: '' @ cc_name cfg @ '': '' @ method @ '': http '' @ itoa status @
                         '': '' @ truncate_str body 400)
               else (case hn_unmarshal net body of
                   Inl e \<Rightarrow> Inl (''mcpclient: '' @ cc_name cfg @ '': decode response: '' @ e @
                                 '' (body='' @ truncate_str body 400 @ '')'')
                 | Inr r \<Rightarrow> (case rs_error r of
                       Some e \<Rightarrow> Inl (rpc_error_text e) | None \<Rightarrow> Inr (rs_result r)))))"

definition http_call ::
  "'w http_net \<Rightarrow> string \<Rightarrow> string \<Rightarrow> http_client \<Rightarrow> 'w \<Rightarrow> (string + string) \<times> http_client \<times> 'w" where
  "http_call net method params c w =
     (if hc_closed c then (Inl (''mcpclient: '' @ cc_name (hc_cfg c) @ '': closed''), c, w)
      else (let (i, n) = next_id (hc_last_id c);
                c' = c\<lparr>hc_last_id := n\<rparr>;
                body = hn_marshal net \<lparr>rq_id = i, rq_method = method, rq_params = params\<rparr>
            in case hn_new_request net (cc_url (hc_cfg c)) of
                 Some e \<Rightarrow> (Inl e, c', w)
               | None \<Rightarrow>
                   (let (resp, w') = hn_do net (cc_url (hc_cfg c)) (auth_headers (hc_cfg c)) body w
                    in (http_result net (hc_cfg c) method resp, c', w'))))"

definition http_initialize ::
  "'w http_net \<Rightarrow> string \<Rightarrow> http_client \<Rightarrow> 'w \<Rightarrow> string option \<times> http_client \<times> 'w" where
  "http_initialize net init_params c w =
     (case http_call net ''initialize'' init_params c w of
        (Inl e, c1, w1) \<Rightarrow> (Some e, c1, w1)
      | (Inr _, c1, w1) \<Rightarrow>
          (let (_, c2, w2) = http_call net ''notifications/initialized'' [] c1 w1 in (None, c2, w2)))"

definition http_list_tools ::
  "'w http_net \<Rightarrow> (string \<Rightarrow> string + 't list) \<Rightarrow> http_client \<Rightarrow> 'w \<Rightarrow>
   (string + 't list) \<times> http_client \<times> 'w" where
  "http_list_tools net decode c w =
     (let (r, c', w') = http_call net ''tools/list'' [] c w
      in (case r of
            Inl e \<Rightarrow> Inl e
          | Inr raw \<Rightarrow> map_sum (\<lambda>e. ''mcp: decode tools/list: '' @ e) id (decode raw), c', w'))"

definition http_call_tool ::
  "'w http_net \<Rightarrow> (string \<Rightarrow> string \<Rightarrow> string) \<Rightarrow> (string \<Rightarrow> string + string list \<times> bool) \<Rightarrow>
   string \<Rightarrow> string \<Rightarrow> http_client \<Rightarrow> 'w \<Rightarrow> (string + call_result) \<times> http_client \<times> 'w" where
  "http_call_tool net encode decode name args c w =
     (let (r, c', w') = http_call net ''tools/call'' (call_tool_params encode name args) c w
      in (case r of Inl e \<Rightarrow> Inl e | Inr raw \<Rightarrow> flatten_content decode raw, c', w'))"

subsection \<open>The stdio client: requests in flight\<close>

text \<open>
  \<open>sd_pend\<close> is the map of pending channels; a channel holds at most one response. \<open>sd_got\<close>
  are the answers that callers returned with, latest first.
\<close>

record stdio =
  sd_last_id :: int
  sd_pend :: "int \<rightharpoonup> rpc_response option"
  sd_got :: "(int \<times> rpc_response) list"

definition begin_call :: "stdio \<Rightarrow> int \<times> stdio" where
  "begin_call s = (let (i, n) = next_id (sd_last_id s)
     in (i, s\<lparr>sd_last_id := n, sd_pend := (sd_pend s)(i \<mapsto> None)\<rparr>))"

text \<open>One line in \<^verbatim>\<open>readLoop\<close>; \<open>None\<close> if the send on a full channel blocks the reader.\<close>

definition read_response :: "(string \<Rightarrow> rpc_response option) \<Rightarrow> string \<Rightarrow> stdio \<Rightarrow> stdio option" where
  "read_response decode line s =
     (if line = [] then Some s
      else case decode line of
        None \<Rightarrow> Some s
      | Some r \<Rightarrow>
          if rs_id r = 0 then Some s
          else (case sd_pend s (rs_id r) of
              None \<Rightarrow> Some s
            | Some None \<Rightarrow> Some (s\<lparr>sd_pend := (sd_pend s)(rs_id r \<mapsto> Some r)\<rparr>)
            | Some (Some _) \<Rightarrow> None))"

text \<open>The end of a call: with the response in its channel, or without (context, exit).\<close>

definition finish_call :: "int \<Rightarrow> stdio \<Rightarrow> stdio" where
  "finish_call i s =
     (case sd_pend s i of
        Some (Some r) \<Rightarrow> s\<lparr>sd_pend := (sd_pend s)(i := None), sd_got := (i, r) # sd_got s\<rparr>
      | _ \<Rightarrow> s\<lparr>sd_pend := (sd_pend s)(i := None)\<rparr>)"

definition abandon_call :: "int \<Rightarrow> stdio \<Rightarrow> stdio" where
  "abandon_call i s = s\<lparr>sd_pend := (sd_pend s)(i := None)\<rparr>"

definition stdio_init :: stdio where
  "stdio_init = \<lparr>sd_last_id = 0, sd_pend = Map.empty, sd_got = []\<rparr>"

inductive stdio_step :: "(string \<Rightarrow> rpc_response option) \<Rightarrow> stdio \<Rightarrow> stdio \<Rightarrow> bool"
  for decode where
  stdio_begin: "begin_call s = (i, s') \<Longrightarrow> stdio_step decode s s'"
| stdio_read: "read_response decode line s = Some s' \<Longrightarrow> stdio_step decode s s'"
| stdio_finish: "sd_pend s i = Some (Some r) \<Longrightarrow> stdio_step decode s (finish_call i s)"
| stdio_abandon: "sd_pend s i \<noteq> None \<Longrightarrow> stdio_step decode s (abandon_call i s)"

inductive_cases stdio_stepE: "stdio_step decode s s'"

definition stdio_inv :: "stdio \<Rightarrow> bool" where
  "stdio_inv s \<longleftrightarrow> 0 \<le> sd_last_id s \<and>
     (\<forall>i. sd_pend s i \<noteq> None \<longrightarrow> 1 \<le> i \<and> i \<le> sd_last_id s) \<and>
     (\<forall>i r. sd_pend s i = Some (Some r) \<longrightarrow> rs_id r = i) \<and>
     (\<forall>i r. (i, r) \<in> set (sd_got s) \<longrightarrow>
        rs_id r = i \<and> 1 \<le> i \<and> i \<le> sd_last_id s \<and> sd_pend s i = None) \<and>
     distinct (map fst (sd_got s))"

lemma stdio_invI:
  assumes "0 \<le> sd_last_id s"
    and "\<And>i. sd_pend s i \<noteq> None \<Longrightarrow> 1 \<le> i \<and> i \<le> sd_last_id s"
    and "\<And>i r. sd_pend s i = Some (Some r) \<Longrightarrow> rs_id r = i"
    and "\<And>i r. (i, r) \<in> set (sd_got s) \<Longrightarrow>
      rs_id r = i \<and> 1 \<le> i \<and> i \<le> sd_last_id s \<and> sd_pend s i = None"
    and "distinct (map fst (sd_got s))"
  shows "stdio_inv s"
  using assms unfolding stdio_inv_def by blast

lemma stdio_invD:
  assumes "stdio_inv s"
  shows "0 \<le> sd_last_id s"
    and "sd_pend s i \<noteq> None \<Longrightarrow> 1 \<le> i \<and> i \<le> sd_last_id s"
    and "sd_pend s i = Some (Some r) \<Longrightarrow> rs_id r = i"
    and "(i, r) \<in> set (sd_got s) \<Longrightarrow>
      rs_id r = i \<and> 1 \<le> i \<and> i \<le> sd_last_id s \<and> sd_pend s i = None"
    and "distinct (map fst (sd_got s))"
  using assms unfolding stdio_inv_def by blast+

lemma stdio_inv_init [wf_intros]: "stdio_inv stdio_init"
  by (simp add: stdio_inv_def stdio_init_def)

lemma stdio_inv_begin:
  assumes "stdio_inv s"
  shows "stdio_inv (snd (begin_call s))"
proof (rule stdio_invI)
  note inv = stdio_invD [OF assms]
  show "0 \<le> sd_last_id (snd (begin_call s))"
    using inv(1) by (simp add: begin_call_def next_id_def)
  show "1 \<le> i \<and> i \<le> sd_last_id (snd (begin_call s))" if "sd_pend (snd (begin_call s)) i \<noteq> None" for i
    using that inv(1) inv(2) [of i] by (auto simp: begin_call_def next_id_def split: if_splits)
  show "rs_id r = i" if "sd_pend (snd (begin_call s)) i = Some (Some r)" for i r
    using that inv(3) [of i r] by (simp add: begin_call_def next_id_def split: if_splits)
  show "rs_id r = i \<and> 1 \<le> i \<and> i \<le> sd_last_id (snd (begin_call s)) \<and> sd_pend (snd (begin_call s)) i = None"
    if "(i, r) \<in> set (sd_got (snd (begin_call s)))" for i r
    using that inv(4) [of i r] by (simp add: begin_call_def next_id_def)
  show "distinct (map fst (sd_got (snd (begin_call s))))"
    using inv(5) by (simp add: begin_call_def next_id_def)
qed

lemma stdio_inv_read:
  assumes "stdio_inv s" and "read_response decode line s = Some s'"
  shows "stdio_inv s'"
proof (cases "s' = s")
  case False
  then obtain r where r: "sd_pend s (rs_id r) = Some None"
    and s': "s' = s\<lparr>sd_pend := (sd_pend s)(rs_id r \<mapsto> Some r)\<rparr>"
    using assms(2) by (auto simp: read_response_def split: if_splits option.splits)
  note inv = stdio_invD [OF assms(1)]
  show ?thesis
  proof (rule stdio_invI)
    show "1 \<le> i \<and> i \<le> sd_last_id s'" if "sd_pend s' i \<noteq> None" for i
      using that inv(2) [of i] r by (auto simp: s' split: if_splits)
    show "rs_id q = i" if "sd_pend s' i = Some (Some q)" for i q
      using that inv(3) [of i q] by (simp add: s' split: if_splits)
    show "rs_id q = i \<and> 1 \<le> i \<and> i \<le> sd_last_id s' \<and> sd_pend s' i = None"
      if "(i, q) \<in> set (sd_got s')" for i q
      using that inv(4) [of i q] r by (auto simp: s')
  qed (use inv(1,5) in \<open>simp_all add: s'\<close>)
qed (use assms(1) in simp)

lemma stdio_inv_drop:
  assumes "stdio_inv s"
  shows "stdio_inv (s\<lparr>sd_pend := (sd_pend s)(i := None)\<rparr>)"
proof (rule stdio_invI)
  note inv = stdio_invD [OF assms]
  let ?s = "s\<lparr>sd_pend := (sd_pend s)(i := None)\<rparr>"
  show "1 \<le> j \<and> j \<le> sd_last_id ?s" if "sd_pend ?s j \<noteq> None" for j
    using that inv(2) [of j] by (simp split: if_splits)
  show "rs_id q = j" if "sd_pend ?s j = Some (Some q)" for j q
    using that inv(3) [of j q] by (simp split: if_splits)
  show "rs_id q = j \<and> 1 \<le> j \<and> j \<le> sd_last_id ?s \<and> sd_pend ?s j = None"
    if "(j, q) \<in> set (sd_got ?s)" for j q
    using that inv(4) [of j q] by simp
qed (use stdio_invD(1,5) [OF assms] in simp_all)

lemma stdio_inv_finish:
  assumes "stdio_inv s" and "sd_pend s i = Some (Some r)"
  shows "stdio_inv (finish_call i s)"
proof -
  note inv = stdio_invD [OF assms(1)]
  have fin: "finish_call i s = s\<lparr>sd_pend := (sd_pend s)(i := None), sd_got := (i, r) # sd_got s\<rparr>"
    using assms(2) by (simp add: finish_call_def)
  have "i \<notin> fst ` set (sd_got s)" using inv(4) assms(2) by force
  then have "distinct (map fst (sd_got (finish_call i s)))" using inv(5) by (simp add: fin)
  moreover have "rs_id q = j \<and> 1 \<le> j \<and> j \<le> sd_last_id (finish_call i s) \<and> sd_pend (finish_call i s) j = None"
    if "(j, q) \<in> set (sd_got (finish_call i s))" for j q
    using that inv(2) [of i] inv(3) [of i r] inv(4) [of j q] assms(2) by (auto simp: fin)
  moreover have "1 \<le> j \<and> j \<le> sd_last_id (finish_call i s)"
    if "sd_pend (finish_call i s) j \<noteq> None" for j
    using that inv(2) [of j] by (simp add: fin split: if_splits)
  moreover have "rs_id q = j" if "sd_pend (finish_call i s) j = Some (Some q)" for j q
    using that inv(3) [of j q] by (simp add: fin split: if_splits)
  moreover have "0 \<le> sd_last_id (finish_call i s)" using inv(1) by (simp add: fin)
  ultimately show ?thesis by (intro stdio_invI) blast+
qed

lemma stdio_inv_step:
  assumes "stdio_step decode s s'" and "stdio_inv s"
  shows "stdio_inv s'"
  using assms(1)
proof cases
  case (stdio_begin i)
  then show ?thesis using stdio_inv_begin [OF assms(2)] by simp
next
  case (stdio_read line)
  then show ?thesis using stdio_inv_read [OF assms(2)] by simp
next
  case (stdio_finish i r)
  then show ?thesis using stdio_inv_finish [OF assms(2)] by simp
next
  case (stdio_abandon i)
  then show ?thesis using stdio_inv_drop [OF assms(2)] by (simp add: abandon_call_def)
qed

lemma stdio_inv_reachable: "(stdio_step decode)\<^sup>*\<^sup>* stdio_init s \<Longrightarrow> stdio_inv s"
  by (induction rule: rtranclp_induct) (auto intro: wf_intros stdio_inv_step)

subsection \<open>The supervisor\<close>

definition max_backoff :: "client_config \<Rightarrow> duration" where
  "max_backoff cfg =
     (let m = word_of_int (cc_max_backoff cfg) * second
      in if sint m \<le> 0 then 30 * second else m)"

definition next_backoff :: "duration \<Rightarrow> duration \<Rightarrow> duration" where
  "next_backoff b limit = (let b2 = b * 2 in if sint limit < sint b2 then limit else b2)"

text \<open>
  The subprocess as \<^verbatim>\<open>Done()\<close> shows it: no channel at all, an open one, a closed one. The
  supervisor's place in its loop: a \<^verbatim>\<open>select\<close> evaluates its channels once, on entry, so
  \<open>Watching\<close> and \<open>Backing\<close> carry whether \<^verbatim>\<open>m.stop\<close> was still a channel then. \<open>sv_stopped\<close> is
  the close of that channel, \<open>sv_stop_nil\<close> the assignment of \<^verbatim>\<open>nil\<close> to the field that follows
  it, which the supervisor reads without the manager's lock.
\<close>

datatype proc = NoProc | Alive | Exited

datatype sup_phase =
  Looping | Watching bool | Asking | Pausing | Backing bool | Starting | Initializing | Ended

record supervisor =
  sv_phase :: sup_phase
  sv_proc :: proc
  sv_closed :: bool
  sv_stopped :: bool
  sv_stop_nil :: bool
  sv_backoff :: duration

definition sup_init :: supervisor where
  "sup_init = \<lparr>sv_phase = Looping, sv_proc = Alive, sv_closed = False, sv_stopped = False,
     sv_stop_nil = False, sv_backoff = second\<rparr>"

text \<open>The supervisor's own steps; \<open>limit\<close> is its maximal backoff.\<close>

inductive sup_step :: "duration \<Rightarrow> supervisor \<Rightarrow> supervisor \<Rightarrow> bool" for limit where
  sup_watch:
    "sv_phase s = Looping \<Longrightarrow> sup_step limit s (s\<lparr>sv_phase := Watching (\<not> sv_stop_nil s)\<rparr>)"
| sup_seen:
    "sv_phase s = Watching h \<Longrightarrow> sv_proc s = Exited \<Longrightarrow> sup_step limit s (s\<lparr>sv_phase := Asking\<rparr>)"
| sup_exit_closed:
    "sv_phase s = Asking \<Longrightarrow> sv_closed s \<Longrightarrow> sup_step limit s (s\<lparr>sv_phase := Ended\<rparr>)"
| sup_exit:
    "sv_phase s = Asking \<Longrightarrow> \<not> sv_closed s \<Longrightarrow> sup_step limit s (s\<lparr>sv_phase := Pausing\<rparr>)"
| sup_pause:
    "sv_phase s = Pausing \<Longrightarrow> sup_step limit s (s\<lparr>sv_phase := Backing (\<not> sv_stop_nil s)\<rparr>)"
| sup_stop:
    "sv_phase s \<in> {Watching True, Backing True} \<Longrightarrow> sv_stopped s \<Longrightarrow>
       sup_step limit s (s\<lparr>sv_phase := Ended\<rparr>)"
| sup_backed:
    "sv_phase s = Backing h \<Longrightarrow> sup_step limit s (s\<lparr>sv_phase := Starting, sv_proc := NoProc\<rparr>)"
| sup_started:
    "sv_phase s = Starting \<Longrightarrow> \<not> sv_closed s \<Longrightarrow>
       sup_step limit s (s\<lparr>sv_phase := Initializing, sv_proc := Alive\<rparr>)"
| sup_start_failed:
    "sv_phase s = Starting \<Longrightarrow>
       sup_step limit s (s\<lparr>sv_phase := Looping, sv_backoff := next_backoff (sv_backoff s) limit\<rparr>)"
| sup_initialized:
    "sv_phase s = Initializing \<Longrightarrow> sup_step limit s (s\<lparr>sv_phase := Looping, sv_backoff := second\<rparr>)"
| sup_init_failed:
    "sv_phase s = Initializing \<Longrightarrow>
       sup_step limit s (s\<lparr>sv_phase := Looping, sv_backoff := next_backoff (sv_backoff s) limit\<rparr>)"

text \<open>
  What happens around it: the subprocess exits; \<^verbatim>\<open>Manager.Close\<close> closes the channel, forgets
  it, and then closes the client.
\<close>

inductive sup_env :: "supervisor \<Rightarrow> supervisor \<Rightarrow> bool" where
  env_exit: "sv_proc s = Alive \<Longrightarrow> sup_env s (s\<lparr>sv_proc := Exited\<rparr>)"
| env_stop: "sup_env s (s\<lparr>sv_stopped := True\<rparr>)"
| env_stop_nil: "sv_stopped s \<Longrightarrow> sup_env s (s\<lparr>sv_stop_nil := True\<rparr>)"
| env_close: "sv_stop_nil s \<Longrightarrow> sup_env s (s\<lparr>sv_closed := True\<rparr>)"

definition sup_any :: "duration \<Rightarrow> supervisor \<Rightarrow> supervisor \<Rightarrow> bool" where
  "sup_any limit s s' \<longleftrightarrow> sup_step limit s s' \<or> sup_env s s'"

inductive_cases sup_stepE: "sup_step limit s s'"
inductive_cases sup_envE: "sup_env s s'"

definition backoff_inv :: "duration \<Rightarrow> supervisor \<Rightarrow> bool" where
  "backoff_inv limit s \<longleftrightarrow> (\<exists>k. sint (sv_backoff s) = min (2 ^ k * 1000000000) (sint limit))"

lemma sint_double:
  assumes "0 \<le> sint (b :: duration)" and "sint b < 2 ^ 62"
  shows "sint (b * 2) = 2 * sint b"
proof -
  have "b * 2 = word_of_int (sint b * 2)" by simp
  then have "sint (b * 2) = sint (word_of_int (sint b * 2) :: duration)" by simp
  also have "\<dots> = sint b * 2" by (rule sint_of_int_range) (use assms in auto)
  finally show ?thesis by simp
qed

lemma next_backoff_value:
  assumes "0 \<le> sint b" and "sint b \<le> sint limit" and "sint limit < 2 ^ 62"
  shows "sint (next_backoff b limit) = min (2 * sint b) (sint limit)"
  using assms sint_double [of b] by (auto simp: next_backoff_def Let_def)

lemma backoff_inv_next:
  assumes "backoff_inv limit s" and "1000000000 \<le> sint limit" and "sint limit < 2 ^ 62"
  shows "\<exists>k. sint (next_backoff (sv_backoff s) limit) = min (2 ^ k * 1000000000) (sint limit)"
proof -
  obtain k where k: "sint (sv_backoff s) = min (2 ^ k * 1000000000) (sint limit)"
    using assms(1) by (auto simp: backoff_inv_def)
  then have "sint (next_backoff (sv_backoff s) limit) = min (2 * min (2 ^ k * 1000000000) (sint limit)) (sint limit)"
    using next_backoff_value [of "sv_backoff s" limit] assms(2,3) by simp
  also have "\<dots> = min (2 ^ Suc k * 1000000000) (sint limit)"
    using assms(2) by (auto simp: min_def)
  finally show ?thesis by blast
qed

lemma backoff_inv_second: "1000000000 \<le> sint limit \<Longrightarrow> sv_backoff s = second \<Longrightarrow> backoff_inv limit s"
  unfolding backoff_inv_def by (intro exI [of _ 0]) simp

lemma backoff_inv_step:
  assumes "sup_any limit s s'" and "backoff_inv limit s"
    and "1000000000 \<le> sint limit" and "sint limit < 2 ^ 62"
  shows "backoff_inv limit s'"
proof -
  have "sv_backoff s' = sv_backoff s \<or> sv_backoff s' = second \<or>
      sv_backoff s' = next_backoff (sv_backoff s) limit"
    using assms(1) unfolding sup_any_def by (auto elim!: sup_stepE sup_envE)
  then show ?thesis
    using assms(2) backoff_inv_next [OF assms(2-4)] backoff_inv_second [OF assms(3), of s']
    by (auto simp: backoff_inv_def)
qed

lemma backoff_inv_reachable:
  assumes "(sup_any limit)\<^sup>*\<^sup>* sup_init s" and "1000000000 \<le> sint limit" and "sint limit < 2 ^ 62"
  shows "backoff_inv limit s"
  using assms(1)
proof (induction rule: rtranclp_induct)
  case base
  show ?case using assms(2) by (rule backoff_inv_second) (simp add: sup_init_def)
next
  case (step s s')
  then show ?case using backoff_inv_step assms(2,3) by blast
qed

text \<open>
  A supervisor that waits on a channel that does not exist; it is \<open>lost\<close> when it has not
  even the stop channel to wait on.
\<close>

definition orphaned :: "supervisor \<Rightarrow> bool" where
  "orphaned s \<longleftrightarrow> (\<exists>h. sv_phase s = Watching h) \<and> sv_proc s = NoProc"

definition lost :: "supervisor \<Rightarrow> bool" where
  "lost s \<longleftrightarrow> sv_phase s = Watching False \<and> sv_proc s = NoProc"

lemma orphaned_step:
  "orphaned s \<Longrightarrow> sup_any limit s s' \<Longrightarrow> \<not> sv_stopped s \<Longrightarrow> orphaned s'"
  unfolding orphaned_def sup_any_def by (auto elim!: sup_stepE sup_envE)

lemma lost_step: "lost s \<Longrightarrow> sup_any limit s s' \<Longrightarrow> lost s'"
  unfolding lost_def sup_any_def by (auto elim!: sup_stepE sup_envE)

lemma lost_reachable_lost: "(sup_any limit)\<^sup>*\<^sup>* s s' \<Longrightarrow> lost s \<Longrightarrow> lost s'"
  by (induction rule: rtranclp_induct) (auto intro: lost_step)

lemma lost_no_step: "lost s \<Longrightarrow> \<not> sup_step limit s s'"
  unfolding lost_def by (auto elim!: sup_stepE)

lemma stopped_step: "sup_any limit s s' \<Longrightarrow> sv_stopped s \<Longrightarrow> sv_stopped s'"
  unfolding sup_any_def by (auto elim!: sup_stepE sup_envE)

text \<open>The way to the moment between forgetting the old process and starting the next.\<close>

abbreviation "restarting \<equiv> sup_init\<lparr>sv_phase := Starting, sv_proc := NoProc\<rparr>"

lemma sup_anyI: "sup_step limit s s' \<Longrightarrow> sup_any limit s s'" "sup_env s s' \<Longrightarrow> sup_any limit s s'"
  by (simp_all add: sup_any_def)

lemma restarting_reachable: "(sup_any limit)\<^sup>*\<^sup>* sup_init restarting"
proof -
  let ?s1 = "sup_init\<lparr>sv_proc := Exited\<rparr>"
  let ?s2 = "?s1\<lparr>sv_phase := Watching True\<rparr>"
  have "sup_any limit sup_init ?s1" by (rule sup_anyI(2), rule env_exit) (simp add: sup_init_def)
  moreover have "sup_any limit ?s1 ?s2"
    using sup_watch [of ?s1 limit] by (intro sup_anyI(1)) (simp add: sup_init_def)
  moreover have "sup_any limit ?s2 (?s2\<lparr>sv_phase := Asking\<rparr>)"
    by (rule sup_anyI(1), rule sup_seen [of _ True]) simp_all
  moreover have "sup_any limit (?s2\<lparr>sv_phase := Asking\<rparr>) (?s2\<lparr>sv_phase := Pausing\<rparr>)"
    using sup_exit [of "?s2\<lparr>sv_phase := Asking\<rparr>" limit] by (intro sup_anyI(1)) (simp add: sup_init_def)
  moreover have "sup_any limit (?s2\<lparr>sv_phase := Pausing\<rparr>) (?s2\<lparr>sv_phase := Backing True\<rparr>)"
    using sup_pause [of "?s2\<lparr>sv_phase := Pausing\<rparr>" limit] by (intro sup_anyI(1)) (simp add: sup_init_def)
  moreover have "sup_any limit (?s2\<lparr>sv_phase := Backing True\<rparr>) restarting"
    using sup_backed [of "?s2\<lparr>sv_phase := Backing True\<rparr>" True limit]
    by (intro sup_anyI(1)) (simp add: sup_init_def)
  ultimately show ?thesis by (meson rtranclp.intros)
qed

lemma failed_start_reachable:
  assumes "sv_phase s = Starting" and "sv_proc s = NoProc"
  shows "\<exists>t. (sup_any limit)\<^sup>*\<^sup>* s t \<and> sv_phase t = Watching (\<not> sv_stop_nil s) \<and> sv_proc t = NoProc \<and>
    sv_closed t = sv_closed s \<and> sv_stopped t = sv_stopped s \<and> sv_stop_nil t = sv_stop_nil s"
proof -
  let ?t = "s\<lparr>sv_phase := Looping, sv_backoff := next_backoff (sv_backoff s) limit\<rparr>"
  have "sup_any limit s ?t" by (rule sup_anyI(1), rule sup_start_failed [OF assms(1)])
  moreover have "sup_any limit ?t (?t\<lparr>sv_phase := Watching (\<not> sv_stop_nil s)\<rparr>)"
    using sup_watch [of ?t limit] by (intro sup_anyI(1)) simp
  ultimately have "(sup_any limit)\<^sup>*\<^sup>* s (?t\<lparr>sv_phase := Watching (\<not> sv_stop_nil s)\<rparr>)"
    by (meson rtranclp.intros)
  then show ?thesis
    using assms(2) by (intro exI [of _ "?t\<lparr>sv_phase := Watching (\<not> sv_stop_nil s)\<rparr>"]) simp
qed

lemma orphaned_reachable:
  "\<exists>t. (sup_any limit)\<^sup>*\<^sup>* sup_init t \<and> orphaned t \<and> \<not> sv_closed t \<and> \<not> sv_stopped t"
  using failed_start_reachable [of restarting limit] restarting_reachable [of limit]
  by (auto simp: orphaned_def sup_init_def intro: rtranclp_trans)

subsection \<open>Booting all clients\<close>

text \<open>A client as the manager sees it; every operation acts on the world.\<close>

record ('w, 't) client =
  cl_name :: string
  cl_kind :: client_kind
  cl_start :: "'w \<Rightarrow> string option \<times> 'w"
  cl_initialize :: "'w \<Rightarrow> string option \<times> 'w"
  cl_list_tools :: "'w \<Rightarrow> (string + 't list) \<times> 'w"
  cl_close :: "'w \<Rightarrow> string option \<times> 'w"

text \<open>\<open>mk cfg\<close> is \<^verbatim>\<open>New\<close> with the transport's constructor.\<close>

definition boot_one ::
  "(client_config \<Rightarrow> string + ('w, 't) client) \<Rightarrow> client_config \<Rightarrow> 'w \<Rightarrow>
   (('w, 't) client \<times> 't list) option \<times> 'w" where
  "boot_one mk cfg w =
     (case mk cfg of
        Inl _ \<Rightarrow> (None, w)
      | Inr c \<Rightarrow>
          (case cl_start c w of
             (Some _, w1) \<Rightarrow> (None, w1)
           | (None, w1) \<Rightarrow>
               (case cl_initialize c w1 of
                  (Some _, w2) \<Rightarrow> (None, snd (cl_close c w2))
                | (None, w2) \<Rightarrow>
                    (case cl_list_tools c w2 of
                       (Inl _, w3) \<Rightarrow> (None, snd (cl_close c w3))
                     | (Inr tools, w3) \<Rightarrow> (Some (c, tools), w3)))))"

fun boot ::
  "(client_config \<Rightarrow> string + ('w, 't) client) \<Rightarrow> client_config list \<Rightarrow> 'w \<Rightarrow>
   (('w, 't) client \<times> 't list) list \<times> 'w" where
  "boot mk [] w = ([], w)"
| "boot mk (cfg # cfgs) w =
     (let (r, w1) = boot_one mk cfg w; (rest, w2) = boot mk cfgs w1
      in (case r of None \<Rightarrow> rest | Some ct \<Rightarrow> ct # rest, w2))"

text \<open>\<^verbatim>\<open>Manager.Close\<close> on the clients: all are closed, the first error is reported.\<close>

fun close_clients :: "('w, 't) client list \<Rightarrow> 'w \<Rightarrow> string option \<times> 'w" where
  "close_clients [] w = (None, w)"
| "close_clients (c # cs) w =
     (let (e, w1) = cl_close c w; (e', w2) = close_clients cs w1
      in (case e of None \<Rightarrow> e' | Some m \<Rightarrow> Some (''mcpclient: close '' @ cl_name c @ '': '' @ m), w2))"

text \<open>The processes that run, as the world shows them.\<close>

definition honest_client :: "('w \<Rightarrow> string set) \<Rightarrow> ('w, 't) client \<Rightarrow> bool" where
  "honest_client running c \<longleftrightarrow>
     (\<forall>w e w'. cl_start c w = (e, w') \<longrightarrow>
        running w' = (if e = None then insert (cl_name c) (running w) else running w)) \<and>
     (\<forall>w. running (snd (cl_initialize c w)) = running w) \<and>
     (\<forall>w. running (snd (cl_list_tools c w)) = running w) \<and>
     (\<forall>w. running (snd (cl_close c w)) = running w - {cl_name c})"

lemma boot_one_running:
  assumes "\<And>c. mk cfg = Inr c \<Longrightarrow> honest_client running c \<and> cl_name c = cc_name cfg"
    and "cc_name cfg \<notin> running w" and "boot_one mk cfg w = (r, w')"
  shows "running w' = running w \<union> (if r = None then {} else {cc_name cfg}) \<and>
    (\<forall>c ts. r = Some (c, ts) \<longrightarrow> cl_name c = cc_name cfg)"
proof (cases "mk cfg")
  case (Inr c)
  obtain e1 w1 where 1: "cl_start c w = (e1, w1)" by fastforce
  obtain e2 w2 where 2: "cl_initialize c w1 = (e2, w2)" by fastforce
  obtain e3 w3 where 3: "cl_list_tools c w2 = (e3, w3)" by fastforce
  have h: "honest_client running c" "cl_name c = cc_name cfg" using assms(1) [OF Inr] by auto
  have "running w1 = (if e1 = None then insert (cc_name cfg) (running w) else running w)"
    "running w2 = running w1" "running w3 = running w2"
    "\<And>v. running (snd (cl_close c v)) = running v - {cc_name cfg}"
    using h 1 2 3 unfolding honest_client_def by (metis snd_conv)+
  with assms(2,3) Inr 1 2 3 h(2) show ?thesis
    by (auto simp: boot_one_def split: option.splits sum.splits)
qed (use assms(3) in \<open>auto simp: boot_one_def\<close>)

subsection \<open>Properties\<close>

text \<open>
  Responses reach their callers. In every state that a stdio client can reach, with calls
  beginning, ending and given up in any order and with any lines from the subprocess, the id of
  a new call is in use nowhere, a caller returns only with the response to its own id, and no
  id is answered twice.
\<close>

lemma stdio_responses_match:
  assumes "(stdio_step decode)\<^sup>*\<^sup>* stdio_init s"
  shows "(\<forall>(i, r) \<in> set (sd_got s). rs_id r = i) \<and> distinct (map fst (sd_got s)) \<and>
    (let i = fst (begin_call s) in sd_pend s i = None \<and> i \<notin> fst ` set (sd_got s) \<and> i \<noteq> 0)"
proof -
  note inv = stdio_invD [OF stdio_inv_reachable [OF assms]]
  have new: "fst (begin_call s) = sd_last_id s + 1" by (simp add: begin_call_def next_id_def)
  have "sd_pend s (sd_last_id s + 1) = None" using inv(2) [of "sd_last_id s + 1"] by force
  moreover have "sd_last_id s + 1 \<notin> fst ` set (sd_got s)" using inv(4) by force
  ultimately show ?thesis using inv(1,4,5) by (auto simp: new Let_def)
qed

lemma stdio_responses_match_witness:
  "\<exists>s. (stdio_step (\<lambda>_. Some \<lparr>rs_id = 1, rs_result = ''ok'', rs_error = None\<rparr>))\<^sup>*\<^sup>* stdio_init s \<and>
     sd_got s = [(1, \<lparr>rs_id = 1, rs_result = ''ok'', rs_error = None\<rparr>)] \<and> fst (begin_call s) \<noteq> 0"
proof -
  let ?r = "\<lparr>rs_id = 1, rs_result = ''ok'', rs_error = None\<rparr>"
  let ?step = "stdio_step (\<lambda>_. Some ?r)"
  define s1 where "s1 = snd (begin_call stdio_init)"
  define s2 where "s2 = s1\<lparr>sd_pend := (sd_pend s1)(1 \<mapsto> Some ?r)\<rparr>"
  define s3 where "s3 = finish_call 1 s2"
  have pend: "sd_pend s1 1 = Some None"
    by (simp add: s1_def begin_call_def next_id_def stdio_init_def)
  have "?step stdio_init s1" by (rule stdio_begin [of _ "fst (begin_call stdio_init)"]) (simp add: s1_def)
  moreover have "?step s1 s2"
    by (rule stdio_read [of _ "''x''"]) (simp add: read_response_def pend s2_def)
  moreover have "?step s2 s3" unfolding s3_def by (rule stdio_finish [of _ _ ?r]) (simp add: s2_def)
  ultimately have reach: "?step\<^sup>*\<^sup>* stdio_init s3" by (meson rtranclp.intros)
  moreover have "sd_got s3 = [(1, ?r)]"
    by (simp add: s3_def finish_call_def s2_def s1_def begin_call_def next_id_def stdio_init_def)
  ultimately show ?thesis
    using stdio_responses_match [OF reach] by (auto simp: Let_def)
qed

text \<open>
  The restart delays. With a limit of at least a second (and below 2 to the 62
  nanoseconds), every delay of the supervisor is the smaller of the limit and of a second
  doubled some number of times: it is positive, never above the limit, and does not wrap.
\<close>

lemma backoff_doubles_to_limit:
  assumes "(sup_any limit)\<^sup>*\<^sup>* sup_init s" and "1000000000 \<le> sint limit" and "sint limit < 2 ^ 62"
  shows "(\<exists>k. sint (sv_backoff s) = min (2 ^ k * 1000000000) (sint limit)) \<and>
    1000000000 \<le> sint (sv_backoff s) \<and> sint (sv_backoff s) \<le> sint limit"
proof -
  obtain k where k: "sint (sv_backoff s) = min (2 ^ k * 1000000000) (sint limit)"
    using backoff_inv_reachable [OF assms] by (auto simp: backoff_inv_def)
  moreover have "(1 :: int) \<le> 2 ^ k" by simp
  ultimately show ?thesis using assms(2) by auto
qed

lemma backoff_doubles_to_limit_witness:
  "next_backoff (16 * second) (30 * second) = 30 * second \<and>
   (\<exists>k. sint (sv_backoff sup_init) = min (2 ^ k * 1000000000) (sint (30 * second)))"
  using backoff_doubles_to_limit [of "30 * second" sup_init] by (simp add: next_backoff_def)

text \<open>
  A restart that fails to start the subprocess is the last. The state it leads to can be
  reached without anything being closed; from it, whatever happens, the supervisor takes no step
  until the manager is stopped: it waits on a channel that does not exist, and the growing
  delay is never used.
\<close>

lemma failed_restart_is_final:
  assumes "orphaned s" and "(sup_any limit)\<^sup>*\<^sup>* s s'" and "\<not> sv_stopped s'"
  shows "orphaned s' \<and> (\<nexists>s''. sup_step limit s' s'') \<and>
    (\<exists>t. (sup_any limit)\<^sup>*\<^sup>* sup_init t \<and> orphaned t \<and> \<not> sv_closed t \<and> \<not> sv_stopped t)"
proof (intro conjI)
  show orph: "orphaned s'"
    using assms(2,3)
  proof (induction rule: rtranclp_induct)
    case base
    show ?case by (rule assms(1))
  next
    case (step t u)
    then show ?case using orphaned_step stopped_step by blast
  qed
  show "\<nexists>s''. sup_step limit s' s''"
    using orph assms(3) by (auto simp: orphaned_def elim!: sup_stepE)
  show "\<exists>t. (sup_any limit)\<^sup>*\<^sup>* sup_init t \<and> orphaned t \<and> \<not> sv_closed t \<and> \<not> sv_stopped t"
    by (rule orphaned_reachable)
qed

lemma failed_restart_is_final_witness:
  "\<exists>t. orphaned t \<and> \<not> sv_stopped t \<and> (\<nexists>t'. sup_step (30 * second) t t')"
proof -
  obtain t where "orphaned t" "\<not> sv_stopped t"
    using orphaned_reachable [of "30 * second"] by blast
  with failed_restart_is_final [of t "30 * second" t] show ?thesis by blast
qed

text \<open>
  Once everything is closed the supervisor comes to an end of its own steps: each of them takes it
  forward. It has then ended, or it is lost.
\<close>

fun sup_rank :: "sup_phase \<Rightarrow> nat" where
  "sup_rank Ended = 0"
| "sup_rank Asking = 1"
| "sup_rank (Watching h) = 2"
| "sup_rank Looping = 3"
| "sup_rank Starting = 4"
| "sup_rank Initializing = 4"
| "sup_rank (Backing h) = 5"
| "sup_rank Pausing = 6"

definition all_closed :: "supervisor \<Rightarrow> bool" where
  "all_closed s \<longleftrightarrow> sv_stopped s \<and> sv_stop_nil s \<and> sv_closed s \<and> sv_proc s \<noteq> Alive"

lemma all_closed_step: "sup_step limit s s' \<Longrightarrow> all_closed s \<Longrightarrow> all_closed s' \<and> sup_rank (sv_phase s') < sup_rank (sv_phase s)"
  unfolding all_closed_def by (auto elim!: sup_stepE)

lemma all_closed_stuck:
  assumes "all_closed s" and "\<nexists>u. sup_step limit s u"
  shows "sv_phase s = Ended \<or> lost s"
proof (cases "sv_phase s")
  case (Watching h)
  have "sv_proc s \<noteq> Exited" using sup_seen [OF Watching] assms(2) by blast
  moreover have "\<not> h" using sup_stop [of s limit] Watching assms by (cases h) (auto simp: all_closed_def)
  ultimately show ?thesis using Watching assms(1) by (cases "sv_proc s") (auto simp: all_closed_def lost_def)
qed (use assms in \<open>auto simp: all_closed_def
       dest: sup_watch sup_exit_closed sup_pause sup_backed sup_start_failed sup_init_failed\<close>)

lemma all_closed_run: "(sup_step limit)\<^sup>*\<^sup>* s t \<Longrightarrow> all_closed s \<Longrightarrow> all_closed t"
  by (induction rule: rtranclp_induct) (auto dest: all_closed_step)

lemma all_closed_ends: "all_closed s \<Longrightarrow> \<exists>t. (sup_step limit)\<^sup>*\<^sup>* s t \<and> (\<nexists>u. sup_step limit t u)"
proof (induction "sup_rank (sv_phase s)" arbitrary: s rule: less_induct)
  case less
  show ?case
  proof (cases "\<exists>u. sup_step limit s u")
    case True
    then obtain u where u: "sup_step limit s u" ..
    then obtain t where "(sup_step limit)\<^sup>*\<^sup>* u t" "\<nexists>v. sup_step limit t v"
      using less.hyps all_closed_step [OF u less.prems] by blast
    with u show ?thesis by (blast intro: converse_rtranclp_into_rtranclp)
  qed blast
qed

lemma lost_reachable:
  "\<exists>t. (sup_any limit)\<^sup>*\<^sup>* sup_init t \<and> lost t \<and> all_closed t"
proof -
  let ?s1 = "restarting\<lparr>sv_stopped := True\<rparr>"
  let ?s2 = "?s1\<lparr>sv_stop_nil := True\<rparr>"
  let ?s3 = "?s2\<lparr>sv_closed := True\<rparr>"
  have "sup_any limit restarting ?s1" by (rule sup_anyI(2), rule env_stop)
  moreover have "sup_any limit ?s1 ?s2" by (rule sup_anyI(2), rule env_stop_nil) simp
  moreover have "sup_any limit ?s2 ?s3" by (rule sup_anyI(2), rule env_close) simp
  ultimately have "(sup_any limit)\<^sup>*\<^sup>* sup_init ?s3"
    using restarting_reachable [of limit] by (meson rtranclp.rtrancl_into_rtrancl)
  moreover obtain t where "(sup_any limit)\<^sup>*\<^sup>* ?s3 t" "sv_phase t = Watching False" "sv_proc t = NoProc"
    "sv_closed t" "sv_stopped t" "sv_stop_nil t"
    using failed_start_reachable [of ?s3 limit] by auto
  ultimately show ?thesis by (auto simp: lost_def all_closed_def intro: rtranclp_trans)
qed

text \<open>
  C40: closing the manager may never return. \<^verbatim>\<open>Manager.Close\<close> waits until every supervisor has
  ended. When everything is closed a supervisor makes finitely many further steps, and where
  it stops it has either ended or is lost: the restart it was about to make was refused because
  the client is closed, and the channel that would stop it had been replaced by \<^verbatim>\<open>nil\<close> before
  the supervisor looked at it again. The second case can be reached, and nothing leads out of it.
\<close>

theorem manager_close_can_hang:
  assumes "all_closed s"
  shows "(\<exists>t. (sup_step limit)\<^sup>*\<^sup>* s t \<and> (\<nexists>u. sup_step limit t u)) \<and>
    (\<forall>t. (sup_step limit)\<^sup>*\<^sup>* s t \<and> (\<nexists>u. sup_step limit t u) \<longrightarrow> sv_phase t = Ended \<or> lost t) \<and>
    (\<exists>t. (sup_any limit)\<^sup>*\<^sup>* sup_init t \<and> all_closed t \<and> lost t \<and>
       (\<forall>t'. (sup_any limit)\<^sup>*\<^sup>* t t' \<longrightarrow> sv_phase t' \<noteq> Ended \<and> (\<nexists>u. sup_step limit t' u)))"
proof (intro conjI)
  show "\<exists>t. (sup_step limit)\<^sup>*\<^sup>* s t \<and> (\<nexists>u. sup_step limit t u)" by (rule all_closed_ends [OF assms])
  show "\<forall>t. (sup_step limit)\<^sup>*\<^sup>* s t \<and> (\<nexists>u. sup_step limit t u) \<longrightarrow> sv_phase t = Ended \<or> lost t"
    using all_closed_stuck all_closed_run assms by blast
  obtain t where t: "(sup_any limit)\<^sup>*\<^sup>* sup_init t" "lost t" "all_closed t"
    using lost_reachable by blast
  have "sv_phase t' \<noteq> Ended \<and> (\<nexists>u. sup_step limit t' u)" if "(sup_any limit)\<^sup>*\<^sup>* t t'" for t'
    using lost_reachable_lost [OF that t(2)] lost_no_step by (auto simp: lost_def)
  with t show "\<exists>t. (sup_any limit)\<^sup>*\<^sup>* sup_init t \<and> all_closed t \<and> lost t \<and>
       (\<forall>t'. (sup_any limit)\<^sup>*\<^sup>* t t' \<longrightarrow> sv_phase t' \<noteq> Ended \<and> (\<nexists>u. sup_step limit t' u))" by blast
qed

theorem manager_close_can_hang_witness:
  "\<exists>t. all_closed t \<and> sv_phase t \<noteq> Ended \<and> (\<nexists>u. sup_step (30 * second) t u)"
proof -
  let ?s = "sup_init\<lparr>sv_proc := Exited, sv_stopped := True, sv_stop_nil := True, sv_closed := True\<rparr>"
  have "all_closed ?s" by (simp add: all_closed_def)
  from manager_close_can_hang [OF this, of "30 * second"] show ?thesis by blast
qed

lemma boot_running:
  assumes "\<And>cfg c. mk cfg = Inr c \<Longrightarrow> honest_client running c \<and> cl_name c = cc_name cfg"
  shows "distinct (map cc_name cfgs) \<Longrightarrow> cc_name ` set cfgs \<inter> running w = {} \<Longrightarrow>
    boot mk cfgs w = (started, w') \<Longrightarrow>
    running w' = running w \<union> cl_name ` fst ` set started \<and>
    subseq (map (cl_name \<circ> fst) started) (map cc_name cfgs)"
proof (induction cfgs arbitrary: w started)
  case (Cons cfg cfgs)
  obtain r w1 where 1: "boot_one mk cfg w = (r, w1)" by fastforce
  obtain rest where 2: "boot mk cfgs w1 = (rest, w')"
    and st: "started = (case r of None \<Rightarrow> rest | Some ct \<Rightarrow> ct # rest)"
    using Cons.prems(3) 1 by (auto split: prod.splits)
  have one: "running w1 = running w \<union> (if r = None then {} else {cc_name cfg})"
    "r = Some (c, ts) \<Longrightarrow> cl_name c = cc_name cfg" for c ts
    using boot_one_running [OF assms _ 1] Cons.prems(2) by auto
  have "cc_name ` set cfgs \<inter> running w1 = {}"
    using Cons.prems(1,2) one(1) by (auto split: if_splits)
  with Cons.IH [OF _ _ 2] Cons.prems(1) have
    "running w' = running w1 \<union> cl_name ` fst ` set rest"
    "subseq (map (cl_name \<circ> fst) rest) (map cc_name cfgs)" by (auto simp: comp_def)
  with one st show ?case by (cases r) (auto simp: comp_def)
qed simp

text \<open>
  Booting the clients never fails and leaks nothing. With clients whose start runs the
  process of that name and whose close ends it, exactly the processes of the clients that are
  returned run afterwards (besides those that ran before), in the order of the configuration: a
  client that fails to initialize or to list its tools is closed, and the others go on.
\<close>

lemma boot_runs_exactly_started:
  assumes "\<And>cfg c. mk cfg = Inr c \<Longrightarrow> honest_client running c \<and> cl_name c = cc_name cfg"
    and "distinct (map cc_name cfgs)" and "cc_name ` set cfgs \<inter> running w = {}"
  shows "running (snd (boot mk cfgs w)) = running w \<union> cl_name ` fst ` set (fst (boot mk cfgs w)) \<and>
    subseq (map (cl_name \<circ> fst) (fst (boot mk cfgs w))) (map cc_name cfgs)"
  by (rule boot_running [OF assms(1) assms(2,3)]) simp_all

abbreviation toy_client :: "bool \<Rightarrow> string \<Rightarrow> (string set, string) client" where
  "toy_client ok n \<equiv> \<lparr>cl_name = n, cl_kind = StdioClient, cl_start = (\<lambda>w. (None, insert n w)),
     cl_initialize = (\<lambda>w. (None, w)), cl_list_tools = (\<lambda>w. (if ok then Inr [] else Inl ''boom'', w)),
     cl_close = (\<lambda>w. (None, w - {n}))\<rparr>"

abbreviation toy_cfg :: "string \<Rightarrow> client_config" where
  "toy_cfg n \<equiv> \<lparr>cc_name = n, cc_transport = ''stdio'', cc_url = [], cc_command = n, cc_args = [],
     cc_auth_token = [], cc_env = Map.empty, cc_max_backoff = 0\<rparr>"

lemma boot_runs_exactly_started_witness:
  "snd (boot (\<lambda>cfg. Inr (toy_client (cc_name cfg = ''a'') (cc_name cfg))) [toy_cfg ''a'', toy_cfg ''b''] {}) = {''a''}"
proof -
  let ?mk = "\<lambda>cfg. Inr (toy_client (cc_name cfg = ''a'') (cc_name cfg))"
  have honest: "?mk cfg = Inr c \<Longrightarrow> honest_client (\<lambda>w. w) c \<and> cl_name c = cc_name cfg" for cfg c
    by (auto simp: honest_client_def)
  show ?thesis
    using boot_runs_exactly_started [of ?mk "\<lambda>w. w" "[toy_cfg ''a'', toy_cfg ''b'']" "{}", OF honest]
    by (simp add: boot_one_def)
qed

end
