(* ===== verification/Daemon.thy ===== *)
theory Daemon
  imports FirstRun McpClient
begin

text \<open>
  \<^verbatim>\<open>internal/daemon/daemon.go\<close> up to the point where the daemon serves, with
  \<^verbatim>\<open>internal/node/node.go\<close> and \<^verbatim>\<open>internal/mcpclient/bridge.go\<close>: the node's identity, the
  registration of remote tools, the gate of the scheduler, the choice of a driver, and the start
  of the daemon composed from the other parts.
\<close>

subsection \<open>Node identity\<close>

definition valid_id :: "string \<Rightarrow> bool" where
  "valid_id s \<longleftrightarrow> length s = 32 \<and> hex_decode s \<noteq> None"

definition generate_id :: "string + 8 word list \<Rightarrow> string + string" where
  "generate_id rand = map_sum (\<lambda>e. ''node: rand: '' @ e) hex_string rand"

datatype id_file = IdText string | IdAbsent | IdUnreadable string

text \<open>
  \<open>mkdir\<close> and \<open>write\<close> are the errors of the two calls if they fail; the answer is the id, and
  what the file is afterwards (a failed write may leave anything).
\<close>

definition load_or_init ::
  "string \<Rightarrow> string option \<Rightarrow> string + 8 word list \<Rightarrow> (string \<times> id_file) option \<Rightarrow> id_file \<Rightarrow>
   (string + string) \<times> id_file" where
  "load_or_init state_dir mkdir rand write f =
     (if state_dir = [] then (Inl ''node.LoadOrInit: stateDir required'', f)
      else case mkdir of
        Some e \<Rightarrow> (Inl (''node: ensure state dir: '' @ e), f)
      | None \<Rightarrow>
          (case f of
             IdText raw \<Rightarrow>
               (let i = trim_space raw
                in if \<not> valid_id i
                   then (Inl (''node: corrupt id at '' @ state_dir @ ''/node.id''), f) else (Inr i, f))
           | IdAbsent \<Rightarrow>
               (case generate_id rand of
                  Inl e \<Rightarrow> (Inl e, f)
                | Inr i \<Rightarrow>
                    (case write of
                       Some (e, left) \<Rightarrow> (Inl (''node: persist id: '' @ e), left)
                     | None \<Rightarrow> (Inr i, IdText i)))
           | IdUnreadable e \<Rightarrow> (Inl (''node: read id: '' @ e), f)))"

lemma hex_digit_value: "n < 16 \<Longrightarrow> hex_value (hex_digit n) = Some n"
  by (simp add: hex_digit_def hex_value_def Let_def)

text \<open>Decoding gives back the bytes that were encoded.\<close>

lemma hex_decode_string: "hex_decode (hex_string bs) = Some (map unat bs)"
proof (induction bs)
  case (Cons b bs)
  have "unat b < 256" using unsigned_less [of b, where ?'a = nat] by simp
  then have "hex_value (hex_digit (unat b div 16)) = Some (unat b div 16)"
    and "hex_value (hex_digit (unat b mod 16)) = Some (unat b mod 16)"
    by (simp_all add: hex_digit_value less_mult_imp_div_less)
  then show ?case using Cons by (simp add: hex_string_def)
qed (simp add: hex_string_def)

subsection \<open>Remote tools\<close>

record tool_desc =
  td_name :: string
  td_description :: string
  td_schema :: string

text \<open>A client that was started, with what it listed.\<close>

record 'w started =
  st_name :: string
  st_tools :: "tool_desc list"
  st_call :: "string \<Rightarrow> string \<Rightarrow> 'w \<Rightarrow> (string + call_result) \<times> 'w"

definition bridge_call ::
  "(string \<Rightarrow> string \<Rightarrow> 'w \<Rightarrow> (string + call_result) \<times> 'w) \<Rightarrow> string \<Rightarrow> string \<Rightarrow> 'w \<Rightarrow>
   (string + string \<times> bool) \<times> 'w" where
  "bridge_call call name args w = map_prod (map_sum id (\<lambda>r. (cr_text r, cr_is_error r))) id (call name args w)"

definition remote_tool :: "'w started \<Rightarrow> tool_desc \<Rightarrow> 'w tool" where
  "remote_tool s td = adapter_as_tool (bridge_call (st_call s))
     (new_remote_adapter (st_name s) (td_name td) (td_description td) (td_schema td))"

definition register_or_skip :: "'w tool \<Rightarrow> 'w registry \<Rightarrow> 'w registry" where
  "register_or_skip t reg = (case reg_register (Some t) reg of Inl _ \<Rightarrow> reg | Inr reg' \<Rightarrow> reg')"

definition register_remote_tools :: "'w started list \<Rightarrow> 'w registry \<Rightarrow> 'w registry" where
  "register_remote_tools ss reg = fold (\<lambda>s. fold (\<lambda>td. register_or_skip (remote_tool s td)) (st_tools s)) ss reg"

definition boot_config :: "environ \<Rightarrow> mcp_client_config \<Rightarrow> client_config" where
  "boot_config env mc = \<lparr>cc_name = mc_name mc, cc_transport = mc_transport mc, cc_url = mc_url mc,
     cc_command = mc_command mc, cc_args = mc_args mc,
     cc_auth_token = (if mc_auth_env mc \<noteq> [] then env (mc_auth_env mc) else []),
     cc_env = mc_env mc, cc_max_backoff = 0\<rparr>"

definition boot_mcp_clients ::
  "(client_config \<Rightarrow> string + ('w, 't) client) \<Rightarrow> environ \<Rightarrow> config \<Rightarrow> 'w \<Rightarrow>
   (('w, 't) client \<times> 't list) list \<times> 'w" where
  "boot_mcp_clients mk env cfg w = boot mk (map (boot_config env) (cfg_mcp_clients cfg)) w"

subsection \<open>The gate and the driver\<close>

definition has_agent_token :: "environ \<Rightarrow> config \<Rightarrow> bool" where
  "has_agent_token env cfg =
     (let key_env = ac_api_key_env (cfg_agent cfg);
          envs = [''CLAUDE_CODE_OAUTH_TOKEN'', ''ANTHROPIC_API_KEY''] @
                 (if trim_space key_env \<noteq> [] then [key_env] else [])
      in list_ex (\<lambda>e. trim_space (env e) \<noteq> []) envs)"

definition scheduler_gate :: "environ \<Rightarrow> config \<Rightarrow> bool \<times> string" where
  "scheduler_gate env cfg =
     (let v = trim_space (env ''AGENT_OPS_SCHEDULER_ENABLED'')
      in if v \<noteq> [] \<and> to_lower v \<in> {''false'', ''0'', ''off'', ''no'', ''disabled''}
         then (False, ''AGENT_OPS_SCHEDULER_ENABLED='' @ v)
         else if \<not> has_agent_token env cfg
         then (False, ''no Claude token configured (CLAUDE_CODE_OAUTH_TOKEN / ANTHROPIC_API_KEY unset)'')
         else (True, []))"

datatype any_driver = DriverClaude claude_driver | DriverClaudeCli claude_cli | DriverCodex codex_cli

definition build_driver :: "environ \<Rightarrow> (string \<Rightarrow> string option) \<Rightarrow> config \<Rightarrow> string + any_driver" where
  "build_driver env look cfg =
     (let a = cfg_agent cfg
      in if ac_provider a = ''claude''
         then (let key = env (ac_api_key_env a)
               in if key = [] then Inl (''env '' @ ac_api_key_env a @ '' is empty (required for provider=claude)'')
                  else Inr (DriverClaude \<lparr>cd_api_key = key, cd_model = ac_model a, cd_base_url = [],
                              cd_max_output_tokens = 4096\<rparr>))
         else if ac_provider a = ''claude-cli''
         then (let d = \<lparr>cli_binary = [], cli_model = ac_model a, cli_allowed_tools = [], cli_permission_mode = []\<rparr>
               in case claude_cli_preflight look (Some d) of Some e \<Rightarrow> Inl e | None \<Rightarrow> Inr (DriverClaudeCli d))
         else if ac_provider a = ''codex''
         then (let d = \<lparr>cx_binary = [], cx_model = ac_model a, cx_sandbox = []\<rparr>
               in case codex_preflight look (Some d) of Some e \<Rightarrow> Inl e | None \<Rightarrow> Inr (DriverCodex d))
         else Inl (''unsupported provider '' @ quoted (ac_provider a) @ '' (v0.1 ships claude + claude-cli + codex)''))"

text \<open>How the three drivers reach the outside, and \<^verbatim>\<open>Driver.Run\<close> of the one chosen.\<close>

record ('w, 'f) driver_access =
  da_claude :: "'w claude_net"
  da_cli :: "('w, 'f) cli_access"
  da_codex_event :: "string \<Rightarrow> codex_event option"
  da_codex :: "string \<Rightarrow> string list \<Rightarrow> 'w \<Rightarrow> (string \<times> string \<times> string option) \<times> 'w"

definition drive :: "('w, 'f) driver_access \<Rightarrow> any_driver \<Rightarrow> 'w driver_request \<Rightarrow> 'w \<Rightarrow> driver_outcome \<times> 'w" where
  "drive da d =
     (case d of
        DriverClaude c \<Rightarrow> claude_run (da_claude da) c
      | DriverClaudeCli c \<Rightarrow> claude_cli_run (ca_codec (da_cli da)) (ca_spawn (da_cli da)) c
      | DriverCodex c \<Rightarrow> codex_run (da_codex_event da) (da_codex da) c)"

definition daemon_runner ::
  "('x run_world, 'f) driver_access \<Rightarrow> string \<Rightarrow> config \<Rightarrow> 'x run_world registry \<Rightarrow> any_driver \<Rightarrow> 'x runner" where
  "daemon_runner da default_prompt cfg tools d =
     (let r = new_runner (drive da d) tools default_prompt;
          r = r\<lparr>rn_max_tool_calls := ac_max_tool_calls (cfg_agent cfg)\<rparr>;
          r = (if sint (ac_task_timeout (cfg_agent cfg)) > 0
               then r\<lparr>rn_task_timeout := ac_task_timeout (cfg_agent cfg)\<rparr> else r)
      in r\<lparr>rn_has_reporter := True\<rparr>)"


subsection \<open>The start\<close>

text \<open>
  What the start reads: the codec-free inputs of the parts it calls, the tools that the integrations
  listed, and the failures and times of the store while the configured tasks are written.
\<close>

record ('c, 'x, 'w, 'b, 'f) daemon_inputs =
  di_access :: "('x run_world, 'f) driver_access"
  di_prompt :: string
  di_look :: "string \<Rightarrow> string option"
  di_shell :: "'x run_world tool"
  di_started :: "'x run_world started list"
  di_cron :: "'c cron_lib"
  di_pick :: "task list \<Rightarrow> task list"
  di_list_faults :: faults
  di_hydrate_faults :: "nat \<Rightarrow> faults"
  di_hydrate_now :: "nat \<Rightarrow> instant"
  di_token :: token_io
  di_boot :: "('x, 'b) boot_inputs"
  di_io :: "'w boot_io"

datatype daemon_end = DaemonFailed string | DaemonPanicked | DaemonStuck | DaemonUp bool

definition daemon_tools :: "('c, 'x, 'w, 'b, 'f) daemon_inputs \<Rightarrow> 'x run_world registry option" where
  "daemon_tools di =
     map_option (register_remote_tools (di_started di)) (reg_must_register (Some (di_shell di)) new_registry)"

definition choose_runner ::
  "('c, 'x, 'w, 'b, 'f) daemon_inputs \<Rightarrow> config \<Rightarrow> 'x run_world registry \<Rightarrow> string + 'x runner option" where
  "choose_runner di cfg tools =
     (if fst (scheduler_gate (bi_env (di_boot di)) cfg)
      then map_sum (\<lambda>e. ''driver: '' @ e)
             (\<lambda>d. Some (daemon_runner (di_access di) (di_prompt di) cfg tools d))
             (build_driver (bi_env (di_boot di)) (di_look di) cfg)
      else Inr None)"

text \<open>The first run and what follows, once the token is there.\<close>

definition daemon_first_run ::
  "('c, 'x, 'w, 'b, 'f) daemon_inputs \<Rightarrow> config \<Rightarrow> 'x runner option \<Rightarrow> ('c, 'x, 'w) boot \<Rightarrow>
   daemon_end \<times> ('c, 'x, 'w) boot" where
  "daemon_first_run di cfg rn b =
     (let on = fst (scheduler_gate (bi_env (di_boot di)) cfg);
          n = (di_boot di)\<lparr>bi_runner := rn\<rparr>
      in if on \<or> is_llm_free_mode (bi_env n)
         then (case maybe_run_first_run (di_io di) n b of
                 (None, b) \<Rightarrow> (DaemonStuck, b)
               | (Some (Some e), b) \<Rightarrow> (DaemonFailed (''bootstrap: '' @ e), b)
               | (Some None, b) \<Rightarrow> (DaemonUp on, b))
         else (DaemonUp on, b))"

text \<open>
  \<^verbatim>\<open>Run\<close> from the loaded configuration to the serving daemon; the third component is the
  token file. The prefix of the token that is logged makes a short token panic.
\<close>

definition daemon_start ::
  "('c, 'x, 'w, 'b, 'f) daemon_inputs \<Rightarrow> config \<Rightarrow> 'c \<Rightarrow> 'x run_world \<Rightarrow> 'w \<Rightarrow> string option \<Rightarrow>
   daemon_end \<times> ('c, 'x, 'w) boot \<times> string option" where
  "daemon_start di cfg c w out file =
     (let b = \<lparr>b_sched = new_scheduler c w, b_auth = None, b_cfg = cfg, b_ops = 0, b_out = out\<rparr>
      in case daemon_tools di of
        None \<Rightarrow> (DaemonPanicked, b, file)
      | Some tools \<Rightarrow>
          (case choose_runner di cfg tools of
             Inl e \<Rightarrow> (DaemonFailed e, b, file)
           | Inr rn \<Rightarrow>
               (case hydrate (di_cron di) (di_pick di) (di_list_faults di) (di_hydrate_faults di)
                       (di_hydrate_now di) cfg (b_sched b) of
                  (Some e, s) \<Rightarrow> (DaemonFailed (''scheduler.Hydrate: '' @ e), b\<lparr>b_sched := s\<rparr>, file)
                | (None, s) \<Rightarrow>
                    (case ensure_token (bi_env (di_boot di)) (di_token di) (mcp_token_env (cfg_mcp cfg)) file of
                       (Inl e, file) \<Rightarrow> (DaemonFailed e, b\<lparr>b_sched := s\<rparr>, file)
                     | (Inr tok, file) \<Rightarrow>
                         if length tok < 8 then (DaemonPanicked, b\<lparr>b_sched := s\<rparr>, file)
                         else (let (r, b) = daemon_first_run di cfg rn (b\<lparr>b_sched := s\<rparr>) in (r, b, file))))))"

subsection \<open>Lemmas\<close>

lemma register_or_skip_get:
  "reg_get (register_or_skip t r) n =
     (case reg_get r n of Some u \<Rightarrow> Some u
      | None \<Rightarrow> if n = tool_name t \<and> n \<noteq> [] then Some t else None)"
proof (cases "reg_register (Some t) r")
  case (Inl e)
  then have "tool_name t = [] \<or> reg_get r (tool_name t) \<noteq> None" using reg_register_Inl_iff [of t r] by blast
  then show ?thesis using Inl by (auto simp: register_or_skip_def split: option.split)
next
  case (Inr r')
  then have "\<not> (tool_name t = [] \<or> reg_get r (tool_name t) \<noteq> None)"
    using reg_register_Inl_iff [of t r] by auto
  then show ?thesis
    using Inr by (auto simp: register_or_skip_def reg_get_register [OF Inr] split: option.split)
qed

lemma register_or_skip_wf: "reg_wf r \<Longrightarrow> reg_wf (register_or_skip t r)"
  by (auto simp: register_or_skip_def intro: reg_wf_register split: sum.split)

definition remote_tools :: "'w started list \<Rightarrow> 'w tool list" where
  "remote_tools ss = concat (map (\<lambda>s. map (remote_tool s) (st_tools s)) ss)"

lemma register_remote_fold: "register_remote_tools ss r = fold register_or_skip (remote_tools ss) r"
  by (induction ss arbitrary: r) (simp_all add: register_remote_tools_def remote_tools_def fold_map comp_def)

lemma fold_register_get:
  "\<forall>t \<in> set ts. tool_name t \<noteq> [] \<Longrightarrow> reg_get (fold register_or_skip ts r) n =
     (case reg_get r n of Some u \<Rightarrow> Some u | None \<Rightarrow> find (\<lambda>t. tool_name t = n) ts)"
  by (induction ts arbitrary: r) (auto simp: register_or_skip_get split: option.splits)

lemma fold_register_wf: "reg_wf r \<Longrightarrow> reg_wf (fold register_or_skip ts r)"
  by (induction ts arbitrary: r) (simp_all add: register_or_skip_wf)

lemma remote_tool_named: "t \<in> set (remote_tools ss) \<Longrightarrow> tool_name t \<noteq> []"
  by (auto simp: remote_tools_def remote_tool_def adapter_as_tool_def)


text \<open>The operations of an idle daemon's first run leave the table of runs alone.\<close>

lemma add_fact_runs [simp]: "db_runs (snd (add_fact s t f now d)) = db_runs d"
  by (simp add: add_fact_def add_fact_stmts_def run_tx_def insert_event_def Let_def split: option.split sum.split)

lemma upsert_task_runs [simp]: "db_runs (snd (upsert_task t f now d)) = db_runs d"
  by (simp add: upsert_task_def upsert_task_stmts_def run_tx_def insert_event_def Let_def split: option.split sum.split)

lemma sched_db_set [simp]: "sched_db (set_sched_db d s) = d"
  by (simp add: set_sched_db_def sched_db_def)

lemma boot_fact_runs [simp]: "db_runs (boot_db (boot_fact n s tx b)) = db_runs (boot_db b)"
  by (simp add: boot_fact_def boot_access_def split_beta)

lemma run_script_runs: "db_runs (boot_db (snd (run_script io n b))) = db_runs (boot_db b)"
  by (simp add: run_script_def Let_def split_beta split: script_run.split option.split)

lemma settle_runs: "db_runs (boot_db (snd (settle io n src what out))) = db_runs (boot_db (snd out))"
  by (simp add: settle_def Let_def split_beta split: option.split)

lemma script_first_run_runs:
  assumes "is_llm_free_mode (bi_env n)"
  shows "db_runs (boot_db (snd (maybe_run_first_run io n b))) = db_runs (boot_db b)"
  using assms by (simp add: maybe_run_first_run_def is_llm_free_mode_def install_app_def Let_def split_beta
      settle_runs run_script_runs split: marker.split)

lemma upsert_schedules_runs:
  "db_runs (sched_db (snd (snd (upsert_schedules fs now n schs m s)))) = db_runs (sched_db s)"
proof (induction schs arbitrary: n m s)
  case (Cons sch schs)
  obtain r d where up: "upsert_task (task_of_schedule sch) (fs n) (now n) (sched_db s) = (r, d)" by fastforce
  then have "db_runs d = db_runs (sched_db s)"
    using upsert_task_runs [of "task_of_schedule sch" "fs n" "now n" "sched_db s"] by simp
  then show ?case using up by (cases r) (simp_all add: Let_def Cons.IH)
qed simp

lemma register_world: "sc_world (snd (register lib t s)) = sc_world s"
  by (simp add: register_def drop_entry_def Let_def split: sum.split prod.split option.split)

lemma register_all_world: "sc_world (snd (register_all lib ts s)) = sc_world s"
proof (induction ts arbitrary: s)
  case (Cons t ts)
  then show ?case using register_world [of lib t s]
    by (auto split: prod.split option.split)
qed simp

lemma hydrate_runs:
  "db_runs (sched_db (snd (hydrate lib pick f fs now cfg s))) = db_runs (sched_db s)"
proof (cases "list_tasks f (sched_db s)")
  case (Inr stored)
  let ?s1 = "s\<lparr>sc_models := hydrate_models cfg (sc_models s)\<rparr>"
  obtain e m s2 where up: "upsert_schedules fs now 0 (cfg_schedules cfg) (fold (put_row t_name) stored []) ?s1 = (e, m, s2)"
    by (metis prod_cases3)
  have s2: "db_runs (sched_db s2) = db_runs (sched_db s)"
    using upsert_schedules_runs [of fs now 0 "cfg_schedules cfg" "fold (put_row t_name) stored []" ?s1] up
    by (simp add: sched_db_def)
  show ?thesis
    using Inr up s2 register_all_world [of lib "pick m" s2]
    by (cases e) (simp_all add: hydrate_def Let_def sched_db_def)
qed (simp add: hydrate_def)

subsection \<open>Properties\<close>

text \<open>
  An integration cannot take over a tool. In the registry the daemon builds, the shell tool
  answers under its name whatever the remote servers list; every other name resolves to the first
  remote tool with that local name, in the order of the clients and of their lists, and to nothing
  else.
\<close>

lemma first_tool_wins:
  assumes "daemon_tools di = Some reg"
  shows "reg_wf reg \<and> reg_get reg n =
    (if n = tool_name (di_shell di) then Some (di_shell di)
     else find (\<lambda>t. tool_name t = n) (remote_tools (di_started di)))"
proof -
  obtain r where r: "reg_register (Some (di_shell di)) new_registry = Inr r"
    and reg: "reg = fold register_or_skip (remote_tools (di_started di)) r"
    using assms by (auto simp: daemon_tools_def reg_must_register_def register_remote_fold split: sum.splits)
  have "reg_wf r" by (rule reg_wf_register [OF reg_wf_new r])
  moreover have "reg_get r n = (if n = tool_name (di_shell di) then Some (di_shell di) else None)"
    by (simp add: reg_get_register [OF r])
  moreover have "\<forall>t \<in> set (remote_tools (di_started di)). tool_name t \<noteq> []"
    using remote_tool_named by blast
  ultimately show ?thesis by (auto simp: reg fold_register_wf fold_register_get)
qed

text \<open>
  C19: a daemon whose gate is closed runs no agent. If the scheduler is switched off or no credential
  is set, then however the start ends the table of runs is as it was, no run can be started by a
  tick or on demand, and unless the mode is the script mode nothing outside is touched.
\<close>

theorem closed_gate_runs_nothing:
  assumes "\<not> fst (scheduler_gate (bi_env (di_boot di)) cfg)"
    and "daemon_start di cfg c w out file = (r, b, file')"
  shows "db_runs (boot_db b) = db_runs (rw_db w) \<and>
    (\<forall>tools. choose_runner di cfg tools = Inr None) \<and>
    (\<forall>env f name. fire env inp None f name (b_sched b) = (None, b_sched b)) \<and>
    (\<forall>env f name ov. snd (run_now env inp None f name ov (b_sched b)) = b_sched b) \<and>
    (\<not> is_llm_free_mode (bi_env (di_boot di)) \<longrightarrow> b_out b = out)"
proof -
  have rn: "choose_runner di cfg tools = Inr None" for tools
    using assms(1) by (simp add: choose_runner_def)
  have idle: "fire env inp None f name s = (None, s)" "snd (run_now env inp None f name ov s) = s" for env f name ov s
    by (simp_all add: fire_def run_now_def split: sum.split)
  let ?b = "\<lparr>b_sched = new_scheduler c w, b_auth = None, b_cfg = cfg, b_ops = 0, b_out = out\<rparr>"
  have start: "db_runs (sched_db (new_scheduler c w)) = db_runs (rw_db w)" by (simp add: sched_db_def)
  obtain e s where hyd: "hydrate (di_cron di) (di_pick di) (di_list_faults di) (di_hydrate_faults di)
      (di_hydrate_now di) cfg (new_scheduler c w) = (e, s)" by fastforce
  then have runs: "db_runs (sched_db s) = db_runs (rw_db w)"
    using hydrate_runs [of "di_cron di" "di_pick di" "di_list_faults di" "di_hydrate_faults di"
        "di_hydrate_now di" cfg "new_scheduler c w"] start by simp
  have first: "db_runs (boot_db (snd (daemon_first_run di cfg None b'))) = db_runs (boot_db b') \<and>
      (\<not> is_llm_free_mode (bi_env (di_boot di)) \<longrightarrow> b_out (snd (daemon_first_run di cfg None b')) = b_out b')"
    for b'
    using assms(1) script_first_run_runs [of "(di_boot di)\<lparr>bi_runner := None\<rparr>" "di_io di" b']
    by (simp add: daemon_first_run_def Let_def split_beta split: option.split)
  have "db_runs (boot_db b) = db_runs (rw_db w) \<and> (\<not> is_llm_free_mode (bi_env (di_boot di)) \<longrightarrow> b_out b = out)"
    using assms(2) hyd runs start first [of "?b\<lparr>b_sched := s\<rparr>"]
    by (auto simp: daemon_start_def rn Let_def split_beta split: option.splits sum.splits prod.splits if_splits)
  then show ?thesis using rn idle by blast
qed


text \<open>
  A credential can stop the daemon. With the direct API as provider and its key variable unset,
  another credential in the environment opens the gate, the driver is refused, and the start fails
  before anything else of it is done; without that credential the same daemon would come up idle.
\<close>

lemma foreign_credential_stops_daemon:
  assumes "trim_space (bi_env (di_boot di) ''AGENT_OPS_SCHEDULER_ENABLED'') = []"
    and "trim_space (bi_env (di_boot di) ''CLAUDE_CODE_OAUTH_TOKEN'') \<noteq> []"
    and "ac_provider (cfg_agent cfg) = ''claude''"
    and "bi_env (di_boot di) (ac_api_key_env (cfg_agent cfg)) = []" and "daemon_tools di \<noteq> None"
  shows "\<exists>b. daemon_start di cfg c w out file = (DaemonFailed (''driver: env '' @ ac_api_key_env (cfg_agent cfg) @
      '' is empty (required for provider=claude)''), b, file) \<and> boot_db b = rw_db w \<and> b_out b = out"
proof -
  have "fst (scheduler_gate (bi_env (di_boot di)) cfg)"
    using assms(1,2) by (simp add: scheduler_gate_def has_agent_token_def Let_def)
  then have "choose_runner di cfg tools = Inl (''driver: env '' @ ac_api_key_env (cfg_agent cfg) @
      '' is empty (required for provider=claude)'')" for tools
    using assms(3,4) by (simp add: choose_runner_def build_driver_def)
  then show ?thesis
    using assms(5) by (auto simp: daemon_start_def Let_def sched_db_def)
qed

lemma hex_string_trim: "trim_space (hex_string bs) = hex_string bs"
proof -
  have "\<not> is_space (hex_digit n)" if "n < 16" for n
  proof -
    have "is_space ch \<Longrightarrow> hex_value ch = None" for ch by (auto simp: is_space_def hex_value_def)
    then show ?thesis using hex_digit_value [OF that] by force
  qed
  moreover have "unat b < 256" for b :: "8 word" using unsigned_less [of b, where ?'a = nat] by simp
  ultimately have plain: "\<forall>c \<in> set (hex_string bs). \<not> is_space c"
    by (auto simp: hex_string_def less_mult_imp_div_less)
  have "dropWhile is_space cs = cs" if "\<forall>c \<in> set cs. \<not> is_space c" for cs
    using that by (cases cs) auto
  from this [of "hex_string bs"] this [of "rev (hex_string bs)"] plain show ?thesis
    by (simp add: trim_space_def trim_left_def trim_right_def)
qed

text \<open>
  The node's id is stable. Once \<^verbatim>\<open>LoadOrInit\<close> has returned an id from 16 random
  bytes or from the file, it has 32 characters that decode as hexadecimal, and every later call on
  that file, with other random bytes and whether or not it could write, returns the same.
\<close>

lemma node_id_survives_restarts:
  assumes "load_or_init dir mkdir rand write f = (Inr i, f')"
    and "\<And>bs. rand = Inr bs \<Longrightarrow> length bs = 16"
  shows "valid_id i \<and> load_or_init dir None rand' write' f' = (Inr i, f')"
proof (cases f)
  case (IdText raw)
  then show ?thesis using assms(1)
    by (auto simp: load_or_init_def Let_def split: if_splits option.splits)
next
  case IdAbsent
  with assms(1) obtain bs where bs: "rand = Inr bs" "i = hex_string bs" "f' = IdText i" "dir \<noteq> []"
    by (auto simp: load_or_init_def generate_id_def split: if_splits option.splits sum.splits) (cases rand; simp)
  then have "valid_id i"
    using assms(2) [OF bs(1)] by (simp add: valid_id_def length_hex_string hex_decode_string)
  with bs show ?thesis by (simp add: load_or_init_def hex_string_trim Let_def)
next
  case (IdUnreadable e)
  then show ?thesis using assms(1) by (auto simp: load_or_init_def split: if_splits option.splits)
qed


lemma node_id_survives_restarts_witness:
  "load_or_init ''/d'' None (Inl []) (Some ([], IdAbsent))
     (snd (load_or_init ''/d'' None (Inr (replicate 16 1)) None IdAbsent)) =
   load_or_init ''/d'' None (Inr (replicate 16 1)) None IdAbsent"
proof -
  obtain i f where run: "load_or_init ''/d'' None (Inr (replicate 16 1)) None IdAbsent = (Inr i, f)"
    by (simp add: load_or_init_def generate_id_def Let_def)
  have "valid_id i \<and> load_or_init ''/d'' None (Inl []) (Some ([], IdAbsent)) f = (Inr i, f)"
    by (rule node_id_survives_restarts [OF run]) auto
  then show ?thesis by (simp add: run)
qed

text \<open>A daemon with one remote client whose tools try to take the shell's name and each other's.\<close>

definition sample_shell :: "'w tool" where
  "sample_shell = \<lparr>tool_name = ''shell'', tool_description = [], tool_schema = [],
     tool_invoke = (\<lambda>_ w. ((empty_result, None), w))\<rparr>"

definition sample_access :: "(unit run_world, unit) driver_access" where
  "sample_access = \<lparr>da_claude = \<lparr>net_marshal = (\<lambda>_. Inl []), net_new_request = (\<lambda>_. None),
       net_do = (\<lambda>_ _ _ w. (Inl [], w)), net_unmarshal = (\<lambda>_. Inl [])\<rparr>,
     da_cli = \<lparr>ca_codec = \<lparr>dec_envelope = (\<lambda>_. None), dec_result = (\<lambda>_. Inl []), dec_assistant = (\<lambda>_. None),
         dec_user = (\<lambda>_. None), micro = (\<lambda>_. 0)\<rparr>, ca_spawn = (\<lambda>_ _ w. (StartFailed [], w))\<rparr>,
     da_codex_event = (\<lambda>_. None), da_codex = (\<lambda>_ _ w. (([], [], None), w))\<rparr>"

definition sample_daemon ::
  "environ \<Rightarrow> unit run_world started list \<Rightarrow> ((string \<times> string) list, unit, nat, unit, unit) daemon_inputs" where
  "sample_daemon env ss = \<lparr>di_access = sample_access, di_prompt = [], di_look = (\<lambda>_. None), di_shell = sample_shell,
     di_started = ss, di_cron = list_cron, di_pick = id, di_list_faults = no_faults,
     di_hydrate_faults = (\<lambda>_. no_faults), di_hydrate_now = int,
     di_token = \<lparr>tk_mkdir = None, tk_read = None, tk_rand = Inr (replicate 32 1), tk_write = None\<rparr>,
     di_boot = sample_boot_inputs env, di_io = sample_boot_io\<rparr>"

definition sample_started :: "unit run_world started" where
  "sample_started = \<lparr>st_name = ''a'', st_tools = [\<lparr>td_name = ''x'', td_description = [], td_schema = []\<rparr>,
     \<lparr>td_name = ''a_x'', td_description = ''other'', td_schema = []\<rparr>], st_call = (\<lambda>_ _ w. (Inl [], w))\<rparr>"

lemma first_tool_wins_witness:
  "\<exists>reg t. daemon_tools (sample_daemon (\<lambda>_. []) [sample_started]) = Some reg \<and>
     reg_get reg ''a_x'' = Some t \<and> tool_description t \<noteq> ''other''"
proof -
  let ?d = "sample_daemon (\<lambda>_. []) [sample_started]"
  obtain reg where reg: "daemon_tools ?d = Some reg"
    by (simp add: daemon_tools_def sample_daemon_def reg_must_register_def reg_register_def sample_shell_def
        new_registry_def)
  from first_tool_wins [OF this, of "''a_x''"]
  have "\<exists>t. reg_get reg ''a_x'' = Some t \<and> tool_description t \<noteq> ''other''"
    by (simp add: sample_daemon_def sample_shell_def remote_tools_def sample_started_def remote_tool_def
        adapter_as_tool_def adapter_name_def new_remote_adapter_def adapter_description_def)
  with reg show ?thesis by blast
qed

definition sample_cfg :: config where
  "sample_cfg = b_cfg (sample_boot None)"

theorem closed_gate_runs_nothing_witness:
  "db_runs (boot_db (fst (snd (daemon_start (sample_daemon script_env []) sample_cfg [] sample_world 0 None)))) =
   db_runs (rw_db sample_world)"
proof -
  let ?d = "sample_daemon script_env []"
  have "\<not> fst (scheduler_gate (bi_env (di_boot ?d)) sample_cfg)"
    by (simp add: scheduler_gate_def has_agent_token_def sample_daemon_def sample_boot_inputs_def script_env_def
        sample_cfg_def sample_boot_def Let_def)
  moreover obtain r b f where "daemon_start ?d sample_cfg [] sample_world 0 None = (r, b, f)" by (metis prod_cases3)
  ultimately show ?thesis using closed_gate_runs_nothing [of ?d sample_cfg] by simp
qed

definition oauth_env :: environ where
  "oauth_env k = (if k = ''CLAUDE_CODE_OAUTH_TOKEN'' then ''x'' else [])"

lemma foreign_credential_stops_daemon_witness:
  "\<exists>e. fst (daemon_start (sample_daemon oauth_env []) sample_cfg [] sample_world 0 None) = DaemonFailed e"
proof -
  have "daemon_tools (sample_daemon oauth_env []) \<noteq> None"
    by (simp add: daemon_tools_def sample_daemon_def reg_must_register_def reg_register_def sample_shell_def
        new_registry_def)
  then have "\<exists>b. daemon_start (sample_daemon oauth_env []) sample_cfg [] sample_world 0 None =
      (DaemonFailed (''driver: env '' @ ac_api_key_env (cfg_agent sample_cfg) @
        '' is empty (required for provider=claude)''), b, None) \<and> boot_db b = rw_db sample_world \<and> b_out b = 0"
    by (intro foreign_credential_stops_daemon)
      (simp_all add: sample_daemon_def sample_boot_inputs_def oauth_env_def sample_cfg_def sample_boot_def)
  then show ?thesis by auto
qed

end
