(* ===== verification/DaemonRun.thy ===== *)
theory DaemonRun
  imports Daemon
begin

text \<open>
  The daemon from its command line to its end: \<^verbatim>\<open>cmd/agent-opsd/main.go\<close>;
  \<^verbatim>\<open>Load\<close> of \<^verbatim>\<open>config.go\<close>, the node of \<^verbatim>\<open>node.go\<close>, \<^verbatim>\<open>Open\<close> and the
  migrations of \<^verbatim>\<open>state.go\<close>; and \<^verbatim>\<open>Run\<close> of \<^verbatim>\<open>daemon.go\<close> as a whole: the start of \<open>Daemon\<close>, the
  loop, and the shutdown.
\<close>

subsection \<open>The node\<close>

datatype node_role = RoleSolo | RolePilot | RoleWorker

record solo_node =
  nd_id :: string
  nd_started :: int
  nd_heartbeat :: int

definition new_solo :: "string \<Rightarrow> int \<Rightarrow> solo_node" where
  "new_solo i now = \<lparr>nd_id = i, nd_started = now, nd_heartbeat = now\<rparr>"

definition touch_node :: "int \<Rightarrow> solo_node \<Rightarrow> solo_node" where
  "touch_node now n = n\<lparr>nd_heartbeat := now\<rparr>"

definition role_of :: "solo_node \<Rightarrow> node_role" where
  "role_of n = RoleSolo"

subsection \<open>Opening the store\<close>

text \<open>
  The file: the tables and log of \<open>Store\<close>, and the row \<^verbatim>\<open>solo\<close> of the watermarks. The five
  statements of \<^verbatim>\<open>Open\<close> may each fail; they are not in one transaction.
\<close>

record store_file =
  sf_db :: db
  sf_watermark :: "(int \<times> instant) option"

record open_io =
  oi_open :: "string option"
  oi_schema :: "string option"
  oi_seed :: "string option"
  oi_mission_schema :: "string option"
  oi_mission_seed :: "string option"
  oi_now :: instant
  oi_mission_now :: instant

definition seed_watermark :: "instant \<Rightarrow> store_file \<Rightarrow> store_file" where
  "seed_watermark now f = (case sf_watermark f of None \<Rightarrow> f\<lparr>sf_watermark := Some (0, now)\<rparr> | Some _ \<Rightarrow> f)"

definition open_mission :: "open_io \<Rightarrow> store_file \<Rightarrow> string option \<times> store_file" where
  "open_mission io f =
     (case oi_mission_schema io of
        Some e \<Rightarrow> (Some (''state: migrate mission: '' @ e), f)
      | None \<Rightarrow>
          (case oi_mission_seed io of
             Some e \<Rightarrow> (Some (''state: seed mission: '' @ e), f)
           | None \<Rightarrow> (None, f\<lparr>sf_db := migrate_mission (oi_mission_now io) (sf_db f)\<rparr>)))"

definition migrate_store :: "open_io \<Rightarrow> store_file \<Rightarrow> string option \<times> store_file" where
  "migrate_store io f =
     (case oi_schema io of
        Some e \<Rightarrow> (Some (''state: migrate: '' @ e), f)
      | None \<Rightarrow>
          (case oi_seed io of
             Some e \<Rightarrow> (Some (''state: seed watermark: '' @ e), f)
           | None \<Rightarrow> open_mission io (seed_watermark (oi_now io) f)))"

definition open_store :: "open_io \<Rightarrow> string \<Rightarrow> store_file \<Rightarrow> string option \<times> store_file" where
  "open_store io dir f =
     (if dir = [] then (Some ''state.Open: stateDir required'', f)
      else case oi_open io of
        Some e \<Rightarrow> (Some (''state: open: '' @ e), f)
      | None \<Rightarrow> migrate_store io f)"

subsection \<open>Loading the configuration\<close>

datatype load_error = CannotOpen string string | Rejected config_error

definition load_config ::
  "(string \<Rightarrow> string + config) \<Rightarrow> (string \<Rightarrow> string option) \<Rightarrow> environ \<Rightarrow> string \<Rightarrow> string + string \<Rightarrow>
   load_error + config" where
  "load_config decode parse env path opened =
     (case opened of
        Inl e \<Rightarrow> Inl (CannotOpen path e)
      | Inr text \<Rightarrow> map_sum Rejected id (parse_config decode parse env text))"

subsection \<open>The loop and the shutdown\<close>

text \<open>
  What the \<^verbatim>\<open>select\<close> of the loop receives, in that order: a signal, the end of the HTTP server,
  a tick of the heartbeat with the time at which the node is touched.
\<close>

datatype loop_event = SignalSeen | ServerFailed string | Heartbeat int

datatype loop_end = BySignal | ByServer string

fun serve_loop :: "solo_node \<Rightarrow> loop_event list \<Rightarrow> loop_end option \<times> solo_node" where
  "serve_loop n [] = (None, n)"
| "serve_loop n (SignalSeen # es) = (Some BySignal, n)"
| "serve_loop n (ServerFailed e # es) = (Some (ByServer e), n)"
| "serve_loop n (Heartbeat now # es) = serve_loop (touch_node now n) es"

text \<open>
  \<^verbatim>\<open>sd_requests\<close> is the time until the last request in progress has been answered (a stream
  that a client keeps open lasts as long as the client wants), \<^verbatim>\<open>sd_jobs\<close> the time after
  \<^verbatim>\<open>cron.Stop\<close> until it says that no job runs, \<^verbatim>\<open>sd_tie\<close> what the \<^verbatim>\<open>select\<close> takes when both of
  its channels are ready. Times are in nanoseconds. The error of the HTTP shutdown is only
  logged.
\<close>

record shutdown_times =
  sd_requests :: int
  sd_jobs :: int
  sd_tie :: bool

definition shutdown_grace :: int where
  "shutdown_grace = 30 * 1000000000"

definition http_shutdown :: "shutdown_times \<Rightarrow> string option \<times> int" where
  "http_shutdown t =
     (if sd_requests t < shutdown_grace then (None, shutdown_grace - sd_requests t)
      else (Some ''context deadline exceeded'', 0))"

definition sched_stop :: "int \<Rightarrow> shutdown_times \<Rightarrow> string option" where
  "sched_stop left t =
     (if sd_jobs t < left \<or> sd_jobs t = left \<and> sd_tie t then None else Some ''context deadline exceeded'')"

definition daemon_shutdown :: "shutdown_times \<Rightarrow> string option" where
  "daemon_shutdown t = sched_stop (snd (http_shutdown t)) t"

subsection \<open>Run\<close>

text \<open>
  What \<^verbatim>\<open>Run\<close> meets besides the inputs of the start: the configuration file, the node's file,
  the store's statements, the constructor of a client and the call of one of its tools, and the
  events and times of the end.
\<close>

record ('x, 'c, 'w, 'b, 'f) run_inputs =
  ri_decode :: "string \<Rightarrow> string + config"
  ri_parse :: "string \<Rightarrow> string option"
  ri_opened :: "string + string"
  ri_mkdir :: "string option"
  ri_rand :: "string + 8 word list"
  ri_write_id :: "(string \<times> id_file) option"
  ri_now :: int
  ri_open :: open_io
  ri_mk :: "client_config \<Rightarrow> string + ('x run_world, tool_desc) client"
  ri_call :: "('x run_world, tool_desc) client \<Rightarrow> string \<Rightarrow> string \<Rightarrow> 'x run_world \<Rightarrow>
    (string + call_result) \<times> 'x run_world"
  ri_start :: "('c, 'x, 'w, 'b, 'f) daemon_inputs"
  ri_events :: "loop_event list"
  ri_times :: shutdown_times

text \<open>The files that a run leaves, and the world of the processes.\<close>

record 'x run_host =
  rh_id_file :: id_file
  rh_store :: store_file
  rh_token :: "string option"
  rh_world :: "'x run_world"

datatype run_end =
    ConfigRefused load_error | RunFailed string | RunPanicked | RunStuck | RunServing | RunDone

definition as_started ::
  "('x, 'c, 'w, 'b, 'f) run_inputs \<Rightarrow> ('x run_world, tool_desc) client \<times> tool_desc list \<Rightarrow> 'x run_world started" where
  "as_started ri ct = \<lparr>st_name = cl_name (fst ct), st_tools = snd ct, st_call = ri_call ri (fst ct)\<rparr>"

definition run_loop_end :: "('x, 'c, 'w, 'b, 'f) run_inputs \<Rightarrow> solo_node \<Rightarrow> run_end \<times> solo_node" where
  "run_loop_end ri n =
     (case serve_loop n (ri_events ri) of
        (None, n) \<Rightarrow> (RunServing, n)
      | (Some (ByServer e), n) \<Rightarrow> (RunFailed (''http server: '' @ e), n)
      | (Some BySignal, n) \<Rightarrow> (case daemon_shutdown (ri_times ri) of None \<Rightarrow> RunDone | Some e \<Rightarrow> RunFailed e, n))"

definition end_of_start ::
  "('x, 'c, 'w, 'b, 'f) run_inputs \<Rightarrow> solo_node \<Rightarrow> daemon_end \<Rightarrow> run_end \<times> solo_node" where
  "end_of_start ri n r =
     (case r of
        DaemonFailed e \<Rightarrow> (RunFailed e, n)
      | DaemonPanicked \<Rightarrow> (RunPanicked, n)
      | DaemonStuck \<Rightarrow> (RunStuck, n)
      | DaemonUp on \<Rightarrow> run_loop_end ri n)"

text \<open>Whether \<^verbatim>\<open>Run\<close> has come to its end, so that its deferred calls run.\<close>

definition run_over :: "run_end \<Rightarrow> bool" where
  "run_over r \<longleftrightarrow> r \<noteq> RunStuck \<and> r \<noteq> RunServing"

text \<open>
  From the open store on. The clients are closed by a deferred call: on every return and also
  when a panic unwinds. Here that call returns; the supervisors it waits for, and when it does not,
  are in \<open>McpClient\<close>.
\<close>

definition run_with_store ::
  "('x, 'c, 'w, 'b, 'f) run_inputs \<Rightarrow> config \<Rightarrow> solo_node \<Rightarrow> 'c \<Rightarrow> 'w \<Rightarrow> 'x run_host \<Rightarrow>
   run_end \<times> solo_node \<times> 'x run_host" where
  "run_with_store ri cfg n c out h =
     (let env = bi_env (di_boot (ri_start ri));
          w0 = (rh_world h)\<lparr>rw_db := sf_db (rh_store h)\<rparr>;
          (cts, w1) = boot_mcp_clients (ri_mk ri) env cfg w0;
          di = (ri_start ri)\<lparr>di_started := map (as_started ri) cts\<rparr>;
          (r, b, tok) = daemon_start di cfg c w1 out (rh_token h);
          (e, n') = end_of_start ri n r;
          w2 = sc_world (b_sched b);
          w3 = (if run_over e then snd (close_clients (map fst cts) w2) else w2)
      in (e, n', h\<lparr>rh_store := (rh_store h)\<lparr>sf_db := rw_db w3\<rparr>, rh_token := tok, rh_world := w3\<rparr>))"

definition daemon_run ::
  "('x, 'c, 'w, 'b, 'f) run_inputs \<Rightarrow> string \<Rightarrow> 'c \<Rightarrow> 'w \<Rightarrow> 'x run_host \<Rightarrow>
   run_end \<times> solo_node option \<times> 'x run_host" where
  "daemon_run ri path c out h =
     (case load_config (ri_decode ri) (ri_parse ri) (bi_env (di_boot (ri_start ri))) path (ri_opened ri) of
        Inl e \<Rightarrow> (ConfigRefused e, None, h)
      | Inr cfg \<Rightarrow>
          (case load_or_init (cfg_state_dir cfg) (ri_mkdir ri) (ri_rand ri) (ri_write_id ri) (rh_id_file h) of
             (Inl e, f) \<Rightarrow> (RunFailed e, None, h\<lparr>rh_id_file := f\<rparr>)
           | (Inr i, f) \<Rightarrow>
               (let n = new_solo i (ri_now ri); h = h\<lparr>rh_id_file := f\<rparr>
                in case open_store (ri_open ri) (cfg_state_dir cfg) (rh_store h) of
                     (Some e, s) \<Rightarrow> (RunFailed e, Some n, h\<lparr>rh_store := s\<rparr>)
                   | (None, s) \<Rightarrow>
                       (let (e, n, h) = run_with_store ri cfg n c out (h\<lparr>rh_store := s\<rparr>)
                        in (e, Some n, h)))))"


subsection \<open>The executables\<close>

text \<open>
  The flag library on the one flag of \<^verbatim>\<open>agent-opsd\<close>: the value of \<^verbatim>\<open>--config\<close>, or the status
  with which it ends the program (0 for help, 2 for anything it does not know).
\<close>

fun config_flag :: "string \<Rightarrow> string list \<Rightarrow> nat + string" where
  "config_flag cur [] = Inr cur"
| "config_flag cur (a # rest) =
     (if length a < 2 \<or> hd a \<noteq> CHR ''-'' then Inr cur
      else if a = ''--'' then Inr cur
      else (let name = (if a ! 1 = CHR ''-'' then drop 2 a else drop 1 a);
                key = takeWhile (\<lambda>x. x \<noteq> CHR ''='') name;
                tail = dropWhile (\<lambda>x. x \<noteq> CHR ''='') name
            in if name = [] \<or> hd name \<in> {CHR ''-'', CHR ''=''} then Inl 2
               else if key = ''config'' then
                 (case tail of
                    _ # v \<Rightarrow> config_flag v rest
                  | [] \<Rightarrow> (case rest of [] \<Rightarrow> Inl 2 | v # rest' \<Rightarrow> config_flag v rest'))
               else if key \<in> {''help'', ''h''} then Inl 0 else Inl 2))"

definition exit_of_run :: "run_end \<Rightarrow> nat option" where
  "exit_of_run r =
     (case r of
        RunDone \<Rightarrow> Some 0
      | ConfigRefused _ \<Rightarrow> Some 1
      | RunFailed _ \<Rightarrow> Some 1
      | RunPanicked \<Rightarrow> Some 2
      | RunStuck \<Rightarrow> None
      | RunServing \<Rightarrow> None)"

text \<open>The status with which \<^verbatim>\<open>agent-opsd\<close> exits, if it does; \<open>args\<close> is \<^verbatim>\<open>os.Args\<close>.\<close>

definition agent_opsd_main :: "string list \<Rightarrow> (string \<Rightarrow> run_end) \<Rightarrow> nat option" where
  "agent_opsd_main args run =
     (if 2 \<le> length args \<and> args ! 1 = ''version'' then Some 0
      else case config_flag ''/etc/agent-ops/config.yaml'' (drop 1 args) of
        Inl code \<Rightarrow> Some code
      | Inr path \<Rightarrow> exit_of_run (run path))"

subsection \<open>Lemmas\<close>

lemma serve_loop_ticks:
  "serve_loop n (map Heartbeat ts @ es) = serve_loop (fold touch_node ts n) es"
  by (induction ts arbitrary: n) simp_all

lemma touch_all:
  "nd_id (fold touch_node ts n) = nd_id n" "nd_started (fold touch_node ts n) = nd_started n"
  "nd_heartbeat (fold touch_node ts n) = last (nd_heartbeat n # ts)"
  by (induction ts arbitrary: n) (simp_all add: touch_node_def)

lemma ticks_prefix: "\<exists>ts rest. es = map Heartbeat ts @ rest \<and> (rest = [] \<or> (\<forall>t. hd rest \<noteq> Heartbeat t))"
proof (induction es)
  case (Cons e es)
  then obtain ts rest where es: "es = map Heartbeat ts @ rest" "rest = [] \<or> (\<forall>t. hd rest \<noteq> Heartbeat t)"
    by blast
  show ?case
  proof (cases e)
    case (Heartbeat t)
    then have "e # es = map Heartbeat (t # ts) @ rest" using es by simp
    then show ?thesis using es(2) by blast
  qed (rule exI [of _ "[]"], simp)+
qed simp

lemma sched_stop_None: "sched_stop left t = None \<longleftrightarrow> sd_jobs t < left \<or> sd_jobs t = left \<and> sd_tie t"
  by (simp add: sched_stop_def)

lemma close_clients_running:
  assumes "\<forall>c \<in> set cs. \<forall>w. running (snd (cl_close c w)) = running w - {cl_name c}"
  shows "running (snd (close_clients cs w)) = running w - cl_name ` set cs"
  using assms
proof (induction cs arbitrary: w)
  case (Cons c cs)
  then show ?case by (auto simp: Let_def split_beta)
qed simp

lemma boot_members: "(c, ts) \<in> set (fst (boot mk cfgs w)) \<Longrightarrow> \<exists>cfg \<in> set cfgs. mk cfg = Inr c"
proof (induction cfgs arbitrary: w)
  case (Cons cfg cfgs)
  obtain r w1 where r: "boot_one mk cfg w = (r, w1)" by fastforce
  have one: "r = Some (c, ts) \<Longrightarrow> mk cfg = Inr c"
    using r by (auto simp: boot_one_def split: sum.splits prod.splits option.splits)
  show ?case
  proof (cases "r = Some (c, ts)")
    case False
    then have "(c, ts) \<in> set (fst (boot mk cfgs w1))"
      using Cons.prems r by (auto simp: Let_def split_beta split: option.splits)
    then show ?thesis using Cons.IH by fastforce
  qed (use one in auto)
qed simp

lemma run_with_store_end:
  "fst (run_with_store ri cfg n c out h) =
     (let env = bi_env (di_boot (ri_start ri));
          (cts, w1) = boot_mcp_clients (ri_mk ri) env cfg ((rh_world h)\<lparr>rw_db := sf_db (rh_store h)\<rparr>)
      in fst (end_of_start ri n (fst (daemon_start ((ri_start ri)\<lparr>di_started := map (as_started ri) cts\<rparr>)
            cfg c w1 out (rh_token h)))))"
  by (simp add: run_with_store_def Let_def split_beta)


subsection \<open>Properties\<close>

text \<open>
  Opening the store never loses anything. Whichever of its statements fails, the log, the
  tables, an existing mission and an existing watermark are as they were, the invariant of the
  store is kept, and a successful open of a store that has both rows changes nothing.
\<close>

lemma open_store_keeps:
  assumes "open_store io dir f = (e, f')"
  shows "db_events (sf_db f') = db_events (sf_db f) \<and> db_tasks (sf_db f') = db_tasks (sf_db f) \<and>
    db_runs (sf_db f') = db_runs (sf_db f) \<and> db_logs (sf_db f') = db_logs (sf_db f) \<and>
    (db_mission (sf_db f) \<noteq> None \<longrightarrow> sf_db f' = sf_db f) \<and>
    (sf_watermark f \<noteq> None \<longrightarrow> sf_watermark f' = sf_watermark f) \<and>
    (db_wf (sf_db f) \<longrightarrow> db_wf (sf_db f')) \<and>
    (e = None \<longrightarrow> db_mission (sf_db f') \<noteq> None \<and> sf_watermark f' \<noteq> None)"
proof -
  have wm: "sf_db (seed_watermark t f) = sf_db f" "sf_watermark (seed_watermark t f) \<noteq> None"
    "sf_watermark f \<noteq> None \<Longrightarrow> sf_watermark (seed_watermark t f) = sf_watermark f" for t
    by (auto simp: seed_watermark_def split: option.split)
  have mm: "db_events (migrate_mission t d) = db_events d" "db_tasks (migrate_mission t d) = db_tasks d"
    "db_runs (migrate_mission t d) = db_runs d" "db_logs (migrate_mission t d) = db_logs d"
    "db_mission d \<noteq> None \<Longrightarrow> migrate_mission t d = d" "db_mission (migrate_mission t d) \<noteq> None"
    "db_wf d \<Longrightarrow> db_wf (migrate_mission t d)" for t and d :: db
    by (auto simp: migrate_mission_def db_wf_def log_wf_def split: option.splits)
  have "f' = f \<or> f' = seed_watermark (oi_now io) f \<or>
      f' = (seed_watermark (oi_now io) f)\<lparr>sf_db := migrate_mission (oi_mission_now io) (sf_db f)\<rparr>"
    and "e = None \<Longrightarrow> f' = (seed_watermark (oi_now io) f)\<lparr>sf_db := migrate_mission (oi_mission_now io) (sf_db f)\<rparr>"
    using assms wm(1)
    by (auto simp: open_store_def migrate_store_def open_mission_def split: if_splits option.splits)
  then show ?thesis using wm mm by auto
qed

text \<open>
  The loop runs until a signal or the end of the server, and no longer; until then it only
  keeps the heartbeat, which is the time of the last tick.
\<close>

lemma loop_ends_on_first_event:
  "\<exists>ts rest. es = map Heartbeat ts @ rest \<and>
     (let (e, n') = serve_loop n es
      in nd_id n' = nd_id n \<and> nd_started n' = nd_started n \<and> nd_heartbeat n' = last (nd_heartbeat n # ts) \<and>
         e = (case rest of SignalSeen # _ \<Rightarrow> Some BySignal | ServerFailed x # _ \<Rightarrow> Some (ByServer x) | _ \<Rightarrow> None) \<and>
         (e = None \<longleftrightarrow> rest = []))"
proof -
  obtain ts rest where es: "es = map Heartbeat ts @ rest" "rest = [] \<or> (\<forall>t. hd rest \<noteq> Heartbeat t)"
    using ticks_prefix by blast
  moreover have "serve_loop n es = serve_loop (fold touch_node ts n) rest" by (simp add: es serve_loop_ticks)
  ultimately show ?thesis
    by (intro exI [of _ ts] exI [of _ rest]) (cases rest rule: list.exhaust;
        auto simp: touch_all split: loop_event.splits elim: serve_loop.elims)
qed


text \<open>
  C37: the two halves of the shutdown share thirty seconds. With at least a moment for
  the scheduler to stop, the shutdown succeeds exactly if the requests in progress and then the
  running jobs end within the thirty seconds together. A client that keeps its event stream open
  uses them up: then the shutdown fails although no job may be running, and the daemon that was asked
  to stop exits with status 1.
\<close>

theorem shutdown_shares_grace:
  assumes "0 \<le> sd_requests (ri_times ri)" and "0 < sd_jobs (ri_times ri)"
    and "fst (serve_loop n (ri_events ri)) = Some BySignal"
  shows "(exit_of_run (fst (run_loop_end ri n)) = Some 0 \<longleftrightarrow>
      sd_requests (ri_times ri) + sd_jobs (ri_times ri) < shutdown_grace \<or>
      sd_requests (ri_times ri) + sd_jobs (ri_times ri) = shutdown_grace \<and> sd_tie (ri_times ri)) \<and>
    (shutdown_grace \<le> sd_requests (ri_times ri) \<longrightarrow> exit_of_run (fst (run_loop_end ri n)) = Some 1)"
proof -
  let ?t = "ri_times ri"
  have none: "daemon_shutdown ?t = None \<longleftrightarrow> sd_requests ?t + sd_jobs ?t < shutdown_grace \<or>
      sd_requests ?t + sd_jobs ?t = shutdown_grace \<and> sd_tie ?t"
    using assms(1,2) by (auto simp: daemon_shutdown_def sched_stop_None http_shutdown_def)
  have "exit_of_run (fst (run_loop_end ri n)) = (case daemon_shutdown ?t of None \<Rightarrow> Some 0 | Some e \<Rightarrow> Some 1)"
    using assms(3) by (auto simp: run_loop_end_def exit_of_run_def split: prod.splits option.splits)
  then show ?thesis using none assms(2) by (cases "daemon_shutdown ?t") auto
qed

definition sample_run_inputs ::
  "shutdown_times \<Rightarrow> loop_event list \<Rightarrow> (unit, (string \<times> string) list, nat, unit, unit) run_inputs" where
  "sample_run_inputs t es = \<lparr>ri_decode = (\<lambda>_. Inr sample_cfg), ri_parse = (\<lambda>_. None), ri_opened = Inr [],
     ri_mkdir = None, ri_rand = Inr (replicate 16 1), ri_write_id = None, ri_now = 0,
     ri_open = \<lparr>oi_open = None, oi_schema = None, oi_seed = None, oi_mission_schema = None, oi_mission_seed = None,
       oi_now = 1, oi_mission_now = 2\<rparr>,
     ri_mk = (\<lambda>cfg. Inr \<lparr>cl_name = cc_name cfg, cl_kind = StdioClient,
       cl_start = (\<lambda>w. (None, w\<lparr>rw_inflight := insert (cc_name cfg) (rw_inflight w)\<rparr>)),
       cl_initialize = (\<lambda>w. (None, w)), cl_list_tools = (\<lambda>w. (Inr [], w)),
       cl_close = (\<lambda>w. (None, w\<lparr>rw_inflight := rw_inflight w - {cc_name cfg}\<rparr>))\<rparr>),
     ri_call = (\<lambda>_ _ _ w. (Inl [], w)), ri_start = sample_daemon oauth_env [],
     ri_events = es, ri_times = t\<rparr>"

theorem shutdown_shares_grace_witness:
  "exit_of_run (fst (run_loop_end (sample_run_inputs \<lparr>sd_requests = shutdown_grace, sd_jobs = 1, sd_tie = True\<rparr>
     [Heartbeat 15, SignalSeen]) (new_solo ''a'' 0))) = Some 1"
  using shutdown_shares_grace [of "sample_run_inputs \<lparr>sd_requests = shutdown_grace, sd_jobs = 1, sd_tie = True\<rparr>
     [Heartbeat 15, SignalSeen]" "new_solo ''a'' 0"]
  by (simp add: sample_run_inputs_def shutdown_grace_def)

text \<open>
  A daemon that ends leaves no client behind. Once the store is open, however \<^verbatim>\<open>Run\<close> ends
  (a failed start, a panic, the end of the server, a signal) every client that was booted is closed:
  with clients whose close ends the process of their name, none of these processes runs when it is over.
\<close>

lemma run_closes_clients:
  fixes running :: "'x run_world \<Rightarrow> string set"
  assumes "\<And>cc c w. ri_mk ri cc = Inr c \<Longrightarrow> running (snd (cl_close c w)) = running w - {cl_name c}"
    and "run_with_store ri cfg n c out h = (e, n', h')" and "run_over e"
    and "boot_mcp_clients (ri_mk ri) (bi_env (di_boot (ri_start ri))) cfg
       ((rh_world h)\<lparr>rw_db := sf_db (rh_store h)\<rparr>) = (cts, w1)"
  shows "cl_name ` fst ` set cts \<inter> running (rh_world h') = {}"
proof -
  have "\<forall>c \<in> set (map fst cts). \<forall>w. running (snd (cl_close c w)) = running w - {cl_name c}"
  proof
    fix cl assume "cl \<in> set (map fst cts)"
    then obtain ts where ct: "(cl, ts) \<in> set cts" by auto
    then obtain cc where "ri_mk ri cc = Inr cl"
      using boot_members assms(4) by (metis boot_mcp_clients_def fst_conv)
    then show "\<forall>w. running (snd (cl_close cl w)) = running w - {cl_name cl}" using assms(1) by blast
  qed
  note closed = close_clients_running [OF this]
  obtain w2 where "rh_world h' = snd (close_clients (map fst cts) w2)"
    using assms(2-4) by (auto simp: run_with_store_def Let_def split_beta split: if_splits)
  then show ?thesis using closed [of w2] by auto
qed

definition sample_client_cfg :: config where
  "sample_client_cfg = sample_cfg\<lparr>cfg_mcp_clients := [\<lparr>mc_name = ''a'', mc_transport = ''stdio'', mc_url = [],
     mc_command = ''a'', mc_args = [], mc_auth_env = [], mc_env = Map.empty\<rparr>]\<rparr>"

definition sample_host :: "unit run_host" where
  "sample_host = \<lparr>rh_id_file = IdAbsent, rh_store = \<lparr>sf_db = empty_db, sf_watermark = None\<rparr>, rh_token = None,
     rh_world = sample_world\<rparr>"

lemma sample_run_over:
  "\<exists>e n' h' cts w1. run_with_store (sample_run_inputs t es) sample_client_cfg n [] 0 sample_host = (e, n', h') \<and>
     run_over e \<and> boot_mcp_clients (ri_mk (sample_run_inputs t es)) oauth_env sample_client_cfg
       ((rh_world sample_host)\<lparr>rw_db := sf_db (rh_store sample_host)\<rparr>) = (cts, w1) \<and>
     map (cl_name \<circ> fst) cts = [''a'']"
proof -
  let ?ri = "sample_run_inputs t es"
  let ?w0 = "(rh_world sample_host)\<lparr>rw_db := sf_db (rh_store sample_host)\<rparr>"
  obtain cts w1 where b: "boot_mcp_clients (ri_mk ?ri) oauth_env sample_client_cfg ?w0 = (cts, w1)" by fastforce
  then have names: "map (cl_name \<circ> fst) cts = [''a'']"
    by (auto simp: boot_mcp_clients_def sample_client_cfg_def boot_one_def sample_run_inputs_def boot_config_def Let_def)
  let ?di = "(ri_start ?ri)\<lparr>di_started := map (as_started ?ri) cts\<rparr>"
  have "daemon_tools ?di \<noteq> None"
    by (simp add: daemon_tools_def sample_run_inputs_def sample_daemon_def reg_must_register_def reg_register_def
        sample_shell_def new_registry_def)
  then obtain x where fails: "fst (daemon_start ?di sample_client_cfg [] w1 0 None) = DaemonFailed x"
    using foreign_credential_stops_daemon [of ?di sample_client_cfg "[]" w1 0 None]
    by (auto simp: sample_run_inputs_def sample_daemon_def sample_boot_inputs_def oauth_env_def
        sample_client_cfg_def sample_cfg_def sample_boot_def)
  have env: "bi_env (di_boot (ri_start ?ri)) = oauth_env"
    by (simp add: sample_run_inputs_def sample_daemon_def sample_boot_inputs_def)
  have "fst (run_with_store ?ri sample_client_cfg n [] 0 sample_host) = RunFailed x"
    unfolding run_with_store_end env using b fails
    by (simp add: Let_def end_of_start_def sample_host_def)
  then obtain n' h' where run: "run_with_store ?ri sample_client_cfg n [] 0 sample_host = (RunFailed x, n', h')"
    by (metis prod.collapse)
  have "run_over (RunFailed x)" by (simp add: run_over_def)
  then show ?thesis using run b names by (intro exI conjI)
qed

lemma run_closes_clients_witness:
  "\<exists>e n' h'. run_with_store (sample_run_inputs \<lparr>sd_requests = 0, sd_jobs = 1, sd_tie = True\<rparr> [SignalSeen])
       sample_client_cfg (new_solo ''b'' 0) [] 0 sample_host = (e, n', h') \<and>
     run_over e \<and> ''a'' \<notin> rw_inflight (rh_world h')"
proof -
  let ?ri = "sample_run_inputs \<lparr>sd_requests = 0, sd_jobs = 1, sd_tie = True\<rparr> [SignalSeen]"
  obtain e n' h' cts w1 where
    run: "run_with_store ?ri sample_client_cfg (new_solo ''b'' 0) [] 0 sample_host = (e, n', h')" "run_over e"
    and b: "boot_mcp_clients (ri_mk ?ri) oauth_env sample_client_cfg
       ((rh_world sample_host)\<lparr>rw_db := sf_db (rh_store sample_host)\<rparr>) = (cts, w1)"
    and names: "map (cl_name \<circ> fst) cts = [''a'']"
    using sample_run_over [of "\<lparr>sd_requests = 0, sd_jobs = 1, sd_tie = True\<rparr>" "[SignalSeen]" "new_solo ''b'' 0"] by (elim exE conjE) (rule that)
  have "cl_name ` fst ` set cts \<inter> rw_inflight (rh_world h') = {}"
    by (rule run_closes_clients [of ?ri rw_inflight, OF _ run])
      (use b in \<open>auto simp: sample_run_inputs_def sample_daemon_def sample_boot_inputs_def\<close>)
  moreover have "''a'' \<in> cl_name ` fst ` set cts"
    using arg_cong [OF names, of set] by (simp add: image_comp)
  ultimately show ?thesis using run by blast
qed


lemma config_flag_forms:
  "config_flag cur [''--config'', v] = Inr v" "config_flag cur [''-config'', v] = Inr v"
  "config_flag cur [''--config='' @ v] = Inr v" "config_flag cur [] = Inr cur"
  "config_flag cur [''--config''] = Inl 2" "config_flag cur [''-h''] = Inl 0"
  by simp_all

text \<open>Results that are pairs, under a quantifier.\<close>

lemma ex_pair:
  "(\<exists>b. x = (a, b)) \<longleftrightarrow> fst x = a" "(\<exists>b. x = (a, b) \<and> P b) \<longleftrightarrow> fst x = a \<and> P (snd x)"
  by (cases x; auto)+

lemma ex_both: "(\<exists>a b. x = (a, b) \<and> P a b) \<longleftrightarrow> P (fst x) (snd x)"
  by (cases x) auto

lemma ex_triple: "(\<exists>b c. x = (a, b, c)) \<longleftrightarrow> fst x = a" "(\<exists>b c. x = (a, b, c) \<and> Q) \<longleftrightarrow> fst x = a \<and> Q"
  by (cases x; auto)+

text \<open>
  Status 0 means an orderly life. Started with \<^verbatim>\<open>--config\<close> and a path, \<^verbatim>\<open>agent-opsd\<close>
  exits with status 0 exactly if the configuration was accepted, the node had or got its id, the store
  opened, the start came up, the first thing but ticks that the loop saw was the signal, and the
  shutdown ended in time; in every other case it exits with another status or does not exit.
\<close>

lemma exit_zero_means_orderly:
  "agent_opsd_main [prog, ''--config'', path] (\<lambda>p. fst (daemon_run ri p c out h)) = Some 0 \<longleftrightarrow>
   (\<exists>cfg i f s cts w1 on b tok ts es.
      load_config (ri_decode ri) (ri_parse ri) (bi_env (di_boot (ri_start ri))) path (ri_opened ri) = Inr cfg \<and>
      load_or_init (cfg_state_dir cfg) (ri_mkdir ri) (ri_rand ri) (ri_write_id ri) (rh_id_file h) = (Inr i, f) \<and>
      open_store (ri_open ri) (cfg_state_dir cfg) (rh_store h) = (None, s) \<and>
      boot_mcp_clients (ri_mk ri) (bi_env (di_boot (ri_start ri))) cfg ((rh_world h)\<lparr>rw_db := sf_db s\<rparr>) = (cts, w1) \<and>
      daemon_start ((ri_start ri)\<lparr>di_started := map (as_started ri) cts\<rparr>) cfg c w1 out (rh_token h) =
        (DaemonUp on, b, tok) \<and>
      ri_events ri = map Heartbeat ts @ SignalSeen # es \<and> daemon_shutdown (ri_times ri) = None)"
  (is "?exit \<longleftrightarrow> ?orderly")
proof -
  have loop: "fst (run_loop_end ri n) = RunDone \<longleftrightarrow>
      (\<exists>ts es. ri_events ri = map Heartbeat ts @ SignalSeen # es) \<and> daemon_shutdown (ri_times ri) = None" for n
  proof -
    obtain ts rest where es: "ri_events ri = map Heartbeat ts @ rest" "rest = [] \<or> (\<forall>t. hd rest \<noteq> Heartbeat t)"
      using ticks_prefix by blast
    have first: "serve_loop n (map Heartbeat us @ SignalSeen # vs) = (Some BySignal, fold touch_node us n)" for us vs
      by (simp add: serve_loop_ticks)
    have "serve_loop n (ri_events ri) = serve_loop (fold touch_node ts n) rest" by (simp add: es serve_loop_ticks)
    then have "fst (serve_loop n (ri_events ri)) = Some BySignal \<longleftrightarrow> (\<exists>us vs. ri_events ri = map Heartbeat us @ SignalSeen # vs)"
      using es first by (cases rest; cases "hd rest") auto
    then show ?thesis
      by (auto simp: run_loop_end_def split: prod.splits option.splits loop_end.splits)
  qed
  have start: "fst (end_of_start ri n r) = RunDone \<longleftrightarrow> (\<exists>on. r = DaemonUp on) \<and>
      (\<exists>ts es. ri_events ri = map Heartbeat ts @ SignalSeen # es) \<and> daemon_shutdown (ri_times ri) = None" for n r
    using loop by (cases r) (simp_all add: end_of_start_def)
  have exit: "?exit \<longleftrightarrow> fst (daemon_run ri path c out h) = RunDone"
    by (cases "fst (daemon_run ri path c out h)") (simp_all add: agent_opsd_main_def exit_of_run_def)
  show ?thesis unfolding exit
    by (auto simp: ex_pair ex_both ex_triple daemon_run_def run_with_store_end start Let_def split_beta split: sum.splits prod.splits option.splits)
qed

end
