(* ===== verification/StdioClient.thy ===== *)
theory StdioClient
  imports McpClient
begin

text \<open>
  \<^verbatim>\<open>internal/mcpclient/stdio.go\<close> with everything that runs at the same time: callers, the
  reader and the reaper of each subprocess, \<^verbatim>\<open>Close\<close>, and restarts. Each step is what happens
  between two points where another goroutine can come in: a section under a lock, one channel
  operation, one write. The machine refines the requests in flight of \<open>McpClient\<close>, which gives
  that responses reach their callers; its own invariant gives what \<^verbatim>\<open>Close\<close> achieves.
\<close>

subsection \<open>State\<close>

text \<open>
  A subprocess: running; exited; reaped, with its status stored; and with its \<^verbatim>\<open>doneCh\<close>
  closed. Its reader scans, or holds a response for a channel it has looked up, or has ended.
\<close>

datatype proc_state = PRunning | PExited | PReaped | PGone

datatype reader = Scanning | Sending rpc_response | ReaderEnded

record subprocess =
  su_argv :: "string list"
  su_env :: "string list"
  su_state :: proc_state
  su_reader :: reader
  su_stdin_open :: bool
  su_stdin :: "string list"

text \<open>A channel of capacity one.\<close>

record chan =
  ch_buf :: "rpc_response option"
  ch_closed :: bool

text \<open>
  A call: registered, with its frame; about to write to a subprocess's stdin; waiting, with
  the \<^verbatim>\<open>doneCh\<close> of that subprocess in hand. And \<^verbatim>\<open>Close\<close>: not called; with the three fields it
  read; waiting for an exit (with a kill or without); about to fail the callers; returned.
\<close>

datatype call_phase = Registered string | Writing nat "nat option" string | Waiting "nat option"

datatype close_phase =
    CloseNone | CloseRead "nat option" "nat option" "nat option"
  | CloseWait nat "nat option" bool | CloseFail | CloseDone

text \<open>
  Subprocesses are numbered in the order of their starts, and \<^verbatim>\<open>cmd\<close>, \<^verbatim>\<open>writer\<close> and \<^verbatim>\<open>doneCh\<close>
  are such numbers. \<open>sl_pend\<close> are the ids in the map of pending calls, \<open>sl_chan\<close> the channel
  made for each id, \<open>sl_calls\<close> the calls that have not returned, and \<open>sl_log\<close> how the others
  returned, latest first. \<open>sl_panicked\<close> is the end of the daemon by a send on a closed channel.
\<close>

record stdio_client =
  sl_cfg :: client_config
  sl_last_id :: int
  sl_pend :: "int set"
  sl_chan :: "int \<Rightarrow> chan"
  sl_calls :: "int \<rightharpoonup> call_phase"
  sl_log :: "(int \<times> (string + rpc_response)) list"
  sl_cmd :: "nat option"
  sl_writer :: "nat option"
  sl_done :: "nat option"
  sl_closed :: bool
  sl_exit_err :: "string option"
  sl_procs :: "subprocess list"
  sl_close :: close_phase
  sl_panicked :: bool

abbreviation fresh_chan :: chan where
  "fresh_chan \<equiv> \<lparr>ch_buf = None, ch_closed = False\<rparr>"

definition new_stdio_client :: "client_config \<Rightarrow> stdio_client" where
  "new_stdio_client cfg =
     \<lparr>sl_cfg = cfg, sl_last_id = 0, sl_pend = {}, sl_chan = (\<lambda>_. fresh_chan), sl_calls = Map.empty,
      sl_log = [], sl_cmd = None, sl_writer = None, sl_done = None, sl_closed = False,
      sl_exit_err = None, sl_procs = [], sl_close = CloseNone, sl_panicked = False\<rparr>"

definition update_proc :: "nat \<Rightarrow> (subprocess \<Rightarrow> subprocess) \<Rightarrow> stdio_client \<Rightarrow> stdio_client" where
  "update_proc p f s = s\<lparr>sl_procs := (sl_procs s)[p := f (sl_procs s ! p)]\<rparr>"

definition proc_states :: "stdio_client \<Rightarrow> proc_state list" where
  "proc_states s = map su_state (sl_procs s)"

definition proc_is :: "stdio_client \<Rightarrow> nat \<Rightarrow> proc_state \<Rightarrow> bool" where
  "proc_is s p st \<longleftrightarrow> p < length (proc_states s) \<and> proc_states s ! p = st"

definition done_closed :: "stdio_client \<Rightarrow> nat option \<Rightarrow> bool" where
  "done_closed s d = (case d of None \<Rightarrow> False | Some p \<Rightarrow> proc_is s p PGone)"

subsection \<open>Start and restart\<close>

datatype exec_result = StdinErr string | StdoutErr string | StartErr string | Launched

definition child_env :: "string list \<Rightarrow> (string \<times> string) list \<Rightarrow> string list" where
  "child_env environ kvs = environ @ map (\<lambda>(k, v). k @ ''='' @ v) kvs"

text \<open>
  \<^verbatim>\<open>Start\<close>: \<open>environ\<close> is \<^verbatim>\<open>os.Environ\<close>, \<open>kvs\<close> the entries of the configured environment in the
  order in which Go visits them, \<open>x\<close> how the pipes and the exec end.
\<close>

definition stdio_start ::
  "string list \<Rightarrow> (string \<times> string) list \<Rightarrow> exec_result \<Rightarrow> stdio_client \<Rightarrow> string option \<times> stdio_client" where
  "stdio_start environ kvs x s =
     (let pre = ''mcpclient: '' @ cc_name (sl_cfg s)
      in if sl_closed s then (Some ''mcpclient: stdio: client closed'', s)
         else if sl_cmd s \<noteq> None then (None, s)
         else (case x of
             StdinErr e \<Rightarrow> (Some (pre @ '': stdin: '' @ e), s)
           | StdoutErr e \<Rightarrow> (Some (pre @ '': stdout: '' @ e), s)
           | StartErr e \<Rightarrow> (Some (pre @ '': start: '' @ e), s)
           | Launched \<Rightarrow>
               (let p = length (sl_procs s);
                    c = \<lparr>su_argv = cc_command (sl_cfg s) # cc_args (sl_cfg s), su_env = child_env environ kvs,
                         su_state = PRunning, su_reader = Scanning, su_stdin_open = True, su_stdin = []\<rparr>
                in (None, s\<lparr>sl_procs := sl_procs s @ [c], sl_cmd := Some p, sl_writer := Some p,
                            sl_done := Some p\<rparr>))))"

text \<open>What the manager does before it starts the subprocess again.\<close>

definition stdio_reset :: "stdio_client \<Rightarrow> stdio_client" where
  "stdio_reset s = s\<lparr>sl_cmd := None, sl_writer := None, sl_done := None\<rparr>"

subsection \<open>Calls\<close>

definition call_begin :: "(rpc_request \<Rightarrow> string) \<Rightarrow> string \<Rightarrow> string \<Rightarrow> stdio_client \<Rightarrow> int \<times> stdio_client" where
  "call_begin marshal method params s =
     (let (i, n) = next_id (sl_last_id s);
          frame = marshal \<lparr>rq_id = i, rq_method = method, rq_params = params\<rparr>
      in (i, s\<lparr>sl_last_id := n, sl_pend := insert i (sl_pend s), sl_chan := (sl_chan s)(i := fresh_chan),
               sl_calls := (sl_calls s)(i \<mapsto> Registered frame)\<rparr>))"

text \<open>A call returns: its entry goes with it.\<close>

definition call_return :: "int \<Rightarrow> string + rpc_response \<Rightarrow> stdio_client \<Rightarrow> stdio_client" where
  "call_return i r s = s\<lparr>sl_pend := sl_pend s - {i}, sl_calls := (sl_calls s)(i := None),
     sl_log := (i, r) # sl_log s\<rparr>"

text \<open>What \<^verbatim>\<open>call\<close> makes of the response for its own caller.\<close>

definition call_answer :: "string + rpc_response \<Rightarrow> string + string" where
  "call_answer r = (case r of Inl e \<Rightarrow> Inl e
     | Inr q \<Rightarrow> (case rs_error q of Some e \<Rightarrow> Inl (rpc_error_text e) | None \<Rightarrow> Inr (rs_result q)))"

definition client_error :: "stdio_client \<Rightarrow> string \<Rightarrow> string" where
  "client_error s what = ''mcpclient: '' @ cc_name (sl_cfg s) @ '': '' @ what"

text \<open>The section under \<^verbatim>\<open>c.mu\<close> and the two checks after it.\<close>

definition call_look :: "int \<Rightarrow> string \<Rightarrow> stdio_client \<Rightarrow> stdio_client" where
  "call_look i frame s =
     (if sl_closed s then call_return i (Inl (client_error s ''closed'')) s
      else case sl_writer s of
        None \<Rightarrow> call_return i (Inl (client_error s ''not started'')) s
      | Some p \<Rightarrow> s\<lparr>sl_calls := (sl_calls s)(i \<mapsto> Writing p (sl_done s) frame)\<rparr>)"

definition call_written :: "int \<Rightarrow> nat \<Rightarrow> nat option \<Rightarrow> string \<Rightarrow> stdio_client \<Rightarrow> stdio_client" where
  "call_written i p d frame s =
     (update_proc p (\<lambda>c. c\<lparr>su_stdin := su_stdin c @ [frame @ [nl]]\<rparr>) s)
       \<lparr>sl_calls := (sl_calls s)(i \<mapsto> Waiting d)\<rparr>"

text \<open>The answer arrives, or the channel is closed and empty.\<close>

definition call_receive :: "int \<Rightarrow> stdio_client \<Rightarrow> stdio_client option" where
  "call_receive i s =
     (case ch_buf (sl_chan s i) of
        Some r \<Rightarrow> Some (call_return i (Inr r) (s\<lparr>sl_chan := (sl_chan s)(i := (sl_chan s i)\<lparr>ch_buf := None\<rparr>)\<rparr>))
      | None \<Rightarrow> if ch_closed (sl_chan s i)
                then Some (call_return i (Inl (client_error s ''subprocess exited'')) s) else None)"

subsection \<open>The reader\<close>

text \<open>A line is scanned and the channel looked up; then the response is sent to it.\<close>

definition reader_scan :: "(string \<Rightarrow> rpc_response option) \<Rightarrow> nat \<Rightarrow> string \<Rightarrow> stdio_client \<Rightarrow> stdio_client" where
  "reader_scan decode p line s =
     (if line = [] then s
      else case decode line of
        None \<Rightarrow> s
      | Some r \<Rightarrow> if rs_id r = 0 then s
                  else if rs_id r \<in> sl_pend s then update_proc p (\<lambda>c. c\<lparr>su_reader := Sending r\<rparr>) s
                  else s)"

text \<open>\<open>None\<close>: the channel is full and the reader blocks.\<close>

definition reader_send :: "nat \<Rightarrow> rpc_response \<Rightarrow> stdio_client \<Rightarrow> stdio_client option" where
  "reader_send p r s =
     (let i = rs_id r in
      if ch_closed (sl_chan s i) then Some (s\<lparr>sl_panicked := True\<rparr>)
      else if ch_buf (sl_chan s i) \<noteq> None then None
      else Some ((update_proc p (\<lambda>c. c\<lparr>su_reader := Scanning\<rparr>) s)
                   \<lparr>sl_chan := (sl_chan s)(i := (sl_chan s i)\<lparr>ch_buf := Some r\<rparr>)\<rparr>))"

subsection \<open>Close\<close>

definition close_begin :: "stdio_client \<Rightarrow> stdio_client" where
  "close_begin s = s\<lparr>sl_closed := True, sl_close := CloseRead (sl_cmd s) (sl_writer s) (sl_done s)\<rparr>"

definition close_stdin :: "nat option \<Rightarrow> stdio_client \<Rightarrow> stdio_client" where
  "close_stdin w s = (case w of None \<Rightarrow> s | Some p \<Rightarrow> update_proc p (\<lambda>c. c\<lparr>su_stdin_open := False\<rparr>) s)"

definition close_writer :: "nat option \<Rightarrow> nat option \<Rightarrow> nat option \<Rightarrow> stdio_client \<Rightarrow> stdio_client" where
  "close_writer c w d s =
     (close_stdin w s)\<lparr>sl_close := (case c of None \<Rightarrow> CloseFail | Some p \<Rightarrow> CloseWait p d False)\<rparr>"

text \<open>\<^verbatim>\<open>Kill\<close> does nothing to a process that has exited.\<close>

definition kill_proc :: "nat \<Rightarrow> stdio_client \<Rightarrow> stdio_client" where
  "kill_proc p s = (if proc_is s p PRunning then update_proc p (\<lambda>c. c\<lparr>su_state := PExited\<rparr>) s else s)"

definition close_kill :: "nat \<Rightarrow> nat option \<Rightarrow> stdio_client \<Rightarrow> stdio_client" where
  "close_kill p d s = (kill_proc p s)\<lparr>sl_close := CloseWait p d True\<rparr>"

definition close_fail :: "stdio_client \<Rightarrow> stdio_client" where
  "close_fail s = s\<lparr>sl_chan := (\<lambda>i. if i \<in> sl_pend s then (sl_chan s i)\<lparr>ch_closed := True\<rparr> else sl_chan s i),
     sl_pend := {}, sl_close := CloseDone\<rparr>"

subsection \<open>Everything at once\<close>

text \<open>
  One step of any of the parts. \<^verbatim>\<open>Wait\<close> closes the pipes it has made, so a subprocess that is
  reaped takes no more input; a write may fail at any time, and a reader may end at any time
  (end of the output, or a line above the limit). Once the daemon has panicked nothing moves.
\<close>

inductive client_act ::
  "(rpc_request \<Rightarrow> string) \<Rightarrow> (string \<Rightarrow> rpc_response option) \<Rightarrow> stdio_client \<Rightarrow> stdio_client \<Rightarrow> bool"
  for marshal decode where
  act_start: "stdio_start environ kvs x s = (r, s') \<Longrightarrow> client_act marshal decode s s'"
| act_reset: "done_closed s (sl_done s) \<Longrightarrow> client_act marshal decode s (stdio_reset s)"
| act_begin: "call_begin marshal method params s = (i, s') \<Longrightarrow> client_act marshal decode s s'"
| act_look: "sl_calls s i = Some (Registered f) \<Longrightarrow> client_act marshal decode s (call_look i f s)"
| act_write: "sl_calls s i = Some (Writing p d f) \<Longrightarrow> su_stdin_open (sl_procs s ! p) \<Longrightarrow>
    client_act marshal decode s (call_written i p d f s)"
| act_write_failed: "sl_calls s i = Some (Writing p d f) \<Longrightarrow>
    client_act marshal decode s (call_return i (Inl (client_error s (''write: '' @ e))) s)"
| act_receive: "sl_calls s i = Some (Waiting d) \<Longrightarrow> call_receive i s = Some s' \<Longrightarrow>
    client_act marshal decode s s'"
| act_context: "sl_calls s i = Some (Waiting d) \<Longrightarrow> client_act marshal decode s (call_return i (Inl e) s)"
| act_exit_seen: "sl_calls s i = Some (Waiting d) \<Longrightarrow> done_closed s d \<Longrightarrow>
    client_act marshal decode s (call_return i (Inl (client_error s ''subprocess exited mid-call'')) s)"
| act_scan: "p < length (sl_procs s) \<Longrightarrow> su_reader (sl_procs s ! p) = Scanning \<Longrightarrow>
    client_act marshal decode s (reader_scan decode p line s)"
| act_eof: "p < length (sl_procs s) \<Longrightarrow> su_reader (sl_procs s ! p) = Scanning \<Longrightarrow>
    client_act marshal decode s (update_proc p (\<lambda>c. c\<lparr>su_reader := ReaderEnded\<rparr>) s)"
| act_send: "p < length (sl_procs s) \<Longrightarrow> su_reader (sl_procs s ! p) = Sending r \<Longrightarrow>
    reader_send p r s = Some s' \<Longrightarrow> client_act marshal decode s s'"
| act_exit: "proc_is s p PRunning \<Longrightarrow>
    client_act marshal decode s (update_proc p (\<lambda>c. c\<lparr>su_state := PExited\<rparr>) s)"
| act_reap: "proc_is s p PExited \<Longrightarrow> client_act marshal decode s
    ((update_proc p (\<lambda>c. c\<lparr>su_state := PReaped, su_stdin_open := False\<rparr>) s)\<lparr>sl_exit_err := e\<rparr>)"
| act_done: "proc_is s p PReaped \<Longrightarrow>
    client_act marshal decode s (update_proc p (\<lambda>c. c\<lparr>su_state := PGone\<rparr>) s)"
| act_close: "sl_close s = CloseNone \<Longrightarrow> client_act marshal decode s (close_begin s)"
| act_close_writer: "sl_close s = CloseRead c w d \<Longrightarrow> client_act marshal decode s (close_writer c w d s)"
| act_close_kill: "sl_close s = CloseWait p d False \<Longrightarrow> client_act marshal decode s (close_kill p d s)"
| act_close_exit: "sl_close s = CloseWait p d k \<Longrightarrow> done_closed s d \<Longrightarrow>
    client_act marshal decode s (s\<lparr>sl_close := CloseFail\<rparr>)"
| act_close_fail: "sl_close s = CloseFail \<Longrightarrow> client_act marshal decode s (close_fail s)"

definition client_step ::
  "(rpc_request \<Rightarrow> string) \<Rightarrow> (string \<Rightarrow> rpc_response option) \<Rightarrow> stdio_client \<Rightarrow> stdio_client \<Rightarrow> bool" where
  "client_step marshal decode s s' \<longleftrightarrow> \<not> sl_panicked s \<and> client_act marshal decode s s'"

subsection \<open>The lifecycle's invariant\<close>

definition proc_live :: "stdio_client \<Rightarrow> nat \<Rightarrow> bool" where
  "proc_live s p \<longleftrightarrow> p < length (proc_states s) \<and> proc_states s ! p \<noteq> PGone"

text \<open>
  The three fields agree; a subprocess whose exit has not been announced is the current one;
  \<^verbatim>\<open>Close\<close> has in hand what it has to wait for.
\<close>

definition fields_ok :: "stdio_client \<Rightarrow> bool" where
  "fields_ok s \<longleftrightarrow> sl_writer s = sl_cmd s \<and> sl_done s = sl_cmd s \<and>
     (\<forall>p. sl_cmd s = Some p \<longrightarrow> p < length (proc_states s)) \<and>
     (\<forall>p. proc_live s p \<longrightarrow> sl_cmd s = Some p)"

definition close_ok :: "stdio_client \<Rightarrow> bool" where
  "close_ok s = (case sl_close s of
       CloseNone \<Rightarrow> \<not> sl_closed s
     | CloseRead c w d \<Rightarrow> sl_closed s \<and> w = c \<and> d = c \<and> (\<forall>p. c = Some p \<longrightarrow> p < length (proc_states s)) \<and>
         (\<forall>p. proc_live s p \<longrightarrow> c = Some p)
     | CloseWait p d k \<Rightarrow> sl_closed s \<and> d = Some p \<and> p < length (proc_states s) \<and>
         (\<forall>q. proc_live s q \<longrightarrow> q = p) \<and> (k \<longrightarrow> proc_states s ! p \<noteq> PRunning)
     | CloseFail \<Rightarrow> sl_closed s \<and> (\<forall>p. \<not> proc_live s p)
     | CloseDone \<Rightarrow> sl_closed s \<and> (\<forall>p. \<not> proc_live s p))"

definition call_ok :: "nat \<Rightarrow> call_phase \<Rightarrow> bool" where
  "call_ok n ph = (case ph of Registered f \<Rightarrow> True
     | Writing p d f \<Rightarrow> d = Some p \<and> p < n
     | Waiting d \<Rightarrow> (\<exists>p. d = Some p \<and> p < n))"

definition calls_ok :: "stdio_client \<Rightarrow> bool" where
  "calls_ok s \<longleftrightarrow> (\<forall>i ph. sl_calls s i = Some ph \<longrightarrow> call_ok (length (proc_states s)) ph)"

definition client_inv :: "stdio_client \<Rightarrow> bool" where
  "client_inv s \<longleftrightarrow> fields_ok s \<and> close_ok s \<and> calls_ok s"

named_theorems life_simps \<open>what the steps of the stdio client do to each part of its state\<close>

lemma update_proc_simps [life_simps]:
  "sl_cmd (update_proc p f s) = sl_cmd s" "sl_writer (update_proc p f s) = sl_writer s"
  "sl_done (update_proc p f s) = sl_done s" "sl_closed (update_proc p f s) = sl_closed s"
  "sl_close (update_proc p f s) = sl_close s" "sl_calls (update_proc p f s) = sl_calls s"
  "sl_pend (update_proc p f s) = sl_pend s" "sl_chan (update_proc p f s) = sl_chan s"
  "sl_log (update_proc p f s) = sl_log s" "sl_last_id (update_proc p f s) = sl_last_id s"
  "sl_panicked (update_proc p f s) = sl_panicked s"
  "length (sl_procs (update_proc p f s)) = length (sl_procs s)"
  by (simp_all add: update_proc_def)

lemma update_proc_nth [life_simps]:
  "q < length (sl_procs s) \<Longrightarrow>
     sl_procs (update_proc p f s) ! q = (if q = p then f (sl_procs s ! p) else sl_procs s ! q)"
  by (simp add: update_proc_def nth_list_update)

lemma states_update_same:
  assumes "\<And>c. su_state (f c) = su_state c"
  shows "proc_states (update_proc p f s) = proc_states s"
proof (cases "p < length (sl_procs s)")
  case True
  then have "(map su_state (sl_procs s))[p := su_state (sl_procs s ! p)] = map su_state (sl_procs s)"
    by (metis list_update_id nth_map)
  then show ?thesis by (simp add: proc_states_def update_proc_def map_update assms)
qed (simp add: proc_states_def update_proc_def list_update_beyond)

lemma states_update_set:
  "(\<And>c. su_state (f c) = st) \<Longrightarrow> proc_states (update_proc p f s) = (proc_states s)[p := st]"
  by (simp add: proc_states_def update_proc_def map_update)

lemma states_length [life_simps]: "length (proc_states s) = length (sl_procs s)"
  by (simp add: proc_states_def)


text \<open>Steps of callers and readers do not touch what the first two parts speak of.\<close>

definition same_life :: "stdio_client \<Rightarrow> stdio_client \<Rightarrow> bool" where
  "same_life s s' \<longleftrightarrow> proc_states s' = proc_states s \<and> sl_cmd s' = sl_cmd s \<and> sl_writer s' = sl_writer s \<and>
     sl_done s' = sl_done s \<and> sl_closed s' = sl_closed s \<and> sl_close s' = sl_close s"

lemma same_life_refl [simp]: "same_life s s" by (simp add: same_life_def)

lemma same_life_return [simp]: "same_life s (call_return i r s)"
  by (simp add: same_life_def call_return_def proc_states_def)

lemma same_life_update: "(\<And>c. su_state (f c) = su_state c) \<Longrightarrow> same_life s (update_proc p f s)"
  by (simp add: same_life_def life_simps states_update_same)

lemma same_life_keeps:
  assumes "same_life s s'"
  shows "fields_ok s' = fields_ok s" and "close_ok s' = close_ok s"
  using assms unfolding same_life_def fields_ok_def proc_live_def
  by (simp, cases "sl_close s") (simp_all add: close_ok_def proc_live_def)

lemma calls_ok_return: "calls_ok s \<Longrightarrow> calls_ok (call_return i r s)"
  by (auto simp: calls_ok_def call_return_def proc_states_def)

lemma client_inv_return: "client_inv s \<Longrightarrow> client_inv (call_return i r s)"
  using same_life_keeps [OF same_life_return] by (simp add: client_inv_def calls_ok_return)

lemma client_inv_same:
  assumes "client_inv s" and "same_life s s'" and "sl_calls s' = sl_calls s"
  shows "client_inv s'"
  using assms same_life_keeps [OF assms(2)] by (simp add: client_inv_def calls_ok_def same_life_def)

lemma client_inv_call:
  assumes "client_inv s" and "same_life s s'" and "sl_calls s' = (sl_calls s)(i \<mapsto> ph)"
    and "call_ok (length (proc_states s)) ph"
  shows "client_inv s'"
  using assms same_life_keeps [OF assms(2)] by (simp add: client_inv_def calls_ok_def same_life_def)

lemma client_inv_state:
  assumes "client_inv s" and "proc_states s' = (proc_states s)[p := st]" and "st \<noteq> PRunning"
    and "proc_live s p"
    and "sl_cmd s' = sl_cmd s" "sl_writer s' = sl_writer s" "sl_done s' = sl_done s"
    and "sl_closed s' = sl_closed s" "sl_close s' = sl_close s" "sl_calls s' = sl_calls s"
  shows "client_inv s'"
proof -
  have live: "proc_live s' q \<Longrightarrow> proc_live s q" for q
    using assms(2,4) by (auto simp: proc_live_def nth_list_update split: if_splits)
  have old: "fields_ok s" "close_ok s" "calls_ok s" using assms(1) by (simp_all add: client_inv_def)
  have "\<forall>q. proc_live s' q \<longrightarrow> sl_cmd s' = Some q"
    using old(1) live assms(5) by (simp add: fields_ok_def)
  then have "fields_ok s'" using old(1) assms(2,5-7) by (simp add: fields_ok_def)
  moreover have "calls_ok s'" using assms by (simp add: client_inv_def calls_ok_def)
  moreover have "proc_states s ! q \<noteq> PRunning \<Longrightarrow> q < length (proc_states s) \<Longrightarrow> proc_states s' ! q \<noteq> PRunning" for q
    using assms(2,3) by (cases "q = p") simp_all
  then have "close_ok s'" using old(2) assms(2,8,9) live
    by (cases "sl_close s") (auto simp: close_ok_def)
  ultimately show ?thesis by (simp add: client_inv_def)
qed

lemma client_inv_start:
  assumes "client_inv s" and "stdio_start environ kvs x s = (r, s')"
  shows "client_inv s'"
proof (cases "s' = s")
  case False
  then have "\<not> sl_closed s" and cmd: "sl_cmd s = None"
    and s': "\<exists>c. s' = s\<lparr>sl_procs := sl_procs s @ [c], sl_cmd := Some (length (sl_procs s)),
       sl_writer := Some (length (sl_procs s)), sl_done := Some (length (sl_procs s))\<rparr>"
    using assms(2) by (auto simp: stdio_start_def Let_def split: if_splits exec_result.splits)
  then have close: "sl_close s = CloseNone"
    using assms(1) by (auto simp: client_inv_def close_ok_def split: close_phase.splits)
  from s' obtain c where s': "s' = s\<lparr>sl_procs := sl_procs s @ [c], sl_cmd := Some (length (sl_procs s)),
       sl_writer := Some (length (sl_procs s)), sl_done := Some (length (sl_procs s))\<rparr>" ..
  have states: "proc_states s' = proc_states s @ [su_state c]" by (simp add: s' proc_states_def)
  have none: "\<not> proc_live s p" for p using assms(1) cmd by (auto simp: client_inv_def fields_ok_def)
  then have "proc_live s' p \<Longrightarrow> p = length (sl_procs s)" for p
    by (auto simp: proc_live_def states nth_append life_simps less_Suc_eq split: if_splits)
  then have "fields_ok s'" by (auto simp: fields_ok_def s' proc_states_def)
  moreover have "close_ok s'" using close \<open>\<not> sl_closed s\<close> by (simp add: close_ok_def s')
  moreover have "call_ok n ph \<Longrightarrow> call_ok (Suc n) ph" for n ph
    by (auto simp: call_ok_def split: call_phase.splits)
  then have "calls_ok s'" using assms(1) by (auto simp: client_inv_def calls_ok_def s' proc_states_def)
  ultimately show ?thesis by (simp add: client_inv_def)
qed (use assms(1) in simp)


lemma client_inv_look:
  assumes "client_inv s" and "sl_calls s i = Some (Registered f)"
  shows "client_inv (call_look i f s)"
proof (cases "sl_closed s \<or> sl_writer s = None")
  case True
  then show ?thesis using client_inv_return [OF assms(1)] by (auto simp: call_look_def)
next
  case False
  then obtain p where p: "sl_writer s = Some p" by blast
  then have "sl_done s = Some p" and "p < length (proc_states s)"
    using assms(1) by (simp_all add: client_inv_def fields_ok_def)
  moreover have "call_look i f s = s\<lparr>sl_calls := (sl_calls s)(i \<mapsto> Writing p (sl_done s) f)\<rparr>"
    using False p by (simp add: call_look_def)
  ultimately show ?thesis
    by (intro client_inv_call [OF assms(1)]) (auto simp: same_life_def proc_states_def call_ok_def)
qed

lemma client_inv_reader:
  assumes "client_inv s" and "reader_send p r s = Some s'"
  shows "client_inv s'"
proof (cases "ch_closed (sl_chan s (rs_id r))")
  case True
  then show ?thesis using assms
    by (intro client_inv_same [OF assms(1)]) (auto simp: reader_send_def same_life_def proc_states_def)
next
  case False
  let ?u = "update_proc p (\<lambda>c. c\<lparr>su_reader := Scanning\<rparr>) s"
  have "same_life s ?u" by (rule same_life_update) simp
  moreover have "s' = ?u\<lparr>sl_chan := (sl_chan s)(rs_id r := (sl_chan s (rs_id r))\<lparr>ch_buf := Some r\<rparr>)\<rparr>"
    using assms(2) False by (auto simp: reader_send_def Let_def split: if_splits)
  ultimately show ?thesis
    by (intro client_inv_same [OF assms(1)]) (simp_all add: same_life_def proc_states_def life_simps)
qed

lemma client_inv_scan: "client_inv s \<Longrightarrow> client_inv (reader_scan decode p line s)"
proof -
  assume inv: "client_inv s"
  have "client_inv (update_proc p (\<lambda>c. c\<lparr>su_reader := q\<rparr>) s)" for q
    by (rule client_inv_same [OF inv same_life_update]) (simp_all add: life_simps)
  then show ?thesis using inv by (simp add: reader_scan_def split: option.split)
qed

lemma client_inv_receive:
  assumes "client_inv s" and "call_receive i s = Some s'"
  shows "client_inv s'"
proof (cases "ch_buf (sl_chan s i)")
  case None
  then show ?thesis using assms client_inv_return by (auto simp: call_receive_def split: if_splits)
next
  case (Some r)
  let ?t = "s\<lparr>sl_chan := (sl_chan s)(i := (sl_chan s i)\<lparr>ch_buf := None\<rparr>)\<rparr>"
  have "client_inv ?t" by (rule client_inv_same [OF assms(1)]) (simp_all add: same_life_def proc_states_def)
  then show ?thesis using assms(2) Some client_inv_return by (auto simp: call_receive_def)
qed

lemma client_inv_closing:
  assumes "client_inv s" and "proc_states s' = proc_states s"
    and "sl_cmd s' = sl_cmd s" "sl_writer s' = sl_writer s" "sl_done s' = sl_done s"
    and "sl_calls s' = sl_calls s" and "close_ok s'"
  shows "client_inv s'"
proof -
  have "fields_ok s' = fields_ok s" and "calls_ok s' = calls_ok s"
    unfolding fields_ok_def calls_ok_def proc_live_def by (simp_all only: assms(2-6))
  then show ?thesis using assms(1,7) by (simp add: client_inv_def)
qed

lemma client_inv_close_begin:
  assumes "client_inv s"
  shows "client_inv (close_begin s)"
proof (rule client_inv_closing [OF assms])
  have "close_ok (close_begin s) \<longleftrightarrow> fields_ok s"
    by (simp add: close_ok_def close_begin_def fields_ok_def proc_live_def proc_states_def)
  then show "close_ok (close_begin s)" using assms by (simp add: client_inv_def)
qed (simp_all add: close_begin_def proc_states_def)

lemma states_close_stdin: "proc_states (close_stdin w s) = proc_states s"
  by (cases w) (simp_all add: close_stdin_def states_update_same)

lemma close_stdin_simps [life_simps]:
  "sl_cmd (close_stdin w s) = sl_cmd s" "sl_writer (close_stdin w s) = sl_writer s"
  "sl_done (close_stdin w s) = sl_done s" "sl_closed (close_stdin w s) = sl_closed s"
  "sl_close (close_stdin w s) = sl_close s" "sl_calls (close_stdin w s) = sl_calls s"
  "sl_pend (close_stdin w s) = sl_pend s" "sl_chan (close_stdin w s) = sl_chan s"
  "sl_log (close_stdin w s) = sl_log s" "sl_last_id (close_stdin w s) = sl_last_id s"
  by (cases w; simp add: close_stdin_def life_simps)+

lemma client_inv_close_writer:
  assumes "client_inv s" and "sl_close s = CloseRead c w d"
  shows "client_inv (close_writer c w d s)"
proof (rule client_inv_closing [OF assms(1)])
  have states: "proc_states (close_writer c w d s) = proc_states s"
    using states_close_stdin [of w s] by (simp add: close_writer_def proc_states_def)
  then show "proc_states (close_writer c w d s) = proc_states s" .
  show "close_ok (close_writer c w d s)"
    using assms states
    by (cases c) (auto simp: close_ok_def close_writer_def client_inv_def life_simps proc_live_def)
qed (simp_all add: close_writer_def life_simps)

lemma client_inv_kill:
  assumes "client_inv s" and "sl_close s = CloseWait p d k"
  shows "client_inv (close_kill p d s)"
proof -
  have ok: "client_inv (kill_proc p s)"
  proof (cases "proc_is s p PRunning")
    case True
    then show ?thesis unfolding kill_proc_def
      by (simp, intro client_inv_state [OF assms(1), of _ p PExited])
        (simp_all add: states_update_set life_simps, simp add: proc_is_def proc_live_def)
  qed (use assms(1) in \<open>simp add: kill_proc_def\<close>)
  have "proc_states (kill_proc p s) ! p \<noteq> PRunning"
    by (auto simp: kill_proc_def states_update_set proc_is_def)
      (use assms in \<open>auto simp: client_inv_def close_ok_def proc_is_def\<close>)
  moreover have "sl_close (kill_proc p s) = CloseWait p d k"
    using assms(2) by (simp add: kill_proc_def life_simps)
  ultimately show ?thesis
    using ok by (intro client_inv_closing [OF ok])
      (auto simp: close_kill_def proc_states_def client_inv_def close_ok_def proc_live_def)
qed


lemma done_closed_dead:
  assumes "client_inv s" and "done_closed s (sl_done s)"
  shows "\<not> proc_live s q"
proof
  assume live: "proc_live s q"
  then have "sl_cmd s = Some q" and "sl_done s = sl_cmd s"
    using assms(1) by (simp_all add: client_inv_def fields_ok_def)
  then show False using assms(2) live by (auto simp: done_closed_def proc_is_def proc_live_def)
qed

lemma client_inv_reset:
  assumes "client_inv s" and "done_closed s (sl_done s)"
  shows "client_inv (stdio_reset s)"
proof -
  have none: "\<not> proc_live s q" for q by (rule done_closed_dead [OF assms])
  have states: "proc_states (stdio_reset s) = proc_states s" by (simp add: stdio_reset_def proc_states_def)
  have live: "proc_live (stdio_reset s) = proc_live s" by (rule ext) (simp add: proc_live_def states)
  have "fields_ok (stdio_reset s)"
    using none by (simp add: fields_ok_def live) (simp add: stdio_reset_def)
  moreover have "calls_ok (stdio_reset s)"
    using assms(1) by (simp add: client_inv_def calls_ok_def states) (simp add: stdio_reset_def)
  moreover have "close_ok (stdio_reset s) = close_ok s"
    unfolding close_ok_def live states by (simp add: stdio_reset_def cong: close_phase.case_cong)
  then have "close_ok (stdio_reset s)" using assms(1) by (simp add: client_inv_def)
  ultimately show ?thesis by (simp add: client_inv_def)
qed

lemma client_inv_written:
  assumes "client_inv s" and "sl_calls s i = Some (Writing p d f)"
  shows "client_inv (call_written i p d f s)"
proof -
  let ?u = "update_proc p (\<lambda>c. c\<lparr>su_stdin := su_stdin c @ [f @ [nl]]\<rparr>) s"
  have "same_life s ?u" by (rule same_life_update) simp
  then have "same_life s (call_written i p d f s)"
    by (simp add: call_written_def same_life_def proc_states_def)
  moreover have "call_ok (length (proc_states s)) (Waiting d)"
    using assms by (fastforce simp: client_inv_def calls_ok_def call_ok_def)
  ultimately show ?thesis
    by (intro client_inv_call [OF assms(1)]) (simp_all add: call_written_def life_simps)
qed

lemma client_inv_begin:
  assumes "client_inv s" and "call_begin marshal method params s = (i, s')"
  shows "client_inv s'"
  by (rule client_inv_call [OF assms(1), where i = i])
    (use assms(2) in \<open>auto simp: call_begin_def next_id_def Let_def same_life_def proc_states_def call_ok_def\<close>)

lemma client_inv_close_exit:
  assumes "client_inv s" and "sl_close s = CloseWait p d k" and "done_closed s d"
  shows "client_inv (s\<lparr>sl_close := CloseFail\<rparr>)"
proof (rule client_inv_closing [OF assms(1)])
  have "sl_closed s" and "d = Some p" and "\<And>q. proc_live s q \<Longrightarrow> q = p"
    using assms(1,2) by (simp_all add: client_inv_def close_ok_def)
  moreover have "\<not> proc_live s p"
    using assms(3) \<open>d = Some p\<close> by (simp add: done_closed_def proc_is_def proc_live_def)
  ultimately have "\<not> proc_live s q" for q by blast
  then have "\<not> proc_live (s\<lparr>sl_close := CloseFail\<rparr>) q" for q by (simp add: proc_live_def proc_states_def)
  then show "close_ok (s\<lparr>sl_close := CloseFail\<rparr>)" using \<open>sl_closed s\<close> by (simp add: close_ok_def)
qed (simp_all add: proc_states_def)

lemma client_inv_close_fail:
  assumes "client_inv s" and "sl_close s = CloseFail"
  shows "client_inv (close_fail s)"
  by (rule client_inv_closing [OF assms(1)])
    (use assms in \<open>simp_all add: close_fail_def proc_states_def client_inv_def close_ok_def proc_live_def\<close>)

lemma client_inv_act:
  assumes "client_act marshal decode s s'" and "client_inv s"
  shows "client_inv s'"
  using assms(1)
proof cases
  case (act_eof p)
  show ?thesis unfolding act_eof(1)
    by (rule client_inv_same [OF assms(2) same_life_update]) (simp_all add: life_simps)
next
  case (act_exit p)
  show ?thesis unfolding act_exit(1)
    by (rule client_inv_state [OF assms(2), of _ p PExited])
      (use act_exit(2) in \<open>simp_all add: states_update_set life_simps proc_is_def proc_live_def\<close>)
next
  case (act_reap p e)
  let ?u = "update_proc p (\<lambda>c. c\<lparr>su_state := PReaped, su_stdin_open := False\<rparr>) s"
  have "proc_states (?u\<lparr>sl_exit_err := e\<rparr>) = (proc_states s)[p := PReaped]"
    using states_update_set [of "\<lambda>c. c\<lparr>su_state := PReaped, su_stdin_open := False\<rparr>" PReaped p s]
    by (simp add: proc_states_def)
  then show ?thesis unfolding act_reap(1)
    by (intro client_inv_state [OF assms(2), of _ p PReaped])
      (use act_reap(2) in \<open>simp_all add: life_simps proc_is_def proc_live_def\<close>)
next
  case (act_done p)
  show ?thesis unfolding act_done(1)
    by (rule client_inv_state [OF assms(2), of _ p PGone])
      (use act_done(2) in \<open>simp_all add: states_update_set life_simps proc_is_def proc_live_def\<close>)
qed (use assms(2) in \<open>auto intro: client_inv_start client_inv_reset client_inv_begin client_inv_look
       client_inv_written client_inv_return client_inv_receive client_inv_scan client_inv_reader
       client_inv_close_begin client_inv_close_writer client_inv_kill client_inv_close_exit
       client_inv_close_fail\<close>)

lemma client_inv_new: "client_inv (new_stdio_client cfg)"
  by (simp add: client_inv_def fields_ok_def close_ok_def calls_ok_def proc_live_def proc_states_def
      new_stdio_client_def)

lemma client_inv_reachable:
  "(client_step marshal decode)\<^sup>*\<^sup>* (new_stdio_client cfg) s \<Longrightarrow> client_inv s"
  by (induction rule: rtranclp_induct) (auto intro: client_inv_new client_inv_act simp: client_step_def)


subsection \<open>Refinement of the requests in flight\<close>

text \<open>
  What \<open>McpClient\<close> sees: a call is in flight until it returns, with what its channel holds;
  \<^verbatim>\<open>Close\<close> emptying the map of pending calls, a lookup that is not followed by a send yet, and
  writes are not visible there.
\<close>

definition answers_of :: "(int \<times> (string + rpc_response)) list \<Rightarrow> (int \<times> rpc_response) list" where
  "answers_of log = List.map_filter (\<lambda>(i, r). case r of Inl e \<Rightarrow> None | Inr q \<Rightarrow> Some (i, q)) log"

definition abs_stdio :: "stdio_client \<Rightarrow> stdio" where
  "abs_stdio s = \<lparr>sd_last_id = sl_last_id s,
     sd_pend = (\<lambda>i. if sl_calls s i = None then None else Some (ch_buf (sl_chan s i))),
     sd_got = answers_of (sl_log s)\<rparr>"

definition from_line :: "(string \<Rightarrow> rpc_response option) \<Rightarrow> rpc_response \<Rightarrow> bool" where
  "from_line decode r \<longleftrightarrow> rs_id r \<noteq> 0 \<and> (\<exists>line. line \<noteq> [] \<and> decode line = Some r)"

definition reader_ok :: "(string \<Rightarrow> rpc_response option) \<Rightarrow> stdio_client \<Rightarrow> bool" where
  "reader_ok decode s \<longleftrightarrow>
     (\<forall>p < length (sl_procs s). \<forall>r. su_reader (sl_procs s ! p) = Sending r \<longrightarrow> from_line decode r)"

lemma answers_of_Cons [simp]:
  "answers_of [] = []" "answers_of ((i, Inl e) # log) = answers_of log"
  "answers_of ((i, Inr q) # log) = (i, q) # answers_of log"
  by (simp_all add: answers_of_def)

lemma answers_of_set: "(i, q) \<in> set (answers_of log) \<longleftrightarrow> (i, Inr q) \<in> set log"
proof (induction log)
  case (Cons x log)
  obtain j r where x: "x = (j, r)" by fastforce
  show ?case using Cons by (cases r) (auto simp: x)
qed simp

lemma reader_ok_procs: "sl_procs s' = sl_procs s \<Longrightarrow> reader_ok decode s' = reader_ok decode s"
  by (simp add: reader_ok_def)

lemma reader_ok_update:
  assumes "reader_ok decode s"
    and "\<And>c r. su_reader (f c) = Sending r \<Longrightarrow> su_reader c = Sending r \<or> from_line decode r"
  shows "reader_ok decode (update_proc p f s)"
  using assms unfolding reader_ok_def by (force simp: life_simps split: if_splits)

lemma reader_ok_return: "reader_ok decode (call_return i r s) = reader_ok decode s"
  by (rule reader_ok_procs) (simp add: call_return_def)

lemma reader_ok_act:
  assumes "client_act marshal decode s s'" and ok: "reader_ok decode s"
  shows "reader_ok decode s'"
  using assms(1)
proof cases
  case (act_start environ kvs x r)
  then show ?thesis using ok
    by (auto simp: stdio_start_def reader_ok_def Let_def nth_append less_Suc_eq
        split: if_splits exec_result.splits)
next
  case (act_write i p d f)
  have "reader_ok decode (update_proc p (\<lambda>c. c\<lparr>su_stdin := su_stdin c @ [f @ [nl]]\<rparr>) s)"
    by (rule reader_ok_update [OF ok]) simp
  then show ?thesis unfolding act_write(1) by (simp add: call_written_def reader_ok_def)
next
  case (act_receive i d)
  then have "sl_procs s' = sl_procs s"
    by (auto simp: call_receive_def call_return_def split: option.splits if_splits)
  then show ?thesis using ok reader_ok_procs by blast
next
  case (act_scan p line)
  have "reader_ok decode (update_proc p (\<lambda>c. c\<lparr>su_reader := Sending r\<rparr>) s)" if "from_line decode r" for r
    by (rule reader_ok_update [OF ok]) (use that in simp)
  then show ?thesis using ok unfolding act_scan(1)
    by (auto simp: reader_scan_def from_line_def split: option.split)
next
  case (act_send p r)
  have "reader_ok decode (update_proc p (\<lambda>c. c\<lparr>su_reader := Scanning\<rparr>) s)"
    by (rule reader_ok_update [OF ok]) simp
  then show ?thesis using ok act_send(3)
    by (auto simp: reader_send_def Let_def reader_ok_def split: if_splits)
next
  case (act_reap p e)
  have "reader_ok decode (update_proc p (\<lambda>c. c\<lparr>su_state := PReaped, su_stdin_open := False\<rparr>) s)"
    by (rule reader_ok_update [OF ok]) simp
  then show ?thesis unfolding act_reap(1) by (simp add: reader_ok_def)
next
  case (act_close_writer c w d)
  have "reader_ok decode (close_stdin w s)"
    by (cases w) (auto simp: close_stdin_def ok intro!: reader_ok_update)
  then show ?thesis unfolding act_close_writer(1) by (simp add: close_writer_def reader_ok_def)
next
  case (act_close_kill p d)
  have "reader_ok decode (kill_proc p s)" by (auto simp: kill_proc_def ok intro!: reader_ok_update)
  then show ?thesis unfolding act_close_kill(1) by (simp add: close_kill_def reader_ok_def)
qed (use ok in \<open>auto simp: reader_ok_return stdio_reset_def call_begin_def next_id_def call_look_def
       close_begin_def close_fail_def Let_def split: option.split intro!: reader_ok_update
       intro: reader_ok_procs [THEN iffD2]\<close>)


lemma abs_same:
  assumes "sl_last_id s' = sl_last_id s" and "sl_calls s' = sl_calls s" and "sl_log s' = sl_log s"
    and "\<And>i. ch_buf (sl_chan s' i) = ch_buf (sl_chan s i)"
  shows "abs_stdio s' = abs_stdio s"
  using assms by (auto simp: abs_stdio_def fun_eq_iff)

lemma abs_quiet:
  assumes "sl_last_id s' = sl_last_id s" and "sl_calls s' = sl_calls s" and "sl_log s' = sl_log s"
    and "\<And>i. ch_buf (sl_chan s' i) = ch_buf (sl_chan s i)"
  shows "(stdio_step decode)\<^sup>*\<^sup>* (abs_stdio s) (abs_stdio s')"
  using abs_same [OF assms] by simp

lemma abs_phase:
  assumes "sl_calls s i \<noteq> None" and "sl_last_id s' = sl_last_id s" and "sl_calls s' = (sl_calls s)(i \<mapsto> ph)"
    and "sl_log s' = sl_log s" and "sl_chan s' = sl_chan s"
  shows "abs_stdio s' = abs_stdio s"
  using assms by (auto simp: abs_stdio_def fun_eq_iff)

lemma abs_return_error: "abs_stdio (call_return i (Inl e) s) = abandon_call i (abs_stdio s)"
  by (auto simp: abs_stdio_def call_return_def abandon_call_def fun_eq_iff)

lemma abs_return_step:
  assumes "sl_calls s i \<noteq> None"
  shows "stdio_step decode (abs_stdio s) (abs_stdio (call_return i (Inl e) s))"
  unfolding abs_return_error by (rule stdio_abandon) (use assms in \<open>simp add: abs_stdio_def\<close>)

lemma abs_receive:
  assumes "sl_calls s i \<noteq> None" and "call_receive i s = Some s'"
  shows "stdio_step decode (abs_stdio s) (abs_stdio s')"
proof (cases "ch_buf (sl_chan s i)")
  case None
  then show ?thesis using assms abs_return_step [OF assms(1)] by (auto simp: call_receive_def split: if_splits)
next
  case (Some r)
  then have "sd_pend (abs_stdio s) i = Some (Some r)" using assms(1) by (auto simp: abs_stdio_def)
  moreover from this have "abs_stdio s' = finish_call i (abs_stdio s)"
    using assms(2) Some
    by (auto simp: call_receive_def call_return_def finish_call_def) (auto simp: abs_stdio_def fun_eq_iff)
  ultimately show ?thesis by (simp add: stdio_finish)
qed

lemma abs_send:
  assumes "from_line decode r" and "reader_send p r s = Some s'"
  shows "(stdio_step decode)\<^sup>*\<^sup>* (abs_stdio s) (abs_stdio s')"
proof (cases "ch_closed (sl_chan s (rs_id r)) \<or> sl_calls s (rs_id r) = None")
  case True
  then have "abs_stdio s' = abs_stdio s"
    using assms(2) by (auto simp: reader_send_def Let_def life_simps abs_stdio_def fun_eq_iff split: if_splits)
  then show ?thesis by simp
next
  case False
  then have empty: "ch_buf (sl_chan s (rs_id r)) = None"
    and s': "s' = (update_proc p (\<lambda>c. c\<lparr>su_reader := Scanning\<rparr>) s)
      \<lparr>sl_chan := (sl_chan s)(rs_id r := (sl_chan s (rs_id r))\<lparr>ch_buf := Some r\<rparr>)\<rparr>"
    using assms(2) by (auto simp: reader_send_def Let_def split: if_splits)
  obtain line where line: "rs_id r \<noteq> 0" "line \<noteq> []" "decode line = Some r"
    using assms(1) by (auto simp: from_line_def)
  have "sd_pend (abs_stdio s) (rs_id r) = Some None" using False empty by (simp add: abs_stdio_def)
  then have "read_response decode line (abs_stdio s) =
      Some ((abs_stdio s)\<lparr>sd_pend := (sd_pend (abs_stdio s))(rs_id r \<mapsto> Some r)\<rparr>)"
    using line by (simp add: read_response_def)
  also have "(abs_stdio s)\<lparr>sd_pend := (sd_pend (abs_stdio s))(rs_id r \<mapsto> Some r)\<rparr> = abs_stdio s'"
    using False by (auto simp: s' life_simps abs_stdio_def fun_eq_iff)
  finally show ?thesis by (intro r_into_rtranclp stdio_read)
qed

lemma abs_act:
  assumes "client_act marshal decode s s'" and ok: "reader_ok decode s"
  shows "(stdio_step decode)\<^sup>*\<^sup>* (abs_stdio s) (abs_stdio s')"
  using assms(1)
proof cases
  case (act_start environ kvs x r)
  then have "abs_stdio s' = abs_stdio s"
    by (auto simp: stdio_start_def abs_stdio_def Let_def split: if_splits exec_result.splits)
  then show ?thesis by simp
next
  case (act_begin mth params i)
  then have "begin_call (abs_stdio s) = (i, abs_stdio s')"
    by (auto simp: call_begin_def begin_call_def next_id_def Let_def abs_stdio_def fun_eq_iff)
  then show ?thesis by (intro r_into_rtranclp stdio_begin)
next
  case (act_look i f)
  then have pend: "sl_calls s i \<noteq> None" by simp
  then have "stdio_step decode (abs_stdio s) (abs_stdio (call_return i (Inl e) s))" for e
    by (rule abs_return_step)
  moreover have "abs_stdio (s\<lparr>sl_calls := (sl_calls s)(i \<mapsto> ph)\<rparr>) = abs_stdio s" for ph
    by (rule abs_phase [OF pend]) simp_all
  ultimately show ?thesis unfolding act_look(1)
    by (auto simp: call_look_def split: option.split)
next
  case (act_write i p d f)
  have "abs_stdio (call_written i p d f s) = abs_stdio s"
    by (rule abs_phase [of _ i _ "Waiting d"]) (use act_write in \<open>simp_all add: call_written_def life_simps\<close>)
  then show ?thesis unfolding act_write(1) by simp
next
  case (act_receive i d)
  then show ?thesis using abs_receive [of s i s' decode] by auto
next
  case (act_write_failed i p d f e)
  then show ?thesis by (auto intro: abs_return_step r_into_rtranclp)
next
  case (act_context i d e)
  then show ?thesis by (auto intro: abs_return_step r_into_rtranclp)
next
  case (act_exit_seen i d)
  then show ?thesis by (auto intro: abs_return_step r_into_rtranclp)
next
  case (act_send p r)
  then show ?thesis using abs_send [of decode r p s s'] ok by (simp add: reader_ok_def)
qed (rule abs_quiet; auto simp: reader_scan_def stdio_reset_def close_begin_def close_writer_def
       close_kill_def kill_proc_def close_fail_def life_simps split: option.split)+


subsection \<open>Closing\<close>

text \<open>The steps that \<^verbatim>\<open>Close\<close> can count on: its own, the kill it asks for, and the reaper's.\<close>

inductive closer :: "stdio_client \<Rightarrow> stdio_client \<Rightarrow> bool" where
  closer_writer: "sl_close s = CloseRead c w d \<Longrightarrow> closer s (close_writer c w d s)"
| closer_kill: "sl_close s = CloseWait p d False \<Longrightarrow> closer s (close_kill p d s)"
| closer_reap: "proc_is s p PExited \<Longrightarrow> closer s
    ((update_proc p (\<lambda>c. c\<lparr>su_state := PReaped, su_stdin_open := False\<rparr>) s)\<lparr>sl_exit_err := e\<rparr>)"
| closer_done: "proc_is s p PReaped \<Longrightarrow> closer s (update_proc p (\<lambda>c. c\<lparr>su_state := PGone\<rparr>) s)"
| closer_exit: "sl_close s = CloseWait p d k \<Longrightarrow> done_closed s d \<Longrightarrow> closer s (s\<lparr>sl_close := CloseFail\<rparr>)"
| closer_fail: "sl_close s = CloseFail \<Longrightarrow> closer s (close_fail s)"

inductive_cases closerE: "closer s s'"

lemma closer_act: "closer s s' \<Longrightarrow> client_act marshal decode s s'"
  by (erule closerE) (auto intro: client_act.intros)

fun proc_rank :: "proc_state \<Rightarrow> nat" where
  "proc_rank PRunning = 3"
| "proc_rank PExited = 2"
| "proc_rank PReaped = 1"
| "proc_rank PGone = 0"

fun close_rank :: "close_phase \<Rightarrow> nat" where
  "close_rank CloseNone = 0"
| "close_rank (CloseRead c w d) = 4"
| "close_rank (CloseWait p d k) = (if k then 2 else 3)"
| "close_rank CloseFail = 1"
| "close_rank CloseDone = 0"

definition closer_measure :: "stdio_client \<Rightarrow> nat" where
  "closer_measure s = sum_list (map proc_rank (proc_states s)) + close_rank (sl_close s)"

lemma sum_rank_update:
  assumes "p < length xs" and "proc_rank st < proc_rank (xs ! p)"
  shows "sum_list (map proc_rank (xs[p := st])) < sum_list (map proc_rank xs)"
  using assms
proof (induction xs arbitrary: p)
  case (Cons x xs)
  then show ?case by (cases p) auto
qed simp

lemma proc_rank_drop:
  assumes "proc_is s p st" and "proc_states s' = (proc_states s)[p := st']" and "sl_close s' = sl_close s"
    and "proc_rank st' < proc_rank st"
  shows "closer_measure s' < closer_measure s"
  using assms sum_rank_update [of p "proc_states s" st'] by (simp add: closer_measure_def proc_is_def)

lemma kill_proc_rank: "sum_list (map proc_rank (proc_states (kill_proc p s))) \<le> sum_list (map proc_rank (proc_states s))"
proof (cases "proc_is s p PRunning")
  case True
  then have "p < length (proc_states s)" "proc_rank PExited < proc_rank (proc_states s ! p)"
    by (simp_all add: proc_is_def)
  from sum_rank_update [OF this] show ?thesis using True by (simp add: kill_proc_def states_update_set)
qed (simp add: kill_proc_def)

lemma closer_decreases: "closer s s' \<Longrightarrow> closer_measure s' < closer_measure s"
proof (induction rule: closer.induct)
  case (closer_writer s c w d)
  have "proc_states (close_writer c w d s) = proc_states s"
    using states_close_stdin [of w s] by (simp add: close_writer_def proc_states_def)
  moreover have "close_rank (sl_close (close_writer c w d s)) \<le> 3" by (cases c) (simp_all add: close_writer_def)
  ultimately show ?case using closer_writer by (simp add: closer_measure_def)
next
  case (closer_kill s p d)
  have "proc_states (close_kill p d s) = proc_states (kill_proc p s)" by (simp add: close_kill_def proc_states_def)
  then show ?case using closer_kill kill_proc_rank [of p s] by (simp add: closer_measure_def close_kill_def)
next
  case (closer_reap s p e)
  have "proc_states ((update_proc p (\<lambda>c. c\<lparr>su_state := PReaped, su_stdin_open := False\<rparr>) s)\<lparr>sl_exit_err := e\<rparr>)
      = (proc_states s)[p := PReaped]"
    using states_update_set [of "\<lambda>c. c\<lparr>su_state := PReaped, su_stdin_open := False\<rparr>" PReaped p s]
    by (simp add: proc_states_def)
  then show ?case by (intro proc_rank_drop [OF closer_reap, where st' = PReaped]) (simp_all add: life_simps)
next
  case (closer_done s p)
  show ?case by (rule proc_rank_drop [OF closer_done, where st' = PGone]) (simp_all add: states_update_set life_simps)
qed (simp_all add: closer_measure_def close_fail_def proc_states_def)

text \<open>It is never stuck on the way.\<close>

lemma closer_progress:
  assumes "client_inv s" and "sl_closed s" and "sl_close s \<noteq> CloseDone"
  shows "\<exists>s'. closer s s'"
proof (cases "sl_close s")
  case (CloseWait p d k)
  then have d: "d = Some p" and p: "p < length (proc_states s)" and k: "k \<longrightarrow> proc_states s ! p \<noteq> PRunning"
    using assms(1) by (simp_all add: client_inv_def close_ok_def)
  show ?thesis
  proof (cases "proc_states s ! p")
    case PRunning
    then show ?thesis using CloseWait k closer_kill [of s p d] by auto
  next
    case PExited
    then show ?thesis using p closer_reap [of s p] by (auto simp: proc_is_def)
  next
    case PReaped
    then show ?thesis using p closer_done [of s p] by (auto simp: proc_is_def)
  next
    case PGone
    then have "done_closed s d" using d p by (simp add: done_closed_def proc_is_def)
    then show ?thesis using closer_exit [OF CloseWait] by blast
  qed
qed (use assms in \<open>auto simp: client_inv_def close_ok_def intro: closer_writer closer_fail\<close>)

lemma closer_closed: "closer s s' \<Longrightarrow> sl_closed s' = sl_closed s"
  by (erule closerE) (auto simp: life_simps close_writer_def close_kill_def kill_proc_def close_fail_def)

lemma closer_ends:
  "client_inv s \<Longrightarrow> sl_closed s \<Longrightarrow> \<exists>t. closer\<^sup>*\<^sup>* s t \<and> sl_close t = CloseDone"
proof (induction "closer_measure s" arbitrary: s rule: less_induct)
  case less
  show ?case
  proof (cases "sl_close s = CloseDone")
    case False
    then obtain s' where step: "closer s s'" using closer_progress less.prems by blast
    have "client_inv s'" by (rule client_inv_act [OF closer_act [OF step] less.prems(1)])
    moreover have "sl_closed s'" using closer_closed [OF step] less.prems(2) by simp
    ultimately obtain t where "closer\<^sup>*\<^sup>* s' t" "sl_close t = CloseDone"
      using less.hyps closer_decreases [OF step] by blast
    with step show ?thesis by (blast intro: converse_rtranclp_into_rtranclp)
  qed blast
qed

lemma closer_keeps:
  "closer\<^sup>*\<^sup>* s t \<Longrightarrow> client_inv s \<Longrightarrow> sl_closed s \<Longrightarrow> client_inv t \<and> sl_closed t"
  by (induction rule: rtranclp_induct) (auto simp: closer_closed intro: client_inv_act closer_act)


subsection \<open>A run on a concrete client\<close>

text \<open>One subprocess, one call of id 1, and a subprocess that answers every line with \<open>ok\<close>.\<close>

abbreviation ok_response :: rpc_response where
  "ok_response \<equiv> \<lparr>rs_id = 1, rs_result = ''ok'', rs_error = None\<rparr>"

abbreviation snap_proc :: "proc_state \<Rightarrow> reader \<Rightarrow> bool \<Rightarrow> string list \<Rightarrow> subprocess" where
  "snap_proc st rd op inp \<equiv> \<lparr>su_argv = [''a''], su_env = [], su_state = st, su_reader = rd,
     su_stdin_open = op, su_stdin = inp\<rparr>"

abbreviation snap :: "int set \<Rightarrow> (int \<Rightarrow> chan) \<Rightarrow> (int \<rightharpoonup> call_phase) \<Rightarrow> (int \<times> (string + rpc_response)) list \<Rightarrow>
    string option \<Rightarrow> subprocess \<Rightarrow> close_phase \<Rightarrow> bool \<Rightarrow> stdio_client" where
  "snap pend ch calls log xe c cl pan \<equiv> \<lparr>sl_cfg = toy_cfg ''a'', sl_last_id = 1, sl_pend = pend, sl_chan = ch,
     sl_calls = calls, sl_log = log, sl_cmd = Some 0, sl_writer = Some 0, sl_done = Some 0,
     sl_closed = (cl \<noteq> CloseNone), sl_exit_err = xe, sl_procs = [c], sl_close = cl, sl_panicked = pan\<rparr>"

abbreviation toy_step :: "stdio_client \<Rightarrow> stdio_client \<Rightarrow> bool" where
  "toy_step \<equiv> client_step (\<lambda>_. ''q'') (\<lambda>_. Some ok_response)"

abbreviation no_chans :: "int \<Rightarrow> chan" where "no_chans \<equiv> \<lambda>_. fresh_chan"

abbreviation "asked \<equiv> snap_proc PRunning (Sending ok_response) True [''q'' @ [nl]]"

lemma toy_stepI: "client_act (\<lambda>_. ''q'') (\<lambda>_. Some ok_response) s s' \<Longrightarrow> \<not> sl_panicked s \<Longrightarrow> toy_step s s'"
  by (simp add: client_step_def)

text \<open>The call waits, and the reader holds its answer.\<close>

abbreviation "holding \<equiv> snap {1} no_chans [1 \<mapsto> Waiting (Some 0)] [] None asked CloseNone False"

lemma toy_holding: "toy_step\<^sup>*\<^sup>* (new_stdio_client (toy_cfg ''a'')) holding"
proof -
  let ?s0 = "new_stdio_client (toy_cfg ''a'')"
  let ?p = "\<lambda>inp. snap_proc PRunning Scanning True inp"
  let ?s1 = "(snap {} no_chans Map.empty [] None (?p []) CloseNone False)\<lparr>sl_last_id := 0\<rparr>"
  let ?s2 = "snap {1} no_chans [1 \<mapsto> Registered ''q''] [] None (?p []) CloseNone False"
  let ?s3 = "snap {1} no_chans [1 \<mapsto> Writing 0 (Some 0) ''q''] [] None (?p []) CloseNone False"
  let ?s4 = "snap {1} no_chans [1 \<mapsto> Waiting (Some 0)] [] None (?p [''q'' @ [nl]]) CloseNone False"
  have "toy_step ?s0 ?s1"
    by (rule toy_stepI, rule act_start [of "[]" "[]" Launched _ None])
      (simp_all add: stdio_start_def new_stdio_client_def child_env_def Let_def)
  moreover have "toy_step ?s1 ?s2"
    by (rule toy_stepI, rule act_begin [of _ "[]" "[]" _ 1])
      (simp_all add: call_begin_def next_id_def Let_def fun_eq_iff)
  moreover have "toy_step ?s2 ?s3"
    using act_look [of ?s2 1 "''q''"] by (intro toy_stepI) (simp_all add: call_look_def)
  moreover have "toy_step ?s3 ?s4"
    using act_write [of ?s3 1 0 "Some 0" "''q''"]
    by (intro toy_stepI) (simp_all add: call_written_def update_proc_def)
  moreover have "toy_step ?s4 holding"
    using act_scan [where s = ?s4 and p = 0 and line = "''x''" and decode = "\<lambda>_. Some ok_response"]
    by (intro toy_stepI) (simp_all add: reader_scan_def update_proc_def)
  ultimately show ?thesis by (meson rtranclp.intros)
qed


text \<open>The call gets it; or the subprocess exits first and the client is closed.\<close>

lemma toy_answered:
  "\<exists>s. toy_step\<^sup>*\<^sup>* (new_stdio_client (toy_cfg ''a'')) s \<and> sl_log s = [(1, Inr ok_response)]"
proof -
  let ?c = "snap_proc PRunning Scanning True [''q'' @ [nl]]"
  let ?ch = "no_chans(1 := \<lparr>ch_buf = Some ok_response, ch_closed = False\<rparr>)"
  let ?s1 = "snap {1} ?ch [1 \<mapsto> Waiting (Some 0)] [] None ?c CloseNone False"
  obtain s2 where s2: "call_receive 1 ?s1 = Some s2" "sl_log s2 = [(1, Inr ok_response)]"
    by (simp add: call_receive_def call_return_def)
  have "toy_step holding ?s1"
    by (rule toy_stepI, rule act_send [of 0 _ ok_response])
      (simp_all add: reader_send_def update_proc_def fun_eq_iff)
  moreover have "toy_step ?s1 s2"
    by (rule toy_stepI, rule act_receive [of _ 1 "Some 0"]) (use s2(1) in simp_all)
  ultimately show ?thesis using toy_holding s2(2) by (meson rtranclp.intros)
qed

abbreviation "closed_holding \<equiv> snap {} (no_chans(1 := \<lparr>ch_buf = None, ch_closed = True\<rparr>)) [1 \<mapsto> Waiting (Some 0)] []
  None (snap_proc PGone (Sending ok_response) False [''q'' @ [nl]]) CloseDone False"

lemma toy_closed: "toy_step\<^sup>*\<^sup>* (new_stdio_client (toy_cfg ''a'')) closed_holding"
proof -
  let ?c = "\<lambda>st op. snap_proc st (Sending ok_response) op [''q'' @ [nl]]"
  let ?w = "[1 \<mapsto> Waiting (Some 0)]"
  let ?s1 = "snap {1} no_chans ?w [] None (?c PExited True) CloseNone False"
  let ?s2 = "snap {1} no_chans ?w [] None (?c PReaped False) CloseNone False"
  let ?s3 = "snap {1} no_chans ?w [] None (?c PGone False) CloseNone False"
  let ?s4 = "snap {1} no_chans ?w [] None (?c PGone False) (CloseRead (Some 0) (Some 0) (Some 0)) False"
  let ?s5 = "snap {1} no_chans ?w [] None (?c PGone False) (CloseWait 0 (Some 0) False) False"
  let ?s6 = "snap {1} no_chans ?w [] None (?c PGone False) CloseFail False"
  note states = proc_is_def proc_states_def update_proc_def
  have "toy_step holding ?s1"
    using act_exit [of holding 0] by (intro toy_stepI) (simp_all add: states)
  moreover have "toy_step ?s1 ?s2"
    using act_reap [of ?s1 0 _ _ None] by (intro toy_stepI) (simp_all add: states)
  moreover have "toy_step ?s2 ?s3"
    using act_done [of ?s2 0] by (intro toy_stepI) (simp_all add: states)
  moreover have "toy_step ?s3 ?s4"
    using act_close [of ?s3] by (intro toy_stepI) (simp_all add: close_begin_def)
  moreover have "toy_step ?s4 ?s5"
    using act_close_writer [of ?s4 "Some 0" "Some 0" "Some 0"]
    by (intro toy_stepI) (simp_all add: close_writer_def close_stdin_def update_proc_def)
  moreover have "toy_step ?s5 ?s6"
    using act_close_exit [of ?s5 0 "Some 0" False] by (intro toy_stepI) (simp_all add: states done_closed_def)
  moreover have "close_fail ?s6 = closed_holding" by (simp add: close_fail_def fun_eq_iff)
  then have "toy_step ?s6 closed_holding"
    using act_close_fail [of ?s6] by (intro toy_stepI) simp_all
  ultimately show ?thesis using toy_holding by (meson rtranclp.rtrancl_into_rtrancl)
qed

text \<open>
  \<^verbatim>\<open>Close\<close> closes the channels of pending calls while a reader may hold one of them; when
  the reader then sends, the daemon panics.
\<close>

lemma close_can_panic: "\<exists>s. toy_step\<^sup>*\<^sup>* (new_stdio_client (toy_cfg ''a'')) s \<and> sl_panicked s"
proof -
  have "toy_step closed_holding (closed_holding\<lparr>sl_panicked := True\<rparr>)"
    by (rule toy_stepI, rule act_send [of 0 _ ok_response]) (simp_all add: reader_send_def)
  with toy_closed show ?thesis by (auto intro: rtranclp.rtrancl_into_rtrancl)
qed


subsection \<open>The environment of a subprocess, and the operations of the client\<close>

text \<open>The value a program finds under a name: the last entry counts.\<close>

definition env_value :: "string list \<Rightarrow> string \<Rightarrow> string option" where
  "env_value env k =
     (let es = filter (prefix (k @ ''='')) env
      in if es = [] then None else Some (drop (length k + 1) (last es)))"

lemma prefix_entry:
  "CHR ''='' \<notin> set k \<Longrightarrow> CHR ''='' \<notin> set k' \<Longrightarrow> prefix (k @ ''='') (k' @ ''='' @ v) \<longleftrightarrow> k = k'"
proof (induction k arbitrary: k')
  case Nil
  then show ?case by (cases k') auto
next
  case (Cons c k)
  then show ?case by (cases k') auto
qed

lemma filter_entries:
  assumes "CHR ''='' \<notin> set k" and "\<forall>k' \<in> fst ` set kvs. CHR ''='' \<notin> set k'" and "distinct (map fst kvs)"
  shows "filter (prefix (k @ ''='')) (map (\<lambda>(k, v). k @ ''='' @ v) kvs) =
    (case map_of kvs k of None \<Rightarrow> [] | Some v \<Rightarrow> [k @ ''='' @ v])"
  using assms(2,3)
proof (induction kvs)
  case (Cons kv kvs)
  obtain k' v where kv: "kv = (k', v)" by fastforce
  have "k' = k \<Longrightarrow> map_of kvs k = None" using Cons.prems(2) kv by (auto simp: map_of_eq_None_iff)
  then show ?case using Cons kv prefix_entry [OF assms(1), of k' v] by auto
qed simp

lemma child_env_value:
  assumes "CHR ''='' \<notin> set k" and "\<forall>k' \<in> fst ` set kvs. CHR ''='' \<notin> set k'" and "distinct (map fst kvs)"
  shows "env_value (child_env environ kvs) k =
    (case map_of kvs k of Some v \<Rightarrow> Some v | None \<Rightarrow> env_value environ k)"
  using filter_entries [OF assms]
  by (auto simp: env_value_def child_env_def Let_def split: option.split)

text \<open>
  \<open>encode\<close> is \<^verbatim>\<open>json.Marshal\<close> of the protocol version, an empty object of capabilities and
  the client's name and version; the name of the server is not sent.
\<close>

definition initialize_params :: "(string \<Rightarrow> string \<Rightarrow> string \<Rightarrow> string) \<Rightarrow> string \<Rightarrow> string" where
  "initialize_params encode name = encode ''2024-11-05'' ''agent-ops-mcpclient'' ''0.3.0''"

text \<open>
  \<open>call\<close> is \<^verbatim>\<open>call\<close> with the client's context, \<open>write\<close> the write to \<^verbatim>\<open>c.writer\<close> if there is
  one, and its error is dropped.
\<close>

definition stdio_initialize ::
  "(string \<Rightarrow> string \<Rightarrow> 'w \<Rightarrow> (string + string) \<times> 'w) \<Rightarrow> ('w \<Rightarrow> (string \<Rightarrow> 'w \<Rightarrow> string option \<times> 'w) option) \<Rightarrow>
   string \<Rightarrow> string \<Rightarrow> 'w \<Rightarrow> string option \<times> 'w" where
  "stdio_initialize call write params notif w =
     (case call ''initialize'' params w of
        (Inl e, w1) \<Rightarrow> (Some e, w1)
      | (Inr _, w1) \<Rightarrow>
          (case write w1 of
             None \<Rightarrow> (None, w1)
           | Some wr \<Rightarrow> (None, snd (wr (notif @ [nl]) w1))))"

definition stdio_list_tools ::
  "(string \<Rightarrow> string \<Rightarrow> 'w \<Rightarrow> (string + string) \<times> 'w) \<Rightarrow> (string \<Rightarrow> string + 't list) \<Rightarrow> string \<Rightarrow> 'w \<Rightarrow>
   (string + 't list) \<times> 'w" where
  "stdio_list_tools call decode name w =
     (let (r, w1) = call ''tools/list'' [] w
      in (case r of
            Inl e \<Rightarrow> Inl e
          | Inr raw \<Rightarrow> map_sum (\<lambda>e. ''mcpclient: '' @ name @ '': decode tools/list: '' @ e) id (decode raw), w1))"

definition stdio_call_tool ::
  "(string \<Rightarrow> string \<Rightarrow> 'w \<Rightarrow> (string + string) \<times> 'w) \<Rightarrow> (string \<Rightarrow> string \<Rightarrow> string) \<Rightarrow>
   (string \<Rightarrow> string + string list \<times> bool) \<Rightarrow> string \<Rightarrow> string \<Rightarrow> 'w \<Rightarrow> (string + call_result) \<times> 'w" where
  "stdio_call_tool call encode decode name args w =
     (let (r, w1) = call ''tools/call'' (call_tool_params encode name args) w
      in (case r of Inl e \<Rightarrow> Inl e | Inr raw \<Rightarrow> flatten_content decode raw, w1))"

subsection \<open>Properties\<close>

lemma stdio_client_simulates:
  assumes "(client_step marshal decode)\<^sup>*\<^sup>* (new_stdio_client cfg) s"
  shows "reader_ok decode s \<and> (stdio_step decode)\<^sup>*\<^sup>* stdio_init (abs_stdio s)"
  using assms
proof (induction rule: rtranclp_induct)
  case base
  show ?case by (simp add: reader_ok_def new_stdio_client_def abs_stdio_def stdio_init_def answers_of_def
      map_filter_simps)
next
  case (step s s')
  then have act: "client_act marshal decode s s'" by (simp add: client_step_def)
  then show ?case using reader_ok_act [OF act] abs_act [OF act] step.IH by (blast intro: rtranclp_trans)
qed

text \<open>
  C25: the stdio client refines the requests in flight. Whatever callers, readers, reapers,
  restarts and \<^verbatim>\<open>Close\<close> do, in any order and between any two of each other's steps, the calls,
  what their channels hold and the answers behave as the atomic machine of \<open>McpClient\<close>
  allows. In particular a call never returns with the answer to another one, and no id is
  answered twice.
\<close>

theorem stdio_client_refines:
  assumes "(client_step marshal decode)\<^sup>*\<^sup>* (new_stdio_client cfg) s"
  shows "(stdio_step decode)\<^sup>*\<^sup>* stdio_init (abs_stdio s) \<and>
    (\<forall>i q. (i, Inr q) \<in> set (sl_log s) \<longrightarrow> rs_id q = i) \<and> distinct (map fst (answers_of (sl_log s)))"
proof -
  have sim: "(stdio_step decode)\<^sup>*\<^sup>* stdio_init (abs_stdio s)" using stdio_client_simulates [OF assms] by simp
  note inv = stdio_invD [OF stdio_inv_reachable [OF sim]]
  have got: "sd_got (abs_stdio s) = answers_of (sl_log s)" by (simp add: abs_stdio_def)
  have "rs_id q = i" if "(i, Inr q) \<in> set (sl_log s)" for i q
    using inv(4) [of i q] that by (simp add: got answers_of_set)
  then show ?thesis using sim inv(5) by (simp add: got)
qed

theorem stdio_client_refines_witness:
  "\<exists>s. sl_log s = [(1, Inr ok_response)] \<and> (stdio_step (\<lambda>_. Some ok_response))\<^sup>*\<^sup>* stdio_init (abs_stdio s)"
  using toy_answered stdio_client_refines by blast

text \<open>
  C26: once \<^verbatim>\<open>Close\<close> has returned the client is at rest. Every subprocess it ever started has
  exited and been reaped, none is started again, and every call that has not returned yet
  can return with an error by its own next step, whatever state it was caught in.
\<close>

theorem stdio_close_settles:
  assumes "(client_step marshal decode)\<^sup>*\<^sup>* (new_stdio_client cfg) s" and "sl_close s = CloseDone"
  shows "(\<forall>c \<in> set (sl_procs s). su_state c = PGone) \<and>
    stdio_start environ kvs x s = (Some ''mcpclient: stdio: client closed'', s) \<and>
    (\<forall>i. sl_calls s i \<noteq> None \<longrightarrow> (\<exists>e. client_act marshal decode s (call_return i (Inl e) s)))"
proof (intro conjI allI impI)
  have inv: "client_inv s" by (rule client_inv_reachable [OF assms(1)])
  then have closed: "sl_closed s" and dead: "\<And>p. \<not> proc_live s p"
    using assms(2) by (simp_all add: client_inv_def close_ok_def)
  then show "\<forall>c \<in> set (sl_procs s). su_state c = PGone"
    by (auto simp: proc_live_def proc_states_def in_set_conv_nth)
  show "stdio_start environ kvs x s = (Some ''mcpclient: stdio: client closed'', s)"
    using closed by (simp add: stdio_start_def)
  show "\<exists>e. client_act marshal decode s (call_return i (Inl e) s)" if busy: "sl_calls s i \<noteq> None" for i
  proof -
    obtain ph where ph: "sl_calls s i = Some ph" using busy by blast
    then have ok: "call_ok (length (proc_states s)) ph" using inv by (auto simp: client_inv_def calls_ok_def)
    show ?thesis
    proof (cases ph)
      case (Registered f)
      then show ?thesis using act_look [of s i f] ph closed by (auto simp: call_look_def)
    next
      case (Writing p d f)
      then show ?thesis using act_write_failed [of s i p d f] ph by auto
    next
      case (Waiting d)
      then obtain p where "d = Some p" "p < length (proc_states s)" using ok by (auto simp: call_ok_def)
      then have "done_closed s d" using dead [of p] by (simp add: done_closed_def proc_is_def proc_live_def)
      then show ?thesis using act_exit_seen [of s i d] ph Waiting by auto
    qed
  qed
qed

theorem stdio_close_settles_witness:
  "\<exists>e. client_act (\<lambda>_. ''q'') (\<lambda>_. Some ok_response) closed_holding (call_return 1 (Inl e) closed_holding)"
  using stdio_close_settles [OF toy_closed, of "[]" "[]" Launched] by simp

text \<open>
  C34: \<^verbatim>\<open>Close\<close> returns. Once it has begun, its own steps, the kill after two seconds and the
  reaper's steps can only be taken finitely often, and where they stop it has returned, even
  if the subprocess ignores the end of its input and no caller moves.
\<close>

theorem stdio_close_returns:
  assumes "(client_step marshal decode)\<^sup>*\<^sup>* (new_stdio_client cfg) s" and "sl_close s \<noteq> CloseNone"
  shows "(\<exists>t. closer\<^sup>*\<^sup>* s t \<and> sl_close t = CloseDone) \<and>
    (\<forall>t. closer\<^sup>*\<^sup>* s t \<and> (\<nexists>u. closer t u) \<longrightarrow> sl_close t = CloseDone) \<and> wfp (closer\<inverse>\<inverse>)"
proof -
  have inv: "client_inv s" by (rule client_inv_reachable [OF assms(1)])
  then have closed: "sl_closed s"
    using assms(2) by (auto simp: client_inv_def close_ok_def split: close_phase.splits)
  have "sl_close t = CloseDone" if "closer\<^sup>*\<^sup>* s t" "\<nexists>u. closer t u" for t
    using closer_keeps [OF that(1) inv closed] closer_progress that(2) by blast
  moreover have "wfp (closer\<inverse>\<inverse>)"
    by (rule wfp_if_convertible_to_nat [of _ closer_measure]) (auto intro: closer_decreases)
  ultimately show ?thesis using closer_ends [OF inv closed] by blast
qed

theorem stdio_close_returns_witness:
  "\<exists>s. sl_close s = CloseRead None None None \<and> (\<exists>t. closer\<^sup>*\<^sup>* s t \<and> sl_close t = CloseDone)"
proof -
  let ?s0 = "new_stdio_client (toy_cfg ''a'')"
  have "toy_step ?s0 (close_begin ?s0)"
    by (rule toy_stepI, rule act_close) (simp_all add: new_stdio_client_def)
  then have "toy_step\<^sup>*\<^sup>* ?s0 (close_begin ?s0)" by blast
  from stdio_close_returns [OF this] show ?thesis
    by (intro exI [of _ "close_begin ?s0"]) (simp add: close_begin_def new_stdio_client_def)
qed

end
