(* ===== verification/ClientLife.thy ===== *)
theory ClientLife
  imports StdioClient
begin

text \<open>
  The lifecycle that \<^verbatim>\<open>Client\<close> of \<^verbatim>\<open>internal/mcpclient/client.go\<close> promises the manager, as an
  interface: starting again is no operation, a failed start leaves nothing, closing is final and
  may be repeated. The HTTP client and the stdio client provide it; of the latter's
  \<^verbatim>\<open>Close\<close> this theory has the run from its call to its return, which is one of the runs of the
  step relation of \<open>StdioClient\<close>.
\<close>

subsection \<open>The interface\<close>

text \<open>
  \<open>start x\<close> is a start in circumstances \<open>x\<close> (environment, result of the exec), \<open>close y\<close> a
  close in circumstances \<open>y\<close> (exit status of the subprocess); \<open>refuses\<close> says that calls are
  refused, \<open>resting\<close> that nothing of the client runs, \<open>good\<close> is the provider's invariant.
\<close>

locale client_lifecycle =
  fixes start :: "'x \<Rightarrow> 's \<Rightarrow> string option \<times> 's"
    and close :: "'y \<Rightarrow> 's \<Rightarrow> 's"
    and refuses :: "'s \<Rightarrow> bool"
    and resting :: "'s \<Rightarrow> bool"
    and good :: "'s \<Rightarrow> bool"
  assumes start_good: "good s \<Longrightarrow> good (snd (start x s))"
    and start_again: "start x s = (None, s') \<Longrightarrow> start x' s' = (None, s')"
    and start_failed: "start x s = (Some e, s') \<Longrightarrow> s' = s"
    and start_refused: "refuses s \<Longrightarrow> snd (start x s) = s"
    and close_good: "good s \<Longrightarrow> good (close y s)"
    and close_refuses: "refuses (close y s)"
    and close_rests: "good s \<Longrightarrow> resting (close y s)"
begin

definition client_op :: "'x + 'y \<Rightarrow> 's \<Rightarrow> 's" where
  "client_op k s = (case k of Inl x \<Rightarrow> snd (start x s) | Inr y \<Rightarrow> close y s)"

lemma ops_good: "good s \<Longrightarrow> good (fold client_op ks s)"
proof (induction ks arbitrary: s)
  case (Cons k ks)
  then show ?case by (cases k) (simp_all add: client_op_def start_good close_good)
qed simp

text \<open>Whatever is called after a close, in any order: calls are refused and nothing runs.\<close>

lemma closed_for_good:
  assumes "good s" and "refuses s" and "resting s"
  shows "refuses (fold client_op ks s) \<and> resting (fold client_op ks s)"
  using assms
proof (induction ks arbitrary: s)
  case (Cons k ks)
  show ?case
  proof (cases k)
    case (Inl x)
    then show ?thesis using Cons start_refused by (simp add: client_op_def)
  next
    case (Inr y)
    then show ?thesis using Cons close_refuses close_rests close_good by (simp add: client_op_def)
  qed
qed simp

lemma close_is_final:
  assumes "good s"
  shows "refuses (fold client_op (ks @ Inr y # js) s) \<and> resting (fold client_op (ks @ Inr y # js) s)"
proof -
  have "good (fold client_op ks s)" by (rule ops_good [OF assms])
  then show ?thesis
    using closed_for_good [of "close y (fold client_op ks s)" js] close_refuses close_rests close_good
    by (simp add: client_op_def)
qed

lemma started_once: "start x s = (None, s') \<Longrightarrow> fold (\<lambda>x t. snd (start x t)) xs s' = s'"
  by (induction xs) (simp_all add: start_again)

end

subsection \<open>The HTTP client\<close>

definition http_start :: "unit \<Rightarrow> http_client \<Rightarrow> string option \<times> http_client" where
  "http_start x c = (None, c)"

definition http_close :: "unit \<Rightarrow> http_client \<Rightarrow> http_client" where
  "http_close y c = c\<lparr>hc_closed := True\<rparr>"

interpretation http: client_lifecycle http_start http_close hc_closed "\<lambda>_. True" "\<lambda>_. True"
  by unfold_locales (simp_all add: http_start_def http_close_def)

subsection \<open>The stdio client\<close>

text \<open>The subprocess comes to its end: killed if it still runs, and reaped with status \<open>e\<close>.\<close>

definition finish_proc :: "string option \<Rightarrow> nat \<Rightarrow> stdio_client \<Rightarrow> stdio_client" where
  "finish_proc e p s =
     (if proc_is s p PGone then s
      else if proc_is s p PReaped then update_proc p (\<lambda>c. c\<lparr>su_state := PGone\<rparr>) s
      else (update_proc p (\<lambda>c. c\<lparr>su_state := PGone, su_stdin_open := False\<rparr>) s)\<lparr>sl_exit_err := e\<rparr>)"

text \<open>
  \<^verbatim>\<open>Close\<close> from its call to its return with no other goroutine but the reaper in between. A
  repeated close finds the subprocess gone and fails the callers that have come since.
\<close>

definition stdio_close :: "string option \<Rightarrow> stdio_client \<Rightarrow> stdio_client" where
  "stdio_close e s =
     (let s1 = close_writer (sl_cmd s) (sl_writer s) (sl_done s) (close_begin s)
      in close_fail (case sl_cmd s of None \<Rightarrow> s1 | Some p \<Rightarrow> finish_proc e p s1))"

lemma close_writer_parts:
  "sl_closed (close_writer c w d s) = sl_closed s" "proc_states (close_writer c w d s) = proc_states s"
  "sl_cmd (close_writer c w d s) = sl_cmd s" "sl_writer (close_writer c w d s) = sl_writer s"
  "sl_done (close_writer c w d s) = sl_done s" "sl_calls (close_writer c w d s) = sl_calls s"
  using states_close_stdin [of w s] by (simp_all add: close_writer_def life_simps proc_states_def)

lemma finish_proc_parts:
  "sl_closed (finish_proc e p s) = sl_closed s" "sl_cmd (finish_proc e p s) = sl_cmd s"
  "sl_writer (finish_proc e p s) = sl_writer s" "sl_done (finish_proc e p s) = sl_done s"
  "sl_calls (finish_proc e p s) = sl_calls s" "sl_close (finish_proc e p s) = sl_close s"
  by (simp_all add: finish_proc_def life_simps)

lemma finish_proc_states: "p < length (proc_states s) \<Longrightarrow> proc_states (finish_proc e p s) = (proc_states s)[p := PGone]"
proof -
  assume "p < length (proc_states s)"
  then have "proc_is s p PGone \<Longrightarrow> (proc_states s)[p := PGone] = proc_states s"
    by (simp add: proc_is_def list_update_same_conv)
  moreover have "proc_states ((update_proc p f s)\<lparr>sl_exit_err := e\<rparr>) = proc_states (update_proc p f s)" for f
    by (simp add: proc_states_def)
  ultimately show ?thesis by (simp add: finish_proc_def states_update_set)
qed

text \<open>It is one of the ways in which \<^verbatim>\<open>Close\<close> can go.\<close>

lemma update_twice: "update_proc p g (update_proc p f s) = update_proc p (\<lambda>c. g (f c)) s"
  by (cases "p < length (sl_procs s)") (simp_all add: update_proc_def list_update_beyond)


lemma update_exit_err: "update_proc p f (s\<lparr>sl_exit_err := e\<rparr>) = (update_proc p f s)\<lparr>sl_exit_err := e\<rparr>"
  by (simp add: update_proc_def)

lemma update_close: "update_proc p f (s\<lparr>sl_close := c\<rparr>) = (update_proc p f s)\<lparr>sl_close := c\<rparr>"
  by (simp add: update_proc_def)

lemma closer_tail:
  assumes "sl_close s = CloseWait p (Some p) k" and "proc_is s p PGone"
  shows "closer\<^sup>*\<^sup>* s (close_fail s)"
proof -
  let ?t = "s\<lparr>sl_close := CloseFail\<rparr>"
  have "closer s ?t" by (rule closer_exit [OF assms(1)]) (simp add: done_closed_def assms(2))
  moreover have "closer ?t (close_fail ?t)" by (rule closer_fail) simp
  moreover have "close_fail ?t = close_fail s" by (simp add: close_fail_def cong: if_cong)
  ultimately show ?thesis by (metis r_into_rtranclp rtranclp.rtrancl_into_rtrancl)
qed

lemma closer_reaped:
  assumes "sl_close s = CloseWait p (Some p) k" and "proc_is s p PReaped"
  shows "closer\<^sup>*\<^sup>* s (close_fail (update_proc p (\<lambda>c. c\<lparr>su_state := PGone\<rparr>) s))"
proof -
  let ?t = "update_proc p (\<lambda>c. c\<lparr>su_state := PGone\<rparr>) s"
  have "proc_is ?t p PGone" using assms(2) by (simp add: proc_is_def states_update_set)
  then have "closer\<^sup>*\<^sup>* ?t (close_fail ?t)" using assms(1) by (intro closer_tail) (simp_all add: life_simps)
  with closer_done [OF assms(2)] show ?thesis by (rule converse_rtranclp_into_rtranclp)
qed

lemma closer_exited:
  assumes "sl_close s = CloseWait p (Some p) k" and "proc_is s p PExited"
  shows "closer\<^sup>*\<^sup>* s (close_fail ((update_proc p (\<lambda>c. c\<lparr>su_state := PGone, su_stdin_open := False\<rparr>) s)\<lparr>sl_exit_err := e\<rparr>))"
proof -
  let ?u = "update_proc p (\<lambda>c. c\<lparr>su_state := PReaped, su_stdin_open := False\<rparr>) s"
  let ?t = "?u\<lparr>sl_exit_err := e\<rparr>"
  have "proc_states ?t = (proc_states s)[p := PReaped]"
    using states_update_set [of "\<lambda>c. c\<lparr>su_state := PReaped, su_stdin_open := False\<rparr>" PReaped p s]
    by (simp add: proc_states_def)
  then have "proc_is ?t p PReaped" using assms(2) by (simp add: proc_is_def)
  then have "closer\<^sup>*\<^sup>* ?t (close_fail (update_proc p (\<lambda>c. c\<lparr>su_state := PGone\<rparr>) ?t))"
    by (rule closer_reaped [rotated]) (simp add: life_simps assms(1))
  then have "closer\<^sup>*\<^sup>* s (close_fail (update_proc p (\<lambda>c. c\<lparr>su_state := PGone\<rparr>) ?t))"
    using closer_reap [OF assms(2), of e] by (blast intro: converse_rtranclp_into_rtranclp)
  moreover have "(\<lambda>c :: subprocess. c\<lparr>su_stdin_open := False, su_state := PGone\<rparr>) = (\<lambda>c. c\<lparr>su_state := PGone, su_stdin_open := False\<rparr>)"
    by (rule ext) simp
  ultimately show ?thesis by (simp add: update_exit_err update_twice)
qed

lemma closer_finish:
  assumes "sl_close s = CloseWait p (Some p) False" and "p < length (proc_states s)"
  shows "closer\<^sup>*\<^sup>* s (close_fail (finish_proc e p s))"
proof (cases "proc_states s ! p")
  case PRunning
  then have run: "proc_is s p PRunning" using assms(2) by (simp add: proc_is_def)
  let ?t = "close_kill p (Some p) s"
  have t: "?t = (update_proc p (\<lambda>c. c\<lparr>su_state := PExited\<rparr>) s)\<lparr>sl_close := CloseWait p (Some p) True\<rparr>"
    using run by (simp add: close_kill_def kill_proc_def)
  have "proc_states ?t = (proc_states s)[p := PExited]"
    using states_update_set [of "\<lambda>c. c\<lparr>su_state := PExited\<rparr>" PExited p s] by (simp add: t proc_states_def)
  then have "proc_is ?t p PExited" using assms(2) by (simp add: proc_is_def)
  then have "closer\<^sup>*\<^sup>* ?t (close_fail ((update_proc p (\<lambda>c. c\<lparr>su_state := PGone, su_stdin_open := False\<rparr>) ?t)\<lparr>sl_exit_err := e\<rparr>))"
    by (rule closer_exited [rotated]) (simp add: t)
  then have "closer\<^sup>*\<^sup>* s (close_fail ((update_proc p (\<lambda>c. c\<lparr>su_state := PGone, su_stdin_open := False\<rparr>) ?t)\<lparr>sl_exit_err := e\<rparr>))"
    using closer_kill [OF assms(1)] by (blast intro: converse_rtranclp_into_rtranclp)
  then show ?thesis using run
    by (simp add: t finish_proc_def proc_is_def update_close update_twice close_fail_def life_simps cong: if_cong)
next
  case PExited
  then show ?thesis using closer_exited [OF assms(1), of e] assms(2) by (simp add: finish_proc_def proc_is_def)
next
  case PReaped
  then show ?thesis using closer_reaped [OF assms(1)] assms(2) by (simp add: finish_proc_def proc_is_def)
next
  case PGone
  then show ?thesis using closer_tail [OF assms(1)] assms(2) by (simp add: finish_proc_def proc_is_def)
qed

lemma stdio_close_run:
  assumes "client_inv s"
  shows "closer\<^sup>*\<^sup>* (close_begin s) (stdio_close e s)"
proof -
  let ?b = "close_begin s"
  let ?w = "close_writer (sl_cmd s) (sl_writer s) (sl_done s) ?b"
  have "closer ?b ?w" by (rule closer_writer) (simp add: close_begin_def)
  moreover have "closer\<^sup>*\<^sup>* ?w (stdio_close e s)"
  proof (cases "sl_cmd s")
    case None
    then have "closer ?w (close_fail ?w)" by (intro closer_fail) (simp add: close_writer_def)
    then show ?thesis using None by (simp add: stdio_close_def Let_def)
  next
    case (Some p)
    then have "sl_done s = Some p" "p < length (proc_states s)"
      using assms by (simp_all add: client_inv_def fields_ok_def)
    moreover have "proc_states ?w = proc_states s"
      by (simp add: close_writer_parts) (simp add: close_begin_def proc_states_def)
    ultimately have "closer\<^sup>*\<^sup>* ?w (close_fail (finish_proc e p ?w))"
      using Some by (intro closer_finish) (simp_all add: close_writer_def)
    then show ?thesis using Some by (simp add: stdio_close_def Let_def)
  qed
  ultimately show ?thesis by (rule converse_rtranclp_into_rtranclp)
qed

lemma stdio_close_done [simp]: "sl_close (stdio_close e s) = CloseDone" "sl_closed (stdio_close e s)"
  by (simp_all add: stdio_close_def Let_def close_fail_def close_writer_parts finish_proc_parts close_begin_def
      split: option.split)

lemma stdio_close_inv: "client_inv s \<Longrightarrow> client_inv (stdio_close e s)"
  using closer_keeps [OF stdio_close_run client_inv_close_begin] by (simp add: close_begin_def)

definition at_rest :: "stdio_client \<Rightarrow> bool" where
  "at_rest s \<longleftrightarrow> (\<forall>c \<in> set (sl_procs s). su_state c = PGone)"

lemma stdio_close_rests: "client_inv s \<Longrightarrow> at_rest (stdio_close e s)"
proof -
  assume "client_inv s"
  then have "close_ok (stdio_close e s)" using stdio_close_inv by (simp add: client_inv_def)
  then have "\<not> proc_live (stdio_close e s) p" for p by (simp add: close_ok_def)
  then show ?thesis by (auto simp: at_rest_def proc_live_def proc_states_def in_set_conv_nth)
qed

text \<open>A start with its environment, the entries of the configured one, and the result of the exec.\<close>

definition stdio_start_with ::
  "string list \<times> (string \<times> string) list \<times> exec_result \<Rightarrow> stdio_client \<Rightarrow> string option \<times> stdio_client" where
  "stdio_start_with x s = (case x of (environ, kvs, r) \<Rightarrow> stdio_start environ kvs r s)"

lemma stdio_start_cases:
  assumes "stdio_start environ kvs x s = (r, s')"
  shows "s' = s \<and> (r \<noteq> None \<or> \<not> sl_closed s \<and> sl_cmd s \<noteq> None) \<or>
    r = None \<and> \<not> sl_closed s' \<and> sl_cmd s' \<noteq> None"
  using assms by (auto simp: stdio_start_def Let_def split: if_splits exec_result.splits)

lemma stdio_start_again: "\<not> sl_closed s \<Longrightarrow> sl_cmd s \<noteq> None \<Longrightarrow> stdio_start environ kvs x s = (None, s)"
  by (simp add: stdio_start_def)

interpretation stdio: client_lifecycle stdio_start_with stdio_close sl_closed at_rest client_inv
proof
  fix x x' s s' e y
  show "client_inv s \<Longrightarrow> client_inv (snd (stdio_start_with x s))"
    by (cases x) (auto simp: stdio_start_with_def intro: client_inv_start [OF _ prod.collapse [symmetric]])
  show "stdio_start_with x s = (None, s') \<Longrightarrow> stdio_start_with x' s' = (None, s')"
    by (cases x; cases x') (use stdio_start_cases stdio_start_again in \<open>fastforce simp: stdio_start_with_def\<close>)
  show "stdio_start_with x s = (Some e, s') \<Longrightarrow> s' = s"
    by (cases x) (use stdio_start_cases in \<open>fastforce simp: stdio_start_with_def\<close>)
  show "sl_closed s \<Longrightarrow> snd (stdio_start_with x s) = s"
    by (cases x) (simp add: stdio_start_with_def stdio_start_def)
qed (simp_all add: stdio_close_inv stdio_close_rests)


subsection \<open>What the contract gives\<close>

lemma closer_panicked: "closer s s' \<Longrightarrow> sl_panicked s' = sl_panicked s"
  by (erule closerE) (auto simp: life_simps close_writer_def close_stdin_def close_kill_def kill_proc_def
      close_fail_def split: option.split)

lemma closer_steps:
  "closer\<^sup>*\<^sup>* s t \<Longrightarrow> \<not> sl_panicked s \<Longrightarrow> (client_step marshal decode)\<^sup>*\<^sup>* s t \<and> \<not> sl_panicked t"
proof (induction rule: rtranclp_induct)
  case (step t u)
  then have "client_step marshal decode t u" by (simp add: client_step_def closer_act)
  then show ?case using step closer_panicked [OF step.hyps(2)] by auto
qed simp

text \<open>The run of \<^verbatim>\<open>Close\<close> is a run of the step relation.\<close>

lemma stdio_close_reachable:
  assumes "client_inv s" and "sl_close s = CloseNone" and "\<not> sl_panicked s"
  shows "(client_step marshal decode)\<^sup>*\<^sup>* s (stdio_close e s)"
proof -
  have "client_step marshal decode s (close_begin s)"
    using assms(2,3) by (simp add: client_step_def act_close)
  moreover have "(client_step marshal decode)\<^sup>*\<^sup>* (close_begin s) (stdio_close e s)"
    using closer_steps [OF stdio_close_run [OF assms(1)]] assms(3) by (simp add: close_begin_def)
  ultimately show ?thesis by (rule converse_rtranclp_into_rtranclp)
qed

definition stdio_op ::
  "(string list \<times> (string \<times> string) list \<times> exec_result) + string option \<Rightarrow> stdio_client \<Rightarrow> stdio_client" where
  "stdio_op k s = (case k of Inl x \<Rightarrow> snd (stdio_start_with x s) | Inr e \<Rightarrow> stdio_close e s)"

definition http_op :: "unit + unit \<Rightarrow> http_client \<Rightarrow> http_client" where
  "http_op k c = (case k of Inl x \<Rightarrow> snd (http_start x c) | Inr y \<Rightarrow> http_close y c)"

text \<open>
  Starts and closes in any order, by the supervisor and by the manager: after the first close
  of a stdio client no subprocess of it is alive again and calls are refused; an HTTP client refuses
  calls without a request to the network.
\<close>

lemma stdio_close_is_final:
  assumes "(client_step marshal decode)\<^sup>*\<^sup>* (new_stdio_client cfg) s"
  shows "let t = fold stdio_op (ks @ Inr e # js) s
    in at_rest t \<and> call_look i f t = call_return i (Inl (client_error t ''closed'')) t"
proof -
  have op: "stdio_op = stdio.client_op" by (rule ext)+ (simp add: stdio_op_def stdio.client_op_def)
  have "client_inv s" by (rule client_inv_reachable [OF assms])
  from stdio.close_is_final [OF this, of ks e js] show ?thesis by (simp add: op call_look_def Let_def)
qed

lemma stdio_close_is_final_witness:
  "at_rest (fold stdio_op [Inl ([], [], Launched), Inr None, Inl ([], [], Launched)] (new_stdio_client (toy_cfg ''a'')))"
  using stdio_close_is_final [OF rtranclp.rtrancl_refl, where ks = "[Inl ([], [], Launched)]" and e = None and
      js = "[Inl ([], [], Launched)]" and cfg = "toy_cfg ''a''"]
  by (simp add: Let_def)

lemma http_close_is_final:
  "http_call net mth params (fold http_op (ks @ Inr y # js) c) w =
     (Inl (''mcpclient: '' @ cc_name (hc_cfg (fold http_op (ks @ Inr y # js) c)) @ '': closed''),
      fold http_op (ks @ Inr y # js) c, w)"
proof -
  have op: "http_op = http.client_op" by (rule ext)+ (simp add: http_op_def http.client_op_def)
  have "hc_closed (fold http.client_op (ks @ Inr y # js) c)" using http.close_is_final by blast
  then show ?thesis unfolding op by (simp add: http_call_def)
qed

end
