(* ===== verification/Proxy.thy ===== *)
theory Proxy
  imports GoLib
begin

text \<open>
  \<^verbatim>\<open>internal/proxy\<close>: the shared-ingress front proxy (\<^verbatim>\<open>proxy.go\<close>) and the NAT set-up of
  its host (\<^verbatim>\<open>nat.go\<close>). A host is its files and the rest of its state; the failures of file
  writes and what commands do are parameters (\<open>host_ops\<close>).
\<close>

subsection \<open>The host\<close>

record 'x host =
  ho_files :: "string \<rightharpoonup> string"
  ho_sys :: 'x

text \<open>
  How \<^verbatim>\<open>os.WriteFile\<close> fails: the file cannot be opened, and is as it was; or a write or the
  close fails after the file was truncated, with the first bytes of the content stored.
\<close>

datatype write_failure = NotOpened string | CutShort string nat

text \<open>
  The errors of \<^verbatim>\<open>os.MkdirAll\<close> and \<^verbatim>\<open>os.WriteFile\<close> by path, and a command run to its
  end: combined output and error.
\<close>

record 'x host_ops =
  op_mkdir :: "string \<Rightarrow> string option"
  op_write :: "string \<Rightarrow> 'x \<Rightarrow> write_failure option"
  op_run :: "string list \<Rightarrow> 'x \<Rightarrow> (string \<times> string option) \<times> 'x"

definition run_command :: "'x host_ops \<Rightarrow> string list \<Rightarrow> 'x host \<Rightarrow> (string \<times> string option) \<times> 'x host" where
  "run_command ops argv h =
     (let (r, x) = op_run ops argv (ho_sys h) in (r, h\<lparr>ho_sys := x\<rparr>))"

definition write_file :: "'x host_ops \<Rightarrow> string \<Rightarrow> string \<Rightarrow> 'x host \<Rightarrow> string option \<times> 'x host" where
  "write_file ops path content h =
     (case op_write ops path (ho_sys h) of
        Some (NotOpened e) \<Rightarrow> (Some e, h)
      | Some (CutShort e n) \<Rightarrow> (Some e, h\<lparr>ho_files := (ho_files h)(path \<mapsto> take n content)\<rparr>)
      | None \<Rightarrow> (None, h\<lparr>ho_files := (ho_files h)(path \<mapsto> content)\<rparr>))"

text \<open>\<^verbatim>\<open>cur, _ := os.ReadFile(path)\<close>\<close>

definition read_or_empty :: "string \<Rightarrow> 'x host \<Rightarrow> string" where
  "read_or_empty path h = (case ho_files h path of None \<Rightarrow> [] | Some s \<Rightarrow> s)"

subsection \<open>Configuration and rendering\<close>

record proxy_config =
  px_domain_base :: string
  px_ask_url :: string
  px_control_plane_base_url :: string
  px_routes_table :: string
  px_region :: string
  px_caddyfile_path :: string
  px_map_path :: string
  px_acme_ca :: string
  px_sync_interval :: duration

definition proxy_from_env :: "environ \<Rightarrow> proxy_config" where
  "proxy_from_env env =
     \<lparr>px_domain_base = env ''AGENT_OPS_PROXY_DOMAIN_BASE'', px_ask_url = env ''AGENT_OPS_PROXY_ASK_URL'',
      px_control_plane_base_url = env ''AGENT_OPS_PROXY_CP_URL'',
      px_routes_table = env ''AGENT_OPS_PROXY_ROUTES_TABLE'', px_region = env ''AGENT_OPS_PROXY_REGION'',
      px_caddyfile_path = ''/etc/caddy/Caddyfile'', px_map_path = ''/etc/caddy/upstreams.map'',
      px_acme_ca = (if env ''AGENT_OPS_ACME_CA'' = [] then ''https://acme-v02.api.letsencrypt.org/directory''
                    else env ''AGENT_OPS_ACME_CA''),
      px_sync_interval = 30 * second\<rparr>"

definition lines_text :: "string list \<Rightarrow> string" where
  "lines_text ls = concat (map (\<lambda>l. l @ [nl]) ls)"

definition render_caddyfile :: "proxy_config \<Rightarrow> string" where
  "render_caddyfile c = lines_text
     ([''# agent-ops shared-ingress proxy; managed '' @ em_dash @ '' do not edit by hand.'',
       ''{'', ''    acme_ca '' @ px_acme_ca c, ''    on_demand_tls {''] @
      (if px_ask_url c \<noteq> [] then [''        ask '' @ px_ask_url c] else []) @
      [''    }'', ''}'', [],
       '':80 {'', ''    redir https://{host}{uri} permanent'', ''}'', [],
       ''*.'' @ (if px_domain_base c = [] then ''example.com'' else px_domain_base c) @ '' {'',
       ''    tls {'', ''        on_demand'', ''    }'',
       ''    map {host} {upstream} {'', ''        import '' @ px_map_path c, ''    }'',
       ''    @noupstream expression {upstream} == '' @ quoted [],
       ''    respond @noupstream '' @ quoted ''no backend for this host'' @ '' 502'',
       ''    reverse_proxy {upstream} {'', ''        header_up Host {host}'', ''    }'',
       ''    encode gzip zstd'', ''    log {'', ''        output stdout'', ''        format json'',
       ''    }'', ''}''])"

record route =
  rt_host :: string
  rt_upstream :: string

definition route_line :: "route \<Rightarrow> string" where
  "route_line r = ''    '' @ quoted (rt_host r) @ '' '' @ quoted (rt_upstream r)"

definition live_route :: "route \<Rightarrow> bool" where
  "live_route r \<longleftrightarrow> rt_host r \<noteq> [] \<and> rt_upstream r \<noteq> []"

text \<open>Go's sort is not stable; routes with the same host may come out in either order there.\<close>

definition render_map_file :: "route list \<Rightarrow> string" where
  "render_map_file routes = lines_text (map route_line (filter live_route (sort_key rt_host routes)))"

subsection \<open>Writing and syncing\<close>

definition path_dir :: "string \<Rightarrow> string" where
  "path_dir p = rev (tl (dropWhile (\<lambda>c. c \<noteq> CHR ''/'') (rev p)))"

definition ensure_map_file :: "'x host_ops \<Rightarrow> proxy_config \<Rightarrow> 'x host \<Rightarrow> string option \<times> 'x host" where
  "ensure_map_file ops c h =
     (let path = (if px_map_path c = [] then ''/etc/caddy/upstreams.map'' else px_map_path c)
      in case op_mkdir ops (path_dir path) of
           Some e \<Rightarrow> (Some (''mkdir for map file: '' @ e), h)
         | None \<Rightarrow>
             if ho_files h path \<noteq> None then (None, h)
             else (case write_file ops path [] h of
                 (Some e, h') \<Rightarrow> (Some (''write map file: '' @ e), h')
               | (None, h') \<Rightarrow> (None, h')))"

definition write_config :: "'x host_ops \<Rightarrow> proxy_config \<Rightarrow> 'x host \<Rightarrow> string option \<times> 'x host" where
  "write_config ops c h =
     (case op_mkdir ops ''/etc/caddy'' of
        Some e \<Rightarrow> (Some (''mkdir /etc/caddy: '' @ e), h)
      | None \<Rightarrow>
          (case write_file ops (px_caddyfile_path c) (render_caddyfile c) h of
             (Some e, h') \<Rightarrow> (Some (''write Caddyfile: '' @ e), h')
           | (None, h') \<Rightarrow> ensure_map_file ops c h'))"

definition reload_caddy :: "'x host_ops \<Rightarrow> string \<Rightarrow> 'x host \<Rightarrow> string option \<times> 'x host" where
  "reload_caddy ops caddyfile h =
     (case run_command ops [''caddy'', ''reload'', ''--config'', caddyfile, ''--adapter'', ''caddyfile''] h of
        ((out, Some e), h') \<Rightarrow> (Some (e @ '': '' @ trim_space out), h')
      | ((out, None), h') \<Rightarrow> (None, h'))"

text \<open>
  \<^verbatim>\<open>Sync\<close> with what the map source answered; no source is \<open>Inr []\<close>. The result is the
  number and the error.
\<close>

definition sync ::
  "'x host_ops \<Rightarrow> proxy_config \<Rightarrow> string + route list \<Rightarrow> 'x host \<Rightarrow> (nat \<times> string option) \<times> 'x host" where
  "sync ops c src h =
     (case src of
        Inl e \<Rightarrow> ((0, Some (''map source: '' @ e)), h)
      | Inr routes \<Rightarrow>
          (let new = render_map_file routes
           in if read_or_empty (px_map_path c) h = new then ((length routes, None), h)
              else case write_file ops (px_map_path c) new h of
                (Some e, h1) \<Rightarrow> ((0, Some (''write map file: '' @ e)), h1)
              | (None, h1) \<Rightarrow>
                  (case reload_caddy ops (px_caddyfile_path c) h1 of
                     (Some e, h2) \<Rightarrow> ((length routes, Some (''caddy reload: '' @ e)), h2)
                   | (None, h2) \<Rightarrow> ((length routes, None), h2))))"

subsection \<open>NAT\<close>

definition ip_forward_text :: string where
  "ip_forward_text = lines_text
     [''# Managed by agent-ops (proxy NAT). Do not edit.'', ''net.ipv4.ip_forward=1'']"

definition ip_forward_drop_in :: string where
  "ip_forward_drop_in = ''/etc/sysctl.d/99-agent-ops-nat.conf''"

definition enable_ip_forward :: "'x host_ops \<Rightarrow> 'x host \<Rightarrow> string option \<times> 'x host" where
  "enable_ip_forward ops h =
     (case run_command ops [''sysctl'', ''-w'', ''net.ipv4.ip_forward=1''] h of
        ((out, Some e), h1) \<Rightarrow>
          (Some (''sysctl -w net.ipv4.ip_forward=1: '' @ e @ '': '' @ trim_space out), h1)
      | ((out, None), h1) \<Rightarrow>
          if read_or_empty ip_forward_drop_in h1 = ip_forward_text then (None, h1)
          else (case write_file ops ip_forward_drop_in ip_forward_text h1 of
              (Some e, h2) \<Rightarrow> (Some (''write '' @ ip_forward_drop_in @ '': '' @ e), h2)
            | (None, h2) \<Rightarrow> (None, h2)))"

fun dev_token :: "string list \<Rightarrow> string option" where
  "dev_token (x # y # ws) = (if x = ''dev'' then Some y else dev_token (y # ws))"
| "dev_token _ = None"

fun route_iface :: "string list \<Rightarrow> string option" where
  "route_iface [] = None"
| "route_iface (l # ls) =
     (let ws = str_fields l
      in if ws = [] \<or> hd ws \<noteq> ''default'' then route_iface ls
         else case dev_token ws of Some i \<Rightarrow> Some i | None \<Rightarrow> route_iface ls)"

text \<open>The scanner has its default buffer of 64 KiB here.\<close>

definition parse_default_route_iface :: "string \<Rightarrow> string + string" where
  "parse_default_route_iface out =
     (case route_iface (fst (scan_lines 65536 out)) of
        None \<Rightarrow> Inl ''no `dev <iface>` token in default route''
      | Some i \<Rightarrow> Inr i)"

definition default_route_iface :: "'x host_ops \<Rightarrow> 'x host \<Rightarrow> (string + string) \<times> 'x host" where
  "default_route_iface ops h =
     (case run_command ops [''ip'', ''route'', ''show'', ''default''] h of
        ((out, Some e), h1) \<Rightarrow> (Inl (''ip route show default: '' @ e @ '': '' @ trim_space out), h1)
      | ((out, None), h1) \<Rightarrow> (parse_default_route_iface out, h1))"

definition masquerade_rule :: "string \<Rightarrow> string list" where
  "masquerade_rule iface = [''POSTROUTING'', ''-o'', iface, ''-j'', ''MASQUERADE'']"

definition ensure_masquerade :: "'x host_ops \<Rightarrow> string \<Rightarrow> 'x host \<Rightarrow> string option \<times> 'x host" where
  "ensure_masquerade ops iface h =
     (case run_command ops ([''iptables'', ''-t'', ''nat'', ''-C''] @ masquerade_rule iface) h of
        ((_, None), h1) \<Rightarrow> (None, h1)
      | ((_, Some _), h1) \<Rightarrow>
          (case run_command ops ([''iptables'', ''-t'', ''nat'', ''-A''] @ masquerade_rule iface) h1 of
             ((out, Some e), h2) \<Rightarrow>
               (Some (''iptables -A POSTROUTING MASQUERADE: '' @ e @ '': '' @ trim_space out), h2)
           | ((_, None), h2) \<Rightarrow> (None, h2)))"

definition first_error :: "string option \<Rightarrow> string option \<Rightarrow> string option" where
  "first_error a b = (case a of None \<Rightarrow> b | Some e \<Rightarrow> Some e)"

definition enable_nat :: "'x host_ops \<Rightarrow> 'x host \<Rightarrow> string option \<times> 'x host" where
  "enable_nat ops h =
     (let (e1, h1) = enable_ip_forward ops h
      in case default_route_iface ops h1 of
           (Inl e, h2) \<Rightarrow> (first_error e1 (Some (''detect egress interface: '' @ e)), h2)
         | (Inr iface, h2) \<Rightarrow>
             if iface = [] then (first_error e1 (Some ''detect egress interface: ''), h2)
             else (let (e3, h3) = ensure_masquerade ops iface h2 in (first_error e1 e3, h3)))"

subsection \<open>Setup\<close>

text \<open>
  \<^verbatim>\<open>Setup\<close>: the lines it logs and the host after it; it has no error result.
\<close>

definition proxy_setup :: "'x host_ops \<Rightarrow> proxy_config \<Rightarrow> bool \<Rightarrow> 'x host \<Rightarrow> string list \<times> 'x host" where
  "proxy_setup ops c with_nat h =
     (let (e1, h1) = write_config ops c h;
          (e2, h2) = ensure_map_file ops c h1;
          ((out3, e3), h3) = run_command ops [''systemctl'', ''reload-or-restart'', ''caddy.service''] h2;
          ((out4, e4), h4) = run_command ops [''systemctl'', ''is-active'', ''caddy.service''] h3;
          (e5, h5) = (if with_nat then enable_nat ops h4 else (None, h4))
      in ((case e1 of None \<Rightarrow> [] | Some e \<Rightarrow> [''proxy: WriteConfig failed (continuing): '' @ e]) @
          (case e2 of None \<Rightarrow> []
           | Some e \<Rightarrow> [''proxy: ensure upstreams.map failed (continuing): '' @ e]) @
          (case e3 of None \<Rightarrow> [''proxy: caddy reload-or-restart ok'']
           | Some e \<Rightarrow> [''proxy: systemctl reload-or-restart caddy failed (continuing): '' @ e @ '': '' @
                        trim_space out3]) @
          (if e4 \<noteq> None \<or> trim_space out4 \<noteq> ''active''
           then [''proxy: WARNING caddy is not active after reload-or-restart (state='' @
                 quoted (trim_space out4) @ '' err='' @
                 (case e4 of None \<Rightarrow> ''<nil>'' | Some e \<Rightarrow> e) @
                 ''); the proxy will keep retrying via the sync loop'']
           else [''proxy: caddy is active'']) @
          (if with_nat then [''proxy: NAT enabled; configuring ip_forward + MASQUERADE''] else []) @
          (case e5 of None \<Rightarrow> [] | Some e \<Rightarrow> [''proxy: NAT setup had an error (continuing): '' @ e]),
          h5))"

text \<open>\<^verbatim>\<open>Up\<close>: the setup, and one sync at once and per tick until the context ends.\<close>

definition up ::
  "'x host_ops \<Rightarrow> proxy_config \<Rightarrow> bool \<Rightarrow> (string + route list) list \<Rightarrow> 'x host \<Rightarrow> 'x host" where
  "up ops c with_nat sources h =
     fold (\<lambda>src h. snd (sync ops c src h)) sources (snd (proxy_setup ops c with_nat h))"

subsection \<open>Files and rules\<close>

lemma run_command_files [simp]: "ho_files (snd (run_command ops argv h)) = ho_files h"
  by (simp add: run_command_def split_beta)

lemma reload_caddy_files [simp]: "ho_files (snd (reload_caddy ops f h)) = ho_files h"
proof -
  obtain out e h' where "run_command ops [''caddy'', ''reload'', ''--config'', f, ''--adapter'', ''caddyfile''] h = ((out, e), h')"
    by (metis prod.collapse)
  with run_command_files [of ops "[''caddy'', ''reload'', ''--config'', f, ''--adapter'', ''caddyfile'']" h]
  show ?thesis by (simp add: reload_caddy_def split: option.split)
qed

lemma render_map_file_perm:
  "distinct (map rt_host rs) \<Longrightarrow> mset rs' = mset rs \<Longrightarrow> render_map_file rs' = render_map_file rs"
  unfolding render_map_file_def using sort_key_mset_cong [of rs' rs rt_host] by simp

text \<open>The rules of the POSTROUTING chain and the commands that touch them.\<close>

definition iptables_contract :: "'x host_ops \<Rightarrow> ('x \<Rightarrow> string list list) \<Rightarrow> bool" where
  "iptables_contract ops rules \<longleftrightarrow>
     (\<forall>r x out e x'. op_run ops ([''iptables'', ''-t'', ''nat'', ''-C''] @ r) x = ((out, e), x') \<longrightarrow>
        (e = None \<longleftrightarrow> r \<in> set (rules x)) \<and> rules x' = rules x) \<and>
     (\<forall>r x out e x'. op_run ops ([''iptables'', ''-t'', ''nat'', ''-A''] @ r) x = ((out, e), x') \<longrightarrow>
        rules x' = (if e = None then rules x @ [r] else rules x)) \<and>
     (\<forall>argv x. hd argv \<noteq> ''iptables'' \<longrightarrow> rules (snd (op_run ops argv x)) = rules x)"

lemma run_command_rules:
  assumes "iptables_contract ops rules" and "hd argv \<noteq> ''iptables''"
    and "run_command ops argv h = (r, h')"
  shows "rules (ho_sys h') = rules (ho_sys h)"
  using assms unfolding iptables_contract_def run_command_def by (auto simp: split_beta)

lemma ensure_masquerade_rules:
  assumes con: "iptables_contract ops rules" and run: "ensure_masquerade ops iface h = (e, h')"
  shows "rules (ho_sys h') = rules (ho_sys h) \<or>
      masquerade_rule iface \<notin> set (rules (ho_sys h)) \<and>
      rules (ho_sys h') = rules (ho_sys h) @ [masquerade_rule iface]"
    and "e = None \<Longrightarrow> masquerade_rule iface \<in> set (rules (ho_sys h'))"
proof -
  let ?r = "masquerade_rule iface"
  obtain o1 e1 x1 where c: "op_run ops ([''iptables'', ''-t'', ''nat'', ''-C''] @ ?r) (ho_sys h) = ((o1, e1), x1)"
    by (metis prod.collapse)
  obtain o2 e2 x2 where a: "op_run ops ([''iptables'', ''-t'', ''nat'', ''-A''] @ ?r) x1 = ((o2, e2), x2)"
    by (metis prod.collapse)
  have "e1 = None \<longleftrightarrow> ?r \<in> set (rules (ho_sys h))" "rules x1 = rules (ho_sys h)"
    "rules x2 = (if e2 = None then rules x1 @ [?r] else rules x1)"
    using con c a unfolding iptables_contract_def by blast+
  moreover have "(case e1 of None \<Rightarrow> (None, h\<lparr>ho_sys := x1\<rparr>)
      | Some _ \<Rightarrow> ((case e2 of None \<Rightarrow> None | Some er \<Rightarrow> Some (''iptables -A POSTROUTING MASQUERADE: '' @ er @ '': '' @ trim_space o2)),
           h\<lparr>ho_sys := x2\<rparr>)) = (e, h')"
    using run c a by (simp add: ensure_masquerade_def run_command_def split: option.splits)
  ultimately show "rules (ho_sys h') = rules (ho_sys h) \<or>
      ?r \<notin> set (rules (ho_sys h)) \<and> rules (ho_sys h') = rules (ho_sys h) @ [?r]"
    and "e = None \<Longrightarrow> ?r \<in> set (rules (ho_sys h'))"
    by (auto split: option.splits if_splits)
qed

lemma enable_ip_forward_spec:
  assumes "iptables_contract ops rules" and "enable_ip_forward ops h = (e, h')"
  shows "rules (ho_sys h') = rules (ho_sys h)"
    and "e = None \<Longrightarrow> read_or_empty ip_forward_drop_in h' = ip_forward_text"
proof -
  let ?argv = "[''sysctl'', ''-w'', ''net.ipv4.ip_forward=1'']"
  obtain o1 e1 h1 where r: "run_command ops ?argv h = ((o1, e1), h1)" by (metis prod.collapse)
  have "rules (ho_sys h1) = rules (ho_sys h)" by (rule run_command_rules [OF assms(1) _ r]) simp
  then show "rules (ho_sys h') = rules (ho_sys h)"
    and "e = None \<Longrightarrow> read_or_empty ip_forward_drop_in h' = ip_forward_text"
    using assms(2) r
    by (auto simp: enable_ip_forward_def write_file_def read_or_empty_def
        split: option.splits write_failure.splits if_splits)
qed

lemma default_route_iface_spec:
  assumes "iptables_contract ops rules" and "default_route_iface ops h = (i, h')"
  shows "rules (ho_sys h') = rules (ho_sys h)" and "ho_files h' = ho_files h"
proof -
  let ?argv = "[''ip'', ''route'', ''show'', ''default'']"
  obtain o1 e1 h1 where r: "run_command ops ?argv h = ((o1, e1), h1)" by (metis prod.collapse)
  have "rules (ho_sys h1) = rules (ho_sys h)" by (rule run_command_rules [OF assms(1) _ r]) simp
  moreover have "ho_files h1 = ho_files h" using run_command_files [of ops ?argv h] r by simp
  ultimately show "rules (ho_sys h') = rules (ho_sys h)" and "ho_files h' = ho_files h"
    using assms(2) r by (auto simp: default_route_iface_def split: option.splits)
qed

lemma ensure_masquerade_files: "ho_files (snd (ensure_masquerade ops iface h)) = ho_files h"
proof -
  obtain o1 e1 h1 where 1: "run_command ops ([''iptables'', ''-t'', ''nat'', ''-C''] @ masquerade_rule iface) h = ((o1, e1), h1)"
    by (metis prod.collapse)
  obtain o2 e2 h2 where 2: "run_command ops ([''iptables'', ''-t'', ''nat'', ''-A''] @ masquerade_rule iface) h1 = ((o2, e2), h2)"
    by (metis prod.collapse)
  have "ho_files h1 = ho_files h" "ho_files h2 = ho_files h1"
    using run_command_files 1 2 by (metis snd_conv)+
  with 1 2 show ?thesis by (simp add: ensure_masquerade_def split: option.split)
qed

lemma enable_nat_rules:
  assumes con: "iptables_contract ops rules" and run: "enable_nat ops h = (e, h')"
  shows "(\<exists>iface. rules (ho_sys h') = rules (ho_sys h) \<or>
      masquerade_rule iface \<notin> set (rules (ho_sys h)) \<and>
      rules (ho_sys h') = rules (ho_sys h) @ [masquerade_rule iface])"
    and "e = None \<Longrightarrow> read_or_empty ip_forward_drop_in h' = ip_forward_text \<and>
      (\<exists>iface. iface \<noteq> [] \<and> masquerade_rule iface \<in> set (rules (ho_sys h')))"
proof -
  obtain e1 h1 where 1: "enable_ip_forward ops h = (e1, h1)" by fastforce
  obtain i h2 where 2: "default_route_iface ops h1 = (i, h2)" by fastforce
  note s1 = enable_ip_forward_spec [OF con 1] and s2 = default_route_iface_spec [OF con 2]
  have goal: "(\<exists>iface. rules (ho_sys h') = rules (ho_sys h) \<or>
      masquerade_rule iface \<notin> set (rules (ho_sys h)) \<and>
      rules (ho_sys h') = rules (ho_sys h) @ [masquerade_rule iface]) \<and>
    (e = None \<longrightarrow> read_or_empty ip_forward_drop_in h' = ip_forward_text \<and>
      (\<exists>iface. iface \<noteq> [] \<and> masquerade_rule iface \<in> set (rules (ho_sys h'))))"
  proof (cases i)
    case (Inl m)
    then have "h' = h2" "e \<noteq> None"
      using run 1 2 by (auto simp: enable_nat_def first_error_def split: option.splits)
    then show ?thesis using s1 s2 by auto
  next
    case (Inr iface)
    show ?thesis
    proof (cases "iface = []")
      case True
      then have "h' = h2" "e \<noteq> None"
        using run 1 2 Inr by (auto simp: enable_nat_def first_error_def split: option.splits)
      then show ?thesis using s1 s2 by auto
    next
      case False
      obtain e3 h3 where 3: "ensure_masquerade ops iface h2 = (e3, h3)" by fastforce
      note s3 = ensure_masquerade_rules [OF con 3]
      have "e = first_error e1 e3" "h' = h3"
        using run 1 2 3 Inr False by (auto simp: enable_nat_def)
      moreover have "ho_files h3 = ho_files h2"
        using ensure_masquerade_files [of ops iface h2] 3 by simp
      ultimately show ?thesis
        using s1 s2 s3 False by (auto simp: first_error_def read_or_empty_def split: option.splits)
    qed
  qed
  show "(\<exists>iface. rules (ho_sys h') = rules (ho_sys h) \<or>
      masquerade_rule iface \<notin> set (rules (ho_sys h)) \<and>
      rules (ho_sys h') = rules (ho_sys h) @ [masquerade_rule iface])"
    using goal by (rule conjunct1)
  show "read_or_empty ip_forward_drop_in h' = ip_forward_text \<and>
      (\<exists>iface. iface \<noteq> [] \<and> masquerade_rule iface \<in> set (rules (ho_sys h')))" if "e = None"
    using goal that by blast
qed

subsection \<open>Setup, command by command\<close>

text \<open>\<open>trace\<close> records the commands of a host.\<close>

definition records_commands :: "'x host_ops \<Rightarrow> ('x \<Rightarrow> string list list) \<Rightarrow> bool" where
  "records_commands ops trace \<longleftrightarrow> (\<forall>argv x. trace (snd (op_run ops argv x)) = trace x @ [argv])"

lemma run_command_trace:
  "records_commands ops trace \<Longrightarrow> run_command ops argv h = (r, h') \<Longrightarrow>
     trace (ho_sys h') = trace (ho_sys h) @ [argv]"
  by (auto simp: records_commands_def run_command_def split_beta)

lemma write_file_sys: "write_file ops p s h = (e, h') \<Longrightarrow> ho_sys h' = ho_sys h"
  by (auto simp: write_file_def split: option.splits write_failure.splits)

lemma ensure_map_file_sys: "ensure_map_file ops c h = (e, h') \<Longrightarrow> ho_sys h' = ho_sys h"
  by (auto simp: ensure_map_file_def Let_def split: option.splits prod.splits if_splits dest: write_file_sys)

lemma write_config_sys: "write_config ops c h = (e, h') \<Longrightarrow> ho_sys h' = ho_sys h"
  by (auto simp: write_config_def split: option.splits prod.splits dest!: write_file_sys ensure_map_file_sys)

lemma enable_nat_trace:
  assumes rec: "records_commands ops trace"
  shows "\<exists>rest. trace (ho_sys (snd (enable_nat ops h))) =
    trace (ho_sys h) @ [[''sysctl'', ''-w'', ''net.ipv4.ip_forward=1''],
      [''ip'', ''route'', ''show'', ''default'']] @ rest"
proof -
  obtain e1 h1 where 1: "enable_ip_forward ops h = (e1, h1)" by fastforce
  obtain o1 x1 g1 where r1: "run_command ops [''sysctl'', ''-w'', ''net.ipv4.ip_forward=1''] h = ((o1, x1), g1)"
    by (metis prod.collapse)
  have "ho_sys h1 = ho_sys g1"
    using 1 r1 by (auto simp: enable_ip_forward_def split: option.splits if_splits prod.splits dest: write_file_sys)
  with run_command_trace [OF rec r1]
  have t1: "trace (ho_sys h1) = trace (ho_sys h) @ [[''sysctl'', ''-w'', ''net.ipv4.ip_forward=1'']]" by simp
  obtain o2 x2 h2 where r2: "run_command ops [''ip'', ''route'', ''show'', ''default''] h1 = ((o2, x2), h2)"
    by (metis prod.collapse)
  define i where "i = fst (default_route_iface ops h1)"
  have 2: "default_route_iface ops h1 = (i, h2)"
    using r2 by (simp add: i_def default_route_iface_def split: option.split)
  have t2: "trace (ho_sys h2) = trace (ho_sys h1) @ [[''ip'', ''route'', ''show'', ''default'']]"
    by (rule run_command_trace [OF rec r2])
  have t3: "\<exists>rest. trace (ho_sys (snd (ensure_masquerade ops iface h2))) = trace (ho_sys h2) @ rest" for iface
  proof -
    let ?c = "[''iptables'', ''-t'', ''nat'', ''-C''] @ masquerade_rule iface"
    let ?a = "[''iptables'', ''-t'', ''nat'', ''-A''] @ masquerade_rule iface"
    obtain oc ec hc where c: "run_command ops ?c h2 = ((oc, ec), hc)" by (metis prod.collapse)
    obtain oa ea ha where a: "run_command ops ?a hc = ((oa, ea), ha)" by (metis prod.collapse)
    have "ho_sys (snd (ensure_masquerade ops iface h2)) \<in> {ho_sys hc, ho_sys ha}"
      using c a by (auto simp: ensure_masquerade_def split: option.splits)
    with run_command_trace [OF rec c] run_command_trace [OF rec a] show ?thesis by auto
  qed
  have "snd (enable_nat ops h) = h2 \<or> (\<exists>iface. snd (enable_nat ops h) = snd (ensure_masquerade ops iface h2))"
    using 1 2 by (auto simp: enable_nat_def split_beta split: sum.splits)
  then show ?thesis
  proof
    assume "\<exists>iface. snd (enable_nat ops h) = snd (ensure_masquerade ops iface h2)"
    then obtain iface where "snd (enable_nat ops h) = snd (ensure_masquerade ops iface h2)" by blast
    with t3 [of iface] t1 t2 show ?thesis by auto
  qed (use t1 t2 in auto)
qed

subsection \<open>Properties\<close>

text \<open>
  Syncing settles. If the map file can be written and no host is listed twice, then after a
  sync the file holds exactly the given routes, and a further sync with the same routes in any
  order does nothing at all and reports success. That is also so if the reload of Caddy failed
  in the first sync: the error is reported once, the reload is not tried again, and Caddy keeps
  the old routes until they change.
\<close>

lemma sync_settles:
  assumes "distinct (map rt_host rs)" and "mset rs' = mset rs"
    and "op_write ops (px_map_path c) (ho_sys h) = None"
    and "sync ops c (Inr rs) h = (r, h')"
  shows "read_or_empty (px_map_path c) h' = render_map_file rs \<and>
    sync ops c (Inr rs') h' = ((length rs', None), h')"
proof -
  have "read_or_empty (px_map_path c) h' = render_map_file rs"
  proof (cases "read_or_empty (px_map_path c) h = render_map_file rs")
    case True
    then show ?thesis using assms(4) by (simp add: sync_def)
  next
    case False
    let ?h1 = "h\<lparr>ho_files := (ho_files h)(px_map_path c \<mapsto> render_map_file rs)\<rparr>"
    have "h' = snd (reload_caddy ops (px_caddyfile_path c) ?h1)"
      using assms(3,4) False
      by (auto simp: sync_def Let_def write_file_def split: option.splits prod.splits)
    then show ?thesis by (simp add: read_or_empty_def)
  qed
  then show ?thesis using render_map_file_perm [OF assms(1,2)] by (simp add: sync_def)
qed

abbreviation deaf_ops :: "string list list host_ops" where
  "deaf_ops \<equiv> \<lparr>op_mkdir = (\<lambda>_. None), op_write = (\<lambda>_ _. None),
     op_run = (\<lambda>argv x. (([], Some ''exit status 1''), x @ [argv]))\<rparr>"

abbreviation two_routes :: "route list" where
  "two_routes \<equiv> [\<lparr>rt_host = ''b'', rt_upstream = ''10.0.0.2:80''\<rparr>, \<lparr>rt_host = ''a'', rt_upstream = ''10.0.0.1:80''\<rparr>]"

lemma sync_settles_witness:
  "\<exists>e h'. sync deaf_ops (proxy_from_env (\<lambda>_. [])) (Inr two_routes)
       \<lparr>ho_files = Map.empty, ho_sys = []\<rparr> = ((2, Some e), h') \<and>
     sync deaf_ops (proxy_from_env (\<lambda>_. [])) (Inr (rev two_routes)) h' = ((2, None), h')"
proof -
  let ?c = "proxy_from_env (\<lambda>_. [])" and ?h = "\<lparr>ho_files = Map.empty, ho_sys = [] :: string list list\<rparr>"
  obtain e h' where run: "sync deaf_ops ?c (Inr two_routes) ?h = ((2, Some e), h')"
    by (simp add: sync_def proxy_from_env_def read_or_empty_def render_map_file_def live_route_def
        lines_text_def write_file_def reload_caddy_def run_command_def)
  show ?thesis
    using sync_settles [OF _ _ _ run, of "rev two_routes"] run by (intro exI [of _ e] exI [of _ h']) simp
qed

text \<open>
  The NAT set-up can be repeated. On a host whose \<^verbatim>\<open>iptables\<close> answers \<^verbatim>\<open>-C\<close> by
  membership and appends on \<^verbatim>\<open>-A\<close>, any number of set-ups, failing at any step, duplicates no
  rule; after one that reports success the rule for the egress interface is there and the
  forwarding drop-in has its fixed content.
\<close>

lemma nat_setup_idempotent:
  assumes "iptables_contract ops rules"
  shows "count_list (rules (ho_sys (((\<lambda>h. snd (enable_nat ops h)) ^^ n) h))) r
      \<le> max 1 (count_list (rules (ho_sys h)) r) \<and>
    (\<forall>h'. enable_nat ops h = (None, h') \<longrightarrow>
       read_or_empty ip_forward_drop_in h' = ip_forward_text \<and>
       (\<exists>iface. iface \<noteq> [] \<and> masquerade_rule iface \<in> set (rules (ho_sys h'))))"
proof
  show "count_list (rules (ho_sys (((\<lambda>h. snd (enable_nat ops h)) ^^ n) h))) r
      \<le> max 1 (count_list (rules (ho_sys h)) r)"
  proof (induction n)
    case (Suc n)
    let ?h = "((\<lambda>h. snd (enable_nat ops h)) ^^ n) h"
    obtain e h' where run: "enable_nat ops ?h = (e, h')" by fastforce
    have "count_list (rules (ho_sys h')) r \<le> max 1 (count_list (rules (ho_sys ?h)) r)"
      using enable_nat_rules(1) [OF assms run] by (auto simp: count_notin)
    with Suc run show ?case by simp
  qed simp
  show "\<forall>h'. enable_nat ops h = (None, h') \<longrightarrow>
       read_or_empty ip_forward_drop_in h' = ip_forward_text \<and>
       (\<exists>iface. iface \<noteq> [] \<and> masquerade_rule iface \<in> set (rules (ho_sys h')))"
    using enable_nat_rules(2) [OF assms] by blast
qed

abbreviation nat_ops :: "string list list host_ops" where
  "nat_ops \<equiv> \<lparr>op_mkdir = (\<lambda>_. None), op_write = (\<lambda>_ _. None),
     op_run = (\<lambda>argv x.
       if take 4 argv = [''iptables'', ''-t'', ''nat'', ''-C'']
       then (([], if drop 4 argv \<in> set x then None else Some ''exit status 1''), x)
       else if take 4 argv = [''iptables'', ''-t'', ''nat'', ''-A''] then (([], None), x @ [drop 4 argv])
       else ((''default via 10.0.0.1 dev ens5'', None), x))\<rparr>"

lemma nat_ops_contract: "iptables_contract nat_ops (\<lambda>x. x)"
  unfolding iptables_contract_def
  by (auto split: if_splits) (metis hd_take list.sel(1) zero_less_numeral)

lemma nat_setup_idempotent_witness:
  "count_list (ho_sys (((\<lambda>h. snd (enable_nat nat_ops h)) ^^ 3) \<lparr>ho_files = Map.empty, ho_sys = []\<rparr>))
     (masquerade_rule ''ens5'') \<le> 1"
  using nat_setup_idempotent [OF nat_ops_contract, of 3 "\<lparr>ho_files = Map.empty, ho_sys = []\<rparr>"
      "masquerade_rule ''ens5''"] by simp

text \<open>
  The set-up never stops half way. Whatever fails, \<open>Setup\<close> asks systemd to reload or
  restart Caddy and then whether it is active, and only then, if NAT is wanted, starts with the
  NAT commands; without NAT it runs nothing else.
\<close>

lemma setup_always_completes:
  assumes "records_commands ops trace"
  shows "\<exists>rest. trace (ho_sys (snd (proxy_setup ops c with_nat h))) = trace (ho_sys h) @
      [[''systemctl'', ''reload-or-restart'', ''caddy.service''],
       [''systemctl'', ''is-active'', ''caddy.service'']] @ rest \<and>
    (if with_nat then take 2 rest = [[''sysctl'', ''-w'', ''net.ipv4.ip_forward=1''],
       [''ip'', ''route'', ''show'', ''default'']] else rest = [])"
proof -
  obtain e1 h1 where 1: "write_config ops c h = (e1, h1)" by fastforce
  obtain e2 h2 where 2: "ensure_map_file ops c h1 = (e2, h2)" by fastforce
  obtain o3 e3 h3 where 3: "run_command ops [''systemctl'', ''reload-or-restart'', ''caddy.service''] h2 = ((o3, e3), h3)"
    by (metis prod.collapse)
  obtain o4 e4 h4 where 4: "run_command ops [''systemctl'', ''is-active'', ''caddy.service''] h3 = ((o4, e4), h4)"
    by (metis prod.collapse)
  have t: "trace (ho_sys h4) = trace (ho_sys h) @ [[''systemctl'', ''reload-or-restart'', ''caddy.service''],
      [''systemctl'', ''is-active'', ''caddy.service'']]"
    using run_command_trace [OF assms 3] run_command_trace [OF assms 4]
      write_config_sys [OF 1] ensure_map_file_sys [OF 2] by simp
  have "snd (proxy_setup ops c with_nat h) = (if with_nat then snd (enable_nat ops h4) else h4)"
    using 1 2 3 4 by (simp add: proxy_setup_def Let_def split_beta)
  with t enable_nat_trace [OF assms, of h4] show ?thesis by auto
qed

lemma setup_always_completes_witness:
  "\<exists>rest. ho_sys (snd (proxy_setup deaf_ops (proxy_from_env (\<lambda>_. [])) False \<lparr>ho_files = Map.empty, ho_sys = []\<rparr>)) =
     [[''systemctl'', ''reload-or-restart'', ''caddy.service''], [''systemctl'', ''is-active'', ''caddy.service'']] @ rest"
  using setup_always_completes [of deaf_ops "\<lambda>x. x" "proxy_from_env (\<lambda>_. [])" False
      "\<lparr>ho_files = Map.empty, ho_sys = []\<rparr>"]
  by (simp add: records_commands_def)

end
