(* ===== verification/ProxyUp.thy ===== *)
theory ProxyUp
  imports Proxy
begin

text \<open>
  \<^verbatim>\<open>internal/cli/proxy.go\<close>: \<^verbatim>\<open>agent-ops proxy up\<close>, which resolves its configuration
  through the AWS command line, reads the routes from a table, and hands both to \<^theory_text>\<open>Proxy\<close>.
\<close>

subsection \<open>The routes table\<close>

text \<open>
  An item of the scan: the string attributes it has. The JSON decoder of the scan's output is the
  argument \<open>decode\<close>.
\<close>

type_synonym ddb_item = "string \<rightharpoonup> string"

definition ddb_attr :: "ddb_item \<Rightarrow> string \<Rightarrow> string" where
  "ddb_attr it k = (case it k of None \<Rightarrow> [] | Some s \<Rightarrow> s)"

fun routes_of_items :: "ddb_item list \<Rightarrow> route list" where
  "routes_of_items [] = []"
| "routes_of_items (it # its) =
     (let h = ddb_attr it ''host''; u = ddb_attr it ''upstream'';
          status = ddb_attr it ''status''; mode = ddb_attr it ''mode''
      in if h = [] \<or> u = [] then routes_of_items its
         else if status \<noteq> ''active'' then routes_of_items its
         else if mode \<noteq> [] \<and> mode \<noteq> ''shared'' then routes_of_items its
         else \<lparr>rt_host = h, rt_upstream = u\<rparr> # routes_of_items its)"

definition parse_ddb_scan :: "(string \<Rightarrow> string + ddb_item list) \<Rightarrow> string \<Rightarrow> string + route list" where
  "parse_ddb_scan decode raw =
     (case decode raw of
        Inl e \<Rightarrow> Inl (''parse dynamodb scan json: '' @ e)
      | Inr items \<Rightarrow> Inr (routes_of_items items))"

definition with_region :: "string \<Rightarrow> string list \<Rightarrow> string list" where
  "with_region region args = (if region \<noteq> [] then args @ [''--region'', region] else args)"

definition ddb_scan_args :: "string \<Rightarrow> string \<Rightarrow> string list" where
  "ddb_scan_args tbl region =
     with_region region
       [''dynamodb'', ''scan'', ''--table-name'', tbl, ''--projection-expression'', ''#h,upstream,#s,#m'',
        ''--expression-attribute-names'', ''{\"#h\":\"host\",\"#s\":\"status\",\"#m\":\"mode\"}'',
        ''--output'', ''json'']"

text \<open>\<^verbatim>\<open>ddbRouteSource\<close>: a scan through the command runner, whose output is the standard output.\<close>

definition ddb_route_source ::
  "(string \<Rightarrow> string + ddb_item list) \<Rightarrow> 'x host_ops \<Rightarrow> string \<Rightarrow> string \<Rightarrow> 'x host
     \<Rightarrow> (string + route list) \<times> 'x host" where
  "ddb_route_source decode ops tbl region h =
     (case run_command ops (''aws'' # ddb_scan_args tbl region) h of
        ((out, Some e), h') \<Rightarrow> (Inl (''aws dynamodb scan '' @ tbl @ '': '' @ e), h')
      | ((out, None), h') \<Rightarrow> (parse_ddb_scan decode out, h'))"

subsection \<open>Parameters\<close>

definition ssm_get_args :: "string \<Rightarrow> string \<Rightarrow> string list" where
  "ssm_get_args name region =
     with_region region
       [''ssm'', ''get-parameter'', ''--name'', name, ''--query'', ''Parameter.Value'', ''--output'', ''text'']"

text \<open>A lookup that does not end within fifteen seconds is an error of the command.\<close>

definition ssm_get :: "'x host_ops \<Rightarrow> string \<Rightarrow> string \<Rightarrow> 'x host \<Rightarrow> (string + string) \<times> 'x host" where
  "ssm_get ops name region h =
     (case run_command ops (''aws'' # ssm_get_args name region) h of
        ((out, Some e), h') \<Rightarrow> (Inl (''aws ssm get-parameter '' @ name @ '': '' @ e), h')
      | ((out, None), h') \<Rightarrow> (Inr (trim_space out), h'))"

text \<open>
  A URL that is not set is looked up under the name in a variable. The result is the URL, and what
  is logged.
\<close>

definition resolve_url ::
  "'x host_ops \<Rightarrow> (string \<Rightarrow> string \<Rightarrow> string) \<Rightarrow> string \<Rightarrow> string \<Rightarrow> string \<Rightarrow> 'x host
     \<Rightarrow> (string \<times> string list) \<times> 'x host" where
  "resolve_url ops complain url param region h =
     (if url \<noteq> [] \<or> param = [] then ((url, []), h)
      else case ssm_get ops param region h of
        (Inr v, h') \<Rightarrow> ((if v \<noteq> [] \<and> v \<noteq> ''UNSET'' then v else [], []), h')
      | (Inl e, h') \<Rightarrow> (([], [complain param e]), h'))"

definition ask_complaint :: "string \<Rightarrow> string \<Rightarrow> string" where
  "ask_complaint p e = ''proxy: resolve ask param '' @ p @ '' (continuing, ask denies until set): '' @ e"

definition cp_complaint :: "string \<Rightarrow> string \<Rightarrow> string" where
  "cp_complaint p e = ''proxy: resolve control-plane param '' @ p @ '' (continuing): '' @ e"

definition resolve_config ::
  "environ \<Rightarrow> 'x host_ops \<Rightarrow> proxy_config \<Rightarrow> 'x host \<Rightarrow> (proxy_config \<times> string list) \<times> 'x host" where
  "resolve_config env ops c h =
     (let ((ask, l1), h1) = resolve_url ops ask_complaint (px_ask_url c) (env ''AGENT_OPS_PROXY_ASK_PARAM'')
            (px_region c) h;
          ((cp, l2), h2) = resolve_url ops cp_complaint (px_control_plane_base_url c)
            (env ''AGENT_OPS_PROXY_CP_PARAM'') (px_region c) h1
      in ((c\<lparr>px_ask_url := ask, px_control_plane_base_url := cp\<rparr>, l1 @ l2), h2))"

subsection \<open>The command\<close>

definition wants_nat :: "environ \<Rightarrow> bool" where
  "wants_nat env \<longleftrightarrow> env ''AGENT_OPS_PROXY_NAT'' = ''1'' \<or> env ''AGENT_OPS_PROXY_NAT'' = ''true''"

text \<open>One sync of the loop: the source is asked, if there is one, and its answer is synced.\<close>

definition sync_from ::
  "(string \<Rightarrow> string + ddb_item list) \<Rightarrow> 'x host_ops \<Rightarrow> proxy_config \<Rightarrow> 'x host
     \<Rightarrow> (nat \<times> string option) \<times> 'x host" where
  "sync_from decode ops c h =
     (if px_routes_table c = [] then sync ops c (Inr []) h
      else let (src, h') = ddb_route_source decode ops (px_routes_table c) (px_region c) h
        in sync ops c src h')"

text \<open>
  \<^verbatim>\<open>proxy up\<close> over the first \<open>n\<close> ticks of its loop; it ends with the context only. The
  texts are what it prints on both outputs before the loop, and the error of each sync.
\<close>

fun sync_loop ::
  "(string \<Rightarrow> string + ddb_item list) \<Rightarrow> 'x host_ops \<Rightarrow> proxy_config \<Rightarrow> nat \<Rightarrow> 'x host
     \<Rightarrow> string option list \<times> 'x host" where
  "sync_loop decode ops c 0 h = ([], h)"
| "sync_loop decode ops c (Suc n) h =
     (let ((k, e), h') = sync_from decode ops c h; (es, h'') = sync_loop decode ops c n h'
      in (e # es, h''))"

definition proxy_up ::
  "environ \<Rightarrow> (string \<Rightarrow> string + ddb_item list) \<Rightarrow> 'x host_ops \<Rightarrow> nat \<Rightarrow> 'x host
     \<Rightarrow> (proxy_config \<times> string list \<times> string option list) \<times> 'x host" where
  "proxy_up env decode ops n h =
     (let ((c, complaints), h1) = resolve_config env ops (proxy_from_env env) h;
          greeting = ''proxy: domain-base='' @ px_domain_base c @ '' ask='' @ px_ask_url c @
            '' routes-table='' @ px_routes_table c;
          (logs, h2) = proxy_setup ops c (wants_nat env) h1;
          (es, h3) = sync_loop decode ops c (Suc n) h2
      in ((c, complaints @ [greeting] @ logs, es), h3))"


subsection \<open>The table and the map\<close>

text \<open>The rows that are served, and the route of a row.\<close>

definition served_row :: "ddb_item \<Rightarrow> bool" where
  "served_row it \<longleftrightarrow> ddb_attr it ''host'' \<noteq> [] \<and> ddb_attr it ''upstream'' \<noteq> []
     \<and> ddb_attr it ''status'' = ''active'' \<and> ddb_attr it ''mode'' \<in> {[], ''shared''}"

definition row_route :: "ddb_item \<Rightarrow> route" where
  "row_route it = \<lparr>rt_host = ddb_attr it ''host'', rt_upstream = ddb_attr it ''upstream''\<rparr>"

lemma routes_of_items_rows: "routes_of_items items = map row_route (filter served_row items)"
  by (induction items) (auto simp: Let_def served_row_def row_route_def)

text \<open>
  A sync with routes: the map file holds them, or the write failed, and then the file is as it was
  or holds the start of what was to be written. No other file changes.
\<close>

lemma sync_routes:
  assumes "sync ops c (Inr routes) h = ((k, e), h')"
  shows "(\<forall>p. p \<noteq> px_map_path c \<longrightarrow> ho_files h' p = ho_files h p)
       \<and> (k = length routes \<and> read_or_empty (px_map_path c) h' = render_map_file routes
          \<or> k = 0 \<and> e \<noteq> None
            \<and> (ho_files h' (px_map_path c) = ho_files h (px_map_path c)
               \<or> (\<exists>n. ho_files h' (px_map_path c) = Some (take n (render_map_file routes)))))"
proof (cases "read_or_empty (px_map_path c) h = render_map_file routes")
  case True
  with assms show ?thesis by (auto simp: sync_def)
next
  case ch: False
  show ?thesis
  proof (cases "op_write ops (px_map_path c) (ho_sys h)")
    case None
    let ?h1 = "h\<lparr>ho_files := (ho_files h)(px_map_path c \<mapsto> render_map_file routes)\<rparr>"
    obtain e2 h2 where r: "reload_caddy ops (px_caddyfile_path c) ?h1 = (e2, h2)" by fastforce
    have "ho_files h2 = ho_files ?h1"
      using reload_caddy_files [of ops "px_caddyfile_path c" ?h1] by (simp only: r snd_conv)
    moreover have "h' = h2" "k = length routes"
      using assms None ch r by (auto simp: sync_def write_file_def Let_def split: option.splits)
    ultimately show ?thesis by (simp add: read_or_empty_def)
  next
    case (Some x)
    with assms ch show ?thesis by (cases x) (auto simp: sync_def write_file_def Let_def)
  qed
qed

text \<open>
  C35: A sync of the shared proxy against its routes table. If the scan fails or what it prints
  cannot be parsed, an error is reported and no file of the host has changed, so a table that
  cannot be read takes no route away. Otherwise the routes are those of the rows, in order, that
  have a host and an upstream, are active, and are shared or say no mode; no file but the map file
  changes; and either the map file now is exactly what these routes render to and their number is
  the result, or the write of the map file failed: then an error is reported, and the map file is
  as it was or was truncated and holds some first bytes of the new map only.
\<close>

theorem map_follows_table:
  assumes "px_routes_table c \<noteq> []" and "sync_from decode ops c h = ((k, e), h')"
  shows "case fst (run_command ops (''aws'' # ddb_scan_args (px_routes_table c) (px_region c)) h) of
      (out, Some x) \<Rightarrow> k = 0 \<and> e \<noteq> None \<and> ho_files h' = ho_files h
    | (out, None) \<Rightarrow>
        (case decode out of
           Inl x \<Rightarrow> k = 0 \<and> e \<noteq> None \<and> ho_files h' = ho_files h
         | Inr items \<Rightarrow>
             (\<exists>routes. routes = map row_route (filter served_row items)
                \<and> (\<forall>p. p \<noteq> px_map_path c \<longrightarrow> ho_files h' p = ho_files h p)
                \<and> (k = length routes \<and> read_or_empty (px_map_path c) h' = render_map_file routes
                   \<or> k = 0 \<and> e \<noteq> None
                     \<and> (ho_files h' (px_map_path c) = ho_files h (px_map_path c)
                        \<or> (\<exists>n. ho_files h' (px_map_path c) = Some (take n (render_map_file routes)))))))"
proof -
  let ?argv = "''aws'' # ddb_scan_args (px_routes_table c) (px_region c)"
  obtain out err h1 where run: "run_command ops ?argv h = ((out, err), h1)" by (metis prod.collapse)
  have files: "ho_files h1 = ho_files h" using run_command_files [of ops ?argv h] by (simp add: run)
  obtain src where src: "ddb_route_source decode ops (px_routes_table c) (px_region c) h = (src, h1)"
    using run by (cases err) (auto simp: ddb_route_source_def)
  with assms have sync: "sync ops c src h1 = ((k, e), h')" by (simp add: sync_from_def)
  show ?thesis
  proof (cases src)
    case (Inl x)
    with sync have "k = 0 \<and> e \<noteq> None \<and> ho_files h' = ho_files h" using files by (auto simp: sync_def)
    moreover have "err \<noteq> None \<or> (\<exists>y. decode out = Inl y)"
      using src run Inl by (cases err) (auto simp: ddb_route_source_def parse_ddb_scan_def split: sum.splits)
    ultimately show ?thesis by (auto simp: run split: option.split)
  next
    case (Inr routes)
    with src run obtain items where "err = None" "decode out = Inr items" "routes = routes_of_items items"
      by (cases err) (auto simp: ddb_route_source_def parse_ddb_scan_def split: sum.splits)
    with sync_routes [OF sync [unfolded Inr]] show ?thesis
      by (simp add: run files routes_of_items_rows)
  qed
qed

abbreviation table_ops :: "unit host_ops" where
  "table_ops \<equiv> \<lparr>op_mkdir = (\<lambda>p. None), op_write = (\<lambda>p x. None), op_run = (\<lambda>argv x. ((''rows'', None), x))\<rparr>"

abbreviation two_rows :: "ddb_item list" where
  "two_rows \<equiv>
     [[''host'' \<mapsto> ''a.x'', ''upstream'' \<mapsto> ''10.0.0.1:80'', ''status'' \<mapsto> ''active''],
      [''host'' \<mapsto> ''b.x'', ''upstream'' \<mapsto> ''10.0.0.2:80'', ''status'' \<mapsto> ''paused'']]"

abbreviation table_config :: proxy_config where
  "table_config \<equiv>
     \<lparr>px_domain_base = [], px_ask_url = [], px_control_plane_base_url = [], px_routes_table = ''t'',
      px_region = [], px_caddyfile_path = ''/c'', px_map_path = ''/m'', px_acme_ca = [], px_sync_interval = 1\<rparr>"

theorem map_follows_table_witness:
  "read_or_empty ''/m'' (snd (sync_from (\<lambda>s. Inr two_rows) table_ops table_config
       \<lparr>ho_files = Map.empty, ho_sys = ()\<rparr>)) = render_map_file [\<lparr>rt_host = ''a.x'', rt_upstream = ''10.0.0.1:80''\<rparr>]"
proof -
  let ?r = "sync_from (\<lambda>s. Inr two_rows) table_ops table_config \<lparr>ho_files = Map.empty, ho_sys = ()\<rparr>"
  have ok: "snd (fst ?r) = None"
    by (simp add: sync_from_def ddb_route_source_def run_command_def parse_ddb_scan_def sync_def write_file_def
        reload_caddy_def Let_def)
  then obtain k h' where r: "?r = ((k, None), h')" by (metis prod.collapse)
  have t: "px_routes_table table_config \<noteq> []" by simp
  have rows: "map row_route (filter served_row two_rows) = [\<lparr>rt_host = ''a.x'', rt_upstream = ''10.0.0.1:80''\<rparr>]"
    by (simp add: served_row_def row_route_def ddb_attr_def)
  have run: "fst (run_command table_ops argv h) = (''rows'', None)" for argv h by (simp add: run_command_def)
  have "read_or_empty ''/m'' h' = render_map_file (map row_route (filter served_row two_rows))"
    using map_follows_table [OF t r] unfolding run by simp
  with r rows show ?thesis by simp
qed

end
