(* ===== verification/Front.thy ===== *)
theory Front
  imports AppAuth
begin

text \<open>
  The HTTP front of \<^verbatim>\<open>internal/api/mcp/server.go\<close>: the routing of a request, the proxy to
  the application with its access control, readiness gate and redirects, and the two bridges to
  local agent servers. What the proxied server answers is a parameter; paths are decoded paths
  without escaped characters.
\<close>

record front_request = http_request +
  fr_method :: string
  fr_path :: string
  fr_query :: string
  fr_body :: string
  fr_body_error :: "string option"

record reply =
  re_status :: nat
  re_headers :: "(string \<times> string) list"
  re_body :: string

text \<open>
  What is sent to a local server: its address, the \<^verbatim>\<open>Host\<close> if it is replaced, path and query;
  method, headers and body are those of the request. \<open>Inl\<close>: no answer.
\<close>

record outgoing =
  og_target :: string
  og_host :: "string option"
  og_path :: string
  og_query :: string

type_synonym 'w upstream = "outgoing \<Rightarrow> front_request \<Rightarrow> 'w \<Rightarrow> (string + reply) \<times> 'w"

text \<open>The two process-wide flags and the pointer of \<^verbatim>\<open>appauth\<close>.\<close>

record front =
  fn_auth :: "auth_config option"
  fn_healthy :: bool
  fn_ready :: bool

definition http_error :: "string \<Rightarrow> nat \<Rightarrow> reply" where
  "http_error msg code = \<lparr>re_status = code,
     re_headers = [(''Content-Type'', ''text/plain; charset=utf-8''), (''X-Content-Type-Options'', ''nosniff'')],
     re_body = msg @ [nl]\<rparr>"

definition bare :: "nat \<Rightarrow> reply" where
  "bare code = \<lparr>re_status = code, re_headers = [], re_body = []\<rparr>"

text \<open>\<^verbatim>\<open>io.ReadAll(io.LimitReader(r.Body, n))\<close>\<close>

definition read_limited :: "nat \<Rightarrow> front_request \<Rightarrow> string + string" where
  "read_limited n r =
     (if n \<le> length (fr_body r) then Inr (take n (fr_body r))
      else case fr_body_error r of Some e \<Rightarrow> Inl e | None \<Rightarrow> Inr (fr_body r))"

subsection \<open>The starting-up page\<close>

definition starting_up_html :: string where
  "starting_up_html = join [nl]
     [''<!doctype html><html lang=\"en\"><head>'',
      ''<meta charset=\"utf-8\"><meta name=\"viewport\" content=\"width=device-width,initial-scale=1\">'',
      ''<meta http-equiv=\"refresh\" content=\"4\">'',
      ''<title>Starting up'' @ ellipsis @ ''</title>'',
      ''<style>'',
      '':root{color-scheme:dark}'',
      ''*{box-sizing:border-box}'',
      ''body{margin:0;min-height:100vh;display:flex;align-items:center;justify-content:center;'',
      ''  background:#0d0d10;color:#e7e7ea;font-family:-apple-system,BlinkMacSystemFont,\"Segoe UI\",Roboto,Helvetica,Arial,sans-serif;'',
      ''  padding:32px 24px;position:relative;overflow:hidden}'',
      ''body::before{content:'' @ [CHR 0x27] @ ''';position:fixed;inset:0;pointer-events:none;z-index:0;'',
      ''  background:radial-gradient(circle at 50% 40%,rgba(117,83,255,.10) 0%,transparent 55%),'',
      ''  radial-gradient(circle at 50% 70%,rgba(255,107,107,.06) 0%,transparent 55%)}'',
      ''.card{position:relative;z-index:1;text-align:center;max-width:520px;width:100%}'',
      ''.ring{width:84px;height:84px;margin:0 auto 28px;border-radius:50%;'',
      ''  background:conic-gradient(from 0deg,#7553FF,#FF6B6B,#FFA94D,#7553FF);'',
      ''  -webkit-mask:radial-gradient(farthest-side,transparent calc(100% - 9px),#000 calc(100% - 8px));'',
      ''  mask:radial-gradient(farthest-side,transparent calc(100% - 9px),#000 calc(100% - 8px));'',
      ''  animation:spin 1.1s linear infinite;filter:drop-shadow(0 0 36px rgba(117,83,255,.35))}'',
      ''@keyframes spin{to{transform:rotate(360deg)}}'',
      ''h1{font-size:24px;font-weight:600;margin:0 0 12px;letter-spacing:-.01em;'',
      ''  background:linear-gradient(135deg,#7553FF 0%,#FF6B6B 50%,#FFA94D 100%);'',
      ''  -webkit-background-clip:text;background-clip:text;color:transparent}'',
      ''p{font-size:14px;line-height:1.6;color:#9b9ba5;margin:0}'',
      ''.dots::after{content:'' @ [CHR 0x27] @ ''';animation:dots 1.4s steps(4,end) infinite}'',
      ''@keyframes dots{0%{content:'' @ [CHR 0x27] @ '''}25%{content:'.'}50%{content:'..'}75%{content:'...'}}'',
      ''</style></head>'',
      ''<body><div class=\"card\">'',
      ''  <div class=\"ring\" aria-hidden=\"true\"></div>'',
      ''  <h1>Starting up<span class=\"dots\"></span></h1>'',
      ''  <p>Your app is provisioning '' @ em_dash @ '' this usually takes a minute or two.<br>This page refreshes automatically.</p>'',
      ''</div></body></html>'']"

definition starting_up :: reply where
  "starting_up = \<lparr>re_status = 503,
     re_headers = [(''Content-Type'', ''text/html; charset=utf-8''), (''Retry-After'', ''4''),
                   (''Cache-Control'', ''no-store'')],
     re_body = starting_up_html\<rparr>"

text \<open>A request of a browser for a page.\<close>

definition wants_page :: "front_request \<Rightarrow> bool" where
  "wants_page r \<longleftrightarrow> (fr_method r = ''GET'' \<or> fr_method r = ''HEAD'') \<and>
     contains ''text/html'' (rq_header r ''Accept'')"

subsection \<open>The readiness gate\<close>

definition parse_status_range :: "string \<Rightarrow> int \<times> int" where
  "parse_status_range s0 =
     (let s = trim_space s0
      in if s = [] then (200, 399)
         else case index_byte (CHR ''-'') s of
           Some (Suc i) \<Rightarrow>
             (case (atoi (trim_space (take (Suc i) s)), atoi (trim_space (drop (Suc (Suc i)) s))) of
                (Some lo, Some hi) \<Rightarrow> if lo > 0 \<and> hi \<ge> lo then (lo, hi) else (200, 399)
              | _ \<Rightarrow> (200, 399))
         | _ \<Rightarrow>
             (case atoi s of
                None \<Rightarrow> (200, 399) | Some n \<Rightarrow> if n > 0 then (n, n) else (200, 399)))"

text \<open>
  The poller: each round is the status the readiness path answered, if it answered, and whether the
  deadline had passed after it. \<open>False\<close>: the rounds so far leave the gate closed.
\<close>

fun readiness_gate :: "int \<Rightarrow> int \<Rightarrow> (int option \<times> bool) list \<Rightarrow> bool" where
  "readiness_gate lo hi [] = False"
| "readiness_gate lo hi ((ans, late) # rounds) =
     (if (case ans of None \<Rightarrow> False | Some code \<Rightarrow> code \<ge> lo \<and> code \<le> hi) then True
      else if late then True else readiness_gate lo hi rounds)"

text \<open>The gate is started only for a readiness path and a known port.\<close>

definition start_readiness_gate :: "environ \<Rightarrow> (int option \<times> bool) list \<Rightarrow> front \<Rightarrow> front" where
  "start_readiness_gate env rounds s =
     (let (lo, hi) = parse_status_range (env ''AGENT_OPS_READY_STATUS'')
      in if trim_space (env ''AGENT_OPS_READY_PATH'') \<noteq> [] \<and> trim_space (env ''AGENT_OPS_APP_PORT'') \<noteq> [] \<and>
            readiness_gate lo hi rounds
         then s\<lparr>fn_ready := True\<rparr> else s)"

subsection \<open>The proxy to the application\<close>

definition parse_path_set :: "string \<Rightarrow> string set" where
  "parse_path_set csv0 =
     (let csv = trim_space csv0
      in if csv = [] then {} else set (filter (\<lambda>p. p \<noteq> []) (map trim_space (split_on (CHR '','') csv))))"

definition slash_redirect :: "front_request \<Rightarrow> reply" where
  "slash_redirect r = \<lparr>re_status = 308,
     re_headers = [(''Location'', fr_path r @ ''/'' @ (if fr_query r \<noteq> [] then ''?'' @ fr_query r else []))],
     re_body = []\<rparr>"

definition refusal :: "nat \<Rightarrow> string \<Rightarrow> reply" where
  "refusal status www_auth = \<lparr>re_status = status,
     re_headers = (if www_auth \<noteq> [] then [(''WWW-Authenticate'', www_auth)] else []), re_body = []\<rparr>"

text \<open>The exchange with the application itself; \<open>parses\<close> is what \<^verbatim>\<open>url.Parse\<close> says to the target.\<close>

definition forward_app ::
  "environ \<Rightarrow> (string \<Rightarrow> bool) \<Rightarrow> 'w upstream \<Rightarrow> front_request \<Rightarrow> front \<Rightarrow> 'w \<Rightarrow> reply \<times> front \<times> 'w" where
  "forward_app env parses up r s w =
     (let raw = trim_space (env ''AGENT_OPS_APP_PORT'')
      in if raw = [] then (http_error ''app port not yet known'' 503, s, w)
         else if \<not> parses (''http://127.0.0.1:'' @ raw) then (http_error ''bad app port'' 502, s, w)
         else case up \<lparr>og_target = ''127.0.0.1:'' @ raw, og_host = None, og_path = fr_path r, og_query = fr_query r\<rparr> r w of
           (Inr a, w) \<Rightarrow> (a, (if re_status a < 500 then s\<lparr>fn_healthy := True\<rparr> else s), w)
         | (Inl e, w) \<Rightarrow>
             if \<not> fn_healthy s \<and> wants_page r then (starting_up, s, w)
             else (http_error ''bad gateway'' 502, s, w))"

definition app_proxy ::
  "environ \<Rightarrow> auth_crypto \<Rightarrow> (string \<Rightarrow> bool) \<Rightarrow> 'w upstream \<Rightarrow> front_request \<Rightarrow> front \<Rightarrow> 'w \<Rightarrow>
   reply \<times> front \<times> 'w" where
  "app_proxy env k parses up r s w =
     (let (ok, status, www_auth) = enforce k (fn_auth s) (http_request.truncate r)
      in if \<not> ok then (refusal status www_auth, s, w)
         else if trim_space (env ''AGENT_OPS_READY_PATH'') \<noteq> [] \<and> \<not> fn_ready s \<and> wants_page r
         then (starting_up, s, w)
         else if \<not> suffix ''/'' (fr_path r) \<and> fr_path r \<in> parse_path_set (env ''AGENT_OPS_TRAILING_SLASH_PATHS'')
         then (slash_redirect r, s, w)
         else forward_app env parses up r s w)"

subsection \<open>The bridges\<close>

text \<open>\<^verbatim>\<open>strings.Cut(s, "/")\<close>\<close>

definition cut_slash :: "string \<Rightarrow> string \<times> string" where
  "cut_slash s = (case index_byte (CHR ''/'') s of None \<Rightarrow> (s, []) | Some i \<Rightarrow> (take i s, drop (Suc i) s))"

definition trim_prefix :: "string \<Rightarrow> string \<Rightarrow> string" where
  "trim_prefix p s = (if prefix p s then drop (length p) s else s)"

definition bridge_port :: "string \<Rightarrow> int option" where
  "bridge_port s =
     (case atoi s of None \<Rightarrow> None | Some p \<Rightarrow> if p < 8000 \<or> p > 8099 then None else Some p)"

text \<open>
  \<^verbatim>\<open>url.Parse\<close> on an address of the local host whose port is a number for \<^verbatim>\<open>Atoi\<close>: it
  takes digits and no sign.
\<close>

definition url_port :: "string \<Rightarrow> bool" where
  "url_port s \<longleftrightarrow> list_all (\<lambda>c. digit_value c \<noteq> None) s"

definition relay :: "(string + reply) \<times> 'w \<Rightarrow> reply \<times> 'w" where
  "relay answer = (case answer of (Inr a, w) \<Rightarrow> (a, w) | (Inl e, w) \<Rightarrow> (http_error ''bad gateway'' 502, w))"

definition oh_agent_proxy :: "'w upstream \<Rightarrow> front_request \<Rightarrow> 'w \<Rightarrow> reply \<times> 'w" where
  "oh_agent_proxy up r w =
     (let (port_str, tail) = cut_slash (trim_prefix ''/_oh_agent/'' (fr_path r))
      in if bridge_port port_str = None then (http_error ''oh-agent: port out of allowed range'' 400, w)
         else if \<not> url_port port_str then (http_error ''oh-agent: bad target'' 502, w)
         else let target = ''127.0.0.1:'' @ port_str
              in relay (up \<lparr>og_target = target, og_host = Some target, og_path = ''/'' @ tail,
                           og_query = fr_query r\<rparr> r w))"

definition ohvs_proxy :: "'w upstream \<Rightarrow> front_request \<Rightarrow> 'w \<Rightarrow> reply \<times> 'w" where
  "ohvs_proxy up r w =
     (let (port_str, _) = cut_slash (trim_prefix ''/_ohvs/'' (fr_path r))
      in if bridge_port port_str = None then (http_error ''ohvs: port out of allowed range'' 400, w)
         else if \<not> url_port port_str then (http_error ''ohvs: bad target'' 502, w)
         else let target = ''127.0.0.1:'' @ port_str
              in relay (up \<lparr>og_target = target, og_host = Some target, og_path = fr_path r,
                           og_query = fr_query r\<rparr> r w))"

subsection \<open>Routing\<close>

text \<open>\<^verbatim>\<open>ServeMux\<close> cleans the path, and redirects to the clean one if that is another.\<close>

fun clean_segments :: "string list \<Rightarrow> string list \<Rightarrow> string list" where
  "clean_segments st [] = rev st"
| "clean_segments st (x # xs) =
     (if x = [] \<or> x = ''.'' then clean_segments st xs
      else if x = ''..'' then clean_segments (tl st) xs
      else clean_segments (x # st) xs)"

definition clean_path :: "string \<Rightarrow> string" where
  "clean_path p =
     (if p = [] then ''/''
      else let q = CHR ''/'' # join ''/'' (clean_segments [] (split_on (CHR ''/'') p))
           in if last p = CHR ''/'' \<and> q \<noteq> ''/'' then q @ ''/'' else q)"

datatype route = RouteHealth | RouteAuth | RouteMcp | RouteOhAgent | RouteOhvs | RouteApp

definition route_of :: "string \<Rightarrow> route" where
  "route_of p =
     (if p = ''/_zibby_ops/healthz'' \<or> p = ''/healthz'' then RouteHealth
      else if p = ''/_zibby_ops/auth'' then RouteAuth
      else if p = ''/_zibby_ops/mcp'' \<or> p = ''/mcp'' then RouteMcp
      else if prefix ''/_oh_agent/'' p then RouteOhAgent
      else if prefix ''/_ohvs/'' p then RouteOhvs
      else RouteApp)"

text \<open>
  \<open>Inl\<close>: a redirect to that path. Requests with the method \<^verbatim>\<open>CONNECT\<close>, whose path the mux
  takes as it is, are not modelled.
\<close>

definition mux_route :: "string \<Rightarrow> string + route" where
  "mux_route p =
     (let q = clean_path p
      in if q = ''/_oh_agent'' \<or> q = ''/_ohvs'' then Inl (q @ ''/'')
         else if q \<noteq> p then Inl q else Inr (route_of q))"

definition handle_health :: reply where
  "handle_health = \<lparr>re_status = 200, re_headers = [], re_body = ''{'' @ quoted ''status'' @ '':'' @ quoted ''ok'' @ ''}''\<rparr>"


subsection \<open>Numbers in paths\<close>

lemma digits_value_append:
  "digits_value acc (xs @ ys) = Option.bind (digits_value acc xs) (\<lambda>v. digits_value v ys)"
  by (induction xs arbitrary: acc) (auto split: option.split)

lemma digit_value_char: "d < 10 \<Longrightarrow> digit_value (digit_char d) = Some (int d)"
  by (simp add: digit_value_def Let_def)

lemma digits_value_nat_string: "digits_value 0 (nat_string n) = Some (int n)"
proof (induction n rule: nat_string.induct)
  case (1 n)
  show ?case
  proof (cases "n < 10")
    case True
    then show ?thesis by (subst nat_string.simps) (simp add: digit_value_char del: digit_char.simps)
  next
    case False
    have "10 * int (n div 10) + int (n mod 10) = int n"
      by (metis mult_div_mod_eq of_nat_add of_nat_mult of_nat_numeral)
    then show ?thesis
      using 1 False by (subst nat_string.simps) (simp add: digits_value_append digit_value_char del: digit_char.simps)
  qed
qed

lemma nat_string_digits: "list_all (\<lambda>c. digit_value c \<noteq> None) (nat_string n)"
proof (induction n rule: nat_string.induct)
  case (1 n)
  then show ?case
    by (subst nat_string.simps) (auto simp: digit_value_char simp del: digit_char.simps)
qed

lemma sign_no_digit: "digit_value (CHR ''-'') = None" "digit_value (CHR ''+'') = None"
  "digit_value (CHR ''/'') = None"
  by (simp_all add: digit_value_def)

lemma atoi_itoa:
  assumes "0 \<le> n" and "n < 2 ^ 63"
  shows "atoi (itoa n) = Some n"
proof -
  obtain c cs where s: "nat_string (nat n) = c # cs" by (cases "nat_string (nat n)") auto
  moreover have "digit_value c \<noteq> None" using nat_string_digits [of "nat n"] s by simp
  then have "c \<noteq> CHR ''-''" "c \<noteq> CHR ''+''" using sign_no_digit by auto
  ultimately show ?thesis
    using digits_value_nat_string [of "nat n"] assms by (simp add: atoi_def itoa_def)
qed

subsection \<open>The bridges are confined\<close>

lemma cut_slash_at: "CHR ''/'' \<notin> set u \<Longrightarrow> cut_slash (u @ CHR ''/'' # v) = (u, v)"
proof -
  assume "CHR ''/'' \<notin> set u"
  then have "index_byte (CHR ''/'') (u @ CHR ''/'' # v) = Some (length u)" by (induction u) auto
  then show ?thesis by (simp add: cut_slash_def)
qed

lemma bridge_port_Some: "bridge_port s = Some p \<longleftrightarrow> atoi s = Some p \<and> 8000 \<le> p \<and> p \<le> 8099"
  by (auto simp: bridge_port_def split: option.split)

lemma itoa_port: "0 \<le> p \<Longrightarrow> url_port (itoa p) \<and> CHR ''/'' \<notin> set (itoa p)"
  using nat_string_digits [of "nat p"] sign_no_digit
  by (fastforce simp: url_port_def itoa_def list_all_iff)

text \<open>An exchange with the local host on one of the hundred ports, written in digits only.\<close>

definition allowed_exchange :: "outgoing \<Rightarrow> bool" where
  "allowed_exchange g \<longleftrightarrow> (\<exists>s p. atoi s = Some p \<and> 8000 \<le> p \<and> p \<le> 8099 \<and> url_port s \<and>
     og_target g = ''127.0.0.1:'' @ s \<and> og_host g = Some (og_target g))"

lemma snd_relay: "snd (relay x) = snd x"
  by (auto simp: relay_def split: prod.split sum.split)

lemma allowed_exchangeI:
  "bridge_port s \<noteq> None \<Longrightarrow> url_port s \<Longrightarrow> allowed_exchange \<lparr>og_target = ''127.0.0.1:'' @ s,
     og_host = Some (''127.0.0.1:'' @ s), og_path = path, og_query = query\<rparr>"
  unfolding allowed_exchange_def by (rule exI [of _ s]) (auto simp: bridge_port_Some)

lemma oh_agent_confined:
  "(re_status (fst (oh_agent_proxy up r w)) \<in> {400, 502} \<and> snd (oh_agent_proxy up r w) = w) \<or>
   (\<exists>g. allowed_exchange g \<and> oh_agent_proxy up r w = relay (up g r w))"
proof -
  obtain s tail where cut: "cut_slash (trim_prefix ''/_oh_agent/'' (fr_path r)) = (s, tail)" by fastforce
  then show ?thesis
    using allowed_exchangeI [of s "''/'' @ tail" "fr_query r"]
    by (cases "bridge_port s = None \<or> \<not> url_port s") (auto simp: oh_agent_proxy_def Let_def http_error_def)
qed

lemma ohvs_confined:
  "(re_status (fst (ohvs_proxy up r w)) \<in> {400, 502} \<and> snd (ohvs_proxy up r w) = w) \<or>
   (\<exists>g. allowed_exchange g \<and> ohvs_proxy up r w = relay (up g r w))"
proof -
  obtain s tail where cut: "cut_slash (trim_prefix ''/_ohvs/'' (fr_path r)) = (s, tail)" by fastforce
  then show ?thesis
    using allowed_exchangeI [of s "fr_path r" "fr_query r"]
    by (cases "bridge_port s = None \<or> \<not> url_port s") (auto simp: ohvs_proxy_def Let_def http_error_def)
qed

lemma bridges_pass_on:
  assumes "8000 \<le> p" and "p \<le> 8099"
  shows "fr_path q = ''/_oh_agent/'' @ itoa p @ ''/'' @ tail \<Longrightarrow>
      oh_agent_proxy up q w = relay (up \<lparr>og_target = ''127.0.0.1:'' @ itoa p,
        og_host = Some (''127.0.0.1:'' @ itoa p), og_path = ''/'' @ tail, og_query = fr_query q\<rparr> q w)"
    and "fr_path q = ''/_ohvs/'' @ itoa p @ ''/'' @ tail \<Longrightarrow>
      ohvs_proxy up q w = relay (up \<lparr>og_target = ''127.0.0.1:'' @ itoa p,
        og_host = Some (''127.0.0.1:'' @ itoa p), og_path = fr_path q, og_query = fr_query q\<rparr> q w)"
proof -
  have "bridge_port (itoa p) = Some p" "url_port (itoa p)"
    "cut_slash (itoa p @ CHR ''/'' # tail) = (itoa p, tail)"
    using assms atoi_itoa [of p] itoa_port [of p] by (simp_all add: bridge_port_Some cut_slash_at)
  then show "fr_path q = ''/_oh_agent/'' @ itoa p @ ''/'' @ tail \<Longrightarrow>
      oh_agent_proxy up q w = relay (up \<lparr>og_target = ''127.0.0.1:'' @ itoa p,
        og_host = Some (''127.0.0.1:'' @ itoa p), og_path = ''/'' @ tail, og_query = fr_query q\<rparr> q w)"
    and "fr_path q = ''/_ohvs/'' @ itoa p @ ''/'' @ tail \<Longrightarrow>
      ohvs_proxy up q w = relay (up \<lparr>og_target = ''127.0.0.1:'' @ itoa p,
        og_host = Some (''127.0.0.1:'' @ itoa p), og_path = fr_path q, og_query = fr_query q\<rparr> q w)"
    by (simp_all add: oh_agent_proxy_def ohvs_proxy_def trim_prefix_def Let_def)
qed

subsection \<open>Ranges, pages and gates\<close>

lemma parse_status_range_bounds: "parse_status_range s = (lo, hi) \<Longrightarrow> 0 < lo \<and> lo \<le> hi"
  by (auto simp: parse_status_range_def Let_def split: if_splits option.splits nat.splits)

lemma readiness_gate_opens:
  "readiness_gate lo hi rounds \<longleftrightarrow>
     (\<exists>(ans, late) \<in> set rounds. late \<or> (\<exists>code. ans = Some code \<and> lo \<le> code \<and> code \<le> hi))"
  by (induction lo hi rounds rule: readiness_gate.induct) (auto split: option.splits)

lemma http_error_not_page [simp]: "http_error m c \<noteq> starting_up"
  by (simp add: starting_up_def http_error_def)

text \<open>Once the application has answered, a later failure is never shown as starting up.\<close>

lemma forward_app_healthy:
  assumes "fn_healthy s" and "forward_app env parses up r s w = (a, s', w')"
  shows "fn_healthy s' \<and> (a = starting_up \<longrightarrow> (\<exists>g u. fst (up g r u) = Inr starting_up))"
  using assms by (auto simp: forward_app_def Let_def split: if_splits sum.splits prod.splits) (metis fst_conv)+

lemma forward_app_auth: "fn_auth (fst (snd (forward_app env parses up r s w))) = fn_auth s"
  by (auto simp: forward_app_def Let_def split: sum.split prod.split)

lemma app_proxy_auth: "fn_auth (fst (snd (app_proxy env k parses up r s w))) = fn_auth s"
  by (auto simp: app_proxy_def forward_app_auth Let_def split: prod.split)

text \<open>
  The bridges reach no local server but those of the hundred ports. Whatever the path of the
  request, a bridge either answers with an error and touches nothing, or makes one exchange, with
  the local host on a port from 8000 to 8099 written in digits only. A request for such a port is
  always passed on: the agent bridge strips its prefix from the path, the editor bridge keeps it.
\<close>

lemma bridges_confined:
  "(\<forall>br \<in> {oh_agent_proxy, ohvs_proxy}.
      (re_status (fst (br up r w)) \<in> {400, 502} \<and> snd (br up r w) = w) \<or>
      (\<exists>g. allowed_exchange g \<and> br up r w = relay (up g r w))) \<and>
   (8000 \<le> p \<longrightarrow> p \<le> 8099 \<longrightarrow>
      (fr_path r = ''/_oh_agent/'' @ itoa p @ ''/'' @ tail \<longrightarrow>
         oh_agent_proxy up r w = relay (up \<lparr>og_target = ''127.0.0.1:'' @ itoa p,
           og_host = Some (''127.0.0.1:'' @ itoa p), og_path = ''/'' @ tail, og_query = fr_query r\<rparr> r w)) \<and>
      (fr_path r = ''/_ohvs/'' @ itoa p @ ''/'' @ tail \<longrightarrow>
         ohvs_proxy up r w = relay (up \<lparr>og_target = ''127.0.0.1:'' @ itoa p,
           og_host = Some (''127.0.0.1:'' @ itoa p), og_path = fr_path r, og_query = fr_query r\<rparr> r w)))"
  using oh_agent_confined [of up r w] ohvs_confined [of up r w] bridges_pass_on [of p r tail up w] by blast

definition sample_get :: "string \<Rightarrow> front_request" where
  "sample_get path = \<lparr>rq_header = (\<lambda>_. []), rq_remote_addr = ''10.0.0.1:5'', fr_method = ''GET'', fr_path = path,
     fr_query = [], fr_body = [], fr_body_error = None\<rparr>"

lemma bridges_confined_witness:
  "og_path (snd (oh_agent_proxy (\<lambda>g _ _. (Inr (bare 200), g)) (sample_get ''/_oh_agent/8001/x'')
      \<lparr>og_target = [], og_host = None, og_path = [], og_query = []\<rparr>)) = ''/x''"
proof -
  have p: "fr_path (sample_get ''/_oh_agent/8001/x'') = ''/_oh_agent/'' @ itoa 8001 @ ''/'' @ ''x''"
    by (simp add: sample_get_def itoa_def nat_string.simps char_of_def bit_0)
  show ?thesis
    using bridges_confined [THEN conjunct2, of 8001 "sample_get ''/_oh_agent/8001/x''" "''x''"
        "\<lambda>g _ _. (Inr (bare 200), g)"] p by (simp add: relay_def)
qed

subsection \<open>Clean paths\<close>

definition clean_segment :: "string \<Rightarrow> bool" where
  "clean_segment x \<longleftrightarrow> x \<noteq> [] \<and> x \<noteq> ''.'' \<and> x \<noteq> ''..'' \<and> CHR ''/'' \<notin> set x"

lemma clean_segments_clean:
  "list_all clean_segment st \<Longrightarrow> \<forall>x \<in> set xs. CHR ''/'' \<notin> set x \<Longrightarrow> list_all clean_segment (clean_segments st xs)"
proof (induction st xs rule: clean_segments.induct)
  case (2 st x xs)
  have "list_all clean_segment (tl st)" using 2(4) by (cases st) auto
  moreover have "x \<noteq> [] \<Longrightarrow> x \<noteq> ''.'' \<Longrightarrow> x \<noteq> ''..'' \<Longrightarrow> clean_segment x"
    using 2(5) by (simp add: clean_segment_def)
  ultimately show ?case using 2 by simp
qed (simp add: list_all_iff)

lemma clean_segments_id:
  "list_all clean_segment xs \<Longrightarrow> clean_segments st (xs @ ys) = clean_segments (rev xs @ st) ys"
  by (induction xs arbitrary: st) (auto simp: clean_segment_def)

lemma slash_join_split:
  "segs \<noteq> [] \<Longrightarrow> list_all clean_segment segs \<Longrightarrow> split_on (CHR ''/'') (join ''/'' segs) = segs"
  by (rule split_on_join) (auto simp: list_all_iff clean_segment_def)

lemma join_ends:
  "segs \<noteq> [] \<Longrightarrow> list_all clean_segment segs \<Longrightarrow> join ''/'' segs \<noteq> [] \<and> last (join ''/'' segs) \<noteq> CHR ''/''"
proof (induction segs)
  case (Cons x xs)
  have x: "x \<noteq> []" "CHR ''/'' \<notin> set x" using Cons.prems by (simp_all add: clean_segment_def)
  then have last: "last x \<noteq> CHR ''/''" using last_in_set [OF x(1)] by metis
  show ?case
  proof (cases "xs = []")
    case True
    then show ?thesis using x last by simp
  next
    case False
    moreover have "join ''/'' xs \<noteq> []" "last (join ''/'' xs) \<noteq> CHR ''/''"
      using Cons.IH [OF False] Cons.prems by simp_all
    ultimately show ?thesis using x by (simp add: join_Cons)
  qed
qed simp

text \<open>The clean paths: the root, or clean segments, with or without a slash after them.\<close>

lemma clean_path_segments:
  assumes "list_all clean_segment segs"
  shows "clean_path (CHR ''/'' # join ''/'' segs) = CHR ''/'' # join ''/'' segs"
    and "segs \<noteq> [] \<Longrightarrow> clean_path (CHR ''/'' # join ''/'' segs @ ''/'') = CHR ''/'' # join ''/'' segs @ ''/''"
proof -
  have same: "clean_segments [] (segs @ ys) = clean_segments (rev segs) ys" for ys
    using clean_segments_id [OF assms, of "[]"] by simp
  show "clean_path (CHR ''/'' # join ''/'' segs) = CHR ''/'' # join ''/'' segs"
  proof (cases "segs = []")
    case False
    then show ?thesis
      using slash_join_split [OF False assms] join_ends [OF False assms] same [of "[]"]
      by (simp add: clean_path_def Let_def)
  qed (simp add: clean_path_def)
  assume ne: "segs \<noteq> []"
  have "split_on (CHR ''/'') (join ''/'' segs @ ''/'') = segs @ [[]]"
    using split_on_append_sep [of "CHR ''/''" "join ''/'' segs" "[]"] slash_join_split [OF ne assms] by simp
  then show "clean_path (CHR ''/'' # join ''/'' segs @ ''/'') = CHR ''/'' # join ''/'' segs @ ''/''"
    using join_ends [OF ne assms] same [of "[[]]"] by (simp add: clean_path_def Let_def)
qed

lemma clean_path_form:
  "\<exists>segs. list_all clean_segment segs \<and> (clean_path p = CHR ''/'' # join ''/'' segs \<or>
     (segs \<noteq> [] \<and> clean_path p = CHR ''/'' # join ''/'' segs @ ''/''))"
proof (cases "p = []")
  case False
  define segs where "segs = clean_segments [] (split_on (CHR ''/'') p)"
  have "list_all clean_segment segs"
    unfolding segs_def by (rule clean_segments_clean) (auto dest: split_on_no_sep)
  moreover have "segs \<noteq> []" if "CHR ''/'' # join ''/'' segs \<noteq> ''/''" using that by auto
  ultimately show ?thesis
    using False by (intro exI [of _ segs]) (auto simp: clean_path_def segs_def [symmetric] Let_def)
qed (auto intro: exI [of _ "[]"] simp: clean_path_def)

lemma clean_path_idem [simp]: "clean_path (clean_path p) = clean_path p"
  using clean_path_form [of p] clean_path_segments by auto

text \<open>
  One redirect is enough. The path that a request is redirected to is served without another
  redirect, and redirects are given only for paths that are not clean or name a bridge without its
  slash.
\<close>

lemma redirects_settle:
  assumes "mux_route p = Inl q"
  shows "(\<exists>r. mux_route q = Inr r) \<and> (q = clean_path p \<and> p \<noteq> clean_path p \<or>
    clean_path p \<in> {''/_oh_agent'', ''/_ohvs''} \<and> q = clean_path p @ ''/'')"
proof -
  have seg: "list_all clean_segment [''_oh_agent'']" "list_all clean_segment [''_ohvs'']"
    by (simp_all add: clean_segment_def)
  have "clean_path ''/_oh_agent/'' = ''/_oh_agent/''" "clean_path ''/_ohvs/'' = ''/_ohvs/''"
    using clean_path_segments(2) [OF seg(1)] clean_path_segments(2) [OF seg(2)] by simp_all
  then show ?thesis
    using assms by (auto simp: mux_route_def Let_def split: if_splits)
qed

lemma redirects_settle_witness:
  "\<exists>r. mux_route ''/healthz'' = Inr r"
proof -
  have "mux_route ''//healthz'' = Inl ''/healthz''" by (simp add: mux_route_def clean_path_def)
  then show ?thesis using redirects_settle by blast
qed

end
