(* ===== verification/Templates.thy ===== *)
theory Templates
  imports GoLib
begin

text \<open>
  \<^verbatim>\<open>examples/embed.go\<close>: the configuration templates that are baked into the binary, as the
  entries of the embedded directory with their names (\<open>None\<close> is a directory), and the lookup
  by name.
\<close>

type_synonym embedded = "(string \<times> string option) list"

record template =
  te_name :: string
  te_description :: string
  te_filename :: string

text \<open>\<^verbatim>\<open>strings.Index\<close>\<close>

fun str_index :: "string \<Rightarrow> string \<Rightarrow> nat option" where
  "str_index needle [] = (if needle = [] then Some 0 else None)"
| "str_index needle (c # cs) =
     (if prefix needle (c # cs) then Some 0 else map_option Suc (str_index needle cs))"

definition trim_suffix :: "string \<Rightarrow> string \<Rightarrow> string" where
  "trim_suffix x s = (if suffix x s then take (length s - length x) s else s)"

definition comment_text :: "string \<Rightarrow> string \<Rightarrow> string" where
  "comment_text fallback line =
     (let trimmed = trim_space (drop 1 line);
          rest = (case str_index em_dash trimmed of
                    None \<Rightarrow> []
                  | Some i \<Rightarrow> trim_suffix ''.'' (trim_space (drop (i + length em_dash) trimmed)))
      in if rest \<noteq> [] then rest else if trimmed \<noteq> [] then trimmed else fallback)"

fun first_comment :: "string \<Rightarrow> string list \<Rightarrow> string" where
  "first_comment fallback [] = fallback"
| "first_comment fallback (l # ls) =
     (let line = trim_space l
      in if line = [] then first_comment fallback ls
         else if \<not> prefix ''#'' line then fallback
         else comment_text fallback line)"

definition first_comment_line :: "string \<Rightarrow> string \<Rightarrow> string" where
  "first_comment_line body fallback = first_comment fallback (split_on nl body)"

definition template_of :: "string \<times> string option \<Rightarrow> template list" where
  "template_of e =
     (case e of
        (name, None) \<Rightarrow> []
      | (name, Some body) \<Rightarrow>
          if \<not> suffix ''.yaml'' name then []
          else let stem = trim_suffix ''.yaml'' name
               in [\<lparr>te_name = stem, te_description = first_comment_line body stem, te_filename = name\<rparr>])"

definition list_templates :: "embedded \<Rightarrow> template list" where
  "list_templates fs = sort_key te_name (concat (map template_of fs))"

definition template_names :: "embedded \<Rightarrow> string list" where
  "template_names fs = map te_name (list_templates fs)"

definition get_template :: "embedded \<Rightarrow> string \<Rightarrow> string + string" where
  "get_template fs name =
     (case Option.bind (map_of fs (name @ ''.yaml'')) id of
        Some body \<Rightarrow> Inr body
      | None \<Rightarrow> Inl (''template '' @ quoted name @ '' not found; available: '' @ join '', '' (template_names fs)))"

lemma trim_suffix_append [simp]: "trim_suffix x (s @ x) = s"
  by (simp add: trim_suffix_def suffix_def)

lemma template_of_mem:
  "t \<in> set (template_of e) \<longleftrightarrow> (\<exists>body. e = (te_filename t, Some body) \<and>
     te_filename t = te_name t @ ''.yaml'' \<and> te_description t = first_comment_line body (te_name t))"
proof
  assume "t \<in> set (template_of e)"
  then obtain name body where e: "e = (name, Some body)" and suf: "suffix ''.yaml'' name"
    and t: "t = \<lparr>te_name = trim_suffix ''.yaml'' name,
      te_description = first_comment_line body (trim_suffix ''.yaml'' name), te_filename = name\<rparr>"
    by (auto simp: template_of_def Let_def split: prod.splits option.splits if_splits)
  from suf obtain u where "name = u @ ''.yaml''" by (auto simp: suffix_def)
  with e t show "\<exists>body. e = (te_filename t, Some body) \<and> te_filename t = te_name t @ ''.yaml'' \<and>
      te_description t = first_comment_line body (te_name t)"
    using trim_suffix_append [of "''.yaml''" u] by simp
next
  assume "\<exists>body. e = (te_filename t, Some body) \<and> te_filename t = te_name t @ ''.yaml'' \<and>
     te_description t = first_comment_line body (te_name t)"
  then obtain body where "e = (te_name t @ ''.yaml'', Some body)" "te_filename t = te_name t @ ''.yaml''"
    "te_description t = first_comment_line body (te_name t)" by auto
  then show "t \<in> set (template_of e)"
    using trim_suffix_append [of "''.yaml''" "te_name t"] by (cases t) (simp add: template_of_def suffix_def)
qed

lemma template_names_iff: "n \<in> set (template_names fs) \<longleftrightarrow> (\<exists>body. (n @ ''.yaml'', Some body) \<in> set fs)"
proof
  assume "\<exists>body. (n @ ''.yaml'', Some body) \<in> set fs"
  then obtain body where b: "(n @ ''.yaml'', Some body) \<in> set fs" by blast
  let ?t = "\<lparr>te_name = n, te_description = first_comment_line body n, te_filename = n @ ''.yaml''\<rparr>"
  have "?t \<in> set (template_of (n @ ''.yaml'', Some body))" by (simp add: template_of_mem)
  with b have "?t \<in> set (list_templates fs)" unfolding list_templates_def by force
  then show "n \<in> set (template_names fs)" unfolding template_names_def by force
next
  assume "n \<in> set (template_names fs)"
  then obtain t e where "t \<in> set (template_of e)" "e \<in> set fs" "te_name t = n"
    by (auto simp: template_names_def list_templates_def)
  then show "\<exists>body. (n @ ''.yaml'', Some body) \<in> set fs" by (auto simp: template_of_mem)
qed

text \<open>Listing and lookup agree: what is listed can be fetched, and nothing else.\<close>

lemma get_template_iff:
  assumes "distinct (map fst fs)"
  shows "(\<exists>body. get_template fs n = Inr body) \<longleftrightarrow> n \<in> set (template_names fs)"
proof -
  have "(\<exists>body. get_template fs n = Inr body) \<longleftrightarrow> (\<exists>body. map_of fs (n @ ''.yaml'') = Some (Some body))"
    by (cases "map_of fs (n @ ''.yaml'')") (auto simp: get_template_def split: option.split)
  then show ?thesis
    using map_of_eq_Some_iff [OF assms] by (simp add: template_names_iff)
qed

end
