(* ===== verification/McpServer.thy ===== *)
theory McpServer
  imports Daemon Integrate Front Templates
begin

text \<open>
  \<^verbatim>\<open>internal/api/mcp/server.go\<close> and \<^verbatim>\<open>integrate_tools.go\<close>: the JSON-RPC server with its
  token and origin checks, the tools it announces and dispatches, and the handler that composes it
  with the front. JSON is a parameter: the decoders of the codec give what \<^verbatim>\<open>json.Unmarshal\<close>
  leaves, and the text of a tool's result is kept as the value that is encoded. One request makes at
  most one access to the store, whose failures and time are inputs of the request.
\<close>

subsection \<open>The server\<close>

record rpc_request =
  rp_version :: string
  rp_id :: string
  rp_method :: string
  rp_params :: string

datatype index_arg = NoObject string | IndexMissing | NoInteger | Index int

text \<open>
  A raw JSON value is its text, empty if absent. The arguments of \<^verbatim>\<open>agent_history\<close> are what
  an attempt to decode leaves, since its error is dropped.
\<close>

record mcp_codec =
  mc_request :: "string \<Rightarrow> string + rpc_request"
  mc_params :: "string \<Rightarrow> string + string \<times> string"
  mc_run_now :: "string \<Rightarrow> string + string \<times> string"
  mc_history :: "string \<Rightarrow> string \<times> int"
  mc_logs :: "string \<Rightarrow> string + string \<times> int"
  mc_one_name :: "string \<Rightarrow> string + string"
  mc_statement :: "string \<Rightarrow> string + string"
  mc_index :: "string \<Rightarrow> index_arg"
  mc_fact :: "string \<Rightarrow> string + string \<times> string"
  mc_task :: "string \<Rightarrow> string + task"
  mc_apply :: "string \<Rightarrow> string + string \<times> bool"
  mc_add :: "string \<Rightarrow> string + add_spec \<times> string"
  mc_remove :: "string \<Rightarrow> string + string \<times> string"

record ('c, 'x) mcp_server =
  ms_token :: string
  ms_config_path :: string
  ms_origins :: "string set"
  ms_name :: string
  ms_version :: string
  ms_tools :: "'x run_world registry"
  ms_runner :: "'x runner option"
  ms_cron :: "'c cron_lib"
  ms_templates :: embedded
  ms_env :: environ
  ms_codec :: mcp_codec
  ms_config_codec :: codec

definition default_allowed_origins :: "string list" where
  "default_allowed_origins =
     [''https://zibby.dev'', ''https://zibby.app'', ''https://www.zibby.dev'', ''https://www.zibby.app'']"

definition load_allowed_origins :: "environ \<Rightarrow> string set" where
  "load_allowed_origins env =
     (let raw = env ''AGENT_OPS_ALLOWED_ORIGINS''
      in if trim_space raw = [] then set default_allowed_origins
         else set (filter (\<lambda>p. p \<noteq> []) (map trim_space (split_on (CHR '','') raw))))"

text \<open>\<^verbatim>\<open>New\<close>, on a configuration given as a server with its raw fields.\<close>

definition new_server :: "('c, 'x) mcp_server \<Rightarrow> string + ('c, 'x) mcp_server" where
  "new_server c =
     (if ms_token c = [] then Inl ''mcp: bearer token is empty (refusing to start with auth disabled)''
      else Inr (c\<lparr>ms_name := or_default (ms_name c) ''agent-ops'', ms_version := or_default (ms_version c) ''0.1.0'',
                   ms_origins := load_allowed_origins (ms_env c)\<rparr>))"

definition auth_ok :: "('c, 'x) mcp_server \<Rightarrow> front_request \<Rightarrow> bool" where
  "auth_ok srv r \<longleftrightarrow>
     (if ms_token srv = [] then False
      else let h = rq_header r ''Authorization''
           in if \<not> prefix ''Bearer '' h then False else trim_prefix ''Bearer '' h = ms_token srv)"

definition origin_ok :: "('c, 'x) mcp_server \<Rightarrow> front_request \<Rightarrow> bool" where
  "origin_ok srv r \<longleftrightarrow> (let origin = rq_header r ''Origin'' in origin = [] \<or> origin \<in> ms_origins srv)"

subsection \<open>State and results\<close>

record ('c, 'x, 'w) serving =
  sv_sched :: "('c, 'x) scheduler"
  sv_files :: files
  sv_front :: front
  sv_out :: 'w

abbreviation sv_db :: "('c, 'x, 'w) serving \<Rightarrow> db" where
  "sv_db s \<equiv> sched_db (sv_sched s)"

text \<open>\<open>in_write\<close>: how writing a template ends, and its error.\<close>

record mcp_inputs =
  in_faults :: faults
  in_now :: instant
  in_run :: run_inputs
  in_io :: io
  in_mkdir :: "string option"
  in_write :: "write_outcome \<times> string"

datatype tool_answer =
    PlainText string
  | StatusAnswer nat nat "task_run option"
  | RunAnswer task_run
  | RunsAnswer "task_run list"
  | LogsAnswer string "run_log list"
  | TasksAnswer "task list"
  | TaskAnswer task
  | MissionAnswer mission
  | FactAnswer fact
  | FactCount nat
  | TemplatesAnswer "template list"
  | TemplateAnswer string string nat bool
  | IntegrationAdded add_result
  | IntegrationRemoved remove_result
  | IntegrationsAnswer "mcp_client_config list"

text \<open>The last three: an error of the package \<^verbatim>\<open>integrate\<close>, and the two ends without a reply.\<close>

datatype call_outcome =
    CallError int string
  | ToolText tool_answer
  | ToolError string
  | ToolRefused integrate_error
  | CallPanics
  | CallStuck

datatype rpc_result =
    Initialized string string
  | ToolsList "(string \<times> string \<times> string) list"
  | ToolResult call_outcome
  | Pong

datatype answer =
    HttpAnswer reply
  | RpcResult string rpc_result
  | RpcError string int string
  | StreamOpened
  | Aborted
  | Hanging

type_synonym ('c, 'x, 'w) tool_call =
  "('c, 'x) mcp_server \<Rightarrow> mcp_inputs \<Rightarrow> string \<Rightarrow> ('c, 'x, 'w) serving \<Rightarrow> call_outcome \<times> ('c, 'x, 'w) serving"

abbreviation bad_args :: "string \<Rightarrow> call_outcome" where
  "bad_args e \<equiv> CallError (- 32602) (''bad args: '' @ e)"

text \<open>A tool that only reads: the error of the store is the tool's error.\<close>

definition answer_of :: "('r \<Rightarrow> tool_answer) \<Rightarrow> store_error + 'r \<Rightarrow> call_outcome" where
  "answer_of f res = (case res of Inl e \<Rightarrow> ToolError (store_error_text e) | Inr x \<Rightarrow> ToolText (f x))"

subsection \<open>The tools on the store\<close>

definition tool_status :: "('c, 'x, 'w) tool_call" where
  "tool_status srv inp raw s =
     (let runs = (case list_runs [] 1 (in_faults inp) (sv_db s) of Inl e \<Rightarrow> [] | Inr rs \<Rightarrow> rs)
      in (ToolText (StatusAnswer (card (entry_names (sv_sched s))) (length (reg_list (ms_tools srv)))
            (if runs \<noteq> [] then Some (hd runs) else None)), s))"

definition tool_run_now :: "('c, 'x, 'w) tool_call" where
  "tool_run_now srv inp raw s =
     (case mc_run_now (ms_codec srv) raw of
        Inl e \<Rightarrow> (bad_args e, s)
      | Inr (name, override) \<Rightarrow>
          if name = [] then (ToolError ''task_name is required'', s)
          else case run_now (ms_env srv) (in_run inp) (ms_runner srv) (in_faults inp) name override (sv_sched s) of
            (None, sc) \<Rightarrow> (CallPanics, s\<lparr>sv_sched := sc\<rparr>)
          | (Some (run, Some e), sc) \<Rightarrow> (ToolError e, s\<lparr>sv_sched := sc\<rparr>)
          | (Some (run, None), sc) \<Rightarrow> (ToolText (RunAnswer run), s\<lparr>sv_sched := sc\<rparr>))"

definition tool_history :: "('c, 'x, 'w) tool_call" where
  "tool_history srv inp raw s =
     (let (name, limit) = mc_history (ms_codec srv) raw
      in (answer_of RunsAnswer (list_runs name limit (in_faults inp) (sv_db s)), s))"

definition tool_logs :: "('c, 'x, 'w) tool_call" where
  "tool_logs srv inp raw s =
     (case mc_logs (ms_codec srv) raw of
        Inl e \<Rightarrow> (bad_args e, s)
      | Inr (run_id, limit) \<Rightarrow>
          if run_id = [] then (ToolError ''run_id required'', s)
          else (answer_of (LogsAnswer run_id) (logs_for_run run_id limit (in_faults inp) (sv_db s)), s))"

definition tool_list_tasks :: "('c, 'x, 'w) tool_call" where
  "tool_list_tasks srv inp raw s = (answer_of TasksAnswer (list_tasks (in_faults inp) (sv_db s)), s)"

definition tool_get_task :: "('c, 'x, 'w) tool_call" where
  "tool_get_task srv inp raw s =
     (case mc_one_name (ms_codec srv) raw of
        Inl e \<Rightarrow> (CallError (- 32602) ''name required'', s)
      | Inr name \<Rightarrow>
          if name = [] then (CallError (- 32602) ''name required'', s)
          else (answer_of TaskAnswer (get_task name (in_faults inp) (sv_db s)), s))"

definition tool_get_mission :: "('c, 'x, 'w) tool_call" where
  "tool_get_mission srv inp raw s = (answer_of MissionAnswer (get_mission (in_faults inp) (sv_db s)), s)"

text \<open>A tool that writes to the store.\<close>

definition store_call ::
  "mcp_inputs \<Rightarrow> (faults \<Rightarrow> instant \<Rightarrow> db \<Rightarrow> (store_error + 'r) \<times> db) \<Rightarrow> ('r \<Rightarrow> tool_answer) \<Rightarrow>
   ('c, 'x, 'w) serving \<Rightarrow> call_outcome \<times> ('c, 'x, 'w) serving" where
  "store_call inp op f s =
     (case op (in_faults inp) (in_now inp) (sv_db s) of
        (res, d) \<Rightarrow> (answer_of f res, s\<lparr>sv_sched := set_sched_db d (sv_sched s)\<rparr>))"

definition tool_set_mission :: "('c, 'x, 'w) tool_call" where
  "tool_set_mission srv inp raw s =
     (case mc_statement (ms_codec srv) raw of
        Inl e \<Rightarrow> (bad_args e, s)
      | Inr statement \<Rightarrow> store_call inp (set_statement statement) (\<lambda>_. PlainText ''ok'') s)"

definition tool_fact_inspect :: "('c, 'x, 'w) tool_call" where
  "tool_fact_inspect srv inp raw s =
     ((case mc_index (ms_codec srv) raw of
         NoObject e \<Rightarrow> bad_args e
       | IndexMissing \<Rightarrow> CallError (- 32602) ''index is required''
       | NoInteger \<Rightarrow> CallError (- 32602) ''index must be a non-negative integer''
       | Index i \<Rightarrow>
           if i < 0 then CallError (- 32602) ''index must be a non-negative integer''
           else case get_mission (in_faults inp) (sv_db s) of
             Inl e \<Rightarrow> ToolError (store_error_text e)
           | Inr m \<Rightarrow> (case fact_inspect m i of Inl e \<Rightarrow> CallError (- 32602) e | Inr f \<Rightarrow> ToolText (FactAnswer f))), s)"

definition tool_remember_fact :: "('c, 'x, 'w) tool_call" where
  "tool_remember_fact srv inp raw s =
     (case mc_fact (ms_codec srv) raw of
        Inl e \<Rightarrow> (bad_args e, s)
      | Inr (txt_in, source) \<Rightarrow>
          if txt_in = [] then (ToolError ''fact is required'', s)
          else store_call inp (add_fact (or_default source ''user'') txt_in) (\<lambda>fs. FactCount (length fs)) s)"

text \<open>
  The default of \<^verbatim>\<open>enabled\<close>: a task that decodes as disabled is enabled unless the quoted
  word occurs in the raw text.
\<close>

definition default_enabled :: "string \<Rightarrow> task \<Rightarrow> task" where
  "default_enabled raw t =
     (if \<not> t_enabled t \<and> raw \<noteq> [] \<and> \<not> contains (dquote # ''enabled'' @ [dquote]) raw
      then t\<lparr>t_enabled := True\<rparr> else t)"

definition tool_set_task :: "('c, 'x, 'w) tool_call" where
  "tool_set_task srv inp raw s =
     (case mc_task (ms_codec srv) raw of
        Inl e \<Rightarrow> (bad_args e, s)
      | Inr t \<Rightarrow>
          if t_name t = [] \<or> t_prompt t = [] then (ToolError ''name and prompt required'', s)
          else case set_task (ms_cron srv) (default_enabled raw t) (in_faults inp) (in_now inp) (sv_sched s) of
            (Some e, sc) \<Rightarrow> (ToolError e, s\<lparr>sv_sched := sc\<rparr>)
          | (None, sc) \<Rightarrow> (ToolText (PlainText ''ok''), s\<lparr>sv_sched := sc\<rparr>))"

subsection \<open>The tools on templates and integrations\<close>

definition tool_list_templates :: "('c, 'x, 'w) tool_call" where
  "tool_list_templates srv inp raw s = (ToolText (TemplatesAnswer (list_templates (ms_templates srv))), s)"

definition tool_get_template :: "('c, 'x, 'w) tool_call" where
  "tool_get_template srv inp raw s =
     ((case mc_one_name (ms_codec srv) raw of
         Inl e \<Rightarrow> bad_args e
       | Inr name \<Rightarrow>
           if name = [] then ToolError ''name is required''
           else case get_template (ms_templates srv) name of
             Inl e \<Rightarrow> ToolError e | Inr body \<Rightarrow> ToolText (PlainText body)), s)"

definition tool_apply_template :: "('c, 'x, 'w) tool_call" where
  "tool_apply_template srv inp raw s =
     (case mc_apply (ms_codec srv) raw of
        Inl e \<Rightarrow> (bad_args e, s)
      | Inr (name, dry) \<Rightarrow>
          if name = [] then (ToolError ''name is required'', s)
          else case get_template (ms_templates srv) name of
            Inl e \<Rightarrow> (ToolError e, s)
          | Inr body \<Rightarrow>
              (let path = ms_config_path srv;
                   ans = ToolText (TemplateAnswer name path (length body) dry)
               in if path = []
                  then (ToolError (''daemon was constructed without a config path; have the operator run `agent-ops init --template '' @
                          name @ ''` instead''), s)
                  else if dry then (ans, s)
                  else case in_mkdir inp of
                    Some e \<Rightarrow> (ToolError (''mkdir config dir: '' @ e), s)
                  | None \<Rightarrow>
                      (let s = s\<lparr>sv_files := write_file (fst (in_write inp)) path body mode_public (sv_files s)\<rparr>
                       in if fst (in_write inp) \<noteq> Written then (ToolError (''write config: '' @ snd (in_write inp)), s)
                          else (ans, s))))"

definition no_config_path :: "string \<Rightarrow> call_outcome" where
  "no_config_path cmd =
     ToolError (''daemon was constructed without a config path; use the CLI `agent-ops integrate '' @ cmd @ ''` instead'')"

definition mcp_options :: "('c, 'x) mcp_server \<Rightarrow> string \<Rightarrow> options" where
  "mcp_options srv env_file = \<lparr>opt_config = ms_config_path srv, opt_env = env_file, opt_lock_timeout = 0\<rparr>"

definition files_call ::
  "((integrate_error + 'r) \<times> files) option \<Rightarrow> ('r \<Rightarrow> tool_answer) \<Rightarrow>
   ('c, 'x, 'w) serving \<Rightarrow> call_outcome \<times> ('c, 'x, 'w) serving" where
  "files_call res f s =
     (case res of
        None \<Rightarrow> (CallStuck, s)
      | Some (Inl e, fs) \<Rightarrow> (ToolRefused e, s\<lparr>sv_files := fs\<rparr>)
      | Some (Inr x, fs) \<Rightarrow> (ToolText (f x), s\<lparr>sv_files := fs\<rparr>))"

definition tool_integrate_add :: "('c, 'x, 'w) tool_call" where
  "tool_integrate_add srv inp raw s =
     (case mc_add (ms_codec srv) raw of
        Inl e \<Rightarrow> (bad_args e, s)
      | Inr (spec, env_file) \<Rightarrow>
          if ms_config_path srv = [] then (no_config_path ''add'', s)
          else files_call (integrate_add (ms_config_codec srv) (in_io inp) spec (mcp_options srv env_file) (sv_files s))
                 IntegrationAdded s)"

definition tool_integrate_remove :: "('c, 'x, 'w) tool_call" where
  "tool_integrate_remove srv inp raw s =
     (case mc_remove (ms_codec srv) raw of
        Inl e \<Rightarrow> (bad_args e, s)
      | Inr (name, env_file) \<Rightarrow>
          if ms_config_path srv = [] then (no_config_path ''remove'', s)
          else files_call (integrate_remove (ms_config_codec srv) (in_io inp) name (mcp_options srv env_file) (sv_files s))
                 IntegrationRemoved s)"

definition tool_integrate_list :: "('c, 'x, 'w) tool_call" where
  "tool_integrate_list srv inp raw s =
     ((if ms_config_path srv = [] then no_config_path ''list''
       else case integrate_list (ms_config_codec srv) (in_io inp) (mcp_options srv []) (sv_files s) of
         Inl e \<Rightarrow> ToolRefused e | Inr items \<Rightarrow> ToolText (IntegrationsAnswer items)), s)"

subsection \<open>Announcing and dispatching\<close>

definition builtin_tools :: "(string \<times> string \<times> string) list" where
  "builtin_tools =
     [(''agent_status'',
       ''Show the agent-ops daemon's status: scheduled task count, host-tool count, last run summ'' @
       ''ary.'',
       ''{\"type\":\"object\",\"properties\":{}}''),
      (''agent_run_now'',
       ''Trigger an immediate run of a scheduled task. Optionally override the task's prompt for '' @
       ''this run only.'',
       ''{\"type\":\"object\",\"properties\":{\"task_name\":{\"type\":\"string\"},\"override_prompt\":{\"type\":\"'' @
       ''string\"}},\"required\":[\"task_name\"]}''),
      (''agent_history'',
       ''List recent task runs across all tasks (or filtered to one by task_name).'',
       ''{\"type\":\"object\",\"properties\":{\"task_name\":{\"type\":\"string\"},\"limit\":{\"type\":\"integer\",\"'' @
       ''default\":20}}}''),
      (''agent_logs'',
       ''Fetch the per-line log of one task run (returned by agent_run_now or agent_history).'',
       ''{\"type\":\"object\",\"properties\":{\"run_id\":{\"type\":\"string\"},\"limit\":{\"type\":\"integer\",\"def'' @
       ''ault\":500}},\"required\":[\"run_id\"]}''),
      (''agent_list_tasks'',
       ''List every persisted task (schedule + prompt + tools + enabled flag).'',
       ''{\"type\":\"object\",\"properties\":{}}''),
      (''agent_get_task'',
       ''Return the full config of one task by name.'',
       ''{\"type\":\"object\",\"properties\":{\"name\":{\"type\":\"string\"}},\"required\":[\"name\"]}''),
      (''agent_set_task'',
       ''Create or update a scheduled task. Supply name, cron (e.g. '0 9 * * 1'), prompt, optiona'' @
       ''l tools allowlist, optional enabled flag.'',
       ''{\"type\":\"object\",\"properties\":{\"name\":{\"type\":\"string\"},\"cron\":{\"type\":\"string\"},\"prompt'' @
       ''\":{\"type\":\"string\"},\"tools\":{\"type\":\"array\",\"items\":{\"type\":\"string\"}},\"enabled\":{\"type\"'' @
       '':\"boolean\"}},\"required\":[\"name\",\"cron\",\"prompt\"]}''),
      (''agent_get_mission'',
       ''Return the instance's mission journal: the natural-language charter set by the user, plu'' @
       ''s the list of facts the agent has learned over time. This is what the agent reads on eve'' @
       ''ry task run to know who it is and what it's been doing.'',
       ''{\"type\":\"object\",\"properties\":{}}''),
      (''agent_set_mission'',
       ''Replace the instance's mission statement (natural-language charter). Example: 'I steward'' @
       '' the OpenDesign instance. Upgrades require dry-run; alert me at >80%% disk; never touch '' @
       ''/etc/secrets.' Pass empty string to clear.'',
       ''{\"type\":\"object\",\"properties\":{\"statement\":{\"type\":\"string\"}},\"required\":[\"statement\"]}''),
      (''agent_remember_fact'',
       ''Append one fact to the mission journal. Use for important context the agent should carry'' @
       '' across runs (versions installed, ports in use, decisions made). source defaults to 'use'' @
       ''r'.'',
       ''{\"type\":\"object\",\"properties\":{\"fact\":{\"type\":\"string\"},\"source\":{\"type\":\"string\"}},\"req'' @
       ''uired\":[\"fact\"]}''),
      (''fact_inspect'',
       ''Return the unfiltered text of a KNOWN FACT from the system prompt. The system prompt fil'' @
       ''ters npm-warn noise from facts by default; if you need to see the dropped lines (e.g., t'' @
       ''o diagnose why a bootstrap exited 7 when the visible facts only show generic warns), cal'' @
       ''l this with the fact's `<index>` from its rendered hint. Index 0 = most recent fact, inc'' @
       ''reases backward.'',
       ''{\"type\":\"object\",\"properties\":{\"index\":{\"type\":\"integer\",\"minimum\":0}},\"required\":[\"inde'' @
       ''x\"]}''),
      (''agent_list_templates'',
       ''List the config.yaml templates bundled into the agent-ops binary. Returns each template'' @
       '''s name + one-line description. Use BEFORE agent_get_template / agent_apply_template so '' @
       ''you know which template name to ask for. No arguments.'',
       ''{\"type\":\"object\",\"properties\":{}}''),
      (''agent_get_template'',
       ''Return the raw YAML body of one bundled config template by name (use agent_list_template'' @
       ''s to discover names). Read-only '' @
       em_dash @
       '' does NOT modify the daemon's config. Pair this with agent_apply_template when the opera'' @
       ''tor has reviewed the YAML and wants to install it.'',
       ''{\"type\":\"object\",\"properties\":{\"name\":{\"type\":\"string\"}},\"required\":[\"name\"]}''),
      (''agent_apply_template'',
       ''Overwrite the daemon's config.yaml with a bundled template. Always presents the operator'' @
       '' with a restart_required:true in the response '' @
       em_dash @
       '' the daemon does NOT hot-reload config in v0.2; the operator must `agent-ops restart` fo'' @
       ''r changes to take effect. Set dry_run:true to preview without writing.'',
       ''{\"type\":\"object\",\"properties\":{\"name\":{\"type\":\"string\"},\"dry_run\":{\"type\":\"boolean\"}},\"r'' @
       ''equired\":[\"name\"]}''),
      (''agent_integrate_add'',
       ''Add an outbound MCP-client integration. Atomically appends to config.yaml + writes the s'' @
       ''ecret (token) into agent-ops.env. Tools the remote server advertises become available to'' @
       '' the local LLM under the prefix `{name}_{remote_tool_name}` (e.g. integration `zibby` + '' @
       ''remote tool `trigger_workflow` '' @
       right_arrow @
       '' local tool `zibby_trigger_workflow`). Response includes restart_required:true '' @
       em_dash @
       '' daemon does NOT hot-reload; caller must `agent-ops restart` or call the matching contro'' @
       ''l-plane API for changes to take effect. Args: name (unique), transport ('http' or 'stdio'' @
       '''), url (http only), command + args (stdio only), auth_env + token (http auth), extra_en'' @
       ''v (extra KEY=VAL persisted to env file), stdio_env (per-subprocess env, stdio only).'',
       ''{\"type\":\"object\",\"properties\":{\"name\":{\"type\":\"string\"},\"transport\":{\"type\":\"string\",\"en'' @
       ''um\":[\"http\",\"stdio\"]},\"url\":{\"type\":\"string\"},\"command\":{\"type\":\"string\"},\"args\":{\"type\"'' @
       '':\"array\",\"items\":{\"type\":\"string\"}},\"auth_env\":{\"type\":\"string\"},\"token\":{\"type\":\"string'' @
       ''\"},\"extra_env\":{\"type\":\"object\",\"additionalProperties\":{\"type\":\"string\"}},\"stdio_env\":{\"'' @
       ''type\":\"object\",\"additionalProperties\":{\"type\":\"string\"}},\"env_file\":{\"type\":\"string\"}},\"'' @
       ''required\":[\"name\",\"transport\"]}''),
      (''agent_integrate_remove'',
       ''Remove an outbound MCP-client integration by name. Atomically drops the entry from confi'' @
       ''g.yaml + the AuthEnv key from agent-ops.env. Returns restart_required:true. ExtraEnv key'' @
       ''s added with `agent_integrate_add` are NOT auto-removed (they may be shared across integ'' @
       ''rations) '' @
       em_dash @
       '' edit agent-ops.env manually if needed.'',
       ''{\"type\":\"object\",\"properties\":{\"name\":{\"type\":\"string\"},\"env_file\":{\"type\":\"string\"}},\"r'' @
       ''equired\":[\"name\"]}''),
      (''agent_integrate_list'',
       ''List all configured outbound MCP-client integrations. Secrets are NOT included '' @
       em_dash @
       '' only the AuthEnv name is returned so the operator can correlate to their env file.'',
       ''{\"type\":\"object\",\"properties\":{}}'')]"

definition builtin_call :: "string \<Rightarrow> ('c, 'x, 'w) tool_call option" where
  "builtin_call = map_of
     [(''agent_status'', tool_status), (''agent_run_now'', tool_run_now), (''agent_history'', tool_history),
      (''agent_logs'', tool_logs), (''agent_list_tasks'', tool_list_tasks), (''agent_set_task'', tool_set_task),
      (''agent_get_task'', tool_get_task), (''agent_get_mission'', tool_get_mission),
      (''agent_set_mission'', tool_set_mission), (''agent_remember_fact'', tool_remember_fact),
      (''fact_inspect'', tool_fact_inspect), (''agent_list_templates'', tool_list_templates),
      (''agent_get_template'', tool_get_template), (''agent_apply_template'', tool_apply_template),
      (''agent_integrate_add'', tool_integrate_add), (''agent_integrate_remove'', tool_integrate_remove),
      (''agent_integrate_list'', tool_integrate_list)]"

definition tools_list :: "('c, 'x) mcp_server \<Rightarrow> (string \<times> string \<times> string) list" where
  "tools_list srv = builtin_tools @
     map (\<lambda>t. (''host_'' @ tool_name t, tool_description t, tool_schema t)) (reg_list (ms_tools srv))"

text \<open>A host tool acts on the world of the runs.\<close>

definition host_call :: "string \<Rightarrow> ('c, 'x, 'w) tool_call" where
  "host_call bare_name srv inp raw s =
     (case reg_get (ms_tools srv) bare_name of
        None \<Rightarrow> (CallError (- 32602) (''no such host tool: '' @ bare_name), s)
      | Some t \<Rightarrow>
          (let ((res, err), w) = tool_invoke t raw (sc_world (sv_sched s));
               s = s\<lparr>sv_sched := (sv_sched s)\<lparr>sc_world := w\<rparr>\<rparr>
           in case err of
                Some e \<Rightarrow> (ToolError e, s) | None \<Rightarrow> (ToolText (PlainText (res_output res)), s)))"

definition call_tool :: "string \<Rightarrow> ('c, 'x, 'w) tool_call" where
  "call_tool name srv inp raw s =
     (if prefix ''host_'' name then host_call (drop 5 name) srv inp raw s
      else case builtin_call name of
        None \<Rightarrow> (CallError (- 32602) (''no such tool: '' @ name), s)
      | Some f \<Rightarrow> f srv inp raw s)"

definition call_answer :: "string \<Rightarrow> call_outcome \<Rightarrow> answer" where
  "call_answer i out =
     (case out of
        CallError code msg \<Rightarrow> RpcError i code msg
      | CallPanics \<Rightarrow> Aborted
      | CallStuck \<Rightarrow> Hanging
      | _ \<Rightarrow> RpcResult i (ToolResult out))"

definition handle_tools_call ::
  "('c, 'x) mcp_server \<Rightarrow> mcp_inputs \<Rightarrow> rpc_request \<Rightarrow> ('c, 'x, 'w) serving \<Rightarrow> answer \<times> ('c, 'x, 'w) serving" where
  "handle_tools_call srv inp req s =
     (case mc_params (ms_codec srv) (rp_params req) of
        Inl e \<Rightarrow> (RpcError (rp_id req) (- 32602) (''invalid params: '' @ e), s)
      | Inr (name, args) \<Rightarrow> map_prod (call_answer (rp_id req)) id (call_tool name srv inp args s))"

subsection \<open>JSON-RPC over HTTP\<close>

definition handle_rpc ::
  "('c, 'x) mcp_server \<Rightarrow> mcp_inputs \<Rightarrow> rpc_request \<Rightarrow> ('c, 'x, 'w) serving \<Rightarrow> answer \<times> ('c, 'x, 'w) serving" where
  "handle_rpc srv inp req s =
     (let i = rp_id req; m = rp_method req
      in if rp_version req \<noteq> ''2.0'' then (RpcError i (- 32600) ''invalid jsonrpc version'', s)
         else if m = ''initialize'' then (RpcResult i (Initialized (ms_name srv) (ms_version srv)), s)
         else if m = ''initialized'' \<or> m = ''notifications/initialized'' then (HttpAnswer (bare 202), s)
         else if m = ''tools/list'' then (RpcResult i (ToolsList (tools_list srv)), s)
         else if m = ''tools/call'' then handle_tools_call srv inp req s
         else if m = ''ping'' then (RpcResult i Pong, s)
         else (RpcError i (- 32601) (''method not found: '' @ m), s))"

definition handle_post ::
  "('c, 'x) mcp_server \<Rightarrow> mcp_inputs \<Rightarrow> front_request \<Rightarrow> ('c, 'x, 'w) serving \<Rightarrow> answer \<times> ('c, 'x, 'w) serving" where
  "handle_post srv inp r s =
     (if \<not> origin_ok srv r then (HttpAnswer (http_error ''forbidden: origin not allowed'' 403), s)
      else if \<not> auth_ok srv r then (RpcError ''null'' (- 32001) ''unauthorized'', s)
      else case read_limited (4 * 1024 * 1024) r of
        Inl e \<Rightarrow> (RpcError ''null'' (- 32700) (''parse error: '' @ e), s)
      | Inr body \<Rightarrow>
          (case mc_request (ms_codec srv) body of
             Inl e \<Rightarrow> (RpcError ''null'' (- 32700) (''parse error: '' @ e), s)
           | Inr req \<Rightarrow> handle_rpc srv inp req s))"

definition handle_get :: "('c, 'x) mcp_server \<Rightarrow> front_request \<Rightarrow> answer" where
  "handle_get srv r =
     (if \<not> origin_ok srv r then HttpAnswer (http_error ''forbidden: origin not allowed'' 403)
      else if \<not> auth_ok srv r then HttpAnswer (http_error ''unauthorized'' 401)
      else StreamOpened)"

definition method_not_allowed :: "string \<Rightarrow> reply" where
  "method_not_allowed allow =
     (http_error ''method not allowed'' 405)\<lparr>re_headers := (''Allow'', allow) # re_headers (http_error [] 405)\<rparr>"

definition handle_mcp ::
  "('c, 'x) mcp_server \<Rightarrow> mcp_inputs \<Rightarrow> front_request \<Rightarrow> ('c, 'x, 'w) serving \<Rightarrow> answer \<times> ('c, 'x, 'w) serving" where
  "handle_mcp srv inp r s =
     (if fr_method r = ''POST'' then handle_post srv inp r s
      else if fr_method r = ''GET'' then (handle_get srv r, s)
      else if fr_method r = ''DELETE'' then (HttpAnswer (bare 204), s)
      else (HttpAnswer (method_not_allowed ''POST, GET, DELETE''), s))"

definition handle_set_auth ::
  "('c, 'x) mcp_server \<Rightarrow> (string \<Rightarrow> string + wire) \<Rightarrow> front_request \<Rightarrow> ('c, 'x, 'w) serving \<Rightarrow>
   answer \<times> ('c, 'x, 'w) serving" where
  "handle_set_auth srv decode r s =
     (if fr_method r \<noteq> ''POST'' then (HttpAnswer (method_not_allowed ''POST''), s)
      else if \<not> auth_ok srv r then (HttpAnswer (bare 401), s)
      else case read_limited (64 * 1024) r of
        Inl e \<Rightarrow> (HttpAnswer (http_error ''read error'' 400), s)
      | Inr body \<Rightarrow>
          (case apply_live decode body (fn_auth (sv_front s)) of
             (Some e, live) \<Rightarrow> (HttpAnswer (http_error ''bad config'' 400), s)
           | (None, live) \<Rightarrow> (HttpAnswer (bare 204), s\<lparr>sv_front := (sv_front s)\<lparr>fn_auth := live\<rparr>\<rparr>)))"

subsection \<open>The handler\<close>

record 'w outside =
  ou_crypto :: auth_crypto
  ou_parses :: "string \<Rightarrow> bool"
  ou_upstream :: "'w upstream"
  ou_wire :: "string \<Rightarrow> string + wire"

text \<open>The redirect of \<^verbatim>\<open>ServeMux\<close>, without the short page that goes with it.\<close>

definition moved :: "string \<Rightarrow> front_request \<Rightarrow> reply" where
  "moved q r = \<lparr>re_status = 301,
     re_headers = [(''Location'', q @ (if fr_query r \<noteq> [] then ''?'' @ fr_query r else []))], re_body = []\<rparr>"

definition out_call :: "('w \<Rightarrow> reply \<times> 'w) \<Rightarrow> ('c, 'x, 'w) serving \<Rightarrow> answer \<times> ('c, 'x, 'w) serving" where
  "out_call f s = (case f (sv_out s) of (a, w) \<Rightarrow> (HttpAnswer a, s\<lparr>sv_out := w\<rparr>))"

definition handle ::
  "('c, 'x) mcp_server \<Rightarrow> 'w outside \<Rightarrow> mcp_inputs \<Rightarrow> front_request \<Rightarrow> ('c, 'x, 'w) serving \<Rightarrow>
   answer \<times> ('c, 'x, 'w) serving" where
  "handle srv ou inp r s =
     (case mux_route (fr_path r) of
        Inl q \<Rightarrow> (HttpAnswer (moved q r), s)
      | Inr RouteHealth \<Rightarrow> (HttpAnswer handle_health, s)
      | Inr RouteAuth \<Rightarrow> handle_set_auth srv (ou_wire ou) r s
      | Inr RouteMcp \<Rightarrow> handle_mcp srv inp r s
      | Inr RouteOhAgent \<Rightarrow> out_call (oh_agent_proxy (ou_upstream ou) r) s
      | Inr RouteOhvs \<Rightarrow> out_call (ohvs_proxy (ou_upstream ou) r) s
      | Inr RouteApp \<Rightarrow>
          (let (a, f, w) = app_proxy (ms_env srv) (ou_crypto ou) (ou_parses ou) (ou_upstream ou) r (sv_front s) (sv_out s)
           in (HttpAnswer a, s\<lparr>sv_front := f, sv_out := w\<rparr>)))"

end
