(* ===== verification/Serving.thy ===== *)
theory Serving
  imports McpServer
begin

text \<open>
  What the daemon's handler of \<^theory_text>\<open>McpServer\<close> does while it serves: requests reach the
  database only through the store, keep the cron table linked to the scheduler's entries, and change
  nothing but the proxied application without the token.
\<close>

subsection \<open>Requests and the store\<close>

declare register_world [simp]

lemma drop_entry_world [simp]: "sc_world (drop_entry lib n s) = sc_world s"
  by (simp add: drop_entry_def split: option.split)

lemma set_task_reaches: "reaches (sched_db s) (sched_db (snd (set_task lib t f now s)))"
proof -
  obtain q d where u: "upsert_task t f now (sched_db s) = (q, d)" by fastforce
  then have "reaches (sched_db s) d"
    using reaches_exec [of "sched_db s" "CUpsertTask t" f now] by simp
  then show ?thesis
    using u by (simp add: set_task_def sched_db_def set_sched_db_def Let_def split: sum.split)
qed

text \<open>What a request may do to the scheduler and its database.\<close>

definition serving_kept :: "'c cron_lib \<Rightarrow> ('c, 'x, 'w) serving \<Rightarrow> ('c, 'x, 'w) serving \<Rightarrow> bool" where
  "serving_kept lib s s' \<longleftrightarrow> reaches (sv_db s) (sv_db s') \<and>
     (sched_inv lib (sv_sched s) \<longrightarrow> sched_inv lib (sv_sched s'))"

lemma serving_kept_refl [simp]: "serving_kept lib s s"
  by (simp add: serving_kept_def)

lemma serving_kept_trans: "serving_kept lib s s' \<Longrightarrow> serving_kept lib s' s'' \<Longrightarrow> serving_kept lib s s''"
  unfolding serving_kept_def using reaches_trans by blast

lemma serving_kept_same: "sv_sched s' = sv_sched s \<Longrightarrow> serving_kept lib s s'"
  by (simp add: serving_kept_def)

text \<open>What the server was built with: tools and runner act on the database through the store.\<close>

definition server_ok :: "('c, 'x) mcp_server \<Rightarrow> bool" where
  "server_ok srv \<longleftrightarrow> cron_contract (ms_cron srv) \<and> tools_via_store (ms_tools srv) \<and>
     (case ms_runner srv of None \<Rightarrow> True | Some r \<Rightarrow> runner_ok r)"

lemma run_now_same: "sc_cron (snd (run_now env inp rn f name ov s)) = sc_cron s \<and>
    sc_entries (snd (run_now env inp rn f name ov s)) = sc_entries s"
  by (simp add: run_now_def Let_def split_beta split: option.split sum.split)

lemma tool_run_now_kept:
  assumes "server_ok srv"
  shows "serving_kept (ms_cron srv) s (snd (tool_run_now srv inp raw s))"
proof -
  have keep: "serving_kept (ms_cron srv) s (s\<lparr>sv_sched := sc\<rparr>)"
    if "run_now (ms_env srv) (in_run inp) (ms_runner srv) (in_faults inp) name ov (sv_sched s) = (out, sc)"
    for name ov out sc
  proof -
    have "case ms_runner srv of None \<Rightarrow> True | Some r \<Rightarrow> runner_ok r" using assms by (simp add: server_ok_def)
    from run_now_reaches [OF this, of "sv_sched s" "ms_env srv" "in_run inp" "in_faults inp" name ov]
      run_now_same [of "ms_env srv" "in_run inp" "ms_runner srv" "in_faults inp" name ov "sv_sched s"]
    show ?thesis using that by (simp add: serving_kept_def sched_inv_def)
  qed
  show ?thesis
    by (auto simp: tool_run_now_def split: sum.split prod.split option.split dest: keep)
qed

lemma tool_set_task_kept:
  assumes "server_ok srv"
  shows "serving_kept (ms_cron srv) s (snd (tool_set_task srv inp raw s))"
proof -
  have keep: "serving_kept (ms_cron srv) s (s\<lparr>sv_sched := sc\<rparr>)"
    if "set_task (ms_cron srv) t (in_faults inp) (in_now inp) (sv_sched s) = (out, sc)" for t out sc
    using that set_task_reaches [of "sv_sched s" "ms_cron srv" t "in_faults inp" "in_now inp"]
      exec_sched_inv [of "ms_cron srv" "sv_sched s" "SSetTask t (in_faults inp) (in_now inp)"] assms
    by (simp add: serving_kept_def server_ok_def)
  show ?thesis
    by (auto simp: tool_set_task_def split: sum.split prod.split option.split dest: keep)
qed

lemma store_call_kept:
  assumes "\<And>f now d. reaches d (snd (op f now d))"
  shows "serving_kept lib s (snd (store_call inp op g s))"
  using assms [of "sv_db s" "in_faults inp" "in_now inp"]
  by (auto simp: store_call_def serving_kept_def sched_inv_def split: prod.split)

lemma tool_set_mission_kept: "serving_kept lib s (snd (tool_set_mission srv inp raw s))"
  using reaches_exec [of _ "CSetStatement _"]
  by (auto simp: tool_set_mission_def split: sum.split intro!: store_call_kept)

lemma tool_remember_fact_kept: "serving_kept lib s (snd (tool_remember_fact srv inp raw s))"
  using reaches_exec [of _ "CAddFact _ _"]
  by (auto simp: tool_remember_fact_def split: sum.split intro!: store_call_kept)

text \<open>The tools that leave the scheduler alone, and those that only read.\<close>

lemma reading_tools:
  "snd (tool_status srv inp raw s) = s" "snd (tool_history srv inp raw s) = s" "snd (tool_logs srv inp raw s) = s"
  "snd (tool_list_tasks srv inp raw s) = s" "snd (tool_get_task srv inp raw s) = s"
  "snd (tool_get_mission srv inp raw s) = s" "snd (tool_fact_inspect srv inp raw s) = s"
  "snd (tool_list_templates srv inp raw s) = s" "snd (tool_get_template srv inp raw s) = s"
  "snd (tool_integrate_list srv inp raw s) = s"
  by (simp_all add: tool_status_def tool_history_def tool_logs_def tool_list_tasks_def tool_get_task_def
      tool_get_mission_def tool_fact_inspect_def tool_list_templates_def tool_get_template_def
      tool_integrate_list_def Let_def split: sum.split prod.split)

lemma files_call_sched: "sv_sched (snd (files_call res f s)) = sv_sched s"
  by (auto simp: files_call_def split: option.split sum.split prod.split)

lemma file_tools_sched:
  "sv_sched (snd (tool_apply_template srv inp raw s)) = sv_sched s"
  "sv_sched (snd (tool_integrate_add srv inp raw s)) = sv_sched s"
  "sv_sched (snd (tool_integrate_remove srv inp raw s)) = sv_sched s"
  by (auto simp: tool_apply_template_def tool_integrate_add_def tool_integrate_remove_def files_call_sched Let_def
      split: sum.split prod.split option.split)

lemma host_call_kept:
  assumes "server_ok srv"
  shows "serving_kept lib s (snd (host_call n srv inp raw s))"
proof (cases "reg_get (ms_tools srv) n")
  case (Some t)
  then have "via_store (\<lambda>w. snd (tool_invoke t raw w))"
    using assms by (simp add: server_ok_def tools_via_store_def)
  then have "reaches (rw_db w) (rw_db (snd (tool_invoke t raw w)))" for w
    by (auto simp: via_store_def reaches_def)
  then show ?thesis
    using Some by (simp add: host_call_def serving_kept_def sched_db_def sched_inv_def Let_def split_beta
        split: option.split)
qed (simp add: host_call_def)

lemma builtin_call_kept:
  assumes "server_ok srv" and "builtin_call name = Some f"
  shows "serving_kept (ms_cron srv) s (snd (f srv inp raw s))"
proof -
  from assms(2) have "f \<in> {tool_status, tool_run_now, tool_history, tool_logs, tool_list_tasks, tool_set_task,
      tool_get_task, tool_get_mission, tool_set_mission, tool_remember_fact, tool_fact_inspect,
      tool_list_templates, tool_get_template, tool_apply_template, tool_integrate_add,
      tool_integrate_remove, tool_integrate_list}"
    unfolding builtin_call_def by (drule_tac map_of_SomeD) auto
  then show ?thesis
    using assms(1) by (auto simp: reading_tools file_tools_sched tool_run_now_kept tool_set_task_kept
        tool_set_mission_kept tool_remember_fact_kept intro: serving_kept_same)
qed

lemma call_tool_kept:
  "server_ok srv \<Longrightarrow> serving_kept (ms_cron srv) s (snd (call_tool name srv inp raw s))"
  by (simp add: call_tool_def host_call_kept builtin_call_kept split: option.split)

lemma handle_rpc_kept:
  "server_ok srv \<Longrightarrow> serving_kept (ms_cron srv) s (snd (handle_rpc srv inp req s))"
  by (simp add: handle_rpc_def handle_tools_call_def call_tool_kept Let_def split: sum.split prod.split)

lemma handle_post_kept:
  "server_ok srv \<Longrightarrow> serving_kept (ms_cron srv) s (snd (handle_post srv inp r s))"
  by (simp add: handle_post_def handle_rpc_kept split: sum.split)

lemma handle_mcp_kept:
  "server_ok srv \<Longrightarrow> serving_kept (ms_cron srv) s (snd (handle_mcp srv inp r s))"
  by (simp add: handle_mcp_def handle_post_kept)

lemma handle_set_auth_sched:
  "sv_sched (snd (handle_set_auth srv decode r s)) = sv_sched s"
  "sv_files (snd (handle_set_auth srv decode r s)) = sv_files s"
  by (simp_all add: handle_set_auth_def split: sum.split prod.split option.split)

lemma out_call_same:
  "sv_sched (snd (out_call f s)) = sv_sched s" "sv_files (snd (out_call f s)) = sv_files s"
  "sv_front (snd (out_call f s)) = sv_front s"
  by (simp_all add: out_call_def split: prod.split)

text \<open>The routes on which a request needs no token, and what they can change.\<close>

lemma handle_elsewhere:
  assumes "mux_route (fr_path r) \<noteq> Inr RouteMcp" and "mux_route (fr_path r) \<noteq> Inr RouteAuth"
  shows "sv_sched (snd (handle srv ou inp r s)) = sv_sched s \<and> sv_files (snd (handle srv ou inp r s)) = sv_files s \<and>
    fn_auth (sv_front (snd (handle srv ou inp r s))) = fn_auth (sv_front s)"
proof (cases "mux_route (fr_path r)")
  case (Inr route)
  obtain a f w where p: "app_proxy (ms_env srv) (ou_crypto ou) (ou_parses ou) (ou_upstream ou) r (sv_front s) (sv_out s)
      = (a, f, w)" by (metis prod_cases3)
  then have "fn_auth f = fn_auth (sv_front s)"
    using app_proxy_auth [of "ms_env srv" "ou_crypto ou" "ou_parses ou" "ou_upstream ou" r "sv_front s" "sv_out s"]
    by simp
  with Inr p assms show ?thesis by (cases route) (simp_all add: handle_def out_call_same)
qed (simp add: handle_def)

lemma handle_kept:
  assumes "server_ok srv"
  shows "serving_kept (ms_cron srv) s (snd (handle srv ou inp r s))"
proof (cases "mux_route (fr_path r) = Inr RouteMcp \<or> mux_route (fr_path r) = Inr RouteAuth")
  case True
  then show ?thesis
    using handle_mcp_kept [OF assms, of s inp r] serving_kept_same [OF handle_set_auth_sched(1)]
    by (auto simp: handle_def)
next
  case False
  then show ?thesis using handle_elsewhere [of r srv ou inp s] by (intro serving_kept_same) simp
qed

subsection \<open>Serving\<close>

text \<open>
  What happens while the daemon serves, in the order in which it takes effect: a request, a tick of
  the scheduler, a round of the readiness poller.
\<close>

datatype serve_step =
    Request mcp_inputs front_request
  | Tick run_inputs faults string
  | Ready "(int option \<times> bool) list"

fun serve :: "('c, 'x) mcp_server \<Rightarrow> 'w outside \<Rightarrow> serve_step \<Rightarrow> ('c, 'x, 'w) serving \<Rightarrow> ('c, 'x, 'w) serving" where
  "serve srv ou (Request inp r) s = snd (handle srv ou inp r s)"
| "serve srv ou (Tick inp f name) s = s\<lparr>sv_sched := snd (fire (ms_env srv) inp (ms_runner srv) f name (sv_sched s))\<rparr>"
| "serve srv ou (Ready rounds) s = s\<lparr>sv_front := start_readiness_gate (ms_env srv) rounds (sv_front s)\<rparr>"

lemma fire_reaches:
  assumes "case rn of None \<Rightarrow> True | Some r \<Rightarrow> runner_ok r"
  shows "reaches (sched_db s) (sched_db (snd (fire env inp rn f name s)))"
  using assms run_task_reaches
  by (auto simp: fire_def sched_db_def Let_def split_beta split: option.splits sum.splits)

lemma serve_kept:
  assumes "server_ok srv"
  shows "serving_kept (ms_cron srv) s (serve srv ou x s)"
proof (cases x)
  case (Tick inp f name)
  then show ?thesis
    using assms fire_reaches [of "ms_runner srv" "sv_sched s" "ms_env srv" inp f name]
      exec_sched_inv [of "ms_cron srv" "sv_sched s" "SFire (ms_env srv) inp (ms_runner srv) f name"]
    by (simp add: serving_kept_def server_ok_def)
qed (simp_all add: handle_kept assms serving_kept_same)

lemma serves_kept:
  "server_ok srv \<Longrightarrow> serving_kept (ms_cron srv) s (fold (serve srv ou) xs s)"
proof (induction xs arbitrary: s)
  case (Cons x xs)
  then show ?case using serving_kept_trans [OF serve_kept] by fastforce
qed simp

lemma mux_route_Inr: "mux_route p = Inr x \<Longrightarrow> x = route_of p"
  by (simp add: mux_route_def Let_def split: if_splits)

lemma auth_ok_iff:
  "auth_ok srv r \<longleftrightarrow> ms_token srv \<noteq> [] \<and> rq_header r ''Authorization'' = ''Bearer '' @ ms_token srv"
  by (auto simp: auth_ok_def trim_prefix_def prefix_def Let_def)

text \<open>The server that the daemon builds always has a token.\<close>

lemma daemon_server_starts:
  assumes "ensure_token env io name f = (Inr tok, f')" and "tk_mkdir io = None" and "tk_read io = None"
  shows "\<exists>srv. new_server (c\<lparr>ms_token := tok\<rparr>) = Inr srv \<and> ms_token srv = tok"
proof -
  have made: "tok \<noteq> []" if "make_token io f = (Inr tok, f')"
    using that by (cases "tk_rand io") (auto simp: make_token_def new_token_def split: option.splits)
  have "tok \<noteq> []"
    using assms made by (auto simp: ensure_token_def split: if_splits option.splits)
  then show ?thesis by (simp add: new_server_def)
qed

lemma enforce_refusal: "enforce k live r = (False, status, www) \<Longrightarrow> status \<in> {401, 403}"
  by (auto simp: enforce_def ip_gate_def basic_gate_def token_gate_def split: option.splits if_splits prod.splits)

lemma handle_without_token:
  assumes "\<not> auth_ok srv r \<or> (\<not> origin_ok srv r \<and> mux_route (fr_path r) = Inr RouteMcp)"
  shows "(\<forall>i res. fst (handle srv ou inp r s) \<noteq> RpcResult i res) \<and> fst (handle srv ou inp r s) \<noteq> StreamOpened \<and>
    sv_sched (snd (handle srv ou inp r s)) = sv_sched s \<and> sv_files (snd (handle srv ou inp r s)) = sv_files s \<and>
    fn_auth (sv_front (snd (handle srv ou inp r s))) = fn_auth (sv_front s)"
proof (cases "mux_route (fr_path r) = Inr RouteMcp \<or> mux_route (fr_path r) = Inr RouteAuth")
  case True
  then show ?thesis
    using assms by (auto simp: handle_def handle_mcp_def handle_post_def handle_get_def handle_set_auth_def
        split: if_splits)
next
  case False
  have "fst (out_call f s) \<noteq> RpcResult i res" for f :: "'c \<Rightarrow> reply \<times> 'c" and s :: "('a, 'b, 'c) serving" and i res
    by (simp add: out_call_def split: prod.split)
  moreover have "\<exists>a. fst (handle srv ou inp r s) = HttpAnswer a"
    using False by (simp add: handle_def out_call_def split: sum.split route.split prod.split)
  ultimately show ?thesis using False handle_elsewhere [of r srv ou inp s] by auto
qed

text \<open>
  C7: the daemon, whatever it serves in whatever order, reaches the database only through the
  store's operations: after any requests, ticks and polls the database is a history of them, stays
  well-formed, and the scheduler's entries and the cron table stay inverse to each other.
\<close>

theorem serving_through_store:
  assumes "server_ok srv" and "db_wf (sv_db s)" and "sched_inv (ms_cron srv) (sv_sched s)"
  shows "(\<exists>h. sv_db (fold (serve srv ou) xs s) = run_history h (sv_db s)) \<and>
    db_wf (sv_db (fold (serve srv ou) xs s)) \<and> sched_inv (ms_cron srv) (sv_sched (fold (serve srv ou) xs s))"
proof -
  have "serving_kept (ms_cron srv) s (fold (serve srv ou) xs s)" by (rule serves_kept [OF assms(1)])
  then show ?thesis
    using assms(2,3) reaches_wf by (auto simp: serving_kept_def reaches_def)
qed

text \<open>
  C6: without the token nothing of the daemon can be changed. However many requests come in, on
  whatever paths, if none carries the bearer token then the scheduler with its database, the
  configuration files and the access control are as before, and no request got a result or the
  event stream. At the MCP endpoint, and only there, the same holds of a request whose \<^verbatim>\<open>Origin\<close>
  is present and not an allowed one, even with the token. The endpoint that sets the access control
  does not look at the origin: a posted configuration with the token that parses is live, whatever
  the other headers are.
\<close>

theorem no_token_no_effect:
  assumes "\<forall>(inp, r) \<in> set reqs. rq_header r ''Authorization'' \<noteq> ''Bearer '' @ ms_token srv \<or>
      (mux_route (fr_path r) = Inr RouteMcp \<and> rq_header r ''Origin'' \<notin> insert [] (ms_origins srv))"
    and "s' = fold (\<lambda>(inp, r) s. snd (handle srv ou inp r s)) reqs s"
  shows "sv_sched s' = sv_sched s \<and> sv_files s' = sv_files s \<and> fn_auth (sv_front s') = fn_auth (sv_front s) \<and>
    (\<forall>(inp, r) \<in> set reqs. \<forall>u. (\<forall>i res. fst (handle srv ou inp r u) \<noteq> RpcResult i res) \<and>
       fst (handle srv ou inp r u) \<noteq> StreamOpened) \<and>
    (\<forall>inp r body live. ms_token srv \<noteq> [] \<and> rq_header r ''Authorization'' = ''Bearer '' @ ms_token srv \<and>
       fr_method r = ''POST'' \<and> mux_route (fr_path r) = Inr RouteAuth \<and> read_limited (64 * 1024) r = Inr body \<and>
       apply_live (ou_wire ou) body (fn_auth (sv_front s')) = (None, live) \<longrightarrow>
         handle srv ou inp r s' = (HttpAnswer (bare 204), s'\<lparr>sv_front := (sv_front s')\<lparr>fn_auth := live\<rparr>\<rparr>))"
proof -
  have no: "\<not> auth_ok srv r \<or> (\<not> origin_ok srv r \<and> mux_route (fr_path r) = Inr RouteMcp)"
    if "(inp, r) \<in> set reqs" for inp r
    using assms(1) that by (auto simp: auth_ok_iff origin_ok_def Let_def)
  have "set qs \<subseteq> set reqs \<Longrightarrow> sv_sched (fold (\<lambda>(inp, r) s. snd (handle srv ou inp r s)) qs s) = sv_sched s \<and>
      sv_files (fold (\<lambda>(inp, r) s. snd (handle srv ou inp r s)) qs s) = sv_files s \<and>
      fn_auth (sv_front (fold (\<lambda>(inp, r) s. snd (handle srv ou inp r s)) qs s)) = fn_auth (sv_front s)" for qs
  proof (induction qs arbitrary: s)
    case (Cons x qs)
    obtain inp r where x: "x = (inp, r)" by fastforce
    with Cons.prems have "(inp, r) \<in> set reqs" by simp
    from handle_without_token [OF no [OF this], of ou inp s] Cons x show ?case by simp
  qed simp
  moreover have "\<forall>(inp, r) \<in> set reqs. \<forall>u. (\<forall>i res. fst (handle srv ou inp r u) \<noteq> RpcResult i res) \<and>
      fst (handle srv ou inp r u) \<noteq> StreamOpened"
    using handle_without_token [OF no] by blast
  moreover have "handle srv ou inp r s' = (HttpAnswer (bare 204), s'\<lparr>sv_front := (sv_front s')\<lparr>fn_auth := live\<rparr>\<rparr>)"
    if "ms_token srv \<noteq> []" "rq_header r ''Authorization'' = ''Bearer '' @ ms_token srv" "fr_method r = ''POST''"
      "mux_route (fr_path r) = Inr RouteAuth" "read_limited (64 * 1024) r = Inr body"
      "apply_live (ou_wire ou) body (fn_auth (sv_front s')) = (None, live)" for inp r body live
    using that by (simp add: handle_def handle_set_auth_def auth_ok_iff)
  ultimately show ?thesis using assms(2) by blast
qed

text \<open>
  C22: the access control of the application covers every path but the seven exempt ones. A request
  it refuses is answered with 401 or 403, and nothing else is done: no starting-up page, no exchange
  with the application, no change of state. That is so for the clean paths only: the mux redirects
  an unclean path to its clean form before it asks the handler, so such a request is answered with
  the redirect, whose location gives back path and query, although the comment in the code promises
  the refusal for every path.
\<close>

theorem gate_covers_the_rest:
  assumes "fr_path r \<notin> {''/_zibby_ops/healthz'', ''/healthz'', ''/_zibby_ops/auth'', ''/_zibby_ops/mcp'', ''/mcp''}"
    and "\<not> prefix ''/_oh_agent/'' (fr_path r)" and "\<not> prefix ''/_ohvs/'' (fr_path r)"
    and "enforce (ou_crypto ou) (fn_auth (sv_front s)) (http_request.truncate r) = (False, status, www)"
  shows "status \<in> {401, 403} \<and> handle srv ou inp r s = (case mux_route (fr_path r) of
      Inl q \<Rightarrow> (HttpAnswer (moved q r), s) | Inr _ \<Rightarrow> (HttpAnswer (refusal status www), s))"
proof -
  have "route_of (fr_path r) = RouteApp" using assms(1-3) by (simp add: route_of_def)
  then have "mux_route (fr_path r) = Inr RouteApp \<or> (\<exists>q. mux_route (fr_path r) = Inl q)"
    using mux_route_Inr [of "fr_path r"] by (cases "mux_route (fr_path r)") auto
  moreover have "app_proxy (ms_env srv) (ou_crypto ou) (ou_parses ou) (ou_upstream ou) r (sv_front s) (sv_out s) =
      (refusal status www, sv_front s, sv_out s)"
    using assms(4) by (simp add: app_proxy_def)
  moreover have "status \<in> {401, 403}" by (rule enforce_refusal [OF assms(4)])
  ultimately show ?thesis by (auto simp: handle_def)
qed

lemma builtin_names: "builtin_call n \<noteq> None \<longleftrightarrow> n \<in> fst ` set builtin_tools"
proof -
  have "fst ` set builtin_tools = {''agent_status'', ''agent_run_now'', ''agent_history'', ''agent_logs'',
      ''agent_list_tasks'', ''agent_get_task'', ''agent_set_task'', ''agent_get_mission'', ''agent_set_mission'',
      ''agent_remember_fact'', ''fact_inspect'', ''agent_list_templates'', ''agent_get_template'',
      ''agent_apply_template'', ''agent_integrate_add'', ''agent_integrate_remove'', ''agent_integrate_list''}"
    by (simp only: builtin_tools_def list.set image_insert image_empty fst_conv)
  moreover have "builtin_call n \<noteq> None \<longleftrightarrow> n \<in> {''agent_status'', ''agent_run_now'', ''agent_history'', ''agent_logs'',
      ''agent_list_tasks'', ''agent_set_task'', ''agent_get_task'', ''agent_get_mission'', ''agent_set_mission'',
      ''agent_remember_fact'', ''fact_inspect'', ''agent_list_templates'', ''agent_get_template'',
      ''agent_apply_template'', ''agent_integrate_add'', ''agent_integrate_remove'', ''agent_integrate_list''}"
    unfolding builtin_call_def map_of_eq_None_iff not_not by (simp only: list.set image_insert image_empty fst_conv)
  ultimately show ?thesis by (simp only: insert_commute)
qed

text \<open>
  C33: what is announced can be called, and nothing else. A name is in the answer to
  \<^verbatim>\<open>tools/list\<close> exactly if \<^verbatim>\<open>tools/call\<close> dispatches it, to a builtin tool or to the host
  tool under the name without its prefix; for any other name the state stays and the error names it.
\<close>

theorem announced_tools_are_callable:
  fixes s :: "('c, 'x, 'w) serving"
  assumes "reg_wf (ms_tools srv)"
  shows "(n \<in> fst ` set (tools_list srv) \<longleftrightarrow>
      (if prefix ''host_'' n then reg_get (ms_tools srv) (drop 5 n) \<noteq> None
       else (builtin_call n :: ('c, 'x, 'w) tool_call option) \<noteq> None)) \<and>
    (n \<notin> fst ` set (tools_list srv) \<longrightarrow> call_tool n srv inp raw s =
       (CallError (- 32602) (if prefix ''host_'' n then ''no such host tool: '' @ drop 5 n else ''no such tool: '' @ n), s))"
proof -
  let ?b = "\<lambda>m. (builtin_call m :: ('c, 'x, 'w) tool_call option) \<noteq> None"
  have no_host: "\<not> prefix ''host_'' m" if "m \<in> fst ` set builtin_tools" for m
  proof -
    have "\<forall>x \<in> fst ` set builtin_tools. \<not> prefix ''host_'' x"
      by (simp only: builtin_tools_def list.set image_insert image_empty fst_conv) simp
    then show ?thesis using that by blast
  qed
  have "fst ` set (tools_list srv) = fst ` set builtin_tools \<union> (\<lambda>t. ''host_'' @ tool_name t) ` set (reg_list (ms_tools srv))"
    by (simp only: tools_list_def set_append image_Un set_map image_image fst_conv)
  moreover have "n \<in> (\<lambda>t. ''host_'' @ tool_name t) ` set (reg_list (ms_tools srv)) \<longleftrightarrow>
      prefix ''host_'' n \<and> drop 5 n \<in> tool_name ` set (reg_list (ms_tools srv))"
    by (auto simp: prefix_def image_iff)
  ultimately have "n \<in> fst ` set (tools_list srv) \<longleftrightarrow>
      (if prefix ''host_'' n then reg_get (ms_tools srv) (drop 5 n) \<noteq> None else ?b n)"
    using no_host [of n] builtin_names [of n, where ?'a = 'c and ?'b = 'x and ?'c = 'w]
      reg.dispatchable_iff_listed [OF assms, of "drop 5 n"] by auto
  then show ?thesis by (simp add: call_tool_def host_call_def split: if_splits)
qed

text \<open>
  Access control is swapped without a restart. An authorised POST of a configuration that fits
  is answered with 204, and from then on every request to the application that the new configuration
  refuses is refused; the scheduler, the database and the files are not touched.
\<close>

lemma new_access_control_is_enforced:
  assumes "fr_path r = ''/_zibby_ops/auth''" and "fr_method r = ''POST''" and "auth_ok srv r"
    and "length (fr_body r) \<le> 64 * 1024" and "fr_body_error r = None"
    and "apply_auth (ou_wire ou) (fr_body r) = Inr live" and "handle srv ou inp r s = (a, s')"
  shows "a = HttpAnswer (bare 204) \<and> s' = s\<lparr>sv_front := (sv_front s)\<lparr>fn_auth := live\<rparr>\<rparr> \<and>
    (\<forall>q inp' status www. mux_route (fr_path q) = Inr RouteApp \<longrightarrow>
       enforce (ou_crypto ou) live (http_request.truncate q) = (False, status, www) \<longrightarrow>
       handle srv ou inp' q s' = (HttpAnswer (refusal status www), s'))"
proof -
  have "mux_route (fr_path r) = Inr RouteAuth"
    by (simp add: assms(1) mux_route_def clean_path_def route_of_def)
  moreover have "read_limited (64 * 1024) r = Inr (fr_body r)"
    using assms(4,5) by (simp add: read_limited_def)
  ultimately have "a = HttpAnswer (bare 204) \<and> s' = s\<lparr>sv_front := (sv_front s)\<lparr>fn_auth := live\<rparr>\<rparr>"
    using assms(2,3,6,7) by (simp add: handle_def handle_set_auth_def apply_live_def)
  then show ?thesis by (simp add: handle_def app_proxy_def)
qed

text \<open>
  A task sent as disabled can be scheduled. The JSON decoder takes a key in any case, but the
  handler asks whether the text has the key in lower case: a task that decodes as disabled from a
  text without that word is stored as enabled, and when the answer is ok it fires.
\<close>

lemma disabled_task_is_scheduled:
  assumes "server_ok srv" and "sched_inv (ms_cron srv) (sv_sched s)"
    and "mc_task (ms_codec srv) raw = Inr t" and "\<not> t_enabled t" and "raw \<noteq> []"
    and "\<not> contains (dquote # ''enabled'' @ [dquote]) raw"
    and "tool_set_task srv inp raw s = (ToolText (PlainText ''ok''), s')"
  shows "task_cron (ms_cron srv) (sv_sched s') (t_name t) = Some (t_cron t)"
proof -
  let ?t = "t\<lparr>t_enabled := True\<rparr>"
  have "set_task (ms_cron srv) ?t (in_faults inp) (in_now inp) (sv_sched s) = (None, sv_sched s')"
    using assms(3-7) by (auto simp: tool_set_task_def default_enabled_def split: if_splits prod.splits option.splits)
  then obtain d where "register (ms_cron srv) ?t (set_sched_db d (sv_sched s)) = (None, sv_sched s')"
    by (auto simp: set_task_def Let_def split: if_splits sum.splits prod.splits)
  moreover have "sched_inv (ms_cron srv) (set_sched_db d (sv_sched s))" for d
    using assms(2) by (simp add: sched_inv_def)
  ultimately show ?thesis
    using register_inv [of "ms_cron srv"] assms(1) by (fastforce simp: server_ok_def)
qed

subsection \<open>Instances\<close>

definition sample_codec_mcp :: mcp_codec where
  "sample_codec_mcp = \<lparr>mc_request = Inl, mc_params = Inl, mc_run_now = Inl, mc_history = (\<lambda>_. ([], 0)),
     mc_logs = Inl, mc_one_name = Inl, mc_statement = Inr, mc_index = NoObject, mc_fact = Inl,
     mc_task = (\<lambda>raw. if contains (dquote # ''Enabled'' @ [dquote]) raw then Inr (hourly\<lparr>t_enabled := False\<rparr>) else Inl raw),
     mc_apply = Inl, mc_add = Inl, mc_remove = Inl\<rparr>"

definition sample_server :: "((string \<times> string) list, unit) mcp_server" where
  "sample_server = \<lparr>ms_token = ''s3'', ms_config_path = ''c'', ms_origins = {}, ms_name = ''agent-ops'',
     ms_version = ''1'', ms_tools = [], ms_runner = None, ms_cron = list_cron, ms_templates = [],
     ms_env = (\<lambda>_. []), ms_codec = sample_codec_mcp, ms_config_codec = sample_codec\<rparr>"

definition sample_serving :: "((string \<times> string) list, unit, unit) serving" where
  "sample_serving = \<lparr>sv_sched = new_scheduler [] sample_world, sv_files = sample_files,
     sv_front = \<lparr>fn_auth = None, fn_healthy = False, fn_ready = False\<rparr>, sv_out = ()\<rparr>"

definition sample_outside :: "unit outside" where
  "sample_outside = \<lparr>ou_crypto = sample_crypto, ou_parses = (\<lambda>_. True), ou_upstream = (\<lambda>_ _ w. (Inl [], w)),
     ou_wire = (\<lambda>_. Inr \<lparr>wi_basic = None, wi_token = Some ''ab'', wi_allow = []\<rparr>)\<rparr>"

definition sample_mcp_inputs :: mcp_inputs where
  "sample_mcp_inputs = \<lparr>in_faults = no_faults, in_now = 1, in_run = sample_inputs, in_io = sample_io,
     in_mkdir = None, in_write = (Written, [])\<rparr>"

definition sample_post :: "string \<Rightarrow> string \<Rightarrow> string \<Rightarrow> front_request" where
  "sample_post token path body = \<lparr>rq_header = (\<lambda>h. if h = ''Authorization'' then ''Bearer '' @ token else []),
     rq_remote_addr = ''10.0.0.1:5'', fr_method = ''POST'', fr_path = path, fr_query = [], fr_body = body,
     fr_body_error = None\<rparr>"

lemmas sample_serving_defs = sample_codec_mcp_def sample_server_def sample_serving_def sample_outside_def
  sample_mcp_inputs_def sample_post_def

lemma sample_server_ok: "server_ok sample_server"
  using list_cron_contract by (simp add: server_ok_def sample_server_def tools_via_store_def reg_get_def)

lemma sample_serving_ok:
  "db_wf (sv_db sample_serving)" "sched_inv (ms_cron sample_server) (sv_sched sample_serving)"
  using db_wf_init [of 1] by (simp_all add: sample_serving_def sample_server_def sched_db_def new_scheduler_def
      sched_inv_def linked_def)

theorem serving_through_store_witness:
  "db_wf (sv_db (serve sample_server sample_outside (Tick sample_inputs no_faults ''h'') sample_serving))"
  using serving_through_store [OF sample_server_ok sample_serving_ok, of sample_outside
      "[Tick sample_inputs no_faults ''h'']"] by simp

theorem no_token_no_effect_witness:
  "sv_files (snd (handle sample_server sample_outside sample_mcp_inputs (sample_post ''no'' ''/mcp'' ''x'') sample_serving)) =
     sample_files"
  using no_token_no_effect [of "[(sample_mcp_inputs, sample_post ''no'' ''/mcp'' ''x'')]" sample_server _
      sample_outside sample_serving, OF _ refl]
  by (simp add: sample_post_def sample_server_def sample_serving_def)

theorem announced_tools_are_callable_witness:
  "call_tool ''host_x'' sample_server sample_mcp_inputs [] sample_serving =
     (CallError (- 32602) ''no such host tool: x'', sample_serving)"
  using announced_tools_are_callable [of sample_server "''host_x''" sample_mcp_inputs "[]" sample_serving]
  by (simp add: sample_server_def reg_wf_def keyed_def reg_get_def)

theorem gate_covers_the_rest_witness:
  "fst (handle sample_server sample_outside sample_mcp_inputs (sample_get ''/app'')
     (sample_serving\<lparr>sv_front := \<lparr>fn_auth = Some \<lparr>au_basic = None, au_token_sha256 = ''ab'', au_nets = []\<rparr>,
        fn_healthy = False, fn_ready = False\<rparr>\<rparr>)) = HttpAnswer (refusal 401 [])"
proof -
  let ?s = "sample_serving\<lparr>sv_front := \<lparr>fn_auth = Some \<lparr>au_basic = None, au_token_sha256 = ''ab'', au_nets = []\<rparr>,
     fn_healthy = False, fn_ready = False\<rparr>\<rparr>"
  have "mux_route ''/app'' = Inr RouteApp" by (simp add: mux_route_def clean_path_def route_of_def)
  then have "mux_route (fr_path (sample_get ''/app'')) = Inr RouteApp" by (simp add: sample_get_def)
  moreover have "handle sample_server sample_outside sample_mcp_inputs (sample_get ''/app'') ?s =
      (case mux_route (fr_path (sample_get ''/app'')) of
        Inl q \<Rightarrow> (HttpAnswer (moved q (sample_get ''/app'')), ?s) | Inr _ \<Rightarrow> (HttpAnswer (refusal 401 []), ?s))"
    by (rule gate_covers_the_rest [THEN conjunct2])
      (simp_all add: sample_get_def enforce_def ip_gate_def basic_gate_def token_gate_def request_token_def
        http_request.truncate_def)
  ultimately show ?thesis by simp
qed

lemma new_access_control_is_enforced_witness:
  "fst (handle sample_server sample_outside sample_mcp_inputs (sample_get ''/app'')
     (snd (handle sample_server sample_outside sample_mcp_inputs (sample_post ''s3'' ''/_zibby_ops/auth'' ''x'') sample_serving))) =
   HttpAnswer (refusal 401 [])"
proof -
  let ?live = "Some \<lparr>au_basic = None, au_token_sha256 = ''ab'', au_nets = []\<rparr>"
  obtain a s' where run: "handle sample_server sample_outside sample_mcp_inputs
      (sample_post ''s3'' ''/_zibby_ops/auth'' ''x'') sample_serving = (a, s')" by fastforce
  have live: "apply_auth (ou_wire sample_outside) ''x'' = Inr ?live"
    by (simp add: apply_auth_def sample_outside_def trim_space_def trim_left_def trim_right_def is_space_def
        auth_of_wire_def to_lower_def lower_char_def Let_def)
  have "mux_route ''/app'' = Inr RouteApp" by (simp add: mux_route_def clean_path_def route_of_def)
  then have app: "mux_route (fr_path (sample_get ''/app'')) = Inr RouteApp" by (simp add: sample_get_def)
  have refused: "enforce (ou_crypto sample_outside) ?live (http_request.truncate (sample_get ''/app'')) = (False, 401, [])"
    by (simp add: sample_get_def enforce_def ip_gate_def basic_gate_def token_gate_def request_token_def
        http_request.truncate_def)
  have "\<forall>q inp' status www. mux_route (fr_path q) = Inr RouteApp \<longrightarrow>
       enforce (ou_crypto sample_outside) ?live (http_request.truncate q) = (False, status, www) \<longrightarrow>
       handle sample_server sample_outside inp' q s' = (HttpAnswer (refusal status www), s')"
    by (rule new_access_control_is_enforced [OF _ _ _ _ _ _ run, THEN conjunct2, THEN conjunct2])
      (use live in \<open>simp_all add: sample_post_def sample_server_def auth_ok_def trim_prefix_def\<close>)
  with app refused show ?thesis by (simp only: run snd_conv fst_conv)
qed

lemma disabled_task_is_scheduled_witness:
  "task_cron list_cron (sv_sched (snd (tool_set_task sample_server sample_mcp_inputs
     (dquote # ''Enabled'' @ dquote # '':false'') sample_serving))) ''h'' = Some ''@hourly''"
proof -
  let ?raw = "dquote # ''Enabled'' @ dquote # '':false''"
  obtain s' where run: "tool_set_task sample_server sample_mcp_inputs ?raw sample_serving =
      (ToolText (PlainText ''ok''), s')"
    by (simp add: tool_set_task_def sample_serving_defs default_enabled_def set_task_def db_simps upsert_task_def
        register_def drop_entry_def sched_db_def set_sched_db_def new_scheduler_def Let_def)
  have "task_cron (ms_cron sample_server) (sv_sched s') (t_name (hourly\<lparr>t_enabled := False\<rparr>)) =
      Some (t_cron (hourly\<lparr>t_enabled := False\<rparr>))"
    by (rule disabled_task_is_scheduled [OF sample_server_ok sample_serving_ok(2) _ _ _ _ run])
      (simp_all add: sample_server_def sample_codec_mcp_def)
  then have "task_cron list_cron (sv_sched s') ''h'' = Some ''@hourly''" by (simp add: sample_server_def)
  then show ?thesis by (simp only: run snd_conv)
qed

end
