(* ===== verification/HostFs.thy ===== *)
theory HostFs
  imports Front AgentText TaskRunner Integrate "HOL-Library.AList"
begin

text \<open>
  What the program uses of Go's packages \<^verbatim>\<open>path/filepath\<close> and \<^verbatim>\<open>os\<close> when it
  installs things on a host: paths, a tree of nodes under their paths, and the system calls on it.
  A system call fails where the tree makes it fail, and wherever the host refuses it
  (\<open>ma_refuse\<close>: permissions, a full or read-only disk). Commands are started through
  \<open>ma_run\<close>, which may change the tree in any way. Symbolic links are followed in the last
  component of a path; links to directories inside a path are not resolved.
\<close>

subsection \<open>Paths\<close>

fun clean_segs :: "bool \<Rightarrow> string list \<Rightarrow> string list \<Rightarrow> string list" where
  "clean_segs rooted st [] = rev st"
| "clean_segs rooted st (x # xs) =
     (if x = [] \<or> x = ''.'' then clean_segs rooted st xs
      else if x = ''..'' then
        (if st \<noteq> [] \<and> hd st \<noteq> ''..'' then clean_segs rooted (tl st) xs
         else if rooted then clean_segs rooted st xs
         else clean_segs rooted (x # st) xs)
      else clean_segs rooted (x # st) xs)"

definition filepath_clean :: "string \<Rightarrow> string" where
  "filepath_clean p =
     (let rooted = prefix ''/'' p; q = join ''/'' (clean_segs rooted [] (split_on (CHR ''/'') p))
      in if rooted then CHR ''/'' # q else if q = [] then ''.'' else q)"

definition filepath_join :: "string list \<Rightarrow> string" where
  "filepath_join es =
     (let ne = filter (\<lambda>e. e \<noteq> []) es in if ne = [] then [] else filepath_clean (join ''/'' ne))"

text \<open>\<^verbatim>\<open>filepath.Dir\<close>: everything up to the last slash, cleaned.\<close>

definition filepath_dir :: "string \<Rightarrow> string" where
  "filepath_dir p = filepath_clean (rev (dropWhile (\<lambda>c. c \<noteq> CHR ''/'') (rev p)))"

subsection \<open>The tree\<close>

datatype node = DirNode | FileNode string nat | LinkNode string

type_synonym nodes = "(string \<times> node) list"

definition node_at :: "nodes \<Rightarrow> string \<Rightarrow> node option" where
  "node_at ns p = map_of ns p"

text \<open>The target of a link, seen from the directory the link is in.\<close>

definition link_target :: "string \<Rightarrow> string \<Rightarrow> string" where
  "link_target p t = (if prefix ''/'' t then filepath_clean t else filepath_join [filepath_dir p, t])"

text \<open>Following the links at the end of a path: forty of them at most (\<open>ELOOP\<close>).\<close>

fun follow :: "nat \<Rightarrow> nodes \<Rightarrow> string \<Rightarrow> string option" where
  "follow n ns p =
     (case node_at ns p of
        Some (LinkNode t) \<Rightarrow> (case n of 0 \<Rightarrow> None | Suc k \<Rightarrow> follow k ns (link_target p t))
      | _ \<Rightarrow> Some p)"

declare follow.simps [simp del]

definition follow_links :: "nodes \<Rightarrow> string \<Rightarrow> string option" where
  "follow_links ns p = follow 40 ns p"

text \<open>The directories above a path, from the top, with the path itself at the end.\<close>

definition ancestors :: "string \<Rightarrow> string list" where
  "ancestors p = map (\<lambda>i. take i p) (filter (\<lambda>i. p ! i = CHR ''/'') [1..<length p]) @ [p]"

definition dir_entries :: "nodes \<Rightarrow> string \<Rightarrow> string list" where
  "dir_entries ns d =
     (let base = (if d = ''/'' then d else d @ ''/'')
      in filter (\<lambda>n. n \<noteq> [] \<and> CHR ''/'' \<notin> set n)
           (map (\<lambda>(p, _). drop (length base) p) (filter (\<lambda>(p, _). prefix base p) ns)))"

subsection \<open>The host\<close>

datatype solo_phase =
    PhaseBootstrapping | PhaseDownloading | PhaseInstalling | PhaseConfiguring
  | PhaseStarting | PhaseHealthcheck | PhaseRunning | PhaseFailed

text \<open>
  What the installer does that others can see: the phases it reports and the commands it runs. The
  box is the tree, the installer's own variables, the time limit in minutes of the step that runs,
  and the events so far.
\<close>

datatype event = Phase solo_phase string | Ran "string list"

record box =
  bx_nodes :: nodes
  bx_env :: str_map
  bx_limit :: nat
  bx_trace :: "event list"

datatype sys_call =
    SysStat | SysOpen | SysWrite | SysMkdir | SysRemove | SysSymlink | SysRename | SysChmod | SysReadDir

text \<open>
  The host and what is read from it: refused system calls, with how much of a refused write was
  stored; commands, with their error, their effect on the tree and what they print; environment, clock, random
  bytes, the iteration order of Go's maps. The health check sees for each of its rounds the answers
  of the three endpoints, how much longer than three seconds the round took, and whether it was
  cancelled in its wait.
\<close>

record machine =
  ma_refuse :: "sys_call \<Rightarrow> string \<Rightarrow> box \<Rightarrow> string option"
  ma_stored :: "string \<Rightarrow> box \<Rightarrow> nat"
  ma_run :: "string list \<Rightarrow> box \<Rightarrow> string option \<times> nodes"
  ma_output :: "string list \<Rightarrow> box \<Rightarrow> string"
  ma_env :: environ
  ma_now :: "box \<Rightarrow> string"
  ma_rand :: "nat \<Rightarrow> box \<Rightarrow> 8 word list option"
  ma_iter :: map_order
  ma_answer :: "nat \<Rightarrow> string \<Rightarrow> string + nat"
  ma_delay :: "nat \<Rightarrow> nat"
  ma_cancel :: "nat \<Rightarrow> string option"

subsection \<open>System calls\<close>

definition path_error :: "string \<Rightarrow> string \<Rightarrow> string \<Rightarrow> string" where
  "path_error op p reason = op @ '' '' @ p @ '': '' @ reason"

abbreviation enoent :: string where "enoent \<equiv> ''no such file or directory''"

text \<open>\<^verbatim>\<open>os.Stat\<close>: the node a path leads to; \<open>None\<close> for every error.\<close>

definition stat_node :: "machine \<Rightarrow> box \<Rightarrow> string \<Rightarrow> node option" where
  "stat_node m b p =
     (if ma_refuse m SysStat p b \<noteq> None then None
      else Option.bind (follow_links (bx_nodes b) p) (node_at (bx_nodes b)))"

text \<open>The reason of the error of \<^verbatim>\<open>os.Stat\<close>, if it has one.\<close>

definition stat_error :: "machine \<Rightarrow> box \<Rightarrow> string \<Rightarrow> string option" where
  "stat_error m b p =
     (case ma_refuse m SysStat p b of
        Some e \<Rightarrow> Some e
      | None \<Rightarrow>
          (case follow_links (bx_nodes b) p of
             None \<Rightarrow> Some ''too many levels of symbolic links''
           | Some q \<Rightarrow> if node_at (bx_nodes b) q = None then Some enoent else None))"

definition read_file :: "machine \<Rightarrow> box \<Rightarrow> string \<Rightarrow> string + string" where
  "read_file m b p =
     (case ma_refuse m SysOpen p b of
        Some e \<Rightarrow> Inl (path_error ''open'' p e)
      | None \<Rightarrow>
          (case follow_links (bx_nodes b) p of
             None \<Rightarrow> Inl (path_error ''open'' p ''too many levels of symbolic links'')
           | Some q \<Rightarrow>
               (case node_at (bx_nodes b) q of
                  Some (FileNode c md) \<Rightarrow> Inr c
                | None \<Rightarrow> Inl (path_error ''open'' p enoent)
                | _ \<Rightarrow> Inl (path_error ''read'' p ''is a directory''))))"

definition read_dir :: "machine \<Rightarrow> box \<Rightarrow> string \<Rightarrow> string list option" where
  "read_dir m b p =
     (if ma_refuse m SysReadDir p b \<noteq> None then None
      else case follow_links (bx_nodes b) p of
        None \<Rightarrow> None
      | Some q \<Rightarrow>
          if node_at (bx_nodes b) q = Some DirNode then Some (dir_entries (bx_nodes b) q) else None)"

definition set_node :: "string \<Rightarrow> node \<Rightarrow> box \<Rightarrow> box" where
  "set_node p n b = b\<lparr>bx_nodes := AList.update p n (bx_nodes b)\<rparr>"

text \<open>\<^verbatim>\<open>os.WriteFile\<close>: an existing file keeps its mode; a refused write leaves a part.\<close>

definition write_file :: "machine \<Rightarrow> string \<Rightarrow> string \<Rightarrow> nat \<Rightarrow> box \<Rightarrow> string option \<times> box" where
  "write_file m p body md b =
     (case ma_refuse m SysOpen p b of
        Some e \<Rightarrow> (Some (path_error ''open'' p e), b)
      | None \<Rightarrow>
          (case follow_links (bx_nodes b) p of
             None \<Rightarrow> (Some (path_error ''open'' p ''too many levels of symbolic links''), b)
           | Some q \<Rightarrow>
               (case node_at (bx_nodes b) q of
                  Some DirNode \<Rightarrow> (Some (path_error ''open'' p ''is a directory''), b)
                | old \<Rightarrow>
                    if node_at (bx_nodes b) (filepath_dir q) \<noteq> Some DirNode
                    then (Some (path_error ''open'' p enoent), b)
                    else let mode = (case old of Some (FileNode c k) \<Rightarrow> k | _ \<Rightarrow> md)
                      in case ma_refuse m SysWrite p b of
                           Some e \<Rightarrow> (Some (path_error ''write'' p e),
                                      set_node q (FileNode (take (ma_stored m p b) body) mode) b)
                         | None \<Rightarrow> (None, set_node q (FileNode body mode) b))))"

definition make_dir :: "string \<Rightarrow> nodes \<Rightarrow> nodes" where
  "make_dir d ns = (if node_at ns d = None then AList.update d DirNode ns else ns)"

text \<open>\<^verbatim>\<open>os.MkdirAll\<close>\<close>

definition mkdir_all :: "machine \<Rightarrow> string \<Rightarrow> box \<Rightarrow> string option \<times> box" where
  "mkdir_all m p b =
     (if stat_node m b p = Some DirNode then (None, b)
      else case ma_refuse m SysMkdir p b of
        Some e \<Rightarrow> (Some (path_error ''mkdir'' p e), b)
      | None \<Rightarrow>
          if list_all (\<lambda>d. node_at (bx_nodes b) d \<in> {None, Some DirNode}) (ancestors p)
          then (None, b\<lparr>bx_nodes := fold make_dir (ancestors p) (bx_nodes b)\<rparr>)
          else (Some (path_error ''mkdir'' p ''not a directory''), b))"

definition remove_node :: "machine \<Rightarrow> string \<Rightarrow> box \<Rightarrow> string option \<times> box" where
  "remove_node m p b =
     (case ma_refuse m SysRemove p b of
        Some e \<Rightarrow> (Some (path_error ''remove'' p e), b)
      | None \<Rightarrow>
          if node_at (bx_nodes b) p = None then (Some (path_error ''remove'' p enoent), b)
          else if node_at (bx_nodes b) p = Some DirNode \<and> dir_entries (bx_nodes b) p \<noteq> []
          then (Some (path_error ''remove'' p ''directory not empty''), b)
          else (None, b\<lparr>bx_nodes := AList.delete p (bx_nodes b)\<rparr>))"

text \<open>\<^verbatim>\<open>os.RemoveAll\<close>: the path and everything below it; nothing there is no error.\<close>

definition remove_all :: "machine \<Rightarrow> string \<Rightarrow> box \<Rightarrow> string option \<times> box" where
  "remove_all m p b =
     (case ma_refuse m SysRemove p b of
        Some e \<Rightarrow> (Some (path_error ''unlinkat'' p e), b)
      | None \<Rightarrow>
          (None, b\<lparr>bx_nodes := filter (\<lambda>(q, n). q \<noteq> p \<and> \<not> prefix (p @ ''/'') q) (bx_nodes b)\<rparr>))"

definition symlink_node :: "machine \<Rightarrow> string \<Rightarrow> string \<Rightarrow> box \<Rightarrow> string option \<times> box" where
  "symlink_node m target p b =
     (case ma_refuse m SysSymlink p b of
        Some e \<Rightarrow> (Some (path_error (''symlink '' @ target) p e), b)
      | None \<Rightarrow>
          if node_at (bx_nodes b) p \<noteq> None
          then (Some (path_error (''symlink '' @ target) p ''file exists''), b)
          else if node_at (bx_nodes b) (filepath_dir p) \<noteq> Some DirNode
          then (Some (path_error (''symlink '' @ target) p enoent), b)
          else (None, set_node p (LinkNode target) b))"

text \<open>\<^verbatim>\<open>os.Rename\<close> of something that is not a directory.\<close>

definition rename_node :: "machine \<Rightarrow> string \<Rightarrow> string \<Rightarrow> box \<Rightarrow> string option \<times> box" where
  "rename_node m p q b =
     (case ma_refuse m SysRename q b of
        Some e \<Rightarrow> (Some (path_error (''rename '' @ p) q e), b)
      | None \<Rightarrow>
          (case node_at (bx_nodes b) p of
             None \<Rightarrow> (Some (path_error (''rename '' @ p) q enoent), b)
           | Some n \<Rightarrow>
               if node_at (bx_nodes b) q = Some DirNode
               then (Some (path_error (''rename '' @ p) q ''file exists''), b)
               else (None, b\<lparr>bx_nodes := AList.delete p (AList.update q n (bx_nodes b))\<rparr>)))"

definition chmod_node :: "machine \<Rightarrow> string \<Rightarrow> nat \<Rightarrow> box \<Rightarrow> string option \<times> box" where
  "chmod_node m p md b =
     (case ma_refuse m SysChmod p b of
        Some e \<Rightarrow> (Some (path_error ''chmod'' p e), b)
      | None \<Rightarrow>
          (case Option.bind (follow_links (bx_nodes b) p)
                  (\<lambda>q. map_option (Pair q) (node_at (bx_nodes b) q)) of
             Some (q, FileNode c k) \<Rightarrow> (None, set_node q (FileNode c md) b)
           | Some (q, _) \<Rightarrow> (None, b)
           | None \<Rightarrow> (Some (path_error ''chmod'' p enoent), b)))"

text \<open>The command runner: what it ran is on the trace, whether it failed or not.\<close>

definition call :: "machine \<Rightarrow> string list \<Rightarrow> box \<Rightarrow> string option \<times> box" where
  "call m argv b =
     (let (e, ns) = ma_run m argv b in (e, b\<lparr>bx_nodes := ns, bx_trace := bx_trace b @ [Ran argv]\<rparr>))"

subsection \<open>Sequencing\<close>

text \<open>An early return on an error, and the prefix that \<^verbatim>\<open>fmt.Errorf\<close> puts before it.\<close>

definition and_then :: "string option \<times> 'b \<Rightarrow> ('b \<Rightarrow> string option \<times> 'b) \<Rightarrow> string option \<times> 'b" where
  "and_then r f = (case r of (Some e, b) \<Rightarrow> (Some e, b) | (None, b) \<Rightarrow> f b)"

definition errorf :: "string \<Rightarrow> string option \<times> 'b \<Rightarrow> string option \<times> 'b" where
  "errorf what r = (map_option (\<lambda>e. what @ '': '' @ e) (fst r), snd r)"

text \<open>A call whose error is ignored.\<close>

definition ignore :: "string option \<times> 'b \<Rightarrow> string option \<times> 'b" where
  "ignore r = (None, snd r)"

lemma and_then_simps [simp]:
  "and_then (Some e, b) f = (Some e, b)" "and_then (None, b) f = f b"
  by (simp_all add: and_then_def)

lemma errorf_simps [simp]:
  "fst (errorf w r) = None \<longleftrightarrow> fst r = None" "snd (errorf w r) = snd r"
  "errorf w (Some e, b) = (Some (w @ '': '' @ e), b)" "errorf w (None, b) = (None, b)"
  by (simp_all add: errorf_def)

lemma ignore_simps [simp]: "fst (ignore r) = None" "snd (ignore r) = snd r" "ignore (e, b) = (None, b)"
  by (simp_all add: ignore_def)

lemma and_then_ignore [simp]: "and_then (ignore r) f = f (snd r)"
  by (simp add: ignore_def)

lemma and_then_None_iff:
  "fst (and_then r f) = None \<longleftrightarrow> fst r = None \<and> fst (f (snd r)) = None"
  by (cases r) (auto simp: and_then_def split: option.splits)

text \<open>What a run keeps: a relation that both parts keep is kept by their sequence.\<close>

lemma and_then_keeps:
  "\<lbrakk>I (snd r); \<And>b. I b \<Longrightarrow> I (snd (f b))\<rbrakk> \<Longrightarrow> I (snd (and_then r f))"
  by (cases r) (auto simp: and_then_def split: option.splits)

subsection \<open>Reading back\<close>

lemma node_at_update [simp]:
  "node_at (AList.update p n ns) q = (if q = p then Some n else node_at ns q)"
  by (simp add: node_at_def AList.update_conv)

lemma node_at_delete [simp]:
  "node_at (AList.delete p ns) q = (if q = p then None else node_at ns q)"
  by (simp add: node_at_def AList.delete_conv)

lemma node_at_set_node [simp]:
  "node_at (bx_nodes (set_node p n b)) q = (if q = p then Some n else node_at (bx_nodes b) q)"
  by (simp add: set_node_def)

lemma follow_end: "follow n ns p = Some q \<Longrightarrow> node_at ns q \<noteq> Some (LinkNode t)"
proof (induction n ns p rule: follow.induct)
  case (1 n ns p)
  then show ?case
    by (subst (asm) (2) follow.simps) (auto split: option.splits node.splits nat.splits)
qed

lemma follow_update:
  "follow n ns p = Some q \<Longrightarrow> (\<And>t. nd \<noteq> LinkNode t) \<Longrightarrow> follow n (AList.update q nd ns) p = Some q"
proof (induction n ns p rule: follow.induct)
  case (1 n ns p)
  show ?case
  proof (cases "p = q")
    case True
    then show ?thesis using 1(3) by (subst follow.simps) (cases nd, auto)
  next
    case False
    then show ?thesis
      using 1 by (subst follow.simps, subst (asm) (2) follow.simps)
        (auto split: option.splits node.splits nat.splits)
  qed
qed

lemma follow_plain: "(\<And>t. node_at ns p \<noteq> Some (LinkNode t)) \<Longrightarrow> follow n ns p = Some p"
  by (subst follow.simps) (auto split: option.splits node.splits)

text \<open>A file that was written without an error is there, with what was written.\<close>

lemma write_file_stored:
  assumes "write_file m p body md b = (None, b')"
  obtains q k where "follow_links (bx_nodes b') p = Some q"
    and "node_at (bx_nodes b') q = Some (FileNode body k)" and "b' = set_node q (FileNode body k) b"
proof -
  from assms obtain q where q: "follow_links (bx_nodes b) p = Some q"
    by (auto simp: write_file_def split: option.splits)
  from assms q obtain k where b': "b' = set_node q (FileNode body k) b"
    by (auto simp: write_file_def Let_def split: option.splits node.splits if_splits)
  moreover have "follow_links (bx_nodes b') p = Some q"
    using q by (simp add: b' follow_links_def set_node_def follow_update)
  ultimately show thesis using that by simp
qed

lemma stat_written:
  assumes "write_file m p body md b = (None, b')" and "ma_refuse m' SysStat p b' = None"
  shows "stat_node m' b' p \<noteq> None"
proof -
  obtain q k where "follow_links (bx_nodes b') p = Some q" "node_at (bx_nodes b') q = Some (FileNode body k)"
    using assms(1) by (rule write_file_stored)
  then show ?thesis using assms(2) by (simp add: stat_node_def)
qed

lemma read_written:
  assumes "write_file m p body md b = (None, b')" and "ma_refuse m' SysOpen p b' = None"
  shows "read_file m' b' p = Inr body"
proof -
  obtain q k where "follow_links (bx_nodes b') p = Some q" "node_at (bx_nodes b') q = Some (FileNode body k)"
    using assms(1) by (rule write_file_stored)
  then show ?thesis using assms(2) by (simp add: read_file_def)
qed

end
