(* ===== verification/SoloText.thy ===== *)
theory SoloText
  imports HostFs
begin

text \<open>
  The texts of \<^verbatim>\<open>internal/bootstrap/solo.go\<close>: the files it generates (the exec wrapper, the
  Litestream, Puma and Caddy configurations, the systemd unit), the tables over the frameworks and
  the shell commands, with the quoting of the paths in them. The round trip of the quoting is
  against a reader of shell words.
\<close>

subsection \<open>Generated files\<close>

definition exec_wrapper_script :: "string" where
  "exec_wrapper_script =
    join [nl]
      [''#!/usr/bin/env bash'',
       ''# zibby-managed; do not edit by hand.'',
       ''# zibby-app-exec <base64-shell-command> '' @ em_dash @ '' run a command in the deployed'',
       ''# app's runtime context (cwd + env + user). Invoked as root via sudo by'',
       ''# the backend SSM broker, which supplies the interactive PTY.'',
       ''set -euo pipefail'',
       [],
       ''UNIT=\"zibby-app.service\"'',
       ''APP_DIR=\"/opt/app/current\"'',
       ''APP_USER=\"zibby\"'',
       ''SECRETS_ENV=\"/etc/zibby/secrets.env\"'',
       [],
       ''if [ \"$#\" -lt 1 ] || [ -z \"${1:-}\" ]; then'',
       ''  echo \"zibby-app-exec: missing base64 command argument\" >&2'',
       ''  exit 2'',
       ''fi'',
       [],
       ''# Decode the base64 payload '' @ right_arrow @ '' the shell command to run.'',
       ''CMD=\"$(printf '%s' \"$1\" | base64 -d)\" || {'',
       ''  echo \"zibby-app-exec: failed to base64-decode command\" >&2'',
       ''  exit 2'',
       ''}'',
       [],
       ''if [ ! -d \"$APP_DIR\" ]; then'',
       ''  echo \"zibby-app-exec: app dir $APP_DIR missing '' @ em_dash @ '' is the app deployed?\" >&2'',
       ''  exit 1'',
       ''fi'',
       [],
       ''# Reproduce the app's environment. Source of truth is the live systemd'',
       ''# unit (matches Environment= lines AND EnvironmentFile=) plus the secrets'',
       ''# file. We collect the KEY names to pass through to the dropped-privilege'',
       ''# shell via sudo --preserve-env, and export the values into THIS shell so'',
       ''# they're inherited.'',
       ''PRESERVE_KEYS=\"\"'',
       ''# systemctl show -p Environment prints: Environment=K1=V1 K2=V2 ...'',
       ''# (space-separated, values may themselves contain '='; split on first '=').'',
       ''ENV_LINE=\"$(systemctl show -p Environment \"$UNIT\" 2>/dev/null || true)\"'',
       ''ENV_LINE=\"${ENV_LINE#Environment=}\"'',
       ''if [ -n \"$ENV_LINE\" ]; then'',
       ''  # Word-split on spaces (systemd quotes values containing spaces; the'',
       ''  # common DB/secret vars don't, so plain splitting is adequate + keeps'',
       ''  # this dependency-free).'',
       ''  for kv in $ENV_LINE; do'',
       ''    key=\"${kv%%=*}\"'',
       ''    val=\"${kv#*=}\"'',
       ''    [ -z \"$key\" ] && continue'',
       ''    export \"$key=$val\"'',
       ''    PRESERVE_KEYS=\"${PRESERVE_KEYS:+$PRESERVE_KEYS,}$key\"'',
       ''  done'',
       ''fi'',
       ''# Source the EnvironmentFile too (EnvironmentFile=-'' @ ellipsis @ '' in the unit). set -a'',
       ''# so each assignment is auto-exported into this shell's env.'',
       ''if [ -f \"$SECRETS_ENV\" ]; then'',
       ''  set -a'',
       ''  # shellcheck disable=SC1090'',
       ''  . \"$SECRETS_ENV\"'',
       ''  set +a'',
       ''  # Add the secret keys to the preserve list.'',
       ''  while IFS='=' read -r k _; do'',
       ''    case \"$k\" in '' @ [CHR 0x27] @ '''|'' @ [backslash] @ ''#*) continue;; esac'',
       ''    k=\"$(printf '%s' \"$k\" | tr -d '[:space:]')\"'',
       ''    [ -z \"$k\" ] && continue'',
       ''    PRESERVE_KEYS=\"${PRESERVE_KEYS:+$PRESERVE_KEYS,}$k\"'',
       ''  done < \"$SECRETS_ENV\"'',
       ''fi'',
       [],
       ''cd \"$APP_DIR\"'',
       [],
       ''# Build the privilege-drop invocation. --preserve-env=<keys> carries the'',
       ''# app's DB/secret env across the user switch (sudo otherwise scrubs it).'',
       ''# bash -lc gives a login shell so rbenv/asdf/bundle shims + PATH resolve'',
       ''# exactly as the unit's ExecStart sees them. stdin/stdout/stderr are NOT'',
       ''# redirected '' @ em_dash @ '' the SSM session's PTY passes straight through.'',
       ''RUN=(sudo -u \"$APP_USER\")'',
       ''if [ -n \"$PRESERVE_KEYS\" ]; then'',
       ''  RUN+=(\"--preserve-env=$PRESERVE_KEYS\")'',
       ''fi'',
       ''RUN+=(bash -lc \"$CMD\")'',
       [],
       ''# Memory containment: spawn inside a transient systemd scope with a SOFT'',
       ''# MemoryHigh so a heavy console/migration throttles into swap instead of'',
       ''# OOM-killing the live app. Fall back to nice if systemd-run is absent.'',
       ''if command -v systemd-run >/dev/null 2>&1; then'',
       ''  exec systemd-run --scope --quiet '' @ [backslash],
       ''    -p MemoryHigh=200M -p MemoryMax=400M '' @ [backslash],
       ''    \"${RUN[@]}\"'',
       ''else'',
       ''  exec nice -n 10 \"${RUN[@]}\"'',
       ''fi'',
       []]"

definition litestream_config :: "string \<Rightarrow> string \<Rightarrow> string \<Rightarrow> string" where
  "litestream_config dir bucket region =
    join [nl]
      [''# zibby-managed; do not edit by hand.'',
       ''addr: \":9090\"'',
       ''dbs:'',
       ''  - path: '' @ dir @ ''/storage/production.sqlite3'',
       ''    replicas:'',
       ''      - type: s3'',
       ''        bucket: '' @ bucket,
       ''        path: rails-storage'',
       ''        region: '' @ region,
       ''  - path: '' @ dir @ ''/db/production.sqlite3'',
       ''    replicas:'',
       ''      - type: s3'',
       ''        bucket: '' @ bucket,
       ''        path: rails-db'',
       ''        region: '' @ region,
       []]"

definition puma_config :: "string" where
  "puma_config =
    join [nl]
      [''# zibby-managed; do not edit by hand. (micro tier '' @ em_dash @ '' 0.5GB RAM)'',
       ''workers Integer(ENV.fetch(\"WEB_CONCURRENCY\", 1))'',
       ''threads_count = Integer(ENV.fetch(\"RAILS_MAX_THREADS\", 1))'',
       ''threads threads_count, threads_count'',
       ''preload_app! false'',
       ''bind \"tcp://0.0.0.0:3000\"'',
       ''environment \"production\"'',
       []]"

definition caddyfile :: "string \<Rightarrow> string \<Rightarrow> int \<Rightarrow> string" where
  "caddyfile acme domain port =
    join [nl]
      [''# zibby-managed; do not edit by hand.'',
       ''{'',
       ''    auto_https disable_redirects'',
       ''    acme_ca '' @ acme,
       ''}'',
       [],
       domain @ '' {'',
       ''    reverse_proxy 127.0.0.1:'' @ itoa port,
       ''    encode gzip zstd'',
       ''    log {'',
       ''        output stdout'',
       ''        format json'',
       ''    }'',
       ''}'',
       [],
       ''# Always-on plain HTTP for the public IP '' @ em_dash @ '' lets the smoke test hit'',
       ''# the box before DNS propagates.'',
       '':80 {'',
       ''    reverse_proxy 127.0.0.1:'' @ itoa port,
       ''    encode gzip zstd'',
       ''}'',
       []]"

definition systemd_unit :: "string \<Rightarrow> string \<Rightarrow> string \<Rightarrow> string \<Rightarrow> string \<Rightarrow> string" where
  "systemd_unit slug link secrets extra exec =
    join [nl]
      [''# zibby-managed; do not edit by hand.'',
       ''[Unit]'',
       ''Description=Zibby solo app ('' @ slug @ '')'',
       ''After=network-online.target'',
       ''Wants=network-online.target'',
       [],
       ''[Service]'',
       ''User=zibby'',
       ''Group=zibby'',
       ''WorkingDirectory='' @ link,
       ''EnvironmentFile=-'' @ secrets,
       extra @ ''ExecStart='' @ exec,
       ''Restart=on-failure'',
       ''RestartSec=5'',
       ''StandardOutput=journal'',
       ''StandardError=journal'',
       ''SyslogIdentifier=zibby-app'',
       [],
       ''[Install]'',
       ''WantedBy=multi-user.target'',
       []]"


subsection \<open>Frameworks\<close>

definition framework_checks :: "(string \<times> string) list" where
  "framework_checks =
     [(''Gemfile'', ''rails''), (''package.json'', ''node''), (''requirements.txt'', ''python''),
      (''pyproject.toml'', ''python''), (''mix.exs'', ''elixir''), (''Cargo.toml'', ''rust''),
      (''go.mod'', ''go''), (''index.html'', ''static'')]"

definition os_packages_for :: "string \<Rightarrow> string list" where
  "os_packages_for framework =
     (if framework = ''rails'' then
        [''ruby'', ''ruby-dev'', ''build-essential'', ''libsqlite3-dev'', ''libyaml-dev'',
         ''pkg-config'', ''zlib1g-dev'']
      else if framework = ''node'' then [''nodejs'', ''npm'']
      else if framework = ''python'' then
        [''python3'', ''python3-pip'', ''python3-venv'', ''build-essential'']
      else if framework = ''elixir'' then [''elixir'', ''erlang-dev'', ''build-essential'']
      else if framework = ''rust'' then [''cargo'', ''build-essential'']
      else if framework = ''go'' then [''golang-go'']
      else [])"

definition framework_port :: "string \<Rightarrow> int" where
  "framework_port framework =
     (if framework = ''rails'' then 3000
      else if framework = ''node'' then 3000
      else if framework = ''python'' then 8000
      else if framework = ''elixir'' then 4000
      else if framework = ''rust'' \<or> framework = ''go'' then 8080
      else if framework = ''static'' then 8080
      else 3000)"

text \<open>A command line under a login shell in the deployed directory.\<close>

definition login_shell :: "string \<Rightarrow> string" where
  "login_shell cmd = ''/bin/bash -lc '' @ [CHR 0x27] @ ''cd /opt/app/current && '' @ cmd @ [CHR 0x27]"

definition framework_exec_start :: "string \<Rightarrow> int \<Rightarrow> bool \<Rightarrow> string" where
  "framework_exec_start framework port tight =
     (if framework = ''rails'' then
        (let conf = (if tight then ''config/puma_zibby.rb'' else ''config/puma.rb'')
         in login_shell (''if [ -f '' @ conf @ '' ]; then bundle exec puma -C '' @ conf
              @ ''; else bundle exec rails server -b 0.0.0.0 -p '' @ itoa port @ '' -e production; fi''))
      else if framework = ''node'' then login_shell ''npm start''
      else if framework = ''python'' then
        login_shell (''.venv/bin/python -m http.server '' @ itoa port)
      else if framework = ''elixir'' then
        login_shell ''_build/prod/rel/$(basename $PWD)/bin/$(basename $PWD) start''
      else if framework = ''rust'' \<or> framework = ''go'' then login_shell ''./app''
      else ''/bin/sleep infinity'')"

subsection \<open>Shell commands\<close>

abbreviation squote :: char where "squote \<equiv> CHR 0x27"

definition escape_char :: "char \<Rightarrow> string" where
  "escape_char c = (if c = squote then [squote, backslash, squote, squote] else [c])"

definition shell_escape :: "string \<Rightarrow> string" where
  "shell_escape s = [squote] @ concat (map escape_char s) @ [squote]"

definition in_dir :: "string \<Rightarrow> string \<Rightarrow> string" where
  "in_dir dir cmd = ''cd '' @ shell_escape dir @ '' && '' @ cmd"

definition bash :: "string \<Rightarrow> string list" where
  "bash script = [''bash'', ''-c'', script]"

definition swap_file_path :: string where
  "swap_file_path = ''/var/swapfile''"

definition jemalloc_path :: string where
  "jemalloc_path = ''/usr/lib/aarch64-linux-gnu/libjemalloc.so.2''"

definition swap_script :: string where
  "swap_script =
     (let f = swap_file_path
      in ''fallocate -l 2G '' @ f @ '' && chmod 600 '' @ f @ '' && mkswap '' @ f @ '' && swapon '' @ f
         @ '' && grep -q '' @ [squote] @ f @ [squote] @ '' /etc/fstab || echo '' @ [squote] @ f
         @ '' none swap sw 0 0'' @ [squote] @ '' >> /etc/fstab'')"

text \<open>
  How a shell reads the first word of a command: outside quotes a space ends the word, a
  backslash takes the next byte as it is; between single quotes every byte stands for itself.
  \<open>None\<close>: the word is not complete.
\<close>

fun shell_word :: "bool \<Rightarrow> string \<Rightarrow> (string \<times> string) option" where
  "shell_word True [] = None"
| "shell_word True (c # cs) =
     (if c = squote then shell_word False cs
      else map_option (map_prod ((#) c) id) (shell_word True cs))"
| "shell_word False [] = Some ([], [])"
| "shell_word False [c] =
     (if c = squote \<or> c = backslash then None
      else if is_space c then Some ([], [c]) else Some ([c], []))"
| "shell_word False (c # d # cs) =
     (if c = squote then shell_word True (d # cs)
      else if c = backslash then map_option (map_prod ((#) d) id) (shell_word False cs)
      else if is_space c then Some ([], c # d # cs)
      else map_option (map_prod ((#) c) id) (shell_word False (d # cs)))"

lemma shell_word_open [simp]: "shell_word False (squote # xs) = shell_word True xs"
  by (cases xs) auto

lemma shell_word_quoted:
  "shell_word True (concat (map escape_char s) @ squote # rest) =
     map_option (map_prod ((@) s) id) (shell_word False rest)"
proof (induction s)
  case Nil
  then show ?case by (cases "shell_word False rest") auto
next
  case (Cons c s)
  then show ?case
    by (cases "shell_word False rest") (auto simp: escape_char_def)
qed

lemma shell_word_escape:
  assumes "rest = [] \<or> is_space (hd rest)"
  shows "shell_word False (shell_escape s @ rest) = Some (s, rest)"
proof -
  have "shell_word False rest = Some ([], rest)"
    using assms by (cases rest rule: remdups_adj.cases) (auto simp: is_space_def)
  then show ?thesis
    by (simp add: shell_escape_def shell_word_quoted)
qed

end
