(* ===== verification/Solo.thy ===== *)
theory Solo
  imports SoloText
begin

text \<open>
  \<^verbatim>\<open>internal/bootstrap/solo.go\<close>: the installation of one application on a host from a
  specification file. The specification and what is known of the deployment, the steps with every
  early return and every ignored error, the pipeline, and the entry point with its failure marker.
  The JSON decoder of the specification is a parameter.
\<close>

subsection \<open>Specification and runner\<close>

record solo_source =
  src_type :: string
  src_repo :: string
  src_ref :: string
  src_s3_url :: string

record solo_secret =
  sec_key :: string
  sec_value_ref :: string

record solo_persist =
  per_db :: string
  per_files :: string

record solo_spec =
  solo_app_slug :: string
  solo_source :: solo_source
  solo_framework :: string
  solo_tier :: string
  solo_region :: string
  solo_secrets :: "solo_secret list"
  solo_domain :: string
  solo_persist :: solo_persist

record solo_paths =
  pa_spec :: string
  pa_account_id :: string
  pa_deployment_id :: string
  pa_status_url :: string
  pa_phase_token :: string
  pa_secrets_env :: string
  pa_app_root :: string
  pa_current_link :: string
  pa_backups_dir :: string
  pa_log_dir :: string
  pa_caddyfile :: string
  pa_systemd_unit :: string
  pa_litestream_cfg :: string
  pa_failed_marker :: string
  pa_exec_wrapper :: string

definition default_solo_paths :: solo_paths where
  "default_solo_paths =
     \<lparr>pa_spec = ''/etc/zibby/spec.json'',
      pa_account_id = ''/etc/zibby/account-id'',
      pa_deployment_id = ''/etc/zibby/deployment-id'',
      pa_status_url = ''/etc/zibby/status-url'',
      pa_phase_token = ''/etc/zibby/phase-token'',
      pa_secrets_env = ''/etc/zibby/secrets.env'',
      pa_app_root = ''/opt/app'',
      pa_current_link = ''/opt/app/current'',
      pa_backups_dir = ''/var/zibby/backups'',
      pa_log_dir = ''/var/log/zibby'',
      pa_caddyfile = ''/etc/caddy/Caddyfile'',
      pa_systemd_unit = ''/etc/systemd/system/zibby-app.service'',
      pa_litestream_cfg = ''/etc/litestream.yml'',
      pa_failed_marker = ''/etc/zibby/.failed'',
      pa_exec_wrapper = ''/usr/local/bin/zibby-app-exec''\<rparr>"

text \<open>\<open>ru_bearer\<close> is the token of the phase reporter. A nil specification is \<open>None\<close>.\<close>

record solo_runner =
  ru_paths :: solo_paths
  ru_spec :: "solo_spec option"
  ru_account :: string
  ru_deployment :: string
  ru_status_url :: string
  ru_phase_token :: string
  ru_bearer :: string

abbreviation the_spec :: "solo_runner \<Rightarrow> solo_spec" where
  "the_spec r \<equiv> the (ru_spec r)"

subsection \<open>Phases\<close>

fun phase_name :: "solo_phase \<Rightarrow> string" where
  "phase_name PhaseBootstrapping = ''bootstrapping''"
| "phase_name PhaseDownloading = ''downloading''"
| "phase_name PhaseInstalling = ''installing''"
| "phase_name PhaseConfiguring = ''configuring''"
| "phase_name PhaseStarting = ''starting''"
| "phase_name PhaseHealthcheck = ''healthcheck''"
| "phase_name PhaseRunning = ''running''"
| "phase_name PhaseFailed = ''failed''"

text \<open>
  \<^verbatim>\<open>Push\<close> leaves an event; what it sends is \<open>phase_request\<close>: nothing without a URL, or with
  one that no request can be made for. Its answer has no effect.
\<close>

record phase_post =
  pq_url :: string
  pq_bearer :: "string option"
  pq_phase :: string
  pq_detail :: string

definition phase_request :: "(string \<Rightarrow> bool) \<Rightarrow> solo_runner \<Rightarrow> solo_phase \<Rightarrow> string \<Rightarrow> phase_post option" where
  "phase_request url_ok r p d =
     (if ru_status_url r = [] then None
      else if \<not> url_ok (ru_status_url r) then None
      else Some \<lparr>pq_url = ru_status_url r,
                 pq_bearer = (if ru_bearer r = [] then None else Some (ru_bearer r)),
                 pq_phase = phase_name p, pq_detail = d\<rparr>)"

definition push_phase :: "solo_phase \<Rightarrow> string \<Rightarrow> box \<Rightarrow> box" where
  "push_phase p d b = b\<lparr>bx_trace := bx_trace b @ [Phase p d]\<rparr>"

text \<open>What the reporter has sent to the control plane after a trace.\<close>

fun sent_requests :: "(string \<Rightarrow> bool) \<Rightarrow> solo_runner \<Rightarrow> event list \<Rightarrow> phase_post list" where
  "sent_requests url_ok r [] = []"
| "sent_requests url_ok r (Phase p d # es) =
     (case phase_request url_ok r p d of
        None \<Rightarrow> sent_requests url_ok r es
      | Some q \<Rightarrow> q # sent_requests url_ok r es)"
| "sent_requests url_ok r (Ran args # es) = sent_requests url_ok r es"

subsection \<open>Loading\<close>

definition read_trimmed :: "machine \<Rightarrow> box \<Rightarrow> string \<Rightarrow> string" where
  "read_trimmed m b p = (case read_file m b p of Inl e \<Rightarrow> [] | Inr c \<Rightarrow> trim_space c)"

definition phase_url :: "string \<Rightarrow> string" where
  "phase_url u =
     (if suffix ''/status'' u then take (length u - length ''/status'') u @ ''/phase'' else u)"

definition check_spec :: "solo_spec \<Rightarrow> string + solo_spec" where
  "check_spec s =
     (if solo_app_slug s = [] then Inl ''solo: spec.appSlug is empty''
      else if src_type (solo_source s) = [] then Inl ''solo: spec.source.type is empty''
      else Inr (if solo_framework s = [] then s\<lparr>solo_framework := ''auto''\<rparr> else s))"

definition load_runner ::
  "machine \<Rightarrow> (string \<Rightarrow> string + solo_spec) \<Rightarrow> solo_paths \<Rightarrow> box \<Rightarrow> string + solo_runner" where
  "load_runner m decode pa b =
     (case read_file m b (pa_spec pa) of
        Inl e \<Rightarrow> Inl (''solo: read spec: '' @ e)
      | Inr body \<Rightarrow>
          (case decode body of
             Inl e \<Rightarrow> Inl (''solo: parse spec: '' @ e)
           | Inr s \<Rightarrow>
               (case check_spec s of
                  Inl e \<Rightarrow> Inl e
                | Inr s' \<Rightarrow>
                    Inr \<lparr>ru_paths = pa, ru_spec = Some s',
                         ru_account = read_trimmed m b (pa_account_id pa),
                         ru_deployment = read_trimmed m b (pa_deployment_id pa),
                         ru_status_url = phase_url (read_trimmed m b (pa_status_url pa)),
                         ru_phase_token = read_trimmed m b (pa_phase_token pa),
                         ru_bearer = []\<rparr>)))"

definition new_solo_runner ::
  "machine \<Rightarrow> (string \<Rightarrow> string + solo_spec) \<Rightarrow> solo_paths \<Rightarrow> box \<Rightarrow> string + solo_runner" where
  "new_solo_runner m decode pa b =
     map_sum id
       (\<lambda>r. r\<lparr>ru_bearer := or_default (ru_phase_token r) (ma_env m ''AGENT_OPS_TOKEN'')\<rparr>)
       (load_runner m decode pa b)"

subsection \<open>Small memory\<close>

definition mem_total_bytes :: "string \<Rightarrow> int" where
  "mem_total_bytes meminfo =
     (case find (prefix ''MemTotal:'') (split_on nl meminfo) of
        None \<Rightarrow> 0
      | Some line \<Rightarrow>
          (let fs = str_fields line
           in if length fs < 2 then 0
              else case atoi (fs ! 1) of
                None \<Rightarrow> 0
              | Some kb \<Rightarrow> sint (word_of_int kb * 1024 :: 64 word)))"

definition host_total_ram_bytes :: "machine \<Rightarrow> box \<Rightarrow> int" where
  "host_total_ram_bytes m b =
     (case read_file m b ''/proc/meminfo'' of Inl e \<Rightarrow> 0 | Inr c \<Rightarrow> mem_total_bytes c)"

definition is_micro :: "machine \<Rightarrow> solo_runner \<Rightarrow> box \<Rightarrow> bool" where
  "is_micro m r b =
     (if ru_spec r \<noteq> None \<and> to_lower (trim_space (solo_tier (the_spec r))) = ''micro'' then True
      else 0 < host_total_ram_bytes m b \<and> host_total_ram_bytes m b < 2 ^ 30)"

subsection \<open>Variables of the installer\<close>

definition env_get :: "box \<Rightarrow> string \<Rightarrow> string" where
  "env_get b k = (case bx_env b k of None \<Rightarrow> [] | Some v \<Rightarrow> v)"

definition env_set :: "string \<Rightarrow> string \<Rightarrow> box \<Rightarrow> box" where
  "env_set k v b = b\<lparr>bx_env := (bx_env b)(k \<mapsto> v)\<rparr>"

abbreviation app_dir :: "box \<Rightarrow> string" where
  "app_dir b \<equiv> env_get b ''ZIBBY_APP_DIR''"

abbreviation framework_of :: "box \<Rightarrow> string" where
  "framework_of b \<equiv> env_get b ''ZIBBY_FRAMEWORK''"

subsection \<open>Download\<close>

text \<open>\<^verbatim>\<open>nextVersionDir\<close>: the number after the highest in use, in a signed 64-bit \<^verbatim>\<open>int\<close>.\<close>

definition version_number :: "string \<Rightarrow> int option" where
  "version_number name = (if prefix ''v'' name then atoi (drop 1 name) else None)"

fun max_version :: "int \<Rightarrow> string list \<Rightarrow> int" where
  "max_version k [] = k"
| "max_version k (n # ns) =
     (case version_number n of
        Some v \<Rightarrow> max_version (if k < v then v else k) ns
      | None \<Rightarrow> max_version k ns)"

definition next_version_dir :: "machine \<Rightarrow> solo_runner \<Rightarrow> box \<Rightarrow> string" where
  "next_version_dir m r b =
     (let root = pa_app_root (ru_paths r)
      in case read_dir m b root of
           None \<Rightarrow> filepath_join [root, ''v1'']
         | Some names \<Rightarrow>
             filepath_join
               [root, ''v'' @ itoa (sint (word_of_int (max_version 0 names + 1) :: 64 word))])"

definition clone_url :: "string \<Rightarrow> string \<Rightarrow> string" where
  "clone_url tok repo =
     (if tok \<noteq> [] then ''https://x-access-token:'' @ tok @ ''@github.com/'' @ repo @ ''.git''
      else ''https://github.com/'' @ repo @ ''.git'')"

definition fetch_source :: "machine \<Rightarrow> solo_source \<Rightarrow> string \<Rightarrow> box \<Rightarrow> string option \<times> box" where
  "fetch_source m src dir b =
     (if src_type src = ''github'' then
        (if src_repo src = [] then (Some ''source.repo is empty'', b)
         else errorf ''git clone''
           (call m
             ([''git'', ''clone'', ''--depth=1''] @
              (if src_ref src \<noteq> [] then [''--branch'', src_ref src] else []) @
              [clone_url (read_trimmed m b ''/run/secrets/github-token'') (src_repo src), dir]) b))
      else if src_type src = ''tarball'' then
        (if src_s3_url src = [] then (Some ''source.s3Url is empty'', b)
         else let tar = filepath_join [dir, ''.source.tar.gz'']
           in and_then (errorf ''curl'' (call m [''curl'', ''-fsSL'', ''-o'', tar, src_s3_url src] b))
             (\<lambda>b. and_then (errorf ''tar''
                     (call m [''tar'', ''-xzf'', tar, ''-C'', dir, ''--strip-components=1''] b))
               (\<lambda>b. ignore (remove_node m tar b))))
      else (Some (''unknown source.type '' @ quoted (src_type src)), b))"

definition step_download :: "machine \<Rightarrow> solo_runner \<Rightarrow> box \<Rightarrow> string option \<times> box" where
  "step_download m r b0 =
     (let src = solo_source (the_spec r);
          b = push_phase PhaseDownloading (''type='' @ src_type src) b0;
          dir = next_version_dir m r b
      in and_then (errorf ''mkdir version'' (mkdir_all m dir b))
        (\<lambda>b. and_then (fetch_source m src dir b)
          (\<lambda>b. and_then (ignore (call m [''chown'', ''-R'', ''zibby:zibby'', dir] b))
            (\<lambda>b. (None, env_set ''ZIBBY_APP_DIR'' dir b)))))"

subsection \<open>Framework\<close>

definition detect_framework :: "machine \<Rightarrow> box \<Rightarrow> string \<Rightarrow> string" where
  "detect_framework m b dir =
     (case find (\<lambda>(f, fw). stat_node m b (filepath_join [dir, f]) \<noteq> None) framework_checks of
        None \<Rightarrow> []
      | Some (f, fw) \<Rightarrow> fw)"

definition step_detect_framework :: "machine \<Rightarrow> solo_runner \<Rightarrow> box \<Rightarrow> string option \<times> box" where
  "step_detect_framework m r b =
     (let fw = solo_framework (the_spec r)
      in if fw \<noteq> ''auto'' \<and> fw \<noteq> [] then (None, env_set ''ZIBBY_FRAMEWORK'' fw b)
         else let found = detect_framework m b (app_dir b)
           in if found = []
              then (Some ''could not auto-detect framework (no Gemfile/package.json/requirements.txt/etc.)'', b)
              else (None, env_set ''ZIBBY_FRAMEWORK'' found b))"

subsection \<open>Packages and memory\<close>

abbreviation apt_update :: "string list" where
  "apt_update \<equiv> [''apt-get'', ''update'', ''-y'']"

abbreviation apt_install :: "string list \<Rightarrow> string list" where
  "apt_install pkgs \<equiv> [''apt-get'', ''install'', ''-y'', ''--no-install-recommends''] @ pkgs"

definition step_install_os_deps :: "machine \<Rightarrow> solo_runner \<Rightarrow> box \<Rightarrow> string option \<times> box" where
  "step_install_os_deps m r b0 =
     (let b = push_phase PhaseInstalling ''os-deps'' b0; pkgs = os_packages_for (framework_of b)
      in if pkgs = [] then (None, b)
         else and_then (ignore (call m apt_update b))
           (\<lambda>b. errorf (''apt-get install ['' @ join '' '' pkgs @ '']'') (call m (apt_install pkgs) b)))"

definition step_memory_tuning :: "machine \<Rightarrow> solo_runner \<Rightarrow> box \<Rightarrow> string option \<times> box" where
  "step_memory_tuning m r b0 =
     (if \<not> is_micro m r b0 then (None, b0)
      else
        let b = push_phase PhaseInstalling ''memory-tuning'' b0
        in and_then (ignore (call m apt_update b))
          (\<lambda>b. and_then (ignore (call m (apt_install [''libjemalloc2'']) b))
            (\<lambda>b. if stat_node m b swap_file_path \<noteq> None then (None, b)
                 else ignore (call m (bash swap_script) b))))"

subsection \<open>Dependencies of the application\<close>

definition write_micro_puma_config :: "machine \<Rightarrow> string \<Rightarrow> box \<Rightarrow> string option \<times> box" where
  "write_micro_puma_config m dir b =
     (let dst = filepath_join [dir, ''config'', ''puma_zibby.rb'']
      in and_then (errorf ''mkdir config'' (mkdir_all m (filepath_dir dst) b))
        (\<lambda>b. write_file m dst puma_config mode_public b))"

definition rails_micro :: "machine \<Rightarrow> solo_runner \<Rightarrow> string \<Rightarrow> box \<Rightarrow> box" where
  "rails_micro m r dir b =
     (if is_micro m r b then
        snd (write_micro_puma_config m dir
          (snd (call m (bash (in_dir dir
             ''RAILS_ENV=production bundle exec bootsnap precompile --gemfile app/ lib/ 2>/dev/null || true'')) b)))
      else b)"

definition rails_deps :: "machine \<Rightarrow> solo_runner \<Rightarrow> string \<Rightarrow> box \<Rightarrow> string option \<times> box" where
  "rails_deps m r dir b =
     and_then (errorf ''gem install bundler''
                (call m (bash (in_dir dir ''gem install bundler --no-document'')) b))
       (\<lambda>b. and_then (errorf ''bundle install''
                (call m (bash (in_dir dir
                  (''bundle config set --local path vendor/bundle && bundle config set --local without '' @
                   [squote] @ ''development test'' @ [squote] @
                   '' && bundle install --jobs=1 --retry=3''))) b))
         (\<lambda>b. let b1 = rails_micro m r dir b; d = shell_escape dir
              in and_then (ignore (call m (bash (''mkdir -p '' @ d @ ''/storage '' @ d @ ''/tmp/pids '' @ d @ ''/log'')) b1))
                (\<lambda>b. and_then (ignore (call m (bash (in_dir dir
                       ''RAILS_ENV=production SECRET_KEY_BASE=$(openssl rand -hex 32) bundle exec rails db:create db:migrate 2>&1'')) b))
                  (\<lambda>b. ignore (call m [''chown'', ''-R'', ''zibby:zibby'', dir] b)))))"

definition install_commands :: "(string \<times> string \<times> string) list" where
  "install_commands =
     [(''node'', ''npm install'', ''npm ci --omit=dev || npm install --omit=dev''),
      (''python'', ''pip install'',
         ''python3 -m venv .venv && .venv/bin/pip install --upgrade pip && .venv/bin/pip install -r requirements.txt''),
      (''elixir'', ''mix deps'',
         ''mix local.hex --force && mix local.rebar --force && mix deps.get --only prod && MIX_ENV=prod mix compile''),
      (''rust'', ''cargo build'', ''cargo build --release''),
      (''go'', ''go build'', ''go build -o ./app'')]"

definition step_install_app_deps :: "machine \<Rightarrow> solo_runner \<Rightarrow> box \<Rightarrow> string option \<times> box" where
  "step_install_app_deps m r b0 =
     (let b = push_phase PhaseInstalling ''app-deps'' b0; fw = framework_of b; dir = app_dir b
      in if fw = ''rails'' then rails_deps m r dir b
         else case map_of install_commands fw of
           None \<Rightarrow> (None, b)
         | Some (what, cmd) \<Rightarrow> errorf what (call m (bash (in_dir dir cmd)) b))"

subsection \<open>Persistence\<close>

definition db_bucket_name :: "solo_runner \<Rightarrow> string" where
  "db_bucket_name r =
     (if ru_account r = [] \<or> solo_app_slug (the_spec r) = [] then []
      else ''zibby-solo-'' @ ru_account r @ ''-'' @ solo_app_slug (the_spec r) @ ''-db'')"

definition uploads_bucket_name :: "solo_runner \<Rightarrow> string" where
  "uploads_bucket_name r =
     (if ru_account r = [] \<or> solo_app_slug (the_spec r) = [] then []
      else ''zibby-solo-'' @ ru_account r @ ''-'' @ solo_app_slug (the_spec r) @ ''-uploads'')"

definition litestream_region :: "solo_runner \<Rightarrow> string" where
  "litestream_region r =
     (if ru_spec r \<noteq> None \<and> trim_space (solo_region (the_spec r)) \<noteq> []
      then trim_space (solo_region (the_spec r)) else ''ap-southeast-2'')"

definition litestream_package :: string where
  "litestream_package =
     ''https://github.com/benbjohnson/litestream/releases/download/v0.3.13/litestream-v0.3.13-linux-arm64.deb''"

definition install_litestream :: "machine \<Rightarrow> box \<Rightarrow> string option \<times> box" where
  "install_litestream m b =
     (if stat_node m b ''/usr/local/bin/litestream'' \<noteq> None then (None, b)
      else let tmp = ''/tmp/litestream.deb''
        in and_then (errorf ''curl litestream'' (call m [''curl'', ''-fsSL'', ''-o'', tmp, litestream_package] b))
          (\<lambda>b. and_then (errorf ''dpkg -i litestream'' (call m [''dpkg'', ''-i'', tmp] b))
            (\<lambda>b. ignore (remove_node m tmp b))))"

definition write_litestream_config :: "machine \<Rightarrow> solo_runner \<Rightarrow> box \<Rightarrow> string option \<times> box" where
  "write_litestream_config m r b =
     (let bucket = db_bucket_name r
      in if bucket = [] then (Some ''litestream: bucket name resolved empty (need accountId + slug)'', b)
         else write_file m (pa_litestream_cfg (ru_paths r))
                (litestream_config (app_dir b) bucket (litestream_region r)) mode_public b)"

text \<open>The two layouts a database may have, with the replica of each.\<close>

definition replica_candidates :: "string \<Rightarrow> string \<Rightarrow> (string \<times> string) list" where
  "replica_candidates dir bucket =
     [(filepath_join [dir, ''storage/production.sqlite3''], ''s3://'' @ bucket @ ''/rails-storage''),
      (filepath_join [dir, ''db/production.sqlite3''], ''s3://'' @ bucket @ ''/rails-db'')]"

text \<open>
  A database that is there and not empty. The size of a directory is the file system's; it is
  taken to be positive.
\<close>

definition has_content :: "machine \<Rightarrow> box \<Rightarrow> string \<Rightarrow> bool" where
  "has_content m b p =
     (case stat_node m b p of
        Some (FileNode c md) \<Rightarrow> c \<noteq> []
      | Some n \<Rightarrow> True
      | None \<Rightarrow> False)"

definition left_arrow :: string where
  "left_arrow = [CHR 0xE2, CHR 0x86, CHR 0x90]"

fun restore_first :: "machine \<Rightarrow> string option \<Rightarrow> (string \<times> string) list \<Rightarrow> box \<Rightarrow> string option \<times> box" where
  "restore_first m last_err [] b = (last_err, b)"
| "restore_first m last_err ((path, replica) # cs) b =
     (if has_content m b path then restore_first m last_err cs b
      else
        (case call m [''litestream'', ''restore'', ''-o'', path, replica]
                (snd (mkdir_all m (filepath_dir path) b)) of
           (Some e, b') \<Rightarrow>
             restore_first m
               (Some (''litestream restore '' @ path @ '' '' @ left_arrow @ '' '' @ replica @ '': '' @ e)) cs b'
         | (None, b') \<Rightarrow> ignore (call m [''chown'', ''zibby:zibby'', path] b')))"

definition maybe_restore :: "machine \<Rightarrow> solo_runner \<Rightarrow> box \<Rightarrow> string option \<times> box" where
  "maybe_restore m r b =
     (if app_dir b = [] then (Some ''maybeRestoreFromLitestream: ZIBBY_APP_DIR not set'', b)
      else if db_bucket_name r = []
      then (Some ''maybeRestoreFromLitestream: bucket name resolved empty'', b)
      else restore_first m None (replica_candidates (app_dir b) (db_bucket_name r)) b)"

definition litestream_setup :: "machine \<Rightarrow> solo_runner \<Rightarrow> box \<Rightarrow> string option \<times> box" where
  "litestream_setup m r b =
     and_then (install_litestream m b)
       (\<lambda>b. and_then (write_litestream_config m r b)
         (\<lambda>b. and_then (ignore (maybe_restore m r b))
           (\<lambda>b. ignore (call m [''systemctl'', ''enable'', ''--now'', ''litestream.service''] b))))"

definition step_configure_persistence :: "machine \<Rightarrow> solo_runner \<Rightarrow> box \<Rightarrow> string option \<times> box" where
  "step_configure_persistence m r b0 =
     (let ps = solo_persist (the_spec r);
          b = push_phase PhaseConfiguring (''db='' @ per_db ps @ '' files='' @ per_files ps) b0
      in and_then (if per_db ps = ''sqlite-litestream'' then litestream_setup m r b else (None, b))
        (\<lambda>b. (None,
           if per_files ps = ''activestorage-s3'' \<and> uploads_bucket_name r \<noteq> []
           then env_set ''ZIBBY_FILES_BUCKET'' (uploads_bucket_name r) b else b)))"

subsection \<open>Caddy\<close>

definition site_domain :: "solo_spec \<Rightarrow> string" where
  "site_domain s = (if solo_domain s = [] then solo_app_slug s @ ''.solo.zibby.app'' else solo_domain s)"

definition acme_directory :: "machine \<Rightarrow> string" where
  "acme_directory m =
     or_default (ma_env m ''AGENT_OPS_ACME_CA'') ''https://acme-v02.api.letsencrypt.org/directory''"

definition step_configure_caddy :: "machine \<Rightarrow> solo_runner \<Rightarrow> box \<Rightarrow> string option \<times> box" where
  "step_configure_caddy m r b =
     and_then (errorf ''write Caddyfile''
         (write_file m (pa_caddyfile (ru_paths r))
           (caddyfile (acme_directory m) (site_domain (the_spec r)) (framework_port (framework_of b)))
           mode_public b))
       (\<lambda>b. and_then (ignore (call m [''systemctl'', ''stop'', ''caddy.service''] b))
         (\<lambda>b. and_then (ignore (call m (bash
               ''rm -rf /var/lib/caddy/.local/share/caddy/acme /var/lib/caddy/.config/caddy/autosave.json 2>/dev/null || true'') b))
           (\<lambda>b. ignore (call m [''systemctl'', ''start'', ''caddy.service''] b))))"

subsection \<open>The unit\<close>

definition swap_current :: "machine \<Rightarrow> solo_runner \<Rightarrow> string \<Rightarrow> box \<Rightarrow> string option \<times> box" where
  "swap_current m r dir b =
     (let link = pa_current_link (ru_paths r); tmp = link @ ''.new''
      in and_then (ignore (remove_node m tmp b))
        (\<lambda>b. and_then (errorf ''symlink new'' (symlink_node m dir tmp b))
          (\<lambda>b. errorf ''rename symlink'' (rename_node m tmp link b))))"

definition ensure_secrets_env :: "machine \<Rightarrow> solo_runner \<Rightarrow> box \<Rightarrow> box" where
  "ensure_secrets_env m r b =
     (let p = pa_secrets_env (ru_paths r)
      in if stat_node m b p \<noteq> None then b
         else snd (write_file m p (''# zibby secrets (populated by cloud-init)'' @ [nl]) mode_private
                (snd (mkdir_all m (filepath_dir p) b))))"

text \<open>
  The secret of a Rails application: the one stored, or 64 random bytes in hexadecimal, stored if
  the file can be written.
\<close>

definition persist_or_generate_secret :: "machine \<Rightarrow> string \<Rightarrow> box \<Rightarrow> string \<times> box" where
  "persist_or_generate_secret m path b =
     (let existing = read_trimmed m b path
      in if existing \<noteq> [] then (existing, b)
         else case ma_rand m 64 b of
           None \<Rightarrow> (replicate 128 (CHR ''0''), b)
         | Some bytes \<Rightarrow>
             (let hex = hex_string bytes
              in (hex, snd (write_file m path (hex @ [nl]) mode_private
                         (snd (mkdir_all m (filepath_dir path) b))))))"

definition env_line :: "string \<Rightarrow> string \<Rightarrow> string" where
  "env_line k v = ''Environment='' @ k @ ''='' @ v @ [nl]"

definition own_env_lines :: "machine \<Rightarrow> box \<Rightarrow> string" where
  "own_env_lines m b =
     concat (map (\<lambda>k. if k = ''ZIBBY_APP_DIR'' \<or> k = ''ZIBBY_FRAMEWORK'' then []
                      else env_line k (env_get b k)) (ma_iter m (bx_env b)))"

definition rails_env_lines :: "machine \<Rightarrow> bool \<Rightarrow> string \<Rightarrow> box \<Rightarrow> string" where
  "rails_env_lines m tight secret b =
     env_line ''SECRET_KEY_BASE'' secret @
     env_line ''RAILS_ENV'' ''production'' @
     env_line ''RAILS_LOG_TO_STDOUT'' ''true'' @
     env_line ''RAILS_SERVE_STATIC_FILES'' ''true'' @
     (if tight then
        (if stat_node m b jemalloc_path \<noteq> None then env_line ''LD_PRELOAD'' jemalloc_path else []) @
        env_line ''MALLOC_ARENA_MAX'' ''2'' @
        env_line ''RUBY_GC_HEAP_INIT_SLOTS'' ''1000000'' @
        env_line ''RUBY_GC_HEAP_FREE_SLOTS'' ''500000'' @
        env_line ''WEB_CONCURRENCY'' ''1'' @
        env_line ''RAILS_MAX_THREADS'' ''1''
      else [])"

definition unit_env :: "machine \<Rightarrow> bool \<Rightarrow> box \<Rightarrow> string \<times> box" where
  "unit_env m tight b =
     (let fw = framework_of b;
          base = own_env_lines m b @ env_line ''PORT'' (itoa (framework_port fw))
      in if fw = ''rails'' then
           (let (secret, b') = persist_or_generate_secret m ''/etc/zibby/rails-secret-key-base'' b
            in (base @ rails_env_lines m tight secret b', b'))
         else (base, b))"

definition write_unit :: "machine \<Rightarrow> solo_runner \<Rightarrow> box \<Rightarrow> string option \<times> box" where
  "write_unit m r b0 =
     (let pa = ru_paths r; tight = is_micro m r b0; fw = framework_of b0; (extra, b) = unit_env m tight b0
      in and_then (errorf ''write systemd unit''
           (write_file m (pa_systemd_unit pa)
             (systemd_unit (solo_app_slug (the_spec r)) (pa_current_link pa) (pa_secrets_env pa) extra
               (framework_exec_start fw (framework_port fw) tight)) mode_public b))
         (\<lambda>b. errorf ''systemctl daemon-reload'' (call m [''systemctl'', ''daemon-reload''] b)))"

definition step_write_systemd_unit :: "machine \<Rightarrow> solo_runner \<Rightarrow> box \<Rightarrow> string option \<times> box" where
  "step_write_systemd_unit m r b =
     and_then (swap_current m r (app_dir b) b) (\<lambda>b. write_unit m r (ensure_secrets_env m r b))"

subsection \<open>Wrapper, start, health check\<close>

text \<open>The mode 0755.\<close>

abbreviation mode_executable :: nat where "mode_executable \<equiv> 493"

definition step_install_exec_wrapper :: "machine \<Rightarrow> solo_runner \<Rightarrow> box \<Rightarrow> string option \<times> box" where
  "step_install_exec_wrapper m r b0 =
     (let b = push_phase PhaseConfiguring ''exec-wrapper'' b0;
          dst = or_default (pa_exec_wrapper (ru_paths r)) ''/usr/local/bin/zibby-app-exec''
      in and_then (errorf ''mkdir exec-wrapper dir'' (mkdir_all m (filepath_dir dst) b))
        (\<lambda>b. and_then (errorf (''write exec wrapper '' @ dst)
                (write_file m dst exec_wrapper_script mode_executable b))
          (\<lambda>b. errorf (''chmod exec wrapper '' @ dst) (chmod_node m dst mode_executable b))))"

definition step_start_service :: "machine \<Rightarrow> solo_runner \<Rightarrow> box \<Rightarrow> string option \<times> box" where
  "step_start_service m r b0 =
     (let b = push_phase PhaseStarting [] b0
      in and_then (errorf ''systemctl enable'' (call m [''systemctl'', ''enable'', ''zibby-app.service''] b))
        (\<lambda>b. errorf ''systemctl restart'' (call m [''systemctl'', ''restart'', ''zibby-app.service''] b)))"

text \<open>
  One round over the endpoints: \<open>Inr\<close> when one of them answers below 400, otherwise the last
  complaint.
\<close>

definition health_endpoints :: "string list" where
  "health_endpoints = [''/healthz'', ''/health'', ''/'']"

definition health_url :: "int \<Rightarrow> string \<Rightarrow> string" where
  "health_url port ep = ''http://127.0.0.1:'' @ itoa port @ ep"

fun probe_round :: "(string \<Rightarrow> string + nat) \<Rightarrow> int \<Rightarrow> string list \<Rightarrow> string \<Rightarrow> string + unit" where
  "probe_round answer port [] last_err = Inl last_err"
| "probe_round answer port (ep # eps) last_err =
     (case answer (health_url port ep) of
        Inl e \<Rightarrow> probe_round answer port eps e
      | Inr code \<Rightarrow>
          if code < 400 then Inr ()
          else probe_round answer port eps (ep @ '' '' @ right_arrow @ '' HTTP '' @ itoa (int code)))"

text \<open>
  The loop; \<open>elapsed\<close> is the time in nanoseconds since its start. The wait at the end of a round
  takes three seconds, and whatever else the round takes comes on top.
\<close>

abbreviation health_budget :: nat where "health_budget \<equiv> 120 * 10 ^ 9"
abbreviation health_pause :: nat where "health_pause \<equiv> 3 * 10 ^ 9"

function health_loop :: "machine \<Rightarrow> int \<Rightarrow> nat \<Rightarrow> nat \<Rightarrow> string \<Rightarrow> string option" where
  "health_loop m port i elapsed last_err =
     (if health_budget \<le> elapsed
      then Some (''healthcheck timed out after 2m on port '' @ itoa port @ '' (last: '' @ last_err @ '')'')
      else case probe_round (ma_answer m i) port health_endpoints last_err of
        Inr u \<Rightarrow> None
      | Inl e \<Rightarrow>
          (case ma_cancel m i of
             Some c \<Rightarrow> Some (''healthcheck cancelled: '' @ c @ '' (last: '' @ e @ '')'')
           | None \<Rightarrow> health_loop m port (Suc i) (elapsed + health_pause + ma_delay m i) e))"
  by pat_completeness auto
termination by (relation "measure (\<lambda>(m, port, i, elapsed, last_err). health_budget - elapsed)") auto

declare health_loop.simps [simp del]

definition step_healthcheck :: "machine \<Rightarrow> solo_runner \<Rightarrow> box \<Rightarrow> string option \<times> box" where
  "step_healthcheck m r b0 =
     (let b = push_phase PhaseHealthcheck [] b0
      in (health_loop m (framework_port (framework_of b)) 0 0 [], b))"

subsection \<open>The pipeline\<close>

type_synonym step = "machine \<Rightarrow> solo_runner \<Rightarrow> box \<Rightarrow> string option \<times> box"

text \<open>\<^verbatim>\<open>withTimeout\<close>: the commands of a step run under its time limit.\<close>

definition with_timeout :: "nat \<Rightarrow> (box \<Rightarrow> string option \<times> box) \<Rightarrow> box \<Rightarrow> string option \<times> box" where
  "with_timeout minutes f b =
     (let (e, b') = f (b\<lparr>bx_limit := minutes\<rparr>) in (e, b'\<lparr>bx_limit := bx_limit b\<rparr>))"

definition pipeline :: "(string \<times> nat \<times> step) list" where
  "pipeline =
     [(''download'', 10, step_download),
      (''detect'', 1, step_detect_framework),
      (''install-os'', 15, step_install_os_deps),
      (''memory-tuning'', 5, step_memory_tuning),
      (''persistence'', 5, step_configure_persistence),
      (''install-app'', 15, step_install_app_deps),
      (''caddy'', 2, step_configure_caddy),
      (''systemd'', 2, step_write_systemd_unit),
      (''exec-wrapper'', 1, step_install_exec_wrapper),
      (''start'', 2, step_start_service),
      (''healthcheck'', 3, step_healthcheck)]"

fun run_pipeline :: "machine \<Rightarrow> solo_runner \<Rightarrow> (string \<times> nat \<times> step) list \<Rightarrow> box \<Rightarrow> string option \<times> box" where
  "run_pipeline m r [] b = (None, b)"
| "run_pipeline m r ((label, minutes, st) # rest) b =
     and_then (errorf label (with_timeout minutes (st m r) b)) (run_pipeline m r rest)"

definition run_solo :: "machine \<Rightarrow> solo_runner \<Rightarrow> box \<Rightarrow> string option \<times> box" where
  "run_solo m r b =
     (case ru_spec r of
        None \<Rightarrow> (Some ''solo: spec not loaded; call NewSoloRunner first'', b)
      | Some s \<Rightarrow>
          and_then (run_pipeline m r pipeline
              (push_phase PhaseBootstrapping
                 (''slug='' @ solo_app_slug s @ '' framework='' @ solo_framework s) b))
            (\<lambda>b. (None, push_phase PhaseRunning (''domain='' @ solo_domain s) b)))"

text \<open>The failure marker, as well as it can be written.\<close>

definition store_failed_marker :: "machine \<Rightarrow> solo_paths \<Rightarrow> string \<Rightarrow> box \<Rightarrow> string option \<times> box" where
  "store_failed_marker m pa reason b =
     (let p = pa_failed_marker pa
      in write_file m p (''failed_at='' @ ma_now m b @ [nl] @ ''reason='' @ reason @ [nl]) mode_public
           (snd (mkdir_all m (filepath_dir p) b)))"

definition write_failed_marker :: "machine \<Rightarrow> solo_paths \<Rightarrow> string \<Rightarrow> box \<Rightarrow> box" where
  "write_failed_marker m pa reason b = snd (store_failed_marker m pa reason b)"

definition run_solo_from_spec ::
  "machine \<Rightarrow> (string \<Rightarrow> string + solo_spec) \<Rightarrow> solo_paths \<Rightarrow> box \<Rightarrow> string option \<times> box" where
  "run_solo_from_spec m decode pa b =
     (if stat_node m b (pa_failed_marker pa) \<noteq> None
      then (Some ''solo: previous run terminally failed (see /var/log/zibby/agent.log)'', b)
      else case new_solo_runner m decode pa b of
        Inl e \<Rightarrow> (Some e, write_failed_marker m pa (''init: '' @ e) b)
      | Inr r \<Rightarrow>
          (case run_solo m r (b\<lparr>bx_env := Map.empty\<rparr>) of
             (None, b') \<Rightarrow> (None, b')
           | (Some e, b') \<Rightarrow> (Some e, write_failed_marker m pa e (push_phase PhaseFailed e b'))))"

subsection \<open>Sequences of steps\<close>

lemma run_pipeline_append:
  "run_pipeline m r (xs @ ys) b = and_then (run_pipeline m r xs b) (run_pipeline m r ys)"
proof (induction xs arbitrary: b)
  case (Cons x xs)
  obtain label n st where x: "x = (label, n, st)" by (cases x)
  obtain e b1 where "with_timeout n (st m r) b = (e, b1)" by fastforce
  then show ?case using x Cons by (cases e) simp_all
qed (simp add: and_then_def)

end
