(* ===== verification/SoloSample.thy ===== *)
theory SoloSample
  imports Solo
begin

text \<open>
  A concrete host and specification for the examples of \<^theory_text>\<open>SoloRun\<close> and
  \<^theory_text>\<open>SoloData\<close>, and the proof that the installation of this specification on this host
  succeeds. The generated texts are not evaluated for it.
\<close>

subsection \<open>A host for the examples\<close>

text \<open>
  A host that refuses nothing, whose commands do nothing, and whose application answers; and a
  specification of a static site from a public repository.
\<close>

definition solo_sample_machine :: machine where
  "solo_sample_machine =
     \<lparr>ma_refuse = (\<lambda>c p b. None), ma_stored = (\<lambda>p b. 0), ma_run = (\<lambda>argv b. (None, bx_nodes b)), ma_output = (\<lambda>argv b. []),
      ma_env = (\<lambda>k. []), ma_now = (\<lambda>b. ''now''), ma_rand = (\<lambda>n b. Some (replicate n 171)),
      ma_iter = (\<lambda>e. []), ma_answer = (\<lambda>i url. Inr 200), ma_delay = (\<lambda>i. 0), ma_cancel = (\<lambda>i. None)\<rparr>"

definition solo_sample_spec :: solo_spec where
  "solo_sample_spec =
     \<lparr>solo_app_slug = ''shop'',
      solo_source = \<lparr>src_type = ''github'', src_repo = ''acme/shop'', src_ref = [], src_s3_url = []\<rparr>,
      solo_framework = ''static'', solo_tier = ''small'', solo_region = [], solo_secrets = [],
      solo_domain = ''shop.example'', solo_persist = \<lparr>per_db = ''none'', per_files = ''none''\<rparr>\<rparr>"

definition solo_sample_box :: box where
  "solo_sample_box =
     \<lparr>bx_nodes =
        [(''/etc/zibby/spec.json'', FileNode ''spec'' 416), (''/etc/zibby'', DirNode), (''/etc/caddy'', DirNode),
         (''/etc/systemd/system'', DirNode), (''/usr/local/bin'', DirNode), (''/opt'', DirNode),
         (''/opt/app'', DirNode), (''/opt/app/v4'', DirNode)],
      bx_env = Map.empty, bx_limit = 0, bx_trace = []\<rparr>"

definition solo_sample_runner :: solo_runner where
  "solo_sample_runner =
     \<lparr>ru_paths = default_solo_paths, ru_spec = Some solo_sample_spec, ru_account = [], ru_deployment = [],
      ru_status_url = [], ru_phase_token = [], ru_bearer = []\<rparr>"

abbreviation solo_sample_decode :: "string \<Rightarrow> string + solo_spec" where
  "solo_sample_decode \<equiv> (\<lambda>body. if body = ''spec'' then Inr solo_sample_spec else Inl ''bad'')"

lemma sample_call: "call solo_sample_machine argv b = (None, b\<lparr>bx_trace := bx_trace b @ [Ran argv]\<rparr>)"
  by (simp add: call_def solo_sample_machine_def)

lemma sample_refuse [simp]: "ma_refuse solo_sample_machine c p b = None"
  by (simp add: solo_sample_machine_def)

text \<open>On this host a write succeeds wherever there is a directory and no link.\<close>

lemma sample_write:
  assumes "node_at (bx_nodes b) (filepath_dir p) = Some DirNode"
    and "node_at (bx_nodes b) p = None \<or> (\<exists>c k. node_at (bx_nodes b) p = Some (FileNode c k))"
  shows "\<exists>k. write_file solo_sample_machine p body md b = (None, set_node p (FileNode body k) b)"
proof -
  have "follow_links (bx_nodes b) p = Some p"
    using assms(2) unfolding follow_links_def by (intro follow_plain) auto
  then show ?thesis
    using assms by (auto simp: write_file_def solo_sample_machine_def Let_def)
qed

lemma sample_mkdir: "node_at (bx_nodes b) p = Some DirNode \<Longrightarrow> mkdir_all solo_sample_machine p b = (None, b)"
  by (simp add: mkdir_all_def stat_node_def solo_sample_machine_def follow_links_def follow_plain)

text \<open>The box before the unit is written, and before the wrapper is.\<close>

definition wrapper_ready :: "box \<Rightarrow> bool" where
  "wrapper_ready b \<longleftrightarrow>
     bx_env b ''ZIBBY_FRAMEWORK'' = Some ''static'' \<and>
     node_at (bx_nodes b) ''/usr/local/bin'' = Some DirNode \<and>
     node_at (bx_nodes b) ''/usr/local/bin/zibby-app-exec'' = None"

definition unit_ready :: "box \<Rightarrow> bool" where
  "unit_ready b \<longleftrightarrow> wrapper_ready b \<and>
     node_at (bx_nodes b) ''/etc/zibby'' = Some DirNode \<and>
     node_at (bx_nodes b) ''/etc/systemd/system'' = Some DirNode \<and>
     node_at (bx_nodes b) ''/opt/app'' = Some DirNode \<and>
     node_at (bx_nodes b) ''/etc/systemd/system/zibby-app.service'' = None \<and>
     node_at (bx_nodes b) ''/etc/zibby/secrets.env'' = None \<and>
     node_at (bx_nodes b) ''/opt/app/current'' = None \<and>
     node_at (bx_nodes b) ''/opt/app/current.new'' = None"

lemma sample_dirs:
  "filepath_dir ''/etc/caddy/Caddyfile'' = ''/etc/caddy''"
  "filepath_dir ''/etc/systemd/system/zibby-app.service'' = ''/etc/systemd/system''"
  "filepath_dir ''/usr/local/bin/zibby-app-exec'' = ''/usr/local/bin''"
  "filepath_dir ''/etc/zibby/secrets.env'' = ''/etc/zibby''"
  "filepath_dir ''/opt/app/current.new'' = ''/opt/app''"
  by code_simp+

definition caddy_ready :: "box \<Rightarrow> bool" where
  "caddy_ready b \<longleftrightarrow> unit_ready b \<and>
     node_at (bx_nodes b) ''/etc/caddy'' = Some DirNode \<and>
     node_at (bx_nodes b) ''/etc/caddy/Caddyfile'' = None"

lemma sample_front:
  "case run_pipeline solo_sample_machine solo_sample_runner (take 6 pipeline)
      (push_phase PhaseBootstrapping ''slug=shop framework=static'' (solo_sample_box\<lparr>bx_env := Map.empty\<rparr>)) of
     (e, b) \<Rightarrow> e = None \<and> caddy_ready b"
  by code_simp

lemma sample_paths:
  "pa_current_link (ru_paths solo_sample_runner) = ''/opt/app/current''"
  "pa_secrets_env (ru_paths solo_sample_runner) = ''/etc/zibby/secrets.env''"
  "pa_systemd_unit (ru_paths solo_sample_runner) = ''/etc/systemd/system/zibby-app.service''"
  "pa_exec_wrapper (ru_paths solo_sample_runner) = ''/usr/local/bin/zibby-app-exec''"
  by (simp_all add: solo_sample_runner_def default_solo_paths_def)

lemma sample_swap:
  assumes "unit_ready b"
  shows "\<exists>b'. swap_current solo_sample_machine solo_sample_runner dir b = (None, b') \<and> bx_env b' = bx_env b \<and>
    (\<forall>p. p \<noteq> ''/opt/app/current'' \<longrightarrow> node_at (bx_nodes b') p = node_at (bx_nodes b) p)"
  using assms
  by (simp add: swap_current_def Let_def sample_paths remove_node_def symlink_node_def rename_node_def
      unit_ready_def sample_dirs set_node_def)


lemma sample_caddy:
  assumes "caddy_ready b"
  shows "\<exists>b'. step_configure_caddy solo_sample_machine solo_sample_runner b = (None, b') \<and> unit_ready b'"
proof -
  have dirs: "node_at (bx_nodes b) (filepath_dir ''/etc/caddy/Caddyfile'') = Some DirNode"
    "node_at (bx_nodes b) ''/etc/caddy/Caddyfile'' = None"
    using assms by (simp_all add: caddy_ready_def sample_dirs)
  have path: "pa_caddyfile (ru_paths solo_sample_runner) = ''/etc/caddy/Caddyfile''"
    by (simp add: solo_sample_runner_def default_solo_paths_def)
  obtain k where "write_file solo_sample_machine ''/etc/caddy/Caddyfile''
      (caddyfile (acme_directory solo_sample_machine) (site_domain (the_spec solo_sample_runner))
        (framework_port (framework_of b))) mode_public b =
      (None, set_node ''/etc/caddy/Caddyfile'' (FileNode (caddyfile (acme_directory solo_sample_machine)
        (site_domain (the_spec solo_sample_runner)) (framework_port (framework_of b))) k) b)"
    using sample_write dirs by blast
  with assms show ?thesis
    by (simp add: step_configure_caddy_def path sample_call caddy_ready_def unit_ready_def wrapper_ready_def set_node_def)
qed

lemma sample_secrets:
  assumes "node_at (bx_nodes b) ''/etc/zibby'' = Some DirNode" and "node_at (bx_nodes b) ''/etc/zibby/secrets.env'' = None"
  shows "\<exists>n. ensure_secrets_env solo_sample_machine solo_sample_runner b = set_node ''/etc/zibby/secrets.env'' n b"
proof -
  have "stat_node solo_sample_machine b ''/etc/zibby/secrets.env'' = None"
    using assms(2) by (simp add: stat_node_def follow_links_def follow_plain)
  moreover obtain k where "write_file solo_sample_machine ''/etc/zibby/secrets.env''
      (''# zibby secrets (populated by cloud-init)'' @ [nl]) mode_private b =
      (None, set_node ''/etc/zibby/secrets.env'' (FileNode (''# zibby secrets (populated by cloud-init)'' @ [nl]) k) b)"
    using sample_write [of b "''/etc/zibby/secrets.env''"] assms by (auto simp: sample_dirs)
  ultimately show ?thesis
    using assms(1) by (auto simp: ensure_secrets_env_def Let_def sample_paths sample_dirs sample_mkdir)
qed

lemma sample_unit:
  assumes "unit_ready b"
  shows "\<exists>b'. step_write_systemd_unit solo_sample_machine solo_sample_runner b = (None, b') \<and> wrapper_ready b'"
proof -
  obtain b1 where swap: "swap_current solo_sample_machine solo_sample_runner (app_dir b) b = (None, b1)"
    and b1: "bx_env b1 = bx_env b"
      "\<And>p. p \<noteq> ''/opt/app/current'' \<Longrightarrow> node_at (bx_nodes b1) p = node_at (bx_nodes b) p"
    using sample_swap [OF assms] by blast
  obtain n where sec: "ensure_secrets_env solo_sample_machine solo_sample_runner b1 = set_node ''/etc/zibby/secrets.env'' n b1"
    using sample_secrets [of b1] assms b1(2) by (auto simp: unit_ready_def)
  let ?b = "set_node ''/etc/zibby/secrets.env'' n b1"
  have fw: "framework_of ?b = ''static''"
    using assms b1(1) by (simp add: unit_ready_def wrapper_ready_def env_get_def set_node_def)
  then obtain extra where env: "\<And>tight. unit_env solo_sample_machine tight ?b = (extra, ?b)"
    by (simp add: unit_env_def)
  have "\<exists>k. write_file solo_sample_machine ''/etc/systemd/system/zibby-app.service'' body mode_public ?b =
      (None, set_node ''/etc/systemd/system/zibby-app.service'' (FileNode body k) ?b)" for body
    using assms b1(2) by (intro sample_write) (simp_all add: sample_dirs unit_ready_def)
  then obtain k where "write_file solo_sample_machine ''/etc/systemd/system/zibby-app.service''
      (systemd_unit (solo_app_slug (the_spec solo_sample_runner)) ''/opt/app/current'' ''/etc/zibby/secrets.env'' extra
         (framework_exec_start ''static'' (framework_port ''static'') (is_micro solo_sample_machine solo_sample_runner ?b)))
      mode_public ?b = (None, set_node ''/etc/systemd/system/zibby-app.service'' (FileNode
      (systemd_unit (solo_app_slug (the_spec solo_sample_runner)) ''/opt/app/current'' ''/etc/zibby/secrets.env'' extra
         (framework_exec_start ''static'' (framework_port ''static'') (is_micro solo_sample_machine solo_sample_runner ?b))) k) ?b)"
    by blast
  then have "\<exists>nd t. write_unit solo_sample_machine solo_sample_runner ?b =
      (None, (set_node ''/etc/systemd/system/zibby-app.service'' nd ?b)\<lparr>bx_trace := t\<rparr>)"
    unfolding write_unit_def Let_def sample_paths env fw prod.case
    by (simp only: errorf_simps and_then_simps sample_call) blast
  then show ?thesis
    using assms b1 swap sec
    by (auto simp: step_write_systemd_unit_def wrapper_ready_def unit_ready_def set_node_def)
qed

lemma sample_wrapper:
  assumes "wrapper_ready b"
  shows "\<exists>b'. step_install_exec_wrapper solo_sample_machine solo_sample_runner b = (None, b') \<and>
    bx_env b' ''ZIBBY_FRAMEWORK'' = Some ''static''"
proof -
  let ?p = "''/usr/local/bin/zibby-app-exec''"
  let ?b = "push_phase PhaseConfiguring ''exec-wrapper'' b"
  have b: "node_at (bx_nodes ?b) ''/usr/local/bin'' = Some DirNode" "node_at (bx_nodes ?b) ?p = None"
    using assms by (simp_all add: wrapper_ready_def push_phase_def)
  have dst: "or_default (pa_exec_wrapper (ru_paths solo_sample_runner)) d = ?p" for d
    by (simp add: sample_paths or_default_def)
  obtain k where w: "write_file solo_sample_machine ?p exec_wrapper_script mode_executable ?b =
      (None, set_node ?p (FileNode exec_wrapper_script k) ?b)"
    using sample_write [of ?b ?p] b by (auto simp: sample_dirs)
  let ?b1 = "set_node ?p (FileNode exec_wrapper_script k) ?b"
  have "follow_links (bx_nodes ?b1) ?p = Some ?p"
    unfolding follow_links_def by (rule follow_plain) simp
  then have "chmod_node solo_sample_machine ?p mode_executable ?b1 =
      (None, set_node ?p (FileNode exec_wrapper_script mode_executable) ?b1)"
    by (simp add: chmod_node_def)
  then show ?thesis
    using assms sample_mkdir [OF b(1)] w
    by (simp add: step_install_exec_wrapper_def Let_def dst sample_dirs wrapper_ready_def set_node_def push_phase_def)
qed

lemma sample_health:
  "step_healthcheck solo_sample_machine r b = (None, push_phase PhaseHealthcheck [] b)"
  by (simp add: step_healthcheck_def health_loop.simps solo_sample_machine_def health_endpoints_def)

lemma with_timeout_run: "f (b\<lparr>bx_limit := n\<rparr>) = (e, b1) \<Longrightarrow> with_timeout n f b = (e, b1\<lparr>bx_limit := bx_limit b\<rparr>)"
  by (simp add: with_timeout_def)

lemma sample_step:
  assumes "\<And>b. P b \<Longrightarrow> \<exists>b'. st m r b = (None, b') \<and> Q b'"
    and "\<And>b k. P (b\<lparr>bx_limit := k\<rparr>) = P b" and "\<And>b k. Q (b\<lparr>bx_limit := k\<rparr>) = Q b"
    and "P b" and "\<And>b. Q b \<Longrightarrow> \<exists>b'. run_pipeline m r rest b = (None, b')"
  shows "\<exists>b'. run_pipeline m r ((label, n, st) # rest) b = (None, b')"
proof -
  obtain b1 where "st m r (b\<lparr>bx_limit := n\<rparr>) = (None, b1)" "Q b1" using assms(1,2,4) by metis
  then show ?thesis using assms(3,5) by (simp add: with_timeout_run)
qed

lemma ready_limit:
  "wrapper_ready (b\<lparr>bx_limit := k\<rparr>) = wrapper_ready b" "unit_ready (b\<lparr>bx_limit := k\<rparr>) = unit_ready b"
  "caddy_ready (b\<lparr>bx_limit := k\<rparr>) = caddy_ready b"
  by (simp_all add: wrapper_ready_def unit_ready_def caddy_ready_def)

lemma sample_pipeline:
  "\<exists>b'. run_pipeline solo_sample_machine solo_sample_runner pipeline
     (push_phase PhaseBootstrapping ''slug=shop framework=static'' (solo_sample_box\<lparr>bx_env := Map.empty\<rparr>)) = (None, b')"
  (is "\<exists>b'. run_pipeline ?m ?r _ ?b = _")
proof -
  have split: "pipeline = take 6 pipeline @
      [(''caddy'', 2, step_configure_caddy), (''systemd'', 2, step_write_systemd_unit),
       (''exec-wrapper'', 1, step_install_exec_wrapper), (''start'', 2, step_start_service),
       (''healthcheck'', 3, step_healthcheck)]"
    by (simp add: pipeline_def)
  obtain b1 where b1: "run_pipeline ?m ?r (take 6 pipeline) ?b = (None, b1)" "caddy_ready b1"
    using sample_front by (auto split: prod.splits)
  have "\<exists>b'. run_pipeline ?m ?r
      [(''caddy'', 2, step_configure_caddy), (''systemd'', 2, step_write_systemd_unit),
       (''exec-wrapper'', 1, step_install_exec_wrapper), (''start'', 2, step_start_service),
       (''healthcheck'', 3, step_healthcheck)] b1 = (None, b')"
  proof (rule sample_step [where P = caddy_ready and Q = unit_ready])
    fix b2 assume "unit_ready b2"
    then show "\<exists>b'. run_pipeline ?m ?r
      [(''systemd'', 2, step_write_systemd_unit), (''exec-wrapper'', 1, step_install_exec_wrapper),
       (''start'', 2, step_start_service), (''healthcheck'', 3, step_healthcheck)] b2 = (None, b')"
    proof (rule sample_step [where Q = wrapper_ready, rotated 3])
      fix b3 assume "wrapper_ready b3"
      then obtain b4 where "step_install_exec_wrapper ?m ?r (b3\<lparr>bx_limit := 1\<rparr>) = (None, b4)"
        using sample_wrapper [of "b3\<lparr>bx_limit := 1\<rparr>"] by (auto simp: ready_limit)
      then show "\<exists>b'. run_pipeline ?m ?r
        [(''exec-wrapper'', 1, step_install_exec_wrapper), (''start'', 2, step_start_service),
         (''healthcheck'', 3, step_healthcheck)] b3 = (None, b')"
        by (simp add: with_timeout_def step_start_service_def sample_call sample_health Let_def)
    qed (simp_all add: sample_unit ready_limit)
  qed (simp_all add: sample_caddy ready_limit b1(2))
  then show ?thesis
    using b1(1) run_pipeline_append [of ?m ?r "take 6 pipeline"] split by (metis and_then_simps(2))
qed

lemma sample_loaded:
  "new_solo_runner solo_sample_machine solo_sample_decode default_solo_paths solo_sample_box = Inr solo_sample_runner"
  by code_simp

lemma sample_unmarked:
  "stat_node solo_sample_machine solo_sample_box (pa_failed_marker default_solo_paths) = None"
  by code_simp

lemma sample_succeeds:
  "\<exists>b'. run_solo_from_spec solo_sample_machine solo_sample_decode default_solo_paths solo_sample_box = (None, b')"
proof -
  have spec: "ru_spec solo_sample_runner = Some solo_sample_spec"
    and texts: "''slug='' @ solo_app_slug solo_sample_spec @ '' framework='' @ solo_framework solo_sample_spec =
      ''slug=shop framework=static''"
    by (simp_all add: solo_sample_runner_def solo_sample_spec_def)
  have "\<exists>b'. run_solo solo_sample_machine solo_sample_runner (solo_sample_box\<lparr>bx_env := Map.empty\<rparr>) = (None, b')"
    using sample_pipeline unfolding run_solo_def spec option.case texts by (elim exE) simp
  then show ?thesis
    unfolding run_solo_from_spec_def sample_unmarked sample_loaded by auto
qed

end
