(* ===== verification/SoloRun.thy ===== *)
theory SoloRun
  imports SoloSample
begin

text \<open>
  What the installer of \<^theory_text>\<open>Solo\<close> guarantees of a whole run: the phases it reports, the
  outcome, the failure marker, the version directories, the data it never overwrites and the files
  it leaves behind. The locale \<open>observer\<close> is what a part of the box has to promise so that no
  system call and no command changes it.
\<close>

subsection \<open>Parts of the box that only the installer itself changes\<close>

locale observer =
  fixes K :: "box \<Rightarrow> 'k"
  assumes K_nodes: "K (b\<lparr>bx_nodes := ns\<rparr>) = K b"
    and K_ran: "K (b\<lparr>bx_nodes := ns, bx_trace := bx_trace b @ [Ran a]\<rparr>) = K b"
begin

lemma K_call: "K (snd (call m a b)) = K b"
  by (simp add: call_def split_beta K_ran)

lemma K_set_node: "K (set_node p n b) = K b"
  by (simp add: set_node_def K_nodes)

lemma K_write_file: "K (snd (write_file m p c md b)) = K b"
  by (auto simp: write_file_def K_set_node Let_def split: option.split node.split)

lemma K_mkdir_all: "K (snd (mkdir_all m p b)) = K b"
  by (auto simp: mkdir_all_def K_nodes split: option.split)

lemma K_remove_node: "K (snd (remove_node m p b)) = K b"
  by (auto simp: remove_node_def K_nodes split: option.split)

lemma K_symlink_node: "K (snd (symlink_node m t p b)) = K b"
  by (auto simp: symlink_node_def K_set_node split: option.split)

lemma K_rename_node: "K (snd (rename_node m p q b)) = K b"
  by (auto simp: rename_node_def K_nodes split: option.split)

lemma K_chmod_node: "K (snd (chmod_node m p md b)) = K b"
  by (auto simp: chmod_node_def K_set_node split: option.split node.split)

lemmas K_basic = K_call K_write_file K_mkdir_all K_remove_node K_symlink_node K_rename_node K_chmod_node

lemma K_and_then:
  "K (snd r) = k \<Longrightarrow> (\<And>b. K b = k \<Longrightarrow> K (snd (f b)) = k) \<Longrightarrow> K (snd (and_then r f)) = k"
  by (cases r) (auto simp: and_then_def split: option.splits)

lemma K_fetch_source: "K (snd (fetch_source m src dir b)) = K b"
  by (auto simp: fetch_source_def Let_def K_basic intro!: K_and_then)

lemma K_rails_micro: "K (rails_micro m r dir b) = K b"
  by (auto simp: rails_micro_def write_micro_puma_config_def Let_def K_basic intro!: K_and_then)

lemma K_rails_deps: "K (snd (rails_deps m r dir b)) = K b"
  by (auto simp: rails_deps_def Let_def K_basic K_rails_micro intro!: K_and_then)

lemma K_restore_first: "K (snd (restore_first m last_err cs b)) = K b"
proof (induction m last_err cs b rule: restore_first.induct)
  case (2 m last_err path replica cs b)
  obtain e b' where call: "call m [''litestream'', ''restore'', ''-o'', path, replica]
      (snd (mkdir_all m (filepath_dir path) b)) = (e, b')"
    by fastforce
  then have "K b' = K b" using K_call K_mkdir_all by (metis snd_conv)
  then show ?case using 2 call by (auto simp: K_basic split: option.split)
qed simp

lemma K_litestream_setup: "K (snd (litestream_setup m r b)) = K b"
  by (auto simp: litestream_setup_def install_litestream_def write_litestream_config_def
      maybe_restore_def Let_def K_basic K_restore_first intro!: K_and_then)

lemma K_swap_current: "K (snd (swap_current m r dir b)) = K b"
  by (auto simp: swap_current_def Let_def K_basic intro!: K_and_then)

lemma K_ensure_secrets_env: "K (ensure_secrets_env m r b) = K b"
  by (simp add: ensure_secrets_env_def Let_def K_basic)

lemma K_persist_secret: "K (snd (persist_or_generate_secret m path b)) = K b"
  by (simp add: persist_or_generate_secret_def Let_def K_basic split: option.split)

lemma K_write_unit: "K (snd (write_unit m r b)) = K b"
  by (auto simp: write_unit_def unit_env_def Let_def split_beta K_basic K_persist_secret intro!: K_and_then)

lemma K_write_failed_marker: "K (write_failed_marker m pa reason b) = K b"
  by (simp add: write_failed_marker_def store_failed_marker_def Let_def K_basic)

lemmas K_parts = K_basic K_fetch_source K_rails_micro K_rails_deps K_litestream_setup
  K_swap_current K_ensure_secrets_env K_persist_secret K_write_unit K_write_failed_marker

end

fun phases_in :: "event list \<Rightarrow> solo_phase list" where
  "phases_in [] = []"
| "phases_in (Phase p d # es) = p # phases_in es"
| "phases_in (Ran a # es) = phases_in es"

definition announced :: "box \<Rightarrow> solo_phase list" where
  "announced b = phases_in (bx_trace b)"

lemma phases_in_append [simp]: "phases_in (xs @ ys) = phases_in xs @ phases_in ys"
  by (induction xs rule: phases_in.induct) auto

interpretation phases: observer announced
  by unfold_locales (simp_all add: announced_def)

interpretation vars: observer bx_env
  by unfold_locales simp_all

interpretation limit: observer bx_limit
  by unfold_locales simp_all

subsection \<open>The phases of the steps\<close>

lemma announced_simps [simp]:
  "announced (push_phase p d b) = announced b @ [p]"
  "announced (env_set k v b) = announced b"
  "announced (b\<lparr>bx_limit := n\<rparr>) = announced b"
  "announced (b\<lparr>bx_env := e\<rparr>) = announced b"
  by (simp_all add: announced_def push_phase_def env_set_def)

lemma announced_with_timeout:
  "announced (snd (f (b\<lparr>bx_limit := n\<rparr>))) = X \<Longrightarrow> announced (snd (with_timeout n f b)) = X"
  by (simp add: with_timeout_def split_beta)

text \<open>The phase a step reports first, if it reports one.\<close>

definition step_phase :: "machine \<Rightarrow> solo_runner \<Rightarrow> box \<Rightarrow> string \<Rightarrow> solo_phase list" where
  "step_phase m r b label =
     (if label = ''download'' then [PhaseDownloading]
      else if label = ''install-os'' \<or> label = ''install-app'' then [PhaseInstalling]
      else if label = ''memory-tuning'' then (if is_micro m r b then [PhaseInstalling] else [])
      else if label = ''persistence'' \<or> label = ''exec-wrapper'' then [PhaseConfiguring]
      else if label = ''start'' then [PhaseStarting]
      else if label = ''healthcheck'' then [PhaseHealthcheck]
      else [])"

lemma announced_download:
  "announced (snd (step_download m r b)) = announced b @ [PhaseDownloading]"
  by (simp add: step_download_def Let_def, intro phases.K_and_then) (simp_all add: phases.K_parts)

lemma announced_detect: "announced (snd (step_detect_framework m r b)) = announced b"
  by (simp add: step_detect_framework_def Let_def)

lemma announced_os_deps:
  "announced (snd (step_install_os_deps m r b)) = announced b @ [PhaseInstalling]"
  by (simp add: step_install_os_deps_def Let_def phases.K_parts)

lemma announced_memory:
  "announced (snd (step_memory_tuning m r b)) = announced b @ (if is_micro m r b then [PhaseInstalling] else [])"
  by (simp add: step_memory_tuning_def Let_def phases.K_parts)

lemma announced_persistence:
  "announced (snd (step_configure_persistence m r b)) = announced b @ [PhaseConfiguring]"
  unfolding step_configure_persistence_def Let_def
  apply (rule phases.K_and_then)
   apply (simp add: phases.K_parts)
  apply (simp only: snd_conv if_distrib [of announced] announced_simps)
  apply simp
  done

lemma announced_app_deps:
  "announced (snd (step_install_app_deps m r b)) = announced b @ [PhaseInstalling]"
proof (cases "framework_of (push_phase PhaseInstalling ''app-deps'' b) = ''rails''")
  case False
  then show ?thesis
    by (cases "map_of install_commands (framework_of (push_phase PhaseInstalling ''app-deps'' b))")
      (simp_all only: step_install_app_deps_def Let_def if_False option.case snd_conv announced_simps
        split_beta errorf_simps phases.K_parts)
qed (simp add: step_install_app_deps_def Let_def phases.K_parts)

lemma announced_caddy: "announced (snd (step_configure_caddy m r b)) = announced b"
  by (simp add: step_configure_caddy_def, intro phases.K_and_then) (simp_all add: phases.K_parts)

lemma announced_unit: "announced (snd (step_write_systemd_unit m r b)) = announced b"
  by (simp add: step_write_systemd_unit_def, intro phases.K_and_then) (simp_all add: phases.K_parts)

lemma announced_wrapper:
  "announced (snd (step_install_exec_wrapper m r b)) = announced b @ [PhaseConfiguring]"
  by (simp add: step_install_exec_wrapper_def Let_def, intro phases.K_and_then)
    (simp_all add: phases.K_parts)

lemma announced_start:
  "announced (snd (step_start_service m r b)) = announced b @ [PhaseStarting]"
  by (simp add: step_start_service_def Let_def, intro phases.K_and_then) (simp_all add: phases.K_parts)

lemma announced_health: "announced (snd (step_healthcheck m r b)) = announced b @ [PhaseHealthcheck]"
  by (simp add: step_healthcheck_def Let_def)

lemmas announced_steps = announced_download announced_detect announced_os_deps announced_memory
  announced_persistence announced_app_deps announced_caddy announced_unit announced_wrapper
  announced_start announced_health

lemma announced_step:
  assumes "(label, n, st) \<in> set pipeline"
  shows "announced (snd (st m r b)) = announced b @ step_phase m r b label"
proof -
  have "list_all (\<lambda>(label, n, st). \<forall>b. announced (snd (st m r b)) = announced b @ step_phase m r b label) pipeline"
    by (simp add: pipeline_def announced_steps step_phase_def)
  then show ?thesis using assms by (auto simp: list_all_iff)
qed

subsection \<open>The phases of a run\<close>

text \<open>What a step reports, when the box is or is not short of memory.\<close>

definition label_phases :: "bool \<Rightarrow> string \<Rightarrow> solo_phase list" where
  "label_phases tight label =
     (if label = ''download'' then [PhaseDownloading]
      else if label = ''install-os'' \<or> label = ''install-app'' then [PhaseInstalling]
      else if label = ''memory-tuning'' then (if tight then [PhaseInstalling] else [])
      else if label = ''persistence'' \<or> label = ''exec-wrapper'' then [PhaseConfiguring]
      else if label = ''start'' then [PhaseStarting]
      else if label = ''healthcheck'' then [PhaseHealthcheck]
      else [])"

lemma step_phase_label: "step_phase m r b label = label_phases (is_micro m r b) label"
  by (simp add: step_phase_def label_phases_def)

lemma label_phases_other: "label \<noteq> ''memory-tuning'' \<Longrightarrow> label_phases t label = label_phases t' label"
  by (simp add: label_phases_def)

lemma with_timeout_fst: "fst (with_timeout n f b) = fst (f (b\<lparr>bx_limit := n\<rparr>))"
  by (simp add: with_timeout_def split_beta)

lemma announced_timed_step:
  assumes "(label, n, st) \<in> set pipeline"
  shows "\<exists>t. announced (snd (with_timeout n (st m r) b)) = announced b @ label_phases t label"
  using announced_step [OF assms] by (auto simp: with_timeout_def split_beta step_phase_label)

lemma run_pipeline_phases:
  assumes "set ps \<subseteq> set pipeline" and "distinct (map fst ps)"
  shows "\<exists>tight k. k \<le> length ps \<and> (fst (run_pipeline m r ps b) = None \<longrightarrow> k = length ps) \<and>
     announced (snd (run_pipeline m r ps b)) =
       announced b @ concat (map (label_phases tight \<circ> fst) (take k ps))"
  using assms
proof (induction ps arbitrary: b)
  case Nil
  then show ?case by simp
next
  case (Cons p ps)
  obtain label n st where p: "p = (label, n, st)" by (cases p)
  then have mem: "(label, n, st) \<in> set pipeline" and new: "label \<notin> fst ` set ps"
    using Cons.prems by auto
  obtain e b1 where run: "with_timeout n (st m r) b = (e, b1)" by fastforce
  then obtain t where ann: "announced b1 = announced b @ label_phases t label"
    using announced_timed_step [OF mem, of m r b] by auto
  show ?case
  proof (cases e)
    case (Some x)
    then show ?thesis
      using p run ann by (intro exI [of _ t] exI [of _ 1]) simp
  next
    case None
    have sub: "set ps \<subseteq> set pipeline" "distinct (map fst ps)" using Cons.prems by simp_all
    obtain tight k where IH: "k \<le> length ps"
      "fst (run_pipeline m r ps b1) = None \<longrightarrow> k = length ps"
      "announced (snd (run_pipeline m r ps b1)) =
         announced b1 @ concat (map (label_phases tight \<circ> fst) (take k ps))"
      using Cons.IH [OF sub, of b1] by (elim exE conjE) (rule that)
    define u where "u = (if label = ''memory-tuning'' then t else tight)"
    have "label_phases u label = label_phases t label"
      by (cases "label = ''memory-tuning''") (simp_all add: u_def label_phases_other [of label tight t])
    moreover have "map (label_phases u \<circ> fst) (take k ps) = map (label_phases tight \<circ> fst) (take k ps)"
    proof (rule map_cong [OF refl])
      fix q assume "q \<in> set (take k ps)"
      then have "fst q \<noteq> label" using new in_set_takeD by fastforce
      then show "(label_phases u \<circ> fst) q = (label_phases tight \<circ> fst) q"
        by (cases "label = ''memory-tuning''") (simp_all add: u_def label_phases_other [of "fst q" t tight])
    qed
    ultimately show ?thesis
      using p run None ann IH by (intro exI [of _ u] exI [of _ "Suc k"]) (simp cong: map_cong)
  qed
qed

text \<open>The phases of a complete installation, up to the health check.\<close>

definition install_phases :: "bool \<Rightarrow> solo_phase list" where
  "install_phases tight =
     [PhaseBootstrapping, PhaseDownloading, PhaseInstalling] @
     (if tight then [PhaseInstalling] else []) @
     [PhaseConfiguring, PhaseInstalling, PhaseConfiguring, PhaseStarting, PhaseHealthcheck]"

lemma pipeline_labels: "distinct (map fst pipeline)"
  by (simp add: pipeline_def)

lemma pipeline_phases:
  "install_phases tight = PhaseBootstrapping # concat (map (label_phases tight \<circ> fst) pipeline)"
  by (simp add: pipeline_def install_phases_def label_phases_def)

lemma prefix_concat_take: "prefix (concat (map f (take k xs))) (concat (map f xs))"
  by (metis append_take_drop_id concat_append map_append prefixI)

lemma run_solo_phases:
  assumes "ru_spec r \<noteq> None" and "announced b = []"
  shows "\<exists>tight. if fst (run_solo m r b) = None
      then announced (snd (run_solo m r b)) = install_phases tight @ [PhaseRunning]
      else prefix (announced (snd (run_solo m r b))) (install_phases tight)"
proof -
  obtain s where s: "ru_spec r = Some s" using assms(1) by auto
  define b0 where "b0 = push_phase PhaseBootstrapping
    (''slug='' @ solo_app_slug s @ '' framework='' @ solo_framework s) b"
  have b0: "announced b0 = [PhaseBootstrapping]" by (simp add: b0_def assms(2))
  obtain e b1 where run: "run_pipeline m r pipeline b0 = (e, b1)" by fastforce
  obtain tight k where p: "e = None \<longrightarrow> k = length pipeline"
    "announced b1 = [PhaseBootstrapping] @ concat (map (label_phases tight \<circ> fst) (take k pipeline))"
    using run_pipeline_phases [OF subset_refl pipeline_labels, of m r b0] by (auto simp: run b0)
  show ?thesis
  proof (cases e)
    case None
    then have "run_solo m r b = (None, push_phase PhaseRunning (''domain='' @ solo_domain s) b1)"
      using s run by (simp add: run_solo_def b0_def)
    with None p show ?thesis
      by (intro exI [of _ tight]) (simp add: pipeline_phases)
  next
    case (Some x)
    then have "run_solo m r b = (Some x, b1)"
      using s run by (simp add: run_solo_def b0_def)
    with p prefix_concat_take show ?thesis
      by (intro exI [of _ tight]) (simp add: pipeline_phases)
  qed
qed

lemma trace_write_file [simp]: "bx_trace (snd (write_file m p c md b)) = bx_trace b"
  by (auto simp: write_file_def set_node_def Let_def split: option.split node.split)

lemma trace_mkdir_all [simp]: "bx_trace (snd (mkdir_all m p b)) = bx_trace b"
  by (auto simp: mkdir_all_def split: option.split)

lemma trace_write_failed_marker [simp]: "bx_trace (write_failed_marker m pa reason b) = bx_trace b"
  by (simp add: write_failed_marker_def store_failed_marker_def Let_def)

lemma new_solo_runner_spec:
  "new_solo_runner m decode pa b = Inr r \<Longrightarrow> ru_spec r \<noteq> None"
  by (auto simp: new_solo_runner_def load_runner_def map_sum.simps split: sum.splits)

text \<open>
  C9: the phases tell the outcome. An installation that starts reports the phases of the pipeline
  in their order; it ends with \<^verbatim>\<open>running\<close> exactly if it succeeded, after all the
  others, and otherwise with one \<^verbatim>\<open>failed\<close> that carries the error it returns, after a
  part of them.
\<close>

theorem phases_tell_outcome:
  assumes start: "bx_trace b = []" "stat_node m b (pa_failed_marker pa) = None"
    and loaded: "new_solo_runner m decode pa b = Inr r"
  shows "\<exists>tight. case run_solo_from_spec m decode pa b of
       (None, b') \<Rightarrow> announced b' = install_phases tight @ [PhaseRunning]
     | (Some e, b') \<Rightarrow> \<exists>es. bx_trace b' = es @ [Phase PhaseFailed e] \<and> prefix (phases_in es) (install_phases tight)"
proof -
  define b0 where "b0 = b\<lparr>bx_env := Map.empty\<rparr>"
  have "announced b0 = []" by (simp add: b0_def announced_def start)
  then obtain tight where t: "if fst (run_solo m r b0) = None
      then announced (snd (run_solo m r b0)) = install_phases tight @ [PhaseRunning]
      else prefix (announced (snd (run_solo m r b0))) (install_phases tight)"
    using run_solo_phases new_solo_runner_spec [OF loaded] by blast
  obtain e b1 where run: "run_solo m r b0 = (e, b1)" by fastforce
  show ?thesis
  proof (cases e)
    case None
    then show ?thesis
      using t run start loaded by (intro exI [of _ tight]) (simp add: run_solo_from_spec_def b0_def)
  next
    case (Some x)
    then have "run_solo_from_spec m decode pa b =
        (Some x, write_failed_marker m pa x (push_phase PhaseFailed x b1))"
      using run start loaded by (simp add: run_solo_from_spec_def b0_def)
    moreover have "prefix (phases_in (bx_trace b1)) (install_phases tight)"
      using t run Some by (simp add: announced_def)
    ultimately show ?thesis
      by (intro exI [of _ tight]) (simp add: push_phase_def)
  qed
qed

lemma phases_tell_outcome_witness:
  "\<exists>tight b'. run_solo_from_spec solo_sample_machine solo_sample_decode default_solo_paths solo_sample_box = (None, b') \<and>
     announced b' = install_phases tight @ [PhaseRunning]"
proof -
  have "bx_trace solo_sample_box = []" by (simp add: solo_sample_box_def)
  then show ?thesis
    using phases_tell_outcome [OF _ sample_unmarked sample_loaded] sample_succeeds by fastforce
qed

subsection \<open>The health check\<close>

definition round_ok :: "machine \<Rightarrow> int \<Rightarrow> nat \<Rightarrow> bool" where
  "round_ok m port i \<longleftrightarrow>
     (\<exists>ep \<in> set health_endpoints. \<exists>code < 400. ma_answer m i (health_url port ep) = Inr code)"

definition round_start :: "machine \<Rightarrow> nat \<Rightarrow> nat" where
  "round_start m i = (\<Sum>j < i. health_pause + ma_delay m j)"

lemma probe_round_Inr:
  "probe_round answer port eps last_err = Inr () \<longleftrightarrow>
     (\<exists>ep \<in> set eps. \<exists>code < 400. answer (health_url port ep) = Inr code)"
  by (induction eps arbitrary: last_err) (auto split: sum.split)

lemma round_start_Suc: "round_start m (Suc i) = round_start m i + health_pause + ma_delay m i"
  by (simp add: round_start_def)

lemma round_start_lower: "i * health_pause \<le> round_start m i"
  by (induction i) (simp_all add: round_start_Suc round_start_def)

text \<open>The loop from round \<open>i\<close> on.\<close>

lemma health_loop_from:
  "elapsed = round_start m i \<Longrightarrow> health_loop m port i elapsed last_err = None \<longleftrightarrow>
     (\<exists>k \<ge> i. round_start m k < health_budget \<and> round_ok m port k \<and>
        (\<forall>j. i \<le> j \<and> j < k \<longrightarrow> \<not> round_ok m port j \<and> ma_cancel m j = None))"
proof (induction m port i elapsed last_err rule: health_loop.induct)
  case (1 m port i elapsed last_err)
  have mono: "round_start m i \<le> round_start m k" if "i \<le> k" for k
    using that by (auto simp: round_start_def intro!: sum_mono2)
  show ?case
  proof (cases "health_budget \<le> elapsed")
    case True
    with 1(2) mono have "\<not> round_start m k < health_budget" if "i \<le> k" for k
      using that le_trans not_less by blast
    with True show ?thesis by (subst health_loop.simps) auto
  next
    case False
    show ?thesis
    proof (cases "probe_round (ma_answer m i) port health_endpoints last_err")
      case (Inr u)
      then have "round_ok m port i" by (simp add: round_ok_def flip: probe_round_Inr [of _ _ _ last_err])
      with False Inr 1(2) show ?thesis by (subst health_loop.simps) auto
    next
      case (Inl e)
      then have bad: "\<not> round_ok m port i"
        by (auto simp: round_ok_def simp flip: probe_round_Inr [of _ _ _ last_err])
      show ?thesis
      proof (cases "ma_cancel m i")
        case (Some c)
        with False Inl bad show ?thesis by (subst health_loop.simps) (auto simp: le_less)
      next
        case None
        have step: "health_loop m port i elapsed last_err =
            health_loop m port (Suc i) (elapsed + health_pause + ma_delay m i) e"
          using False Inl None by (subst health_loop.simps) simp
        have next': "elapsed + health_pause + ma_delay m i = round_start m (Suc i)"
          by (simp add: 1(2) round_start_Suc)
        have "(\<exists>k \<ge> Suc i. Q k \<and> round_ok m port k \<and>
                (\<forall>j. Suc i \<le> j \<and> j < k \<longrightarrow> \<not> round_ok m port j \<and> ma_cancel m j = None)) \<longleftrightarrow>
              (\<exists>k \<ge> i. Q k \<and> round_ok m port k \<and>
                (\<forall>j. i \<le> j \<and> j < k \<longrightarrow> \<not> round_ok m port j \<and> ma_cancel m j = None))" for Q
          using bad None by (metis Suc_le_eq le_eq_less_or_eq)
        then show ?thesis
          unfolding step using 1(1) [OF False Inl None next'] by simp
      qed
    qed
  qed
qed

lemma health_round_bound: "round_start m k < health_budget \<Longrightarrow> k < 40"
  using round_start_lower [of k m] by simp

lemma framework_push [simp]: "framework_of (push_phase p d b) = framework_of b"
  by (simp add: env_get_def push_phase_def)

lemma health_loop_start:
  "health_loop m port 0 0 [] = None \<longleftrightarrow>
     (\<exists>k < 40. round_start m k < health_budget \<and> round_ok m port k \<and>
        (\<forall>j < k. \<not> round_ok m port j \<and> ma_cancel m j = None))"
proof -
  have "health_loop m port 0 0 [] = None \<longleftrightarrow>
     (\<exists>k. round_start m k < health_budget \<and> round_ok m port k \<and>
        (\<forall>j < k. \<not> round_ok m port j \<and> ma_cancel m j = None))"
    using health_loop_from [of 0 m 0 port "[]"] by (simp add: round_start_def)
  moreover have "k < 40 \<and> round_start m k < health_budget \<longleftrightarrow> round_start m k < health_budget" for k
    using health_round_bound by blast
  ultimately show ?thesis by metis
qed

text \<open>
  The health check decides within forty rounds. It succeeds exactly if within its two minutes
  some round finds an endpoint of the framework's port that answers below 400, and no earlier round
  was cancelled; there are at most forty rounds, however the answers come.
\<close>

lemma healthcheck_decides:
  "fst (step_healthcheck m r b) = None \<longleftrightarrow>
     (\<exists>k < 40. round_start m k < health_budget \<and> round_ok m (framework_port (framework_of b)) k \<and>
        (\<forall>j < k. \<not> round_ok m (framework_port (framework_of b)) j \<and> ma_cancel m j = None))"
  by (simp only: step_healthcheck_def Let_def framework_push fst_conv health_loop_start)

lemma healthcheck_decides_witness:
  "fst (step_healthcheck solo_sample_machine solo_sample_runner solo_sample_box) = None"
  by (rule iffD2 [OF healthcheck_decides], rule exI [of _ 0])
    (auto simp: round_start_def round_ok_def health_endpoints_def solo_sample_machine_def)

text \<open>The last two steps, after everything else.\<close>

lemma pipeline_split: "pipeline = take 9 pipeline @
    [(''start'', 2, step_start_service), (''healthcheck'', 3, step_healthcheck)]"
  by (simp add: pipeline_def)

lemma and_then_cases:
  "and_then r f = (None, b') \<longleftrightarrow> (\<exists>b. r = (None, b) \<and> f b = (None, b'))"
  by (cases r) (auto simp: and_then_def split: option.splits)

lemma errorf_None_iff: "errorf w r = (None, b') \<longleftrightarrow> r = (None, b')"
  by (cases r) (auto simp: errorf_def)

lemma with_timeout_None_iff:
  "with_timeout n f b = (None, b') \<longleftrightarrow>
     (\<exists>b1. f (b\<lparr>bx_limit := n\<rparr>) = (None, b1) \<and> b' = b1\<lparr>bx_limit := bx_limit b\<rparr>)"
  by (auto simp: with_timeout_def split_beta prod_eq_iff)

text \<open>A start that succeeds: both commands did, the restart last.\<close>

lemma start_service_success:
  assumes "step_start_service m r b = (None, b')"
  obtains b1 b2 where "ma_run m [''systemctl'', ''enable'', ''zibby-app.service''] b1 = (None, bx_nodes b2)"
    and "bx_trace b2 = bx_trace b1 @ [Ran [''systemctl'', ''enable'', ''zibby-app.service'']]"
    and "ma_run m [''systemctl'', ''restart'', ''zibby-app.service''] b2 = (None, bx_nodes b')"
    and "bx_trace b' = bx_trace b2 @ [Ran [''systemctl'', ''restart'', ''zibby-app.service'']]"
proof -
  let ?en = "[''systemctl'', ''enable'', ''zibby-app.service'']"
    and ?re = "[''systemctl'', ''restart'', ''zibby-app.service'']"
  obtain b2 where en: "call m ?en (push_phase PhaseStarting [] b) = (None, b2)" and re: "call m ?re b2 = (None, b')"
    using assms by (auto simp: step_start_service_def Let_def and_then_cases errorf_None_iff)
  show thesis
    by (rule that [of "push_phase PhaseStarting [] b" b2])
      (use en re in \<open>auto simp: call_def split: prod.splits\<close>)
qed

lemma run_solo_success:
  assumes "run_solo m r b = (None, b')"
  obtains b1 b2 b3 where "step_start_service m r b1 = (None, b2)"
    and "step_healthcheck m r (b2\<lparr>bx_limit := 3\<rparr>) = (None, b3)"
    and "\<exists>d n. b' = push_phase PhaseRunning d (b3\<lparr>bx_limit := n\<rparr>)"
proof -
  obtain s where s: "ru_spec r = Some s"
    using assms by (cases "ru_spec r") (simp_all add: run_solo_def)
  with assms obtain b0 b4 where "run_pipeline m r pipeline b0 = (None, b4)"
    and b': "b' = push_phase PhaseRunning (''domain='' @ solo_domain s) b4"
    by (auto simp: run_solo_def and_then_cases)
  then have "run_pipeline m r (take 9 pipeline @
      [(''start'', 2, step_start_service), (''healthcheck'', 3, step_healthcheck)]) b0 = (None, b4)"
    using pipeline_split by simp
  then obtain c where tail: "run_pipeline m r
      [(''start'', 2, step_start_service), (''healthcheck'', 3, step_healthcheck)] c = (None, b4)"
    by (auto simp only: run_pipeline_append and_then_cases)
  then obtain b2 b3 where "step_start_service m r (c\<lparr>bx_limit := 2\<rparr>) = (None, b2)"
    and "step_healthcheck m r (b2\<lparr>bx_limit := 3\<rparr>) = (None, b3)" and "\<exists>n. b4 = b3\<lparr>bx_limit := n\<rparr>"
    by (auto simp: and_then_cases errorf_None_iff with_timeout_None_iff) blast
  with b' that show thesis by blast
qed

text \<open>
  C14: nothing runs that has not answered. If an installation succeeds then, at its end and in this
  order, systemd enabled its service without an error, systemd restarted it without an error, and
  nothing but the health check was done after that; and one of the rounds of the health check that
  starts within its two minutes, which are forty at most, got an answer below 400 from an endpoint
  on the port of the framework that was installed. No round before it did, and none before it was
  cancelled.
\<close>

theorem success_means_answered:
  assumes "run_solo_from_spec m decode pa b = (None, b')"
  shows "\<exists>b1 b2 (b3 :: box) detail.
      ma_run m [''systemctl'', ''enable'', ''zibby-app.service''] b1 = (None, bx_nodes b2) \<and>
      bx_trace b2 = bx_trace b1 @ [Ran [''systemctl'', ''enable'', ''zibby-app.service'']] \<and>
      ma_run m [''systemctl'', ''restart'', ''zibby-app.service''] b2 = (None, bx_nodes b3) \<and>
      bx_trace b3 = bx_trace b2 @ [Ran [''systemctl'', ''restart'', ''zibby-app.service'']] \<and>
      bx_nodes b' = bx_nodes b3 \<and>
      bx_trace b' = bx_trace b3 @ [Phase PhaseHealthcheck [], Phase PhaseRunning detail] \<and>
      (\<exists>k < 40. round_start m k < health_budget \<and> round_ok m (framework_port (framework_of b')) k \<and>
        (\<forall>j < k. \<not> round_ok m (framework_port (framework_of b')) j \<and> ma_cancel m j = None))"
proof -
  obtain r where "run_solo m r (b\<lparr>bx_env := Map.empty\<rparr>) = (None, b')"
    using assms by (auto simp: run_solo_from_spec_def split: if_splits sum.splits prod.splits option.splits)
  then obtain c1 c2 c3 where steps: "step_start_service m r c1 = (None, c2)"
    "step_healthcheck m r (c2\<lparr>bx_limit := 3\<rparr>) = (None, c3)"
    "\<exists>d n. b' = push_phase PhaseRunning d (c3\<lparr>bx_limit := n\<rparr>)"
    using run_solo_success by blast
  obtain b1 b2 where start:
    "ma_run m [''systemctl'', ''enable'', ''zibby-app.service''] b1 = (None, bx_nodes b2)"
    "bx_trace b2 = bx_trace b1 @ [Ran [''systemctl'', ''enable'', ''zibby-app.service'']]"
    "ma_run m [''systemctl'', ''restart'', ''zibby-app.service''] b2 = (None, bx_nodes c2)"
    "bx_trace c2 = bx_trace b2 @ [Ran [''systemctl'', ''restart'', ''zibby-app.service'']]"
    by (rule start_service_success [OF steps(1)])
  have c3: "c3 = push_phase PhaseHealthcheck [] (c2\<lparr>bx_limit := 3\<rparr>)"
    using steps(2) by (simp add: step_healthcheck_def Let_def)
  obtain d n where b': "b' = push_phase PhaseRunning d (c3\<lparr>bx_limit := n\<rparr>)" using steps(3) by blast
  have same: "framework_of b' = framework_of (c2\<lparr>bx_limit := 3\<rparr>)"
    by (simp add: b' c3 env_get_def push_phase_def)
  have "bx_nodes b' = bx_nodes c2"
    "bx_trace b' = bx_trace c2 @ [Phase PhaseHealthcheck [], Phase PhaseRunning d]"
    by (simp_all add: b' c3 push_phase_def)
  moreover have "\<exists>k < 40. round_start m k < health_budget \<and> round_ok m (framework_port (framework_of b')) k \<and>
        (\<forall>j < k. \<not> round_ok m (framework_port (framework_of b')) j \<and> ma_cancel m j = None)"
    unfolding same by (rule iffD1 [OF healthcheck_decides [of m r]]) (simp add: steps(2))
  ultimately show ?thesis
    using start
    by blast
qed

lemma success_means_answered_witness:
  "\<exists>b'. run_solo_from_spec solo_sample_machine solo_sample_decode default_solo_paths solo_sample_box = (None, b') \<and>
     Ran [''systemctl'', ''restart'', ''zibby-app.service''] \<in> set (bx_trace b') \<and>
     (\<exists>b2 ns. ma_run solo_sample_machine [''systemctl'', ''restart'', ''zibby-app.service''] b2 = (None, ns))"
proof -
  obtain b' where run: "run_solo_from_spec solo_sample_machine solo_sample_decode default_solo_paths solo_sample_box =
      (None, b')"
    using sample_succeeds by blast
  obtain b2 and b3 :: box and d where "ma_run solo_sample_machine [''systemctl'', ''restart'', ''zibby-app.service''] b2 = (None, bx_nodes b3)"
    "bx_trace b3 = bx_trace b2 @ [Ran [''systemctl'', ''restart'', ''zibby-app.service'']]"
    "bx_trace b' = bx_trace b3 @ [Phase PhaseHealthcheck [], Phase PhaseRunning d]"
    using success_means_answered [OF run] by blast
  with run show ?thesis by (intro exI [of _ b'] conjI exI [of _ b2] exI [of _ "bx_nodes b3"]) simp_all
qed

subsection \<open>The failure marker\<close>

lemma marked_run:
  "stat_node m b (pa_failed_marker pa) \<noteq> None \<Longrightarrow>
     run_solo_from_spec m decode pa b =
       (Some ''solo: previous run terminally failed (see /var/log/zibby/agent.log)'', b)"
  by (simp add: run_solo_from_spec_def)

lemma failed_run_marks:
  assumes "run_solo_from_spec m decode pa b = (Some e, b1)"
    and "stat_node m b (pa_failed_marker pa) = None"
  shows "\<exists>reason b0. b1 = write_failed_marker m pa reason b0 \<and> reason \<in> {e, ''init: '' @ e}"
  using assms by (auto simp: run_solo_from_spec_def split: sum.splits prod.splits option.splits)

text \<open>
  C12: a failed installation is final. A run that fails, for whatever reason, ends by writing the
  marker, with its error as the reason; if that write succeeded, no later run on the box does
  anything: whatever the host and the specification are by then, it returns an error and leaves the
  box, and so the trace of phases and commands, as it is.
\<close>

theorem failed_install_is_final:
  assumes failed: "run_solo_from_spec m decode pa b = (Some e, b1)"
    and start: "stat_node m b (pa_failed_marker pa) = None"
  shows "\<exists>reason b0. b1 = write_failed_marker m pa reason b0 \<and> reason \<in> {e, ''init: '' @ e} \<and>
    (fst (store_failed_marker m pa reason b0) = None \<longrightarrow>
      (\<forall>m' decode'. ma_refuse m' SysStat (pa_failed_marker pa) b1 = None \<longrightarrow>
        run_solo_from_spec m' decode' pa b1 =
          (Some ''solo: previous run terminally failed (see /var/log/zibby/agent.log)'', b1)))"
proof -
  obtain reason b0 where b1: "b1 = write_failed_marker m pa reason b0" "reason \<in> {e, ''init: '' @ e}"
    using failed_run_marks [OF failed start] by blast
  have "stat_node m' b1 (pa_failed_marker pa) \<noteq> None"
    if "fst (store_failed_marker m pa reason b0) = None"
      and "ma_refuse m' SysStat (pa_failed_marker pa) b1 = None" for m'
  proof -
    have "store_failed_marker m pa reason b0 = (None, b1)"
      using that(1) b1(1) by (simp add: write_failed_marker_def prod_eq_iff)
    then show ?thesis
      using stat_written that(2) by (auto simp: store_failed_marker_def Let_def)
  qed
  with b1 show ?thesis using marked_run by blast
qed

lemma failed_install_is_final_witness:
  "\<exists>e b1 reason b0.
     run_solo_from_spec solo_sample_machine (\<lambda>body. Inl ''bad'') default_solo_paths solo_sample_box = (Some e, b1) \<and>
     b1 = write_failed_marker solo_sample_machine default_solo_paths reason b0 \<and> reason \<in> {e, ''init: '' @ e}"
proof -
  have "\<exists>e b1. run_solo_from_spec solo_sample_machine (\<lambda>body. Inl ''bad'') default_solo_paths solo_sample_box = (Some e, b1)"
  proof -
    have "new_solo_runner solo_sample_machine (\<lambda>body. Inl ''bad'') default_solo_paths solo_sample_box =
        Inl ''solo: parse spec: bad''"
      by code_simp
    then show ?thesis using sample_unmarked by (simp add: run_solo_from_spec_def)
  qed
  then show ?thesis using failed_install_is_final [OF _ sample_unmarked] by blast
qed

end
