(* ===== verification/SoloData.thy ===== *)
theory SoloData
  imports SoloRun
begin

text \<open>
  What the installer of \<^theory_text>\<open>Solo\<close> does to the data on the box: the version directories,
  the databases it restores and does not overwrite, the secret that survives restarts, the paths in
  its shell commands, what a loaded specification is good for, and the files a successful
  installation leaves.
\<close>

subsection \<open>Version directories\<close>

lemma max_version_ge: "k \<le> max_version k ns"
proof (induction ns arbitrary: k)
  case (Cons n ns)
  then show ?case
    using Cons [of "if k < the (version_number n) then the (version_number n) else k"]
    by (auto split: option.split) (metis dual_order.trans less_imp_le)+
qed simp

lemma max_version_upper:
  "n \<in> set ns \<Longrightarrow> version_number n = Some v \<Longrightarrow> v \<le> max_version k ns"
proof (induction ns arbitrary: k)
  case (Cons x xs)
  then show ?case
    using max_version_ge [of "if k < v then v else k" xs] by (auto split: option.split if_splits)
qed simp

lemma max_version_attained: "max_version k ns = k \<or> (\<exists>n \<in> set ns. version_number n = Some (max_version k ns))"
proof (induction ns arbitrary: k)
  case (Cons x xs)
  show ?case
  proof (cases "version_number x")
    case None
    then show ?thesis using Cons by auto
  next
    case (Some v)
    then show ?thesis using Cons [of "if k < v then v else k"] by auto
  qed
qed simp

lemma clean_segs_snoc:
  "n \<noteq> [] \<Longrightarrow> n \<noteq> ''.'' \<Longrightarrow> n \<noteq> ''..'' \<Longrightarrow> clean_segs rooted st (xs @ [n]) = clean_segs rooted st xs @ [n]"
  by (induction rooted st xs rule: clean_segs.induct) auto

lemma join_snoc: "ys \<noteq> [] \<Longrightarrow> join sep (ys @ [n]) = join sep ys @ sep @ n"
  by (induction ys rule: induct_list012) auto

text \<open>A clean absolute path other than the root, and a plain name in it.\<close>

definition clean_root :: "string \<Rightarrow> bool" where
  "clean_root p \<longleftrightarrow> prefix ''/'' p \<and> p \<noteq> ''/'' \<and> filepath_clean p = p"

lemma join_plain_name:
  assumes root: "clean_root p" and n: "n \<noteq> []" "n \<noteq> ''.''" "n \<noteq> ''..''" "CHR ''/'' \<notin> set n"
  shows "filepath_join [p, n] = p @ ''/'' @ n"
proof -
  let ?segs = "clean_segs True [] (split_on (CHR ''/'') p)"
  have p: "p \<noteq> []" "prefix ''/'' p" "p = CHR ''/'' # join ''/'' ?segs"
    using root by (auto simp: clean_root_def filepath_clean_def Let_def)
  then have "?segs \<noteq> []" using root by (auto simp: clean_root_def)
  have "filepath_join [p, n] = filepath_clean (p @ CHR ''/'' # n)"
    using p(1) n(1) by (simp add: filepath_join_def)
  also have "\<dots> = CHR ''/'' # join ''/'' (clean_segs True [] (split_on (CHR ''/'') p @ [n]))"
    using p(2) n(4) by (simp add: filepath_clean_def Let_def split_on_append_sep split_on_no_sep_id prefix_append)
  also have "\<dots> = CHR ''/'' # join ''/'' ?segs @ ''/'' @ n"
    using \<open>?segs \<noteq> []\<close> n by (simp add: clean_segs_snoc join_snoc)
  also have "\<dots> = p @ ''/'' @ n" using p(3) by (metis append_Cons)
  finally show ?thesis .
qed

lemma slash_notin_itoa: "0 \<le> k \<Longrightarrow> CHR ''/'' \<notin> set (itoa k)"
  using nat_string_digits [of "nat k"] sign_no_digit by (auto simp: itoa_def list_all_iff)

lemma dir_entries_child:
  assumes "node_at ns (p @ ''/'' @ n) = Some nd" and "p \<noteq> ''/''" and "n \<noteq> []" and "CHR ''/'' \<notin> set n"
  shows "n \<in> set (dir_entries ns p)"
proof -
  have nd: "(p @ ''/'' @ n, nd) \<in> set ns"
    using assms(1) by (simp add: node_at_def map_of_SomeD)
  have "n = (\<lambda>(q, _). drop (length (p @ ''/'')) q) (p @ ''/'' @ n, nd)" by simp
  moreover have "(p @ ''/'' @ n, nd) \<in> set (filter (\<lambda>(q, _). prefix (p @ ''/'') q) ns)"
    using nd by (simp add: prefix_def)
  ultimately have "n \<in> set (map (\<lambda>(q, _). drop (length (p @ ''/'')) q) (filter (\<lambda>(q, _). prefix (p @ ''/'') q) ns))"
    unfolding set_map by (rule image_eqI)
  then show ?thesis using assms by (simp add: dir_entries_def Let_def)
qed

text \<open>
  C20: a deployment never unpacks over another. If the application root can be read, is not a
  symbolic link and has a clean path, and as long as no directory is numbered at the end of the
  64-bit range, the version directory chosen is a new one, and its number is above that of every
  version there is.
\<close>

theorem version_dir_is_fresh:
  assumes root: "clean_root (pa_app_root (ru_paths r))"
    and names: "read_dir m b (pa_app_root (ru_paths r)) = Some names"
    and no_link: "follow_links (bx_nodes b) (pa_app_root (ru_paths r)) = Some (pa_app_root (ru_paths r))"
    and range: "\<forall>n \<in> set names. \<forall>v. version_number n = Some v \<longrightarrow> v < 2 ^ 63 - 1"
  shows "\<exists>k > 0. next_version_dir m r b = pa_app_root (ru_paths r) @ ''/v'' @ itoa k \<and>
    (\<forall>n \<in> set names. \<forall>v. version_number n = Some v \<longrightarrow> v < k) \<and>
    node_at (bx_nodes b) (next_version_dir m r b) = None"
proof -
  let ?root = "pa_app_root (ru_paths r)"
  define k where "k = max_version 0 names + 1"
  have k: "0 < k" "k < 2 ^ 63"
    using max_version_ge [of 0 names] max_version_attained [of 0 names] range by (auto simp: k_def)
  have above: "v < k" if "n \<in> set names" "version_number n = Some v" for n v
    using max_version_upper [OF that, of 0] by (simp add: k_def)
  have name: "''v'' @ itoa k \<noteq> []" "CHR ''/'' \<notin> set (''v'' @ itoa k)"
    using slash_notin_itoa [of k] k by simp_all
  have dir: "next_version_dir m r b = ?root @ ''/v'' @ itoa k"
    using names k join_plain_name [OF root, of "''v'' @ itoa k"] name
    by (simp add: next_version_dir_def Let_def k_def [symmetric] sint_of_int_range)
  have "names = dir_entries (bx_nodes b) ?root"
    using names no_link by (auto simp: read_dir_def split: if_splits)
  moreover have "version_number (''v'' @ itoa k) = Some k"
    using atoi_itoa [of k] k by (simp add: version_number_def)
  ultimately have "node_at (bx_nodes b) (?root @ ''/'' @ ''v'' @ itoa k) = None"
    using dir_entries_child [OF _ _ name, of "bx_nodes b" ?root] above [of "''v'' @ itoa k" k] root
    by (cases "node_at (bx_nodes b) (?root @ ''/'' @ ''v'' @ itoa k)") (auto simp: clean_root_def)
  with dir k above show ?thesis by (intro exI [of _ k]) simp
qed

lemma version_dir_is_fresh_witness:
  "\<exists>k > 4. next_version_dir solo_sample_machine solo_sample_runner solo_sample_box = ''/opt/app/v'' @ itoa k"
proof -
  let ?root = "pa_app_root (ru_paths solo_sample_runner)"
  have root: "?root = ''/opt/app''" by (simp add: solo_sample_runner_def default_solo_paths_def)
  have v4: "version_number ''v4'' = Some 4" by code_simp
  have "clean_root ''/opt/app''" unfolding clean_root_def by code_simp
  moreover have "read_dir solo_sample_machine solo_sample_box ''/opt/app'' = Some [''v4'']" by code_simp
  moreover have "follow_links (bx_nodes solo_sample_box) ''/opt/app'' = Some ''/opt/app''" by code_simp
  ultimately show ?thesis
    using version_dir_is_fresh [of solo_sample_runner solo_sample_machine solo_sample_box "[''v4'']"] v4
    unfolding root by fastforce
qed

subsection \<open>The secret\<close>

lemma hex_digit_no_space: "n < 16 \<Longrightarrow> \<not> is_space (hex_digit n)"
proof -
  have "list_all (\<lambda>n. \<not> is_space (hex_digit n)) [0..<16]" by code_simp
  then show "n < 16 \<Longrightarrow> \<not> is_space (hex_digit n)" by (simp add: list_all_iff)
qed

lemma hex_string_no_space: "c \<in> set (hex_string bs) \<Longrightarrow> \<not> is_space c"
proof -
  have "unat (b :: 8 word) div 16 < 16" for b
  proof -
    have "unat b < 2 ^ LENGTH(8)" by (rule unsigned_less)
    then show ?thesis by (simp add: less_mult_imp_div_less)
  qed
  then show "c \<in> set (hex_string bs) \<Longrightarrow> \<not> is_space c"
    by (auto simp: hex_string_def hex_digit_no_space)
qed

lemma trim_space_nl:
  assumes "w \<noteq> []" and "\<And>c. c \<in> set w \<Longrightarrow> \<not> is_space c"
  shows "trim_space (w @ [nl]) = w"
proof -
  have "trim_left (w @ [nl]) = w @ [nl]"
    using assms by (intro trim_left_id) (cases w, auto)
  moreover have "dropWhile is_space (rev w) = rev w"
    using assms by (cases w rule: rev_cases) auto
  ultimately show ?thesis
    by (simp add: trim_space_def trim_right_def is_space_def)
qed

text \<open>
  The secret survives. When no secret is stored, 64 random bytes are at hand and the file can be
  written, the installer uses a secret of 128 hexadecimal digits, and every later call that can read
  the file as it was left answers the same one and writes nothing.
\<close>

lemma rails_secret_survives:
  fixes m :: machine and b b1 :: box
  assumes fresh: "read_trimmed m b path = []"
    and rand: "ma_rand m 64 b = Some bytes" "length bytes = 64"
    and stored: "write_file m path (hex_string bytes @ [nl]) mode_private
      (snd (mkdir_all m (filepath_dir path) b)) = (None, b1)"
  shows "persist_or_generate_secret m path b = (hex_string bytes, b1) \<and> length (hex_string bytes) = 128 \<and>
    (\<forall>(m' :: machine) (b2 :: box). bx_nodes b2 = bx_nodes b1 \<and> ma_refuse m' SysOpen path b2 = None \<longrightarrow>
      persist_or_generate_secret m' path b2 = (hex_string bytes, b2))"
proof (intro conjI allI impI)
  show "persist_or_generate_secret m path b = (hex_string bytes, b1)"
    using assms by (simp add: persist_or_generate_secret_def Let_def)
  show "length (hex_string bytes) = 128" by (simp add: length_hex_string rand(2))
  have nonempty: "hex_string bytes \<noteq> []" using rand(2) length_hex_string [of bytes] by auto
  fix m' :: machine and b2 :: box
  assume later: "bx_nodes b2 = bx_nodes b1 \<and> ma_refuse m' SysOpen path b2 = None"
  obtain q k where "follow_links (bx_nodes b1) path = Some q"
    "node_at (bx_nodes b1) q = Some (FileNode (hex_string bytes @ [nl]) k)"
    using stored by (rule write_file_stored)
  with later have "read_trimmed m' b2 path = hex_string bytes"
    using trim_space_nl [OF nonempty hex_string_no_space] by (simp add: read_trimmed_def read_file_def)
  with nonempty show "persist_or_generate_secret m' path b2 = (hex_string bytes, b2)"
    by (simp add: persist_or_generate_secret_def Let_def)
qed

lemma rails_secret_survives_witness:
  "\<exists>b1. persist_or_generate_secret solo_sample_machine ''/etc/zibby/key'' solo_sample_box =
       (hex_string (replicate 64 171), b1) \<and>
     persist_or_generate_secret solo_sample_machine ''/etc/zibby/key'' b1 = (hex_string (replicate 64 171), b1)"
proof -
  have dir: "filepath_dir ''/etc/zibby/key'' = ''/etc/zibby''" by code_simp
  have nodes: "node_at (bx_nodes solo_sample_box) ''/etc/zibby'' = Some DirNode"
    "node_at (bx_nodes solo_sample_box) ''/etc/zibby/key'' = None" by code_simp+
  obtain k where w: "write_file solo_sample_machine ''/etc/zibby/key'' (hex_string (replicate 64 171) @ [nl]) mode_private
      (snd (mkdir_all solo_sample_machine (filepath_dir ''/etc/zibby/key'') solo_sample_box)) =
      (None, set_node ''/etc/zibby/key'' (FileNode (hex_string (replicate 64 171) @ [nl]) k) solo_sample_box)"
    using sample_write [of solo_sample_box "''/etc/zibby/key''"] nodes dir by (auto simp: sample_mkdir)
  have "read_trimmed solo_sample_machine solo_sample_box ''/etc/zibby/key'' = []" by code_simp
  moreover have "ma_rand solo_sample_machine 64 solo_sample_box = Some (replicate 64 171)"
    by (simp add: solo_sample_machine_def)
  ultimately show ?thesis
    using rails_secret_survives [OF _ _ _ w] by auto
qed

subsection \<open>Restoring\<close>

text \<open>A file with data at the end of a path, and a restore that would write over one.\<close>

definition data_at :: "nodes \<Rightarrow> string \<Rightarrow> bool" where
  "data_at ns p =
     (case Option.bind (follow_links ns p) (node_at ns) of
        Some (FileNode c md) \<Rightarrow> c \<noteq> []
      | _ \<Rightarrow> False)"

definition overwrites :: "string list \<Rightarrow> box \<Rightarrow> bool" where
  "overwrites argv b \<longleftrightarrow> take 3 argv = [''litestream'', ''restore'', ''-o''] \<and> data_at (bx_nodes b) (argv ! 3)"

lemma follow_cong:
  assumes "\<And>x t. node_at ns x = Some (LinkNode t) \<longleftrightarrow> node_at ns' x = Some (LinkNode t)"
  shows "follow n ns p = follow n ns' p"
proof (induction n arbitrary: p)
  case 0
  show ?case
  proof (cases "\<exists>t. node_at ns p = Some (LinkNode t)")
    case True
    then obtain t where "node_at ns p = Some (LinkNode t)" "node_at ns' p = Some (LinkNode t)"
      using assms [of p] by auto
    then show ?thesis by (subst (1 2) follow.simps) auto
  next
    case False
    then show ?thesis using assms [of p] by (simp add: follow_plain)
  qed
next
  case (Suc n)
  show ?case
  proof (cases "\<exists>t. node_at ns p = Some (LinkNode t)")
    case True
    then obtain t where "node_at ns p = Some (LinkNode t)" "node_at ns' p = Some (LinkNode t)"
      using assms [of p] by auto
    then show ?thesis using Suc by (subst (1 2) follow.simps) auto
  next
    case False
    then show ?thesis using assms [of p] by (simp add: follow_plain)
  qed
qed

lemma node_at_make_dirs:
  "node_at (fold make_dir ds ns) p =
     (if node_at ns p = None \<and> p \<in> set ds then Some DirNode else node_at ns p)"
  by (induction ds arbitrary: ns) (auto simp: make_dir_def)

lemma data_at_mkdir_all: "data_at (bx_nodes (snd (mkdir_all m d b))) p = data_at (bx_nodes b) p"
proof -
  have "data_at (fold make_dir ds ns) p = data_at ns p" for ds ns
  proof -
    have "follow_links (fold make_dir ds ns) p = follow_links ns p"
      unfolding follow_links_def by (rule follow_cong) (auto simp: node_at_make_dirs)
    then show ?thesis
      by (cases "follow_links ns p") (simp_all add: data_at_def node_at_make_dirs)
  qed
  then show ?thesis by (auto simp: mkdir_all_def split: option.split)
qed

lemma has_content_data:
  "ma_refuse m SysStat p b = None \<Longrightarrow> data_at (bx_nodes b) p \<Longrightarrow> has_content m b p"
  by (auto simp: has_content_def stat_node_def data_at_def split: option.splits node.splits)

text \<open>
  Two hosts that differ in commands only, and there only in what a restore over a file with data
  would do.
\<close>

definition spares_data :: "machine \<Rightarrow> machine \<Rightarrow> bool" where
  "spares_data m m' \<longleftrightarrow>
     (\<exists>f. m' = m\<lparr>ma_run := f\<rparr> \<and> (\<forall>argv b. \<not> overwrites argv b \<longrightarrow> f argv b = ma_run m argv b)) \<and>
     (\<forall>p b. ma_refuse m SysStat p b = None)"

lemma spares_fields:
  assumes "spares_data m m'"
  shows "ma_refuse m' = ma_refuse m" "ma_stored m' = ma_stored m" "ma_env m' = ma_env m"
    "ma_now m' = ma_now m" "ma_rand m' = ma_rand m" "ma_iter m' = ma_iter m"
    "ma_answer m' = ma_answer m" "ma_delay m' = ma_delay m" "ma_cancel m' = ma_cancel m"
  using assms by (auto simp: spares_data_def)

lemma spares_calls:
  assumes "spares_data m m'"
  shows "stat_node m' = stat_node m" "read_file m' = read_file m" "read_dir m' = read_dir m"
    "write_file m' = write_file m" "mkdir_all m' = mkdir_all m" "remove_node m' = remove_node m"
    "symlink_node m' = symlink_node m" "rename_node m' = rename_node m" "chmod_node m' = chmod_node m"
  by (unfold stat_node_def read_file_def read_dir_def write_file_def mkdir_all_def remove_node_def
      symlink_node_def rename_node_def chmod_node_def spares_fields [OF assms]) (rule refl)+

lemma spares_call:
  assumes "spares_data m m'" and "hd argv \<noteq> ''litestream''"
  shows "call m' argv b = call m argv b"
proof -
  have "\<not> overwrites argv b" using assms(2) by (cases argv) (auto simp: overwrites_def)
  then show ?thesis using assms(1) by (auto simp: spares_data_def call_def)
qed

lemma spares_restore:
  assumes spares: "spares_data m m'"
  shows "restore_first m' e cs b = restore_first m e cs b"
proof (induction cs arbitrary: e b)
  case (Cons c cs)
  obtain path replica where c: "c = (path, replica)" by (cases c)
  have same: "has_content m' b path = has_content m b path"
    by (simp add: has_content_def spares_calls [OF spares])
  show ?case
  proof (cases "has_content m b path")
    case True
    then show ?thesis using c Cons same by simp
  next
    case False
    let ?b = "snd (mkdir_all m (filepath_dir path) b)"
    let ?argv = "[''litestream'', ''restore'', ''-o'', path, replica]"
    have "\<not> data_at (bx_nodes b) path"
      using False spares has_content_data by (auto simp: spares_data_def)
    then have "\<not> overwrites ?argv ?b" by (simp add: overwrites_def data_at_mkdir_all)
    then have "call m' ?argv ?b = call m ?argv ?b"
      using spares by (auto simp: spares_data_def call_def)
    moreover have "call m' [''chown'', ''zibby:zibby'', path] x = call m [''chown'', ''zibby:zibby'', path] x" for x
      using spares by (simp add: spares_call)
    ultimately show ?thesis
      using c False same Cons by (simp add: spares_calls [OF spares] split: prod.split option.split)
  qed
qed simp

lemmas spares_simps = spares_fields spares_calls spares_call

lemma spares_is_micro: "spares_data m m' \<Longrightarrow> is_micro m' = is_micro m"
  by (intro ext) (simp add: is_micro_def host_total_ram_bytes_def spares_simps)

lemma spares_read_trimmed: "spares_data m m' \<Longrightarrow> read_trimmed m' = read_trimmed m"
  by (intro ext) (simp add: read_trimmed_def spares_simps)

lemma spares_download: "spares_data m m' \<Longrightarrow> step_download m' = step_download m"
  by (intro ext) (simp add: step_download_def next_version_dir_def fetch_source_def Let_def
      spares_simps spares_read_trimmed
      cong del: if_weak_cong option.case_cong_weak prod.case_cong_weak sum.case_cong_weak)

lemma spares_detect: "spares_data m m' \<Longrightarrow> step_detect_framework m' = step_detect_framework m"
  by (intro ext) (simp add: Let_def step_detect_framework_def detect_framework_def spares_simps
      cong del: if_weak_cong option.case_cong_weak prod.case_cong_weak sum.case_cong_weak)

lemma spares_os_deps: "spares_data m m' \<Longrightarrow> step_install_os_deps m' = step_install_os_deps m"
  by (intro ext) (simp add: Let_def step_install_os_deps_def spares_simps
      cong del: if_weak_cong option.case_cong_weak prod.case_cong_weak sum.case_cong_weak)

lemma spares_memory: "spares_data m m' \<Longrightarrow> step_memory_tuning m' = step_memory_tuning m"
  by (intro ext) (simp add: Let_def step_memory_tuning_def bash_def spares_simps spares_is_micro
      cong del: if_weak_cong option.case_cong_weak prod.case_cong_weak sum.case_cong_weak)

lemma spares_persistence: "spares_data m m' \<Longrightarrow> step_configure_persistence m' = step_configure_persistence m"
  by (intro ext) (simp add: step_configure_persistence_def litestream_setup_def install_litestream_def
      write_litestream_config_def maybe_restore_def Let_def spares_simps spares_restore
      cong del: if_weak_cong option.case_cong_weak prod.case_cong_weak sum.case_cong_weak)

lemma spares_rails_micro: "spares_data m m' \<Longrightarrow> rails_micro m' = rails_micro m"
  by (intro ext) (simp add: rails_micro_def write_micro_puma_config_def bash_def Let_def spares_simps spares_is_micro
      cong del: if_weak_cong option.case_cong_weak prod.case_cong_weak sum.case_cong_weak)

lemma spares_app_deps: "spares_data m m' \<Longrightarrow> step_install_app_deps m' = step_install_app_deps m"
  by (intro ext) (simp add: step_install_app_deps_def rails_deps_def bash_def Let_def spares_simps spares_rails_micro
      cong del: if_weak_cong option.case_cong_weak prod.case_cong_weak sum.case_cong_weak)

lemma spares_caddy: "spares_data m m' \<Longrightarrow> step_configure_caddy m' = step_configure_caddy m"
  by (intro ext) (simp add: Let_def step_configure_caddy_def acme_directory_def bash_def spares_simps
      cong del: if_weak_cong option.case_cong_weak prod.case_cong_weak sum.case_cong_weak)

lemma spares_unit: "spares_data m m' \<Longrightarrow> step_write_systemd_unit m' = step_write_systemd_unit m"
  by (intro ext) (simp add: step_write_systemd_unit_def swap_current_def write_unit_def unit_env_def
      ensure_secrets_env_def own_env_lines_def rails_env_lines_def persist_or_generate_secret_def
      Let_def spares_simps spares_is_micro spares_read_trimmed
      cong del: if_weak_cong option.case_cong_weak prod.case_cong_weak sum.case_cong_weak)

lemma spares_wrapper: "spares_data m m' \<Longrightarrow> step_install_exec_wrapper m' = step_install_exec_wrapper m"
  by (intro ext) (simp add: Let_def step_install_exec_wrapper_def spares_simps
      cong del: if_weak_cong option.case_cong_weak prod.case_cong_weak sum.case_cong_weak)

lemma spares_start: "spares_data m m' \<Longrightarrow> step_start_service m' = step_start_service m"
  by (intro ext) (simp add: Let_def step_start_service_def spares_simps
      cong del: if_weak_cong option.case_cong_weak prod.case_cong_weak sum.case_cong_weak)

lemma spares_health: "spares_data m m' \<Longrightarrow> step_healthcheck m' = step_healthcheck m"
proof (intro ext)
  fix r b
  assume spares: "spares_data m m'"
  have "health_loop m' port i elapsed e = health_loop m port i elapsed e" for port i elapsed e
  proof (induction "health_budget - elapsed" arbitrary: i elapsed e rule: less_induct)
    case less
    have "health_loop m' port (Suc i) (elapsed + health_pause + ma_delay m i) e' =
        health_loop m port (Suc i) (elapsed + health_pause + ma_delay m i) e'"
      if "elapsed < health_budget" for e'
      using less that by simp
    then show ?case
      by (subst (1 2) health_loop.simps) (simp add: spares_fields [OF spares] split: sum.split option.split)
  qed
  then show "step_healthcheck m' r b = step_healthcheck m r b"
    by (simp add: step_healthcheck_def)
qed

lemma run_pipeline_cong:
  "(\<And>label n st. (label, n, st) \<in> set ps \<Longrightarrow> st m' = st m) \<Longrightarrow>
     run_pipeline m' r ps b = run_pipeline m r ps b"
proof (induction ps arbitrary: b)
  case (Cons p ps)
  obtain label n st where p: "p = (label, n, st)" by (cases p)
  have "st m' = st m" by (rule Cons.prems [of label n]) (simp add: p)
  moreover have "run_pipeline m' r ps = run_pipeline m r ps"
    by (intro ext, rule Cons.IH) (erule Cons.prems [OF list.set_intros(2)])
  ultimately show ?case by (simp add: p)
qed simp

lemma spares_pipeline:
  assumes "spares_data m m'"
  shows "run_pipeline m' r pipeline b = run_pipeline m r pipeline b"
proof (rule run_pipeline_cong)
  fix label n st
  have "list_all (\<lambda>(label, n, st). st m' = st m) pipeline"
    using assms by (simp add: pipeline_def spares_download spares_detect spares_os_deps spares_memory
        spares_persistence spares_app_deps spares_caddy spares_unit spares_wrapper spares_start spares_health)
  then show "(label, n, st) \<in> set pipeline \<Longrightarrow> st m' = st m" by (auto simp: list_all_iff)
qed

text \<open>
  C16: a restore never writes over data. Whatever \<^verbatim>\<open>litestream restore\<close> would do to a database
  file that has content, no run of the installer depends on it, for none of them asks it to: two
  hosts that differ in this only give the same result, the same box and the same trace. The
  hosts refuse no stat: a file whose stat is refused counts as absent.
\<close>

theorem restore_never_overwrites:
  assumes "spares_data m m'"
  shows "run_solo_from_spec m' decode pa b = run_solo_from_spec m decode pa b"
proof -
  have load: "new_solo_runner m' decode pa b = new_solo_runner m decode pa b"
    using assms by (simp add: new_solo_runner_def load_runner_def spares_simps spares_read_trimmed
      cong del: if_weak_cong option.case_cong_weak prod.case_cong_weak sum.case_cong_weak)
  have mark: "write_failed_marker m' = write_failed_marker m"
    using assms by (intro ext) (simp add: write_failed_marker_def store_failed_marker_def spares_simps)
  have "run_solo m' r b = run_solo m r b" for r b
    using assms by (simp add: run_solo_def spares_pipeline
      cong del: if_weak_cong option.case_cong_weak prod.case_cong_weak sum.case_cong_weak)
  then show ?thesis
    using assms by (simp add: run_solo_from_spec_def load mark spares_calls
      cong del: if_weak_cong option.case_cong_weak prod.case_cong_weak sum.case_cong_weak)
qed

lemma restore_never_overwrites_witness:
  "run_solo_from_spec (solo_sample_machine\<lparr>ma_run := \<lambda>argv b. if overwrites argv b then (None, []) else (None, bx_nodes b)\<rparr>)
     solo_sample_decode default_solo_paths solo_sample_box =
   run_solo_from_spec solo_sample_machine solo_sample_decode default_solo_paths solo_sample_box"
  by (rule restore_never_overwrites) (auto simp: spares_data_def solo_sample_machine_def)

subsection \<open>Paths in shell commands\<close>

text \<open>
  The quoting round trip. In every command that the installer runs in a directory, the word
  that a shell reads after \<^verbatim>\<open>cd\<close> is that directory, whatever bytes it is made of, and
  the command follows it.
\<close>

lemma cd_reads_back:
  "\<exists>w. in_dir dir cmd = ''cd '' @ w \<and> shell_word False w = Some (dir, '' && '' @ cmd)"
  using shell_word_escape [of "'' && '' @ cmd" dir] by (simp add: in_dir_def is_space_def)

subsection \<open>The variables of a run\<close>

text \<open>
  The type of a variable: the directory of a version, the framework that was specified or one that
  can be detected, the bucket for uploads. Nothing else is a variable.
\<close>

definition typed_var :: "solo_runner \<Rightarrow> string \<Rightarrow> string \<Rightarrow> bool" where
  "typed_var r k v \<longleftrightarrow>
     (k = ''ZIBBY_APP_DIR'' \<and> (\<exists>n. v = filepath_join [pa_app_root (ru_paths r), ''v'' @ itoa n])) \<or>
     (k = ''ZIBBY_FRAMEWORK'' \<and>
        (if solo_framework (the_spec r) \<in> {''auto'', []} then v \<in> snd ` set framework_checks
         else v = solo_framework (the_spec r))) \<or>
     (k = ''ZIBBY_FILES_BUCKET'' \<and> v = uploads_bucket_name r \<and> v \<noteq> [])"

definition typed_vars :: "solo_runner \<Rightarrow> box \<Rightarrow> bool" where
  "typed_vars r b \<longleftrightarrow> (\<forall>k v. bx_env b k = Some v \<longrightarrow> typed_var r k v)"

lemma typed_vars_set: "typed_vars r b \<Longrightarrow> typed_var r k v \<Longrightarrow> typed_vars r (env_set k v b)"
  by (simp add: typed_vars_def env_set_def)

lemma typed_vars_cong: "bx_env b' = bx_env b \<Longrightarrow> typed_vars r b' \<longleftrightarrow> typed_vars r b"
  by (simp add: typed_vars_def)

lemma env_push [simp]: "bx_env (push_phase p d b) = bx_env b"
  by (simp add: push_phase_def)

lemma next_version_dir_form: "\<exists>n. next_version_dir m r b = filepath_join [pa_app_root (ru_paths r), ''v'' @ itoa n]"
proof (cases "read_dir m b (pa_app_root (ru_paths r))")
  case None
  have "''v1'' = ''v'' @ itoa 1" by (simp add: itoa_def nat_string.simps char_of_def bit_0)
  with None show ?thesis by (simp add: next_version_dir_def) metis
qed (auto simp: next_version_dir_def Let_def)

lemma detect_framework_known: "detect_framework m b dir \<noteq> [] \<Longrightarrow> detect_framework m b dir \<in> snd ` set framework_checks"
proof -
  assume found: "detect_framework m b dir \<noteq> []"
  then obtain x where x: "find (\<lambda>(f, fw). stat_node m b (filepath_join [dir, f]) \<noteq> None) framework_checks = Some x"
    by (auto simp: detect_framework_def split: option.splits)
  then have "x \<in> set framework_checks" unfolding find_Some_iff by (elim exE conjE) simp
  moreover have "detect_framework m b dir = snd x"
    unfolding detect_framework_def x by (cases x) simp
  ultimately show ?thesis by simp
qed

lemma env_download:
  "bx_env (snd (step_download m r b)) = bx_env b \<or>
   bx_env (snd (step_download m r b)) = (bx_env b)(''ZIBBY_APP_DIR'' \<mapsto>
      next_version_dir m r (push_phase PhaseDownloading (''type='' @ src_type (solo_source (the_spec r))) b))"
  (is "?P (step_download m r b)")
proof -
  let ?b = "push_phase PhaseDownloading (''type='' @ src_type (solo_source (the_spec r))) b"
  let ?dir = "next_version_dir m r ?b"
  obtain e1 b1 where mk: "errorf ''mkdir version'' (mkdir_all m ?dir ?b) = (e1, b1)" by fastforce
  obtain e2 b2 where fe: "fetch_source m (solo_source (the_spec r)) ?dir b1 = (e2, b2)" by fastforce
  have env: "bx_env b1 = bx_env b" "bx_env b2 = bx_env b"
    using vars.K_mkdir_all [of m ?dir ?b] vars.K_fetch_source [of m "solo_source (the_spec r)" ?dir b1] mk fe
    by (metis errorf_simps(2) snd_conv env_push)+
  show ?thesis
    using env mk fe by (cases e1; cases e2) (simp_all add: step_download_def env_set_def vars.K_call Let_def)
qed

lemma typed_download: "typed_vars r b \<Longrightarrow> typed_vars r (snd (step_download m r b))"
proof -
  assume typed: "typed_vars r b"
  from env_download [of m r b] show "typed_vars r (snd (step_download m r b))"
  proof
    assume "bx_env (snd (step_download m r b)) = bx_env b"
    with typed show ?thesis by (simp add: typed_vars_def)
  next
    assume "bx_env (snd (step_download m r b)) = (bx_env b)(''ZIBBY_APP_DIR'' \<mapsto>
      next_version_dir m r (push_phase PhaseDownloading (''type='' @ src_type (solo_source (the_spec r))) b))"
      (is "_ = (bx_env b)(?k \<mapsto> ?v)")
    moreover have "typed_var r ?k ?v" unfolding typed_var_def using next_version_dir_form by blast
    ultimately show ?thesis using typed by (simp add: typed_vars_def)
  qed
qed

lemma typed_detect: "typed_vars r b \<Longrightarrow> typed_vars r (snd (step_detect_framework m r b))"
  using detect_framework_known [of m b "app_dir b"] typed_vars_set [of r b "''ZIBBY_FRAMEWORK''"]
  by (simp add: step_detect_framework_def Let_def typed_var_def)

lemma env_quiet_steps:
  "bx_env (snd (step_install_os_deps m r b)) = bx_env b"
  "bx_env (snd (step_memory_tuning m r b)) = bx_env b"
  "bx_env (snd (step_configure_caddy m r b)) = bx_env b"
  "bx_env (snd (step_start_service m r b)) = bx_env b"
  "bx_env (snd (step_healthcheck m r b)) = bx_env b"
  by (simp_all add: step_install_os_deps_def step_memory_tuning_def step_configure_caddy_def
      step_start_service_def step_healthcheck_def Let_def vars.K_parts vars.K_and_then)

lemma env_app_deps: "bx_env (snd (step_install_app_deps m r b)) = bx_env b"
proof (cases "framework_of (push_phase PhaseInstalling ''app-deps'' b) = ''rails''")
  case False
  then show ?thesis
    by (cases "map_of install_commands (framework_of (push_phase PhaseInstalling ''app-deps'' b))")
      (simp_all only: step_install_app_deps_def Let_def if_False option.case snd_conv env_push
        split_beta errorf_simps vars.K_parts)
qed (simp add: step_install_app_deps_def Let_def vars.K_parts)

lemma env_unit: "bx_env (snd (step_write_systemd_unit m r b)) = bx_env b"
  by (simp add: step_write_systemd_unit_def, intro vars.K_and_then) (simp_all add: vars.K_parts)

lemma env_wrapper: "bx_env (snd (step_install_exec_wrapper m r b)) = bx_env b"
  by (simp add: step_install_exec_wrapper_def Let_def, intro vars.K_and_then)
    (simp_all add: vars.K_parts)

lemma env_persistence:
  "bx_env (snd (step_configure_persistence m r b)) = bx_env b \<or>
   (bx_env (snd (step_configure_persistence m r b)) = (bx_env b)(''ZIBBY_FILES_BUCKET'' \<mapsto> uploads_bucket_name r)
      \<and> uploads_bucket_name r \<noteq> [])"
proof -
  let ?ps = "solo_persist (the_spec r)"
  let ?b = "push_phase PhaseConfiguring (''db='' @ per_db ?ps @ '' files='' @ per_files ?ps) b"
  obtain e b1 where run: "(if per_db ?ps = ''sqlite-litestream'' then litestream_setup m r ?b else (None, ?b)) = (e, b1)"
    by fastforce
  have "bx_env b1 = bx_env b"
  proof (cases "per_db ?ps = ''sqlite-litestream''")
    case True
    then have "b1 = snd (litestream_setup m r ?b)" using run by simp
    then show ?thesis by (simp add: vars.K_litestream_setup)
  next
    case False
    then show ?thesis using run by (simp only: if_False prod.inject) auto
  qed
  then show ?thesis
    unfolding step_configure_persistence_def Let_def run by (cases e) (simp_all add: env_set_def)
qed

lemmas env_steps = env_quiet_steps env_app_deps env_unit env_wrapper

lemma typed_persistence: "typed_vars r b \<Longrightarrow> typed_vars r (snd (step_configure_persistence m r b))"
proof -
  assume typed: "typed_vars r b"
  from env_persistence [of m r b] show "typed_vars r (snd (step_configure_persistence m r b))"
  proof
    assume "bx_env (snd (step_configure_persistence m r b)) = bx_env b"
    with typed show ?thesis by (simp add: typed_vars_def)
  next
    assume set: "bx_env (snd (step_configure_persistence m r b)) =
        (bx_env b)(''ZIBBY_FILES_BUCKET'' \<mapsto> uploads_bucket_name r) \<and> uploads_bucket_name r \<noteq> []"
    then have "typed_var r ''ZIBBY_FILES_BUCKET'' (uploads_bucket_name r)" by (simp add: typed_var_def)
    with typed set show ?thesis by (simp add: typed_vars_def)
  qed
qed

lemma typed_step: "(label, n, st) \<in> set pipeline \<Longrightarrow> typed_vars r b \<Longrightarrow> typed_vars r (snd (st m r b))"
proof -
  have "list_all (\<lambda>(label, n, st). \<forall>b. typed_vars r b \<longrightarrow> typed_vars r (snd (st m r b))) pipeline"
    by (simp add: pipeline_def typed_download typed_detect typed_persistence
        typed_vars_cong [OF env_quiet_steps(1)] typed_vars_cong [OF env_quiet_steps(2)]
        typed_vars_cong [OF env_quiet_steps(3)] typed_vars_cong [OF env_quiet_steps(4)]
        typed_vars_cong [OF env_quiet_steps(5)] typed_vars_cong [OF env_app_deps]
        typed_vars_cong [OF env_unit] typed_vars_cong [OF env_wrapper])
  then show "(label, n, st) \<in> set pipeline \<Longrightarrow> typed_vars r b \<Longrightarrow> typed_vars r (snd (st m r b))"
    by (auto simp: list_all_iff)
qed

text \<open>An invariant of the steps is one of the pipeline, up to the time limit in force.\<close>

lemma run_pipeline_keeps:
  assumes step: "\<And>label n st b. (label, n, st) \<in> set ps \<Longrightarrow> I b \<Longrightarrow> I (snd (st m r b))"
    and limit: "\<And>b n. I (b\<lparr>bx_limit := n\<rparr>) = I b"
  shows "I b \<Longrightarrow> I (snd (run_pipeline m r ps b))"
  using step
proof (induction ps arbitrary: b)
  case (Cons p ps)
  obtain label n st where p: "p = (label, n, st)" by (cases p)
  obtain e b1 where run: "with_timeout n (st m r) b = (e, b1)" by fastforce
  have "I (snd (st m r (b\<lparr>bx_limit := n\<rparr>)))"
    by (rule Cons.prems(2) [of label n]) (simp_all add: p limit Cons.prems(1))
  then have "I b1" using run limit by (auto simp: with_timeout_def split_beta)
  moreover have "I (snd (run_pipeline m r ps b1))"
    by (rule Cons.IH [OF \<open>I b1\<close>], rule Cons.prems(2)) (erule list.set_intros(2), assumption)
  ultimately show ?case using p run by (cases e) simp_all
qed simp

lemma typed_pipeline: "typed_vars r b \<Longrightarrow> typed_vars r (snd (run_pipeline m r pipeline b))"
  by (erule run_pipeline_keeps [rotated 2], erule (1) typed_step) (simp add: typed_vars_def)

lemma typed_run_solo: "typed_vars r b \<Longrightarrow> typed_vars r (snd (run_solo m r b))"
proof -
  assume typed: "typed_vars r b"
  show ?thesis
  proof (cases "ru_spec r")
    case None
    then show ?thesis using typed by (simp add: run_solo_def)
  next
    case (Some s)
    let ?b = "push_phase PhaseBootstrapping (''slug='' @ solo_app_slug s @ '' framework='' @ solo_framework s) b"
    obtain e b1 where run: "run_pipeline m r pipeline ?b = (e, b1)" by fastforce
    have "typed_vars r ?b" using typed by (simp add: typed_vars_def)
    then have "typed_vars r b1" using typed_pipeline [of r ?b m] run by simp
    then have "typed_vars r (push_phase PhaseRunning d b1)" for d by (simp add: typed_vars_def)
    with \<open>typed_vars r b1\<close> show ?thesis using Some run by (cases e) (simp_all add: run_solo_def)
  qed
qed

lemma dom_step:
  assumes "(label, n, st) \<in> set pipeline"
  shows "dom (bx_env b) \<subseteq> dom (bx_env (snd (st m r b)))"
proof -
  have "dom (bx_env b) \<subseteq> dom (bx_env (snd (step_download m r b)))" for b
    using env_download [of m r b] by (elim disjE) (simp_all add: subset_insertI)
  moreover have "dom (bx_env b) \<subseteq> dom (bx_env (snd (step_configure_persistence m r b)))" for b
    using env_persistence [of m r b] by (elim disjE conjE) (simp_all add: subset_insertI)
  moreover have "dom (bx_env b) \<subseteq> dom (bx_env (snd (step_detect_framework m r b)))" for b
    by (simp add: step_detect_framework_def Let_def env_set_def subset_insertI)
  ultimately have "list_all (\<lambda>(label, n, st). \<forall>b. dom (bx_env b) \<subseteq> dom (bx_env (snd (st m r b)))) pipeline"
    by (simp add: pipeline_def env_steps)
  then have "case (label, n, st) of (label, n, st) \<Rightarrow> \<forall>b. dom (bx_env b) \<subseteq> dom (bx_env (snd (st m r b)))"
    unfolding list_all_iff using assms by (rule bspec)
  then show ?thesis by simp
qed

lemma download_sets: "step_download m r b = (None, b') \<Longrightarrow> ''ZIBBY_APP_DIR'' \<in> dom (bx_env b')"
  by (auto simp: step_download_def Let_def and_then_cases env_set_def)

lemma detect_sets: "step_detect_framework m r b = (None, b') \<Longrightarrow> ''ZIBBY_FRAMEWORK'' \<in> dom (bx_env b')"
  by (auto simp: step_detect_framework_def Let_def env_set_def split: if_splits)

lemma run_solo_sets:
  assumes "run_solo m r b = (None, b')"
  shows "{''ZIBBY_APP_DIR'', ''ZIBBY_FRAMEWORK''} \<subseteq> dom (bx_env b')"
proof -
  obtain s where s: "ru_spec r = Some s"
    using assms by (cases "ru_spec r") (simp_all add: run_solo_def)
  with assms obtain b0 b4 where "run_pipeline m r pipeline b0 = (None, b4)"
    and b': "b' = push_phase PhaseRunning (''domain='' @ solo_domain s) b4"
    by (auto simp: run_solo_def and_then_cases)
  moreover have "pipeline = (''download'', 10, step_download) # (''detect'', 1, step_detect_framework) # drop 2 pipeline"
    by (simp add: pipeline_def)
  ultimately have "run_pipeline m r ((''download'', 10, step_download) #
      (''detect'', 1, step_detect_framework) # drop 2 pipeline) b0 = (None, b4)"
    by simp
  then obtain b1 b3 where d: "step_download m r (b0\<lparr>bx_limit := 10\<rparr>) = (None, b1)"
    and f: "step_detect_framework m r (b1\<lparr>bx_limit := Suc 0\<rparr>) = (None, b3)"
    and rest: "\<exists>n. run_pipeline m r (drop 2 pipeline) (b3\<lparr>bx_limit := n\<rparr>) = (None, b4)"
    by (auto simp: and_then_cases errorf_None_iff with_timeout_None_iff) blast
  have "dom (bx_env b1) \<subseteq> dom (bx_env b3)"
    using dom_step [of "''detect''" 1 step_detect_framework "b1\<lparr>bx_limit := Suc 0\<rparr>" m r] f
    by (simp add: pipeline_def)
  then have sets: "{''ZIBBY_APP_DIR'', ''ZIBBY_FRAMEWORK''} \<subseteq> dom (bx_env b3)"
    using download_sets [OF d] detect_sets [OF f] by auto
  obtain n where n: "run_pipeline m r (drop 2 pipeline) (b3\<lparr>bx_limit := n\<rparr>) = (None, b4)"
    using rest by blast
  have "{''ZIBBY_APP_DIR'', ''ZIBBY_FRAMEWORK''} \<subseteq>
      dom (bx_env (snd (run_pipeline m r (drop 2 pipeline) (b3\<lparr>bx_limit := n\<rparr>))))"
  proof (rule run_pipeline_keeps)
    fix label k st and c :: box
    assume mem: "(label, k, st) \<in> set (drop 2 pipeline)"
      and old: "{''ZIBBY_APP_DIR'', ''ZIBBY_FRAMEWORK''} \<subseteq> dom (bx_env c)"
    show "{''ZIBBY_APP_DIR'', ''ZIBBY_FRAMEWORK''} \<subseteq> dom (bx_env (snd (st m r c)))"
      by (rule subset_trans [OF old dom_step [OF in_set_dropD [OF mem]]])
  qed (use sets in simp_all)
  with n b' show ?thesis by simp
qed

text \<open>
  C27: the variables of an installation are typed. Whatever the commands do to the box, after any run
  the directory is that of a version of this installation, the framework is the one specified or one
  that detection knows, the bucket is that of this application, and there are no other variables;
  after a successful run directory and framework are set.
\<close>

theorem variables_stay_typed:
  assumes start: "stat_node m b (pa_failed_marker pa) = None"
    and loaded: "new_solo_runner m decode pa b = Inr r"
    and run: "run_solo_from_spec m decode pa b = (e, b')"
  shows "typed_vars r b' \<and> (e = None \<longrightarrow> {''ZIBBY_APP_DIR'', ''ZIBBY_FRAMEWORK''} \<subseteq> dom (bx_env b'))"
proof -
  obtain x b1 where solo: "run_solo m r (b\<lparr>bx_env := Map.empty\<rparr>) = (x, b1)" by fastforce
  have "typed_vars r (b\<lparr>bx_env := Map.empty\<rparr>)" by (simp add: typed_vars_def)
  then have typed: "typed_vars r b1" using typed_run_solo [of r _ m] solo by (metis snd_conv)
  show ?thesis
  proof (cases x)
    case None
    then have "e = None" "b' = b1" using start loaded run solo by (simp_all add: run_solo_from_spec_def)
    then show ?thesis using typed run_solo_sets solo None by simp
  next
    case (Some y)
    then have "e = Some y" "b' = write_failed_marker m pa y (push_phase PhaseFailed y b1)"
      using start loaded run solo by (simp_all add: run_solo_from_spec_def)
    moreover have "bx_env (write_failed_marker m pa y (push_phase PhaseFailed y b1)) = bx_env b1"
      by (simp add: vars.K_write_failed_marker)
    ultimately show ?thesis using typed by (simp add: typed_vars_def)
  qed
qed

lemma variables_stay_typed_witness:
  "\<exists>b'. run_solo_from_spec solo_sample_machine solo_sample_decode default_solo_paths solo_sample_box = (None, b') \<and>
     typed_vars solo_sample_runner b' \<and> {''ZIBBY_APP_DIR'', ''ZIBBY_FRAMEWORK''} \<subseteq> dom (bx_env b')"
  using sample_succeeds variables_stay_typed [OF sample_unmarked sample_loaded] by blast

end
