(* ===== verification/Service.thy ===== *)
theory Service
  imports HostFs
begin

text \<open>
  \<^verbatim>\<open>internal/service\<close>: the daemon as a service of the system, under systemd on Linux and
  launchd on macOS. A manager renders its unit file, installs and removes it, and starts, stops and
  queries the service through commands. The locale \<open>service_manager\<close> is what both managers promise
  of the unit file.
\<close>

subsection \<open>Specification and templates\<close>

record service_spec =
  sv_exec_path :: string
  sv_config_path :: string
  sv_user :: string
  sv_group :: string
  sv_state_dir :: string
  sv_log_path :: string

record service_status =
  ss_installed :: bool
  ss_active :: bool
  ss_raw :: string

definition unit_template :: "service_spec \<Rightarrow> string" where
  "unit_template s =
    join [nl]
      [''[Unit]'',
       ''Description=agent-ops '' @ em_dash @ '' autonomous DevOps engineer'',
       ''Documentation=https://github.com/ZibbyDev/agent-ops'',
       ''After=network-online.target'',
       ''Wants=network-online.target'',
       [],
       ''[Service]'',
       ''Type=simple'',
       ''User='' @ sv_user s,
       ''Group='' @ sv_group s,
       ''ExecStart='' @ sv_exec_path s @ '' --config '' @ sv_config_path s,
       ''Restart=on-failure'',
       ''RestartSec=5s'',
       ''# Environment file is optional '' @ em_dash @ '' operators can drop secrets (API keys,'',
       ''# AGENT_OPS_TOKEN) here without editing the unit. Path is fixed by convention.'',
       ''EnvironmentFile=-/etc/agent-ops/agent-ops.env'',
       ''StateDirectory=agent-ops'',
       ''StateDirectoryMode=0700'',
       ''StandardOutput=append:'' @ sv_log_path s,
       ''StandardError=append:'' @ sv_log_path s,
       [],
       ''# Light sandbox. Don't go further (e.g. ProtectHome=yes) because the agent's'',
       ''# whole job is poking at the host '' @ em_dash @ '' over-confinement defeats the purpose.'',
       ''NoNewPrivileges=true'',
       ''PrivateTmp=true'',
       [],
       ''[Install]'',
       ''WantedBy=multi-user.target'',
       []]"

definition plist_template :: "service_spec \<Rightarrow> string" where
  "plist_template s =
    join [nl]
      [''<?xml version=\"1.0\" encoding=\"UTF-8\"?>'',
       ''<!DOCTYPE plist PUBLIC \"-//Apple//DTD PLIST 1.0//EN\" \"http://www.apple.com/DTDs/PropertyList-1.0.dtd\">'',
       ''<plist version=\"1.0\">'',
       ''<dict>'',
       ''    <key>Label</key>'',
       ''    <string>dev.zibby.agent-ops</string>'',
       ''    <key>ProgramArguments</key>'',
       ''    <array>'',
       ''        <string>'' @ sv_exec_path s @ ''</string>'',
       ''        <string>--config</string>'',
       ''        <string>'' @ sv_config_path s @ ''</string>'',
       ''    </array>'',
       ''    <key>RunAtLoad</key>'',
       ''    <true/>'',
       ''    <key>KeepAlive</key>'',
       ''    <dict>'',
       ''        <key>SuccessfulExit</key>'',
       ''        <false/>'',
       ''    </dict>'',
       ''    <key>StandardOutPath</key>'',
       ''    <string>'' @ sv_log_path s @ ''</string>'',
       ''    <key>StandardErrorPath</key>'',
       ''    <string>'' @ sv_log_path s @ ''</string>'',
       ''    <key>WorkingDirectory</key>'',
       ''    <string>'' @ sv_state_dir s @ ''</string>'',
       ''</dict>'',
       ''</plist>'',
       []]"

subsection \<open>Commands\<close>

text \<open>\<^verbatim>\<open>runCmd\<close> reports what the command printed; \<^verbatim>\<open>captureCmd\<close> returns it.\<close>

definition run_cmd :: "machine \<Rightarrow> string list \<Rightarrow> box \<Rightarrow> string option \<times> box" where
  "run_cmd m argv b =
     (let (e, b') = call m argv b
      in (map_option (\<lambda>x. ''service: '' @ hd argv @ '' '' @ join '' '' (tl argv) @ '': '' @ x
                          @ '' (output: '' @ trim_space (ma_output m argv b) @ '')'') e, b'))"

definition capture_cmd :: "machine \<Rightarrow> string list \<Rightarrow> box \<Rightarrow> string \<times> box" where
  "capture_cmd m argv b = (ma_output m argv b, snd (call m argv b))"

text \<open>Removing a file that may not be there.\<close>

definition remove_if_there :: "machine \<Rightarrow> string \<Rightarrow> box \<Rightarrow> string option \<times> box" where
  "remove_if_there m p b =
     (let (e, b') = remove_node m p b
      in (if e = Some (path_error ''remove'' p enoent) then None else e, b'))"

subsection \<open>systemd\<close>

record systemd_manager =
  sy_unit_path :: string
  sy_bin_name :: string
  sy_unit_name :: string
  sy_default_log :: string

definition systemd_render :: "systemd_manager \<Rightarrow> service_spec \<Rightarrow> string" where
  "systemd_render g s =
     (let log = or_default (sv_log_path s) (sy_default_log g);
          user = or_default (sv_user s) ''root'';
          grp = or_default (sv_group s) user
      in unit_template (s\<lparr>sv_log_path := log, sv_user := user, sv_group := grp\<rparr>))"

definition systemd_install :: "machine \<Rightarrow> systemd_manager \<Rightarrow> service_spec \<Rightarrow> box \<Rightarrow> string option \<times> box" where
  "systemd_install m g s b =
     and_then (errorf ''service.Install: write unit''
         (write_file m (sy_unit_path g) (systemd_render g s) mode_public b))
       (run_cmd m [sy_bin_name g, ''daemon-reload''])"

definition systemd_uninstall :: "machine \<Rightarrow> systemd_manager \<Rightarrow> box \<Rightarrow> string option \<times> box" where
  "systemd_uninstall m g b =
     and_then (ignore (run_cmd m [sy_bin_name g, ''disable'', ''--now'', sy_unit_name g] b))
       (\<lambda>b. and_then (errorf ''service.Uninstall: remove unit'' (remove_if_there m (sy_unit_path g) b))
         (run_cmd m [sy_bin_name g, ''daemon-reload'']))"

definition systemd_start :: "machine \<Rightarrow> systemd_manager \<Rightarrow> box \<Rightarrow> string option \<times> box" where
  "systemd_start m g = run_cmd m [sy_bin_name g, ''enable'', ''--now'', sy_unit_name g]"

definition systemd_stop :: "machine \<Rightarrow> systemd_manager \<Rightarrow> box \<Rightarrow> string option \<times> box" where
  "systemd_stop m g = run_cmd m [sy_bin_name g, ''stop'', sy_unit_name g]"

definition systemd_restart :: "machine \<Rightarrow> systemd_manager \<Rightarrow> box \<Rightarrow> string option \<times> box" where
  "systemd_restart m g = run_cmd m [sy_bin_name g, ''restart'', sy_unit_name g]"

definition systemd_status :: "machine \<Rightarrow> systemd_manager \<Rightarrow> box \<Rightarrow> service_status \<times> box" where
  "systemd_status m g b =
     (let installed = stat_node m b (sy_unit_path g) \<noteq> None;
          (out, b1) = capture_cmd m [sy_bin_name g, ''is-active'', sy_unit_name g] b;
          (verbose, b2) = capture_cmd m [sy_bin_name g, ''status'', sy_unit_name g, ''--no-pager''] b1
      in (\<lparr>ss_installed = installed, ss_active = (trim_space out = ''active''), ss_raw = verbose\<rparr>, b2))"

definition systemd_follow_logs :: "systemd_manager \<Rightarrow> string \<Rightarrow> string list" where
  "systemd_follow_logs g since =
     [''journalctl'', ''-u'', sy_unit_name g, ''-f''] @ (if since \<noteq> [] then [''--since'', since] else [])"

subsection \<open>launchd\<close>

record launchd_manager =
  la_label :: string
  la_plist_path :: string
  la_default_log :: string

definition launchd_render :: "launchd_manager \<Rightarrow> service_spec \<Rightarrow> string" where
  "launchd_render g s =
     plist_template (s\<lparr>sv_log_path := or_default (sv_log_path s) (la_default_log g),
                       sv_state_dir := or_default (sv_state_dir s) ''/tmp''\<rparr>)"

definition launchd_install :: "machine \<Rightarrow> launchd_manager \<Rightarrow> service_spec \<Rightarrow> box \<Rightarrow> string option \<times> box" where
  "launchd_install m g s b =
     and_then (errorf ''service.Install: mkdir LaunchAgents'' (mkdir_all m (filepath_dir (la_plist_path g)) b))
       (\<lambda>b. and_then (errorf ''service.Install: write plist''
                (write_file m (la_plist_path g) (launchd_render g s) mode_public b))
         (\<lambda>b. and_then (ignore (run_cmd m [''launchctl'', ''unload'', la_plist_path g] b))
           (run_cmd m [''launchctl'', ''load'', la_plist_path g])))"

definition launchd_uninstall :: "machine \<Rightarrow> launchd_manager \<Rightarrow> box \<Rightarrow> string option \<times> box" where
  "launchd_uninstall m g b =
     and_then (ignore (run_cmd m [''launchctl'', ''unload'', la_plist_path g] b))
       (\<lambda>b. errorf ''service.Uninstall: remove plist'' (remove_if_there m (la_plist_path g) b))"

definition launchd_start :: "machine \<Rightarrow> launchd_manager \<Rightarrow> box \<Rightarrow> string option \<times> box" where
  "launchd_start m g = run_cmd m [''launchctl'', ''start'', la_label g]"

definition launchd_stop :: "machine \<Rightarrow> launchd_manager \<Rightarrow> box \<Rightarrow> string option \<times> box" where
  "launchd_stop m g = run_cmd m [''launchctl'', ''stop'', la_label g]"

definition launchd_restart :: "machine \<Rightarrow> launchd_manager \<Rightarrow> box \<Rightarrow> string option \<times> box" where
  "launchd_restart m g b = and_then (ignore (launchd_stop m g b)) (launchd_start m g)"

text \<open>\<^verbatim>\<open>fmt.Sscanf(s, "%d")\<close>: a number in the 64-bit range at the start of the text.\<close>

definition scans_number :: "string \<Rightarrow> bool" where
  "scans_number s =
     (let (sign, rest) = (case s of [] \<Rightarrow> ([], []) | c # cs \<Rightarrow> if c = CHR ''-'' \<or> c = CHR ''+'' then ([c], cs) else ([], s));
          digits = takeWhile (\<lambda>c. digit_value c \<noteq> None) rest
      in digits \<noteq> [] \<and> atoi (sign @ digits) \<noteq> None)"

definition shows_pid :: "string \<Rightarrow> bool" where
  "shows_pid line =
     (case str_fields (trim_space line) of
        [] \<Rightarrow> False
      | f # fs \<Rightarrow> f \<noteq> ''-'' \<and> f \<noteq> ''PID'' \<and> scans_number f)"

definition launchd_status :: "machine \<Rightarrow> launchd_manager \<Rightarrow> box \<Rightarrow> service_status \<times> box" where
  "launchd_status m g b =
     (let installed = stat_node m b (la_plist_path g) \<noteq> None;
          (out, b1) = capture_cmd m [''launchctl'', ''list'', la_label g] b
      in (\<lparr>ss_installed = installed, ss_active = list_ex shows_pid (split_on nl out), ss_raw = out\<rparr>, b1))"

definition launchd_follow_logs :: "launchd_manager \<Rightarrow> string list" where
  "launchd_follow_logs g = [''tail'', ''-f'', la_default_log g]"

subsection \<open>The manager of the platform\<close>

datatype manager = Systemd systemd_manager | Launchd launchd_manager

text \<open>The platform is \<^verbatim>\<open>runtime.GOOS\<close>; \<open>home\<close> is the home directory or the error of asking.\<close>

definition new_manager :: "string \<Rightarrow> string + string \<Rightarrow> string + manager" where
  "new_manager goos home =
     (if goos = ''linux'' then
        Inr (Systemd \<lparr>sy_unit_path = ''/etc/systemd/system/agent-ops.service'', sy_bin_name = ''systemctl'',
                      sy_unit_name = ''agent-ops'', sy_default_log = ''/var/log/agent-ops.log''\<rparr>)
      else if goos = ''darwin'' then
        (case home of
           Inl e \<Rightarrow> Inl (''service: home dir: '' @ e)
         | Inr h \<Rightarrow>
             Inr (Launchd \<lparr>la_label = ''dev.zibby.agent-ops'',
                    la_plist_path = filepath_join [h, ''Library'', ''LaunchAgents'', ''dev.zibby.agent-ops.plist''],
                    la_default_log = filepath_join [h, ''Library'', ''Logs'', ''agent-ops.log'']\<rparr>))
      else Inl ''service: unsupported platform (linux/darwin only in v0.2)'')"

fun mgr_unit_path :: "manager \<Rightarrow> string" where
  "mgr_unit_path (Systemd g) = sy_unit_path g"
| "mgr_unit_path (Launchd g) = la_plist_path g"

fun mgr_log_path :: "manager \<Rightarrow> string" where
  "mgr_log_path (Systemd g) = sy_default_log g"
| "mgr_log_path (Launchd g) = la_default_log g"

fun mgr_render :: "manager \<Rightarrow> service_spec \<Rightarrow> string" where
  "mgr_render (Systemd g) s = systemd_render g s"
| "mgr_render (Launchd g) s = launchd_render g s"

fun mgr_install :: "machine \<Rightarrow> manager \<Rightarrow> service_spec \<Rightarrow> box \<Rightarrow> string option \<times> box" where
  "mgr_install m (Systemd g) s b = systemd_install m g s b"
| "mgr_install m (Launchd g) s b = launchd_install m g s b"

fun mgr_uninstall :: "machine \<Rightarrow> manager \<Rightarrow> box \<Rightarrow> string option \<times> box" where
  "mgr_uninstall m (Systemd g) b = systemd_uninstall m g b"
| "mgr_uninstall m (Launchd g) b = launchd_uninstall m g b"

fun mgr_start :: "machine \<Rightarrow> manager \<Rightarrow> box \<Rightarrow> string option \<times> box" where
  "mgr_start m (Systemd g) b = systemd_start m g b"
| "mgr_start m (Launchd g) b = launchd_start m g b"

fun mgr_stop :: "machine \<Rightarrow> manager \<Rightarrow> box \<Rightarrow> string option \<times> box" where
  "mgr_stop m (Systemd g) b = systemd_stop m g b"
| "mgr_stop m (Launchd g) b = launchd_stop m g b"

fun mgr_restart :: "machine \<Rightarrow> manager \<Rightarrow> box \<Rightarrow> string option \<times> box" where
  "mgr_restart m (Systemd g) b = systemd_restart m g b"
| "mgr_restart m (Launchd g) b = launchd_restart m g b"

fun mgr_status :: "machine \<Rightarrow> manager \<Rightarrow> box \<Rightarrow> service_status \<times> box" where
  "mgr_status m (Systemd g) b = systemd_status m g b"
| "mgr_status m (Launchd g) b = launchd_status m g b"

fun mgr_follow_logs :: "manager \<Rightarrow> string \<Rightarrow> string list" where
  "mgr_follow_logs (Systemd g) since = systemd_follow_logs g since"
| "mgr_follow_logs (Launchd g) since = launchd_follow_logs g"


subsection \<open>What a manager promises\<close>

text \<open>
  The commands a manager runs leave the unit file as it is (and a refusal to remove it does not claim
  that it is absent), and nothing keeps it from being read.
\<close>

definition spares :: "machine \<Rightarrow> string \<Rightarrow> bool" where
  "spares m p \<longleftrightarrow>
     (\<forall>argv b. node_at (bx_nodes b) p = None \<longrightarrow> node_at (bx_nodes (snd (call m argv b))) p = None) \<and>
     (\<forall>argv b c. read_file m b p = Inr c \<longrightarrow> read_file m (snd (call m argv b)) p = Inr c) \<and>
     (\<forall>b. ma_refuse m SysRemove p b \<noteq> Some enoent)"

definition readable :: "machine \<Rightarrow> string \<Rightarrow> bool" where
  "readable m p \<longleftrightarrow> (\<forall>b. ma_refuse m SysOpen p b = None \<and> ma_refuse m SysStat p b = None)"

text \<open>
  The contract of a manager: after an installation the unit file holds what was rendered, after a
  removal there is none, and the status says which.
\<close>

locale service_manager =
  fixes m :: machine
    and path :: string
    and render :: "service_spec \<Rightarrow> string"
    and install :: "service_spec \<Rightarrow> box \<Rightarrow> string option \<times> box"
    and uninstall :: "box \<Rightarrow> string option \<times> box"
    and status :: "box \<Rightarrow> service_status \<times> box"
  assumes install_renders:
    "\<lbrakk>install s b = (None, b'); spares m path; readable m path\<rbrakk> \<Longrightarrow> read_file m b' path = Inr (render s)"
    and uninstall_removes:
    "\<lbrakk>uninstall b = (None, b'); spares m path\<rbrakk> \<Longrightarrow> node_at (bx_nodes b') path = None"
    and status_installed: "ss_installed (fst (status b)) \<longleftrightarrow> stat_node m b path \<noteq> None"
begin

lemma reinstall_replaces:
  "\<lbrakk>install s b = (None, b1); install s' b1 = (None, b'); spares m path; readable m path\<rbrakk>
    \<Longrightarrow> read_file m b' path = Inr (render s')"
  using install_renders by blast

lemma installed_after_install:
  assumes "install s b = (None, b')" "spares m path" "readable m path"
  shows "ss_installed (fst (status b'))"
proof -
  have "read_file m b' path = Inr (render s)" using install_renders assms by blast
  then have "stat_node m b' path \<noteq> None"
    using assms(3) by (auto simp: read_file_def stat_node_def readable_def split: option.splits node.splits)
  then show ?thesis by (simp add: status_installed)
qed

lemma not_installed_after_uninstall:
  assumes "uninstall b = (None, b')" "spares m path"
  shows "\<not> ss_installed (fst (status b'))"
proof -
  have "node_at (bx_nodes b') path = None" using uninstall_removes assms by blast
  then have "stat_node m b' path = None" by (simp add: stat_node_def follow_links_def follow_plain)
  then show ?thesis by (simp add: status_installed)
qed

lemma lifecycle:
  assumes "spares m path" "readable m path"
  shows "install s b = (None, b1) \<longrightarrow> read_file m b1 path = Inr (render s) \<and> ss_installed (fst (status b1))"
    and "uninstall b = (None, b2) \<longrightarrow> node_at (bx_nodes b2) path = None \<and> \<not> ss_installed (fst (status b2))"
  using assms install_renders installed_after_install uninstall_removes not_installed_after_uninstall
  by blast+

end

lemma snd_run_cmd [simp]: "snd (run_cmd m argv b) = snd (call m argv b)"
  by (simp add: run_cmd_def split_beta)

lemma spares_reading: "spares m p \<Longrightarrow> read_file m b p = Inr c \<Longrightarrow> read_file m (snd (call m argv b)) p = Inr c"
  by (simp add: spares_def)

lemma spares_absent:
  "spares m p \<Longrightarrow> node_at (bx_nodes b) p = None \<Longrightarrow> node_at (bx_nodes (snd (call m argv b))) p = None"
  by (simp add: spares_def)

lemma remove_if_there_gone:
  assumes "remove_if_there m p b = (None, b')" "spares m p" shows "node_at (bx_nodes b') p = None"
proof -
  obtain e b1 where r: "remove_node m p b = (e, b1)" by fastforce
  with assms have "b' = b1" "e = None \<or> e = Some (path_error ''remove'' p enoent)"
    by (auto simp: remove_if_there_def split: if_splits)
  with r assms show ?thesis
    by (auto simp: remove_node_def remove_if_there_def path_error_def spares_def split: option.splits if_splits)
qed

interpretation systemd: service_manager m "sy_unit_path g" "systemd_render g" "systemd_install m g"
    "systemd_uninstall m g" "systemd_status m g" for m g
proof
  fix s b b'
  assume inst: "systemd_install m g s b = (None, b')"
    and sp: "spares m (sy_unit_path g)" and rd: "readable m (sy_unit_path g)"
  obtain e b1 where w: "write_file m (sy_unit_path g) (systemd_render g s) mode_public b = (e, b1)"
    by fastforce
  with inst have e: "e = None" and b': "b' = snd (call m [sy_bin_name g, ''daemon-reload''] b1)"
    by (cases e; auto simp: systemd_install_def dest: arg_cong [of _ _ snd])+
  from w e rd have "read_file m b1 (sy_unit_path g) = Inr (systemd_render g s)"
    by (auto intro: read_written simp: readable_def)
  with sp show "read_file m b' (sy_unit_path g) = Inr (systemd_render g s)"
    unfolding b' by (rule spares_reading)
next
  fix b b'
  assume un: "systemd_uninstall m g b = (None, b')" and sp: "spares m (sy_unit_path g)"
  obtain e b1 where w: "remove_if_there m (sy_unit_path g)
      (snd (call m [sy_bin_name g, ''disable'', ''--now'', sy_unit_name g] b)) = (e, b1)"
    by fastforce
  with un have e: "e = None" and b': "b' = snd (call m [sy_bin_name g, ''daemon-reload''] b1)"
    by (cases e; auto simp: systemd_uninstall_def dest: arg_cong [of _ _ snd])+
  from w e sp have "node_at (bx_nodes b1) (sy_unit_path g) = None" by (auto dest: remove_if_there_gone)
  with sp show "node_at (bx_nodes b') (sy_unit_path g) = None" unfolding b' by (rule spares_absent)
next
  fix b
  show "ss_installed (fst (systemd_status m g b)) \<longleftrightarrow> stat_node m b (sy_unit_path g) \<noteq> None"
    by (simp add: systemd_status_def Let_def split_beta)
qed

interpretation launchd: service_manager m "la_plist_path g" "launchd_render g" "launchd_install m g"
    "launchd_uninstall m g" "launchd_status m g" for m g
proof
  fix s b b'
  assume inst: "launchd_install m g s b = (None, b')"
    and sp: "spares m (la_plist_path g)" and rd: "readable m (la_plist_path g)"
  obtain e0 b0 where d: "mkdir_all m (filepath_dir (la_plist_path g)) b = (e0, b0)" by fastforce
  obtain e b1 where w: "write_file m (la_plist_path g) (launchd_render g s) mode_public b0 = (e, b1)"
    by fastforce
  from d w inst have e: "e = None"
    and b': "b' = snd (call m [''launchctl'', ''load'', la_plist_path g]
               (snd (call m [''launchctl'', ''unload'', la_plist_path g] b1)))"
    by (cases e0; cases e; auto simp: launchd_install_def dest: arg_cong [of _ _ snd])+
  from w e rd have "read_file m b1 (la_plist_path g) = Inr (launchd_render g s)"
    by (auto intro: read_written simp: readable_def)
  with sp show "read_file m b' (la_plist_path g) = Inr (launchd_render g s)"
    unfolding b' by (intro spares_reading)
next
  fix b b'
  assume un: "launchd_uninstall m g b = (None, b')" and sp: "spares m (la_plist_path g)"
  obtain e b1 where w: "remove_if_there m (la_plist_path g)
      (snd (call m [''launchctl'', ''unload'', la_plist_path g] b)) = (e, b1)"
    by fastforce
  with un have "e = None" "b' = b1" by (cases e; auto simp: launchd_uninstall_def)+
  with w sp show "node_at (bx_nodes b') (la_plist_path g) = None" by (auto dest: remove_if_there_gone)
next
  fix b
  show "ss_installed (fst (launchd_status m g b)) \<longleftrightarrow> stat_node m b (la_plist_path g) \<noteq> None"
    by (simp add: launchd_status_def Let_def split_beta)
qed

text \<open>
  C30: The unit file under either manager. After an installation that reports no error the unit file
  holds exactly what was rendered for the given specification, and the status calls the service
  installed; after a removal that reports no error there is no unit file, and the status calls it not
  installed. The commands that are run in between may fail, but must leave the unit file alone.
\<close>

theorem unit_file_lifecycle:
  assumes "spares m (mgr_unit_path g)" and "readable m (mgr_unit_path g)"
  shows "(mgr_install m g s b = (None, b1) \<longrightarrow>
            read_file m b1 (mgr_unit_path g) = Inr (mgr_render g s) \<and> ss_installed (fst (mgr_status m g b1)))
       \<and> (mgr_uninstall m g b = (None, b2) \<longrightarrow>
            node_at (bx_nodes b2) (mgr_unit_path g) = None \<and> \<not> ss_installed (fst (mgr_status m g b2)))"
proof (cases g)
  case (Systemd g')
  show ?thesis using systemd.lifecycle [of m g'] assms unfolding Systemd by auto
next
  case (Launchd g')
  show ?thesis using launchd.lifecycle [of m g'] assms unfolding Launchd by auto
qed


text \<open>A host that refuses nothing and whose commands do nothing.\<close>

definition idle_machine :: "(string list \<Rightarrow> string) \<Rightarrow> environ \<Rightarrow> machine" where
  "idle_machine out env =
     \<lparr>ma_refuse = (\<lambda>s p b. None), ma_stored = (\<lambda>p b. 0), ma_run = (\<lambda>argv b. (None, bx_nodes b)),
      ma_output = (\<lambda>argv b. out argv), ma_env = env, ma_now = (\<lambda>b. []), ma_rand = (\<lambda>n b. None),
      ma_iter = (\<lambda>st. []), ma_answer = (\<lambda>k u. Inl []), ma_delay = (\<lambda>k. 0), ma_cancel = (\<lambda>k. None)\<rparr>"

lemma idle_call [simp]: "call (idle_machine out env) argv b = (None, b\<lparr>bx_trace := bx_trace b @ [Ran argv]\<rparr>)"
  by (simp add: call_def idle_machine_def)

lemma idle_refuses_nothing [simp]: "ma_refuse (idle_machine out env) s p b = None"
  by (simp add: idle_machine_def)

lemma idle_spares: "spares (idle_machine out env) p" "readable (idle_machine out env) p"
  by (simp_all add: spares_def readable_def read_file_def
      cong del: option.case_cong_weak node.case_cong_weak)

abbreviation empty_box :: "nodes \<Rightarrow> box" where
  "empty_box ns \<equiv> \<lparr>bx_nodes = ns, bx_env = Map.empty, bx_limit = 0, bx_trace = []\<rparr>"

abbreviation unit_dirs :: nodes where
  "unit_dirs \<equiv> [(''/'', DirNode), (''/etc'', DirNode), (''/etc/systemd'', DirNode),
                (''/etc/systemd/system'', DirNode)]"

abbreviation linux_manager :: manager where
  "linux_manager \<equiv>
     Systemd \<lparr>sy_unit_path = ''/etc/systemd/system/agent-ops.service'', sy_bin_name = ''systemctl'',
             sy_unit_name = ''agent-ops'', sy_default_log = ''/var/log/agent-ops.log''\<rparr>"

lemma unit_dir: "filepath_dir ''/etc/systemd/system/agent-ops.service'' = ''/etc/systemd/system''"
  by code_simp

lemma linux_install_works:
  "fst (mgr_install (idle_machine out env) linux_manager s (empty_box unit_dirs)) = None"
  by (simp add: systemd_install_def write_file_def run_cmd_def follow_links_def follow_plain node_at_def
      unit_dir Let_def)

theorem unit_file_lifecycle_witness:
  "\<exists>s b1. mgr_install (idle_machine (\<lambda>a. []) (\<lambda>k. [])) linux_manager s (empty_box unit_dirs) = (None, b1)
     \<and> read_file (idle_machine (\<lambda>a. []) (\<lambda>k. [])) b1 ''/etc/systemd/system/agent-ops.service''
         = Inr (mgr_render linux_manager s)
     \<and> ss_installed (fst (mgr_status (idle_machine (\<lambda>a. []) (\<lambda>k. [])) linux_manager b1))"
proof -
  let ?m = "idle_machine (\<lambda>a. []) (\<lambda>k. [])" and ?s = "\<lparr>sv_exec_path = ''/usr/bin/agent-opsd'', sv_config_path = ''/etc/agent-ops/config.yaml'',
    sv_user = [], sv_group = [], sv_state_dir = [], sv_log_path = []\<rparr>"
  obtain b1 where b1: "mgr_install ?m linux_manager ?s (empty_box unit_dirs) = (None, b1)"
    using linux_install_works by (metis prod.collapse)
  have sp: "spares ?m (mgr_unit_path linux_manager)" and rd: "readable ?m (mgr_unit_path linux_manager)"
    by (rule idle_spares)+
  have "read_file ?m b1 ''/etc/systemd/system/agent-ops.service'' = Inr (mgr_render linux_manager ?s)
      \<and> ss_installed (fst (mgr_status ?m linux_manager b1))"
    using unit_file_lifecycle [OF sp rd, of ?s "empty_box unit_dirs" b1] b1 by (simp del: mgr_install.simps)
  with b1 show ?thesis by blast
qed


text \<open>The property list that \<^verbatim>\<open>launchctl list\<close> prints for a label shows no process.\<close>

lemma dict_line_shows_no_pid: "\<not> shows_pid ([tab, dquote] @ ''PID'' @ [dquote] @ '' = 1234;'')"
  by code_simp

end
