(* ===== verification/CliSetup.thy ===== *)
theory CliSetup
  imports Service Templates Bootstrap
begin

text \<open>
  The commands of \<^verbatim>\<open>internal/cli\<close> that set the daemon up and control its service:
  \<^verbatim>\<open>init.go\<close> (the wizard, the templates and the generated configuration) and
  \<^verbatim>\<open>service_cmds.go\<close>. A command works on the box of \<^theory_text>\<open>HostFs\<close>, what is still
  unread of its standard input, and what it has printed.
\<close>

subsection \<open>The terminal and the platform\<close>

record cli_state =
  cs_box :: box
  cs_in :: string
  cs_out :: string

text \<open>
  The platform, the home directory or the error of asking for it, the program's own path, the
  lookup of a command on the path, the time, the templates in the binary, the YAML codec and the cron
  parser of the configuration, and how many milliseconds each query of the service's status takes.
  Further the random bytes of a token, the YAML decoder's words for a file it cannot read, the opening
  of the database and the faults of its queries, a time in RFC 3339, the errors of listening on and
  of dialling an address, and the working directory.
\<close>

record cli_world =
  cw_machine :: machine
  cw_goos :: string
  cw_home :: "string + string"
  cw_self :: "string option"
  cw_look_path :: "string \<Rightarrow> string option"
  cw_now :: string
  cw_templates :: embedded
  cw_codec :: codec
  cw_query_ms :: "nat \<Rightarrow> nat"
  cw_rand :: "box \<Rightarrow> string + 8 word list"
  cw_read_error :: "string \<Rightarrow> string"
  cw_open_store :: "string \<Rightarrow> box \<Rightarrow> (string + db) \<times> box"
  cw_db_faults :: faults
  cw_rfc3339 :: "instant \<Rightarrow> string"
  cw_listen :: "string \<Rightarrow> string option"
  cw_dial :: "string \<Rightarrow> string option"
  cw_getwd :: "string + string"

definition print_text :: "string \<Rightarrow> cli_state \<Rightarrow> cli_state" where
  "print_text s st = st\<lparr>cs_out := cs_out st @ s\<rparr>"

definition print_line :: "string \<Rightarrow> cli_state \<Rightarrow> cli_state" where
  "print_line s = print_text (s @ [nl])"

definition print_lines :: "string list \<Rightarrow> cli_state \<Rightarrow> cli_state" where
  "print_lines ls = print_text (concat (map (\<lambda>l. l @ [nl]) ls))"

text \<open>A call that works on the box only.\<close>

definition on_box :: "(box \<Rightarrow> 'a \<times> box) \<Rightarrow> cli_state \<Rightarrow> 'a \<times> cli_state" where
  "on_box f st = (let (a, b) = f (cs_box st) in (a, st\<lparr>cs_box := b\<rparr>))"

text \<open>
  \<^verbatim>\<open>promptDefault\<close>: a last line without its newline counts as no answer, and is used up.
\<close>

definition trim_right_eol :: "string \<Rightarrow> string" where
  "trim_right_eol s = rev (dropWhile (\<lambda>c. c = CHR 0x0D \<or> c = nl) (rev s))"

definition prompt_default :: "string \<Rightarrow> string \<Rightarrow> cli_state \<Rightarrow> string \<times> cli_state" where
  "prompt_default label dflt st =
     (let st = print_text (if dflt \<noteq> [] then label @ '' ['' @ dflt @ '']: '' else label @ '': '') st
      in case index_byte nl (cs_in st) of
           None \<Rightarrow> (dflt, st\<lparr>cs_in := []\<rparr>)
         | Some i \<Rightarrow> (or_default (trim_right_eol (take i (cs_in st))) dflt, st\<lparr>cs_in := drop (Suc i) (cs_in st)\<rparr>))"

definition says_yes :: "string \<Rightarrow> bool" where
  "says_yes answer \<longleftrightarrow> to_lower (trim_space answer) = ''y''"

subsection \<open>What the service runs\<close>

definition default_state_dir :: "cli_world \<Rightarrow> string" where
  "default_state_dir w =
     (if cw_goos w = ''darwin'' then
        (case cw_home w of
           Inr h \<Rightarrow> if h \<noteq> [] then filepath_join [h, ''Library'', ''Application Support'', ''agent-ops'']
                    else ''/var/lib/agent-ops''
         | Inl e \<Rightarrow> ''/var/lib/agent-ops'')
      else ''/var/lib/agent-ops'')"

definition sibling_daemon :: "cli_world \<Rightarrow> box \<Rightarrow> string option" where
  "sibling_daemon w b =
     (case cw_self w of
        None \<Rightarrow> None
      | Some self \<Rightarrow>
          (let sibling = filepath_join [filepath_dir self, ''agent-opsd'']
           in if stat_node (cw_machine w) b sibling \<noteq> None then Some sibling else None))"

definition find_daemon_binary :: "cli_world \<Rightarrow> box \<Rightarrow> string" where
  "find_daemon_binary w b =
     (let v = trim_space (ma_env (cw_machine w) ''AGENT_OPSD_PATH'')
      in if v \<noteq> [] then v
         else case sibling_daemon w b of
           Some p \<Rightarrow> p
         | None \<Rightarrow> (case cw_look_path w ''agent-opsd'' of Some p \<Rightarrow> p | None \<Rightarrow> ''agent-opsd''))"

definition service_spec_for :: "cli_world \<Rightarrow> string \<Rightarrow> string \<Rightarrow> box \<Rightarrow> service_spec" where
  "service_spec_for w cfg_path state_dir b =
     (let linux = (cw_goos w = ''linux'')
      in \<lparr>sv_exec_path = find_daemon_binary w b, sv_config_path = cfg_path,
          sv_user = (if linux then ''root'' else []), sv_group = (if linux then ''root'' else []),
          sv_state_dir = state_dir, sv_log_path = (if linux then ''/var/log/agent-ops.log'' else [])\<rparr>)"

subsection \<open>The generated configuration\<close>

record init_answers =
  ia_provider :: string
  ia_api_key_env :: string
  ia_model :: string
  ia_bootstrap_prompt :: string
  ia_notify_workflow :: string
  ia_state_dir :: string
  ia_config_path :: string

definition config_head :: "string \<Rightarrow> init_answers \<Rightarrow> string" where
  "config_head now a =
     join [nl]
       [''# agent-ops configuration, generated by `agent-ops init` at '' @ now @ ''.'',
        ''# Edit freely '' @ em_dash @ '' schema docs: https://github.com/ZibbyDev/agent-ops'',
        [],
        ''state_dir: '' @ ia_state_dir a,
        [],
        ''agent:'',
        ''  provider: '' @ ia_provider a,
        ''  model: '' @ ia_model a,
        ''  api_key_env: '' @ ia_api_key_env a,
        ''  max_tool_calls_per_task: 25'',
        ''  task_timeout: 30m'',
        [],
        ''mcp:'',
        ''  listen_addr: \":7842\"'',
        ''  token_env: AGENT_OPS_TOKEN'',
        [],
        []]"

definition config_bootstrap :: "string \<Rightarrow> string" where
  "config_bootstrap prompt =
     join [nl]
       [''bootstrap:'',
        ''  name: initial_setup'',
        ''  prompt: |'',
        []] @
     concat (map (\<lambda>l. ''    '' @ l @ [nl]) (split_on nl prompt)) @ ''  tools: [shell]'' @ [nl, nl]"

definition config_schedules :: string where
  "config_schedules =
     join [nl]
       [''schedules:'',
        ''  - name: hourly_health_check'',
        ''    cron: \"0 * * * *\"'',
        ''    prompt: |'',
        ''      Verify the application is responding on its expected port.'',
        ''      If it's down, attempt soft-restart; if that fails, page the operator.'',
        ''    tools: [shell]'',
        []]"

definition config_notify :: "string \<Rightarrow> string" where
  "config_notify workflow =
     join [nl]
       [[],
        ''# AGENT_OPS_NOTIFY_WORKFLOW_ID='' @ workflow @ '' tells the scheduler to append'',
        ''# a notification clause to recurring-task prompts (page-the-operator'',
        ''# on unrecoverable failures). Export it before starting the daemon.'',
        []]"

definition render_config_yaml :: "string \<Rightarrow> init_answers \<Rightarrow> string" where
  "render_config_yaml now a =
     config_head now a @
     (if ia_bootstrap_prompt a \<noteq> [] then config_bootstrap (ia_bootstrap_prompt a) else []) @
     config_schedules @
     (if ia_notify_workflow a \<noteq> [] then config_notify (ia_notify_workflow a) else [])"

subsection \<open>Tables\<close>

text \<open>
  \<^verbatim>\<open>tabwriter\<close> as the program sets it up: lines of cells that tabs end, a column of which
  is as wide as the widest of its cells in the consecutive lines that have the column, and two
  blanks. The last cell of a line belongs to no column. Widths count the characters of a UTF-8 text.
\<close>

definition rune_count :: "string \<Rightarrow> nat" where
  "rune_count s = length (filter (\<lambda>c. (of_char c :: nat) div 64 \<noteq> 2) s)"

definition column_width :: "nat \<Rightarrow> string list list \<Rightarrow> nat" where
  "column_width j ls = Max (insert 0 (set (map (\<lambda>l. rune_count (l ! j)) ls))) + 2"

text \<open>The lines around line \<open>i\<close> that have a column \<open>j\<close>.\<close>

definition column_block :: "nat \<Rightarrow> nat \<Rightarrow> string list list \<Rightarrow> string list list" where
  "column_block i j ls =
     (let has = (\<lambda>l. Suc j < length l)
      in rev (takeWhile has (rev (take i ls))) @ takeWhile has (drop i ls))"

definition pad_cell :: "nat \<Rightarrow> string \<Rightarrow> string" where
  "pad_cell n c = c @ replicate (n - rune_count c) (CHR '' '')"

definition table_line :: "string list list \<Rightarrow> nat \<Rightarrow> string" where
  "table_line ls i =
     (let l = ls ! i
      in concat (map (\<lambda>j. if Suc j < length l then pad_cell (column_width j (column_block i j ls)) (l ! j)
                          else l ! j) [0..<length l]))"

definition tabwriter :: "string \<Rightarrow> string" where
  "tabwriter text =
     (let ls = map (split_on tab) (split_on nl text) in join [nl] (map (table_line ls) [0..<length ls]))"

text \<open>The text of rows that the commands write to it.\<close>

definition table_text :: "string list list \<Rightarrow> string" where
  "table_text rows = concat (map (\<lambda>r. join [tab] r @ [nl]) rows)"

subsection \<open>The wizard\<close>

record init_flags =
  if_config :: string
  if_dry_run :: bool
  if_yes :: bool
  if_template :: string
  if_list_templates :: bool

definition print_template_list :: "cli_world \<Rightarrow> cli_state \<Rightarrow> cli_state" where
  "print_template_list w st =
     (let ts = list_templates (cw_templates w)
      in if ts = [] then print_line ''(no bundled templates)'' st
         else print_text (tabwriter (table_text ([''NAME'', ''DESCRIPTION''] # map (\<lambda>t. [te_name t, te_description t]) ts))) st)"

definition write_config_file :: "cli_world \<Rightarrow> string \<Rightarrow> string \<Rightarrow> cli_state \<Rightarrow> string option \<times> cli_state" where
  "write_config_file w path body st =
     on_box (\<lambda>b. and_then (errorf ''init: mkdir config dir'' (mkdir_all (cw_machine w) (filepath_dir path) b))
               (\<lambda>b. errorf ''init: write config'' (write_file (cw_machine w) path body mode_public b))) st"

definition config_exists :: "cli_world \<Rightarrow> string \<Rightarrow> cli_state \<Rightarrow> bool" where
  "config_exists w path st \<longleftrightarrow> stat_node (cw_machine w) (cs_box st) path \<noteq> None"

text \<open>Whether the operator lets an existing file go, and the state after asking.\<close>

definition confirm_template :: "init_flags \<Rightarrow> cli_state \<Rightarrow> bool \<times> cli_state" where
  "confirm_template fl st0 =
     (let st = print_lines [if_config fl @ '' already exists.'',
                 ''Re-run with --dry-run to preview the template, or --yes to overwrite.''] st0;
          (answer, st) = prompt_default (''Overwrite with template '' @ if_template fl @ ''? [y/N]'') ''N'' st
      in if says_yes answer then (True, st) else (False, print_line ''Aborted; existing config kept.'' st))"

definition run_init_from_template :: "cli_world \<Rightarrow> init_flags \<Rightarrow> cli_state \<Rightarrow> string option \<times> cli_state" where
  "run_init_from_template w fl st0 =
     (case get_template (cw_templates w) (if_template fl) of
        Inl e \<Rightarrow> (Some e, st0)
      | Inr body \<Rightarrow>
          if if_dry_run fl then
            (None, print_text body (print_line (''--- '' @ if_config fl @ '' (template: '' @ if_template fl @ '') ---'') st0))
          else
            let (go, st) = (if config_exists w (if_config fl) st0 \<and> \<not> if_yes fl then confirm_template fl st0 else (True, st0))
            in if \<not> go then (None, st)
               else and_then (write_config_file w (if_config fl) body st)
                 (\<lambda>st. (None, print_lines
                    [''wrote '' @ if_config fl @ '' from template '' @ if_template fl, [],
                     ''Next: edit the template's placeholders (SITES=, APP_URL=, '' @ ellipsis @ '') and `sudo agent-ops restart`.''] st)))"

definition default_answers :: "cli_world \<Rightarrow> string \<Rightarrow> init_answers" where
  "default_answers w path =
     \<lparr>ia_provider = ''claude-cli'', ia_api_key_env = ''CLAUDE_CODE_OAUTH_TOKEN'', ia_model = ''claude-sonnet-4-6'',
      ia_bootstrap_prompt = [], ia_notify_workflow = [], ia_state_dir = default_state_dir w, ia_config_path = path\<rparr>"

definition chosen_provider :: "string \<Rightarrow> init_answers \<Rightarrow> init_answers" where
  "chosen_provider choice a =
     (if trim_space choice = ''1'' then a\<lparr>ia_provider := ''claude'', ia_api_key_env := ''ANTHROPIC_API_KEY''\<rparr>
      else if trim_space choice = ''3'' then
        a\<lparr>ia_provider := ''codex'', ia_api_key_env := ''OPENAI_API_KEY'', ia_model := ''gpt-5-codex''\<rparr>
      else a\<lparr>ia_provider := ''claude-cli'', ia_api_key_env := ''CLAUDE_CODE_OAUTH_TOKEN''\<rparr>)"

definition ask_answers :: "init_answers \<Rightarrow> cli_state \<Rightarrow> init_answers \<times> cli_state" where
  "ask_answers a0 st0 =
     (let st = print_lines
        [''agent-ops init '' @ em_dash @ '' interactive setup'', [], ''Choose an LLM provider:'',
         ''  1) claude     '' @ em_dash @ '' Anthropic Messages API (x-api-key billing)'',
         ''  2) claude-cli '' @ em_dash @ '' Claude Code CLI (OAuth / subscription)  [default]'',
         ''  3) codex      '' @ em_dash @ '' OpenAI Codex CLI (OPENAI_API_KEY)''] st0;
          (choice, st) = prompt_default ''Provider [1/2/3]'' ''2'' st;
          a = chosen_provider choice a0;
          (key, st) = prompt_default (''Env var holding your '' @ ia_provider a @ '' key/token'') (ia_api_key_env a) st;
          (model, st) = prompt_default ''Model id'' (ia_model a) st;
          (goal, st) = prompt_default ''First-run bootstrap goal (empty to skip)'' [] st;
          (notify, st) = prompt_default ''Notify workflow id for app-down pages (empty to skip)'' [] st
      in (a\<lparr>ia_api_key_env := key, ia_model := model, ia_bootstrap_prompt := goal, ia_notify_workflow := notify\<rparr>, st))"

text \<open>An existing configuration: refused under \<^verbatim>\<open>--yes\<close>, otherwise asked about.\<close>

datatype clobber = Proceed | KeepConfig | RefuseConfig string

definition may_clobber :: "cli_world \<Rightarrow> init_flags \<Rightarrow> cli_state \<Rightarrow> clobber \<times> cli_state" where
  "may_clobber w fl st =
     (if \<not> config_exists w (if_config fl) st then (Proceed, st)
      else if if_yes fl then
        (RefuseConfig (''init: '' @ if_config fl @ '' already exists; rerun with --dry-run or remove it first''), st)
      else
        let (ok, st) = prompt_default (if_config fl @ '' exists. Overwrite? [y/N]'') ''N'' st
        in if says_yes ok then (Proceed, st)
           else (KeepConfig, print_line ''Aborted; existing config kept.'' st))"

definition preview :: "string \<Rightarrow> string \<Rightarrow> string \<Rightarrow> string + manager \<Rightarrow> cli_state \<Rightarrow> cli_state" where
  "preview path rendered unit_text mgr st =
     print_lines ([''--- '' @ path @ '' ---'', rendered] @
       (case mgr of
          Inr g \<Rightarrow> if unit_text \<noteq> [] then [''--- '' @ mgr_unit_path g @ '' ---'', unit_text] else []
        | Inl e \<Rightarrow> [])) st"

definition finish_init ::
  "cli_world \<Rightarrow> init_flags \<Rightarrow> init_answers \<Rightarrow> string + manager \<Rightarrow> cli_state \<Rightarrow> string option \<times> cli_state" where
  "finish_init w fl a mgr st =
     (let st = print_lines [''wrote '' @ if_config fl, ''wrote '' @ ia_state_dir a @ ''/''] st
      in case mgr of
        Inl e \<Rightarrow>
          (None, print_lines
             [''note: service install skipped '' @ em_dash @ '' '' @ e,
              ''agent-ops init done. Run `agent-ops daemon --config '' @ if_config fl @ ''` to start in foreground.''] st)
      | Inr g \<Rightarrow>
          and_then (errorf ''init: install service''
              (on_box (\<lambda>b. mgr_install (cw_machine w) g (service_spec_for w (if_config fl) (ia_state_dir a) b) b) st))
            (\<lambda>st. (None, print_lines
               [''installed unit at '' @ mgr_unit_path g, [],
                ''Next: `sudo agent-ops start` (Linux) or `agent-ops start` (Mac).''] st)))"

definition run_wizard :: "cli_world \<Rightarrow> init_flags \<Rightarrow> cli_state \<Rightarrow> string option \<times> cli_state" where
  "run_wizard w fl st0 =
     (let a0 = default_answers w (if_config fl);
          (a, st) = (if if_yes fl then (a0, st0) else ask_answers a0 st0);
          rendered = render_config_yaml (cw_now w) a;
          mgr = new_manager (cw_goos w) (cw_home w);
          unit_text = (case mgr of
             Inl e \<Rightarrow> []
           | Inr g \<Rightarrow> mgr_render g (service_spec_for w (if_config fl) (ia_state_dir a) (cs_box st)))
      in if if_dry_run fl then (None, preview (if_config fl) rendered unit_text mgr st)
         else case may_clobber w fl st of
           (RefuseConfig e, st) \<Rightarrow> (Some e, st)
         | (KeepConfig, st) \<Rightarrow> (None, st)
         | (Proceed, st) \<Rightarrow>
             and_then (write_config_file w (if_config fl) rendered st)
               (\<lambda>st. and_then (errorf ''init: mkdir state dir''
                       (on_box (mkdir_all (cw_machine w) (ia_state_dir a)) st))
                 (finish_init w fl a mgr)))"

definition run_init :: "cli_world \<Rightarrow> init_flags \<Rightarrow> cli_state \<Rightarrow> string option \<times> cli_state" where
  "run_init w fl st =
     (if if_list_templates fl then (None, print_template_list w st)
      else if if_template fl \<noteq> [] then run_init_from_template w fl st
      else run_wizard w fl st)"


subsection \<open>Controlling the service\<close>

definition service_manager_of :: "cli_world \<Rightarrow> string + manager" where
  "service_manager_of w = new_manager (cw_goos w) (cw_home w)"

text \<open>
  The wait of \<^verbatim>\<open>start\<close>: a query of the status, and half a second of sleep, while ten
  seconds are not over. The result says whether the service became active, with the queries made.
\<close>

function await_active :: "cli_world \<Rightarrow> manager \<Rightarrow> nat \<Rightarrow> nat \<Rightarrow> box \<Rightarrow> (bool \<times> nat) \<times> box" where
  "await_active w g n elapsed b =
     (if 10000 \<le> elapsed then ((False, n), b)
      else let (s, b') = mgr_status (cw_machine w) g b
        in if ss_active s then ((True, Suc n), b')
           else await_active w g (Suc n) (elapsed + cw_query_ms w n + 500) b')"
  by pat_completeness auto
termination by (relation "measure (\<lambda>(w, g, n, elapsed, b). 10000 - elapsed)") auto

declare await_active.simps [simp del]

definition install_if_missing :: "cli_world \<Rightarrow> manager \<Rightarrow> string \<Rightarrow> cli_state \<Rightarrow> string option \<times> cli_state" where
  "install_if_missing w g cfg_path st =
     (let m = cw_machine w
      in if stat_error m (cs_box st) (mgr_unit_path g) \<noteq> Some enoent then (None, st)
         else if stat_error m (cs_box st) cfg_path \<noteq> None then
           (Some (''start: '' @ cfg_path @ '' missing '' @ em_dash @ '' run `agent-ops init` first''), st)
         else and_then (errorf ''start: install service''
             (on_box (\<lambda>b. mgr_install m g (service_spec_for w cfg_path (default_state_dir w) b) b) st))
           (\<lambda>st. (None, print_line (''installed unit at '' @ mgr_unit_path g) st)))"

definition run_start :: "cli_world \<Rightarrow> string \<Rightarrow> cli_state \<Rightarrow> string option \<times> cli_state" where
  "run_start w cfg_path st =
     (case service_manager_of w of
        Inl e \<Rightarrow> (Some e, st)
      | Inr g \<Rightarrow>
          and_then (install_if_missing w g cfg_path st)
            (\<lambda>st. and_then (on_box (mgr_start (cw_machine w) g) st)
              (\<lambda>st. let ((active, n), st) = on_box (await_active w g 0 0) st
                 in (None, print_line
                      (if active then ''agent-ops is active.''
                       else ''agent-ops started but did not report active within 10s '' @ em_dash
                            @ '' run `agent-ops status` for details.'') st))))"

definition run_stop :: "cli_world \<Rightarrow> cli_state \<Rightarrow> string option \<times> cli_state" where
  "run_stop w st =
     (case service_manager_of w of
        Inl e \<Rightarrow> (Some e, st)
      | Inr g \<Rightarrow> and_then (on_box (mgr_stop (cw_machine w) g) st)
          (\<lambda>st. (None, print_line ''agent-ops stopped.'' st)))"

definition run_restart :: "cli_world \<Rightarrow> cli_state \<Rightarrow> string option \<times> cli_state" where
  "run_restart w st =
     (case service_manager_of w of
        Inl e \<Rightarrow> (Some e, st)
      | Inr g \<Rightarrow> and_then (on_box (mgr_restart (cw_machine w) g) st)
          (\<lambda>st. (None, print_line ''agent-ops restarted.'' st)))"

text \<open>\<^verbatim>\<open>--purge\<close>: the configuration is said to be removed whether it was or not.\<close>

definition purge :: "cli_world \<Rightarrow> string \<Rightarrow> cli_state \<Rightarrow> cli_state" where
  "purge w cfg st0 =
     (let m = cw_machine w;
          st = (if cfg = [] then st0
                else print_line (''removed '' @ cfg) (snd (on_box (remove_node m cfg) st0)));
          (e, st) = on_box (remove_all m (default_state_dir w)) st
      in if e = None then print_line (''removed '' @ default_state_dir w) st else st)"

definition run_uninstall :: "cli_world \<Rightarrow> bool \<Rightarrow> string \<Rightarrow> cli_state \<Rightarrow> string option \<times> cli_state" where
  "run_uninstall w with_purge cfg st =
     (case service_manager_of w of
        Inl e \<Rightarrow> (Some e, st)
      | Inr g \<Rightarrow> and_then (on_box (mgr_uninstall (cw_machine w) g) st)
          (\<lambda>st. let st = print_line (''removed '' @ mgr_unit_path g) st
             in (None, if with_purge then purge w cfg st else st)))"

text \<open>
  \<^verbatim>\<open>withoutFollowFlag\<close>: once a \<^verbatim>\<open>tail\<close> was met, only the first and the last of what
  is kept remain.
\<close>

definition without_follow_flag :: "string list \<Rightarrow> string list" where
  "without_follow_flag argv =
     (let out = filter (\<lambda>a. a \<noteq> ''-f'') argv
      in if ''tail'' \<in> set argv then [hd out, ''-n'', ''200'', last out] else out)"

text \<open>A command on the terminal: what it prints goes out as it is.\<close>

definition run_foreground :: "machine \<Rightarrow> string list \<Rightarrow> cli_state \<Rightarrow> string option \<times> cli_state" where
  "run_foreground m argv st =
     (if argv = [] then (Some ''internal: empty argv'', st)
      else on_box (call m argv) (print_text (ma_output m argv (cs_box st)) st))"

definition run_logs :: "cli_world \<Rightarrow> string \<Rightarrow> bool \<Rightarrow> cli_state \<Rightarrow> string option \<times> cli_state" where
  "run_logs w since following st =
     (case service_manager_of w of
        Inl e \<Rightarrow> (Some e, st)
      | Inr g \<Rightarrow>
          (let argv = mgr_follow_logs g since
           in run_foreground (cw_machine w) (if following then argv else without_follow_flag argv) st))"


subsection \<open>What init leaves alone\<close>

lemma print_frame [simp]:
  "cs_box (print_text s st) = cs_box st" "cs_in (print_text s st) = cs_in st"
  "cs_box (print_line s st) = cs_box st" "cs_in (print_line s st) = cs_in st"
  "cs_box (print_lines ls st) = cs_box st" "cs_in (print_lines ls st) = cs_in st"
  by (simp_all add: print_text_def print_line_def print_lines_def)

lemma split_at_index_byte:
  "index_byte c s = Some i \<Longrightarrow> split_on c s = take i s # split_on c (drop (Suc i) s)"
  by (induction s arbitrary: i) (auto split: if_splits option.splits)

text \<open>Some line of what is left of the standard input says yes.\<close>

definition consents :: "cli_state \<Rightarrow> bool" where
  "consents st \<longleftrightarrow> list_ex (\<lambda>l. says_yes (trim_right_eol l)) (split_on nl (cs_in st))"

lemma says_no [simp]: "\<not> says_yes []" "\<not> says_yes ''N''"
  by code_simp+

lemma no_input_no_consent: "\<not> consents (st\<lparr>cs_in := []\<rparr>)"
  by (simp add: consents_def trim_right_eol_def)

lemma prompt_box: "prompt_default label dflt st = (a, st') \<Longrightarrow> cs_box st' = cs_box st"
  by (auto simp: prompt_default_def Let_def split: option.splits)

lemma prompt_consents_later: "\<lbrakk>prompt_default label dflt st = (a, st'); consents st'\<rbrakk> \<Longrightarrow> consents st"
  by (auto simp: prompt_default_def Let_def consents_def trim_right_eol_def split_at_index_byte split: option.splits)

lemma prompt_consent:
  "\<lbrakk>prompt_default label dflt st = (a, st'); says_yes a; \<not> says_yes dflt\<rbrakk> \<Longrightarrow> consents st"
  by (auto simp: prompt_default_def Let_def consents_def or_default_def split_at_index_byte
      split: option.splits if_splits)

lemma consents_box [simp]: "consents (print_text s st) = consents st" "consents (print_line s st) = consents st"
  "consents (print_lines ls st) = consents st"
  by (simp_all add: consents_def)

lemma ask_answers_frame:
  assumes "ask_answers a0 st = (a, st')"
  shows "cs_box st' = cs_box st" and "consents st' \<Longrightarrow> consents st"
  using assms by (auto simp: ask_answers_def Let_def prompt_box dest!: prompt_consents_later split: prod.splits)


lemma template_asks:
  assumes "run_init_from_template w fl st = (e, st')" "cs_box st' \<noteq> cs_box st"
  shows "\<not> if_dry_run fl \<and> (\<not> config_exists w (if_config fl) st \<or> if_yes fl \<or> consents st)"
  using assms
  by (auto simp: run_init_from_template_def confirm_template_def Let_def prompt_box
      split: sum.splits if_splits prod.splits dest: prompt_consent [OF _ _ says_no(2)])

lemma may_clobber_consent:
  assumes "may_clobber w fl st = (r, st')"
  shows "cs_box st' = cs_box st"
    and "r = Proceed \<Longrightarrow> \<not> config_exists w (if_config fl) st \<or> \<not> if_yes fl \<and> consents st"
  using assms
  by (auto simp: may_clobber_def prompt_box split: if_splits prod.splits dest: prompt_consent [OF _ _ says_no(2)])

lemma wizard_asks:
  assumes "run_wizard w fl st = (e, st')" "cs_box st' \<noteq> cs_box st"
  shows "\<not> if_dry_run fl \<and> (\<not> config_exists w (if_config fl) st \<or> \<not> if_yes fl \<and> consents st)"
proof -
  obtain a st1 where a: "(if if_yes fl then (default_answers w (if_config fl), st)
      else ask_answers (default_answers w (if_config fl)) st) = (a, st1)" by fastforce
  then have box: "cs_box st1 = cs_box st" and later: "consents st1 \<Longrightarrow> consents st"
    by (auto split: if_splits dest: ask_answers_frame)
  then have ex: "config_exists w (if_config fl) st1 = config_exists w (if_config fl) st"
    by (simp add: config_exists_def)
  obtain r st2 where r: "may_clobber w fl st1 = (r, st2)" by fastforce
  have kept: "cs_box st2 = cs_box st" using may_clobber_consent(1) [OF r] box by simp
  note run = assms(1) [unfolded run_wizard_def Let_def a prod.case r]
  have "\<not> if_dry_run fl" using run assms(2) box by (auto simp: preview_def)
  moreover have "r = Proceed" using run assms(2) kept calculation by (cases r) simp_all
  ultimately have "\<not> if_dry_run fl \<and> r = Proceed" ..
  then show ?thesis using may_clobber_consent(2) [OF r] ex later by blast
qed

text \<open>
  C24: \<^verbatim>\<open>agent-ops init\<close> does not overwrite a configuration on its own. If it changed
  anything on the host at all, it was not a dry run, and either there was no file at the
  configuration path, or a template was requested together with \<^verbatim>\<open>--yes\<close>, or it was not run
  with \<^verbatim>\<open>--yes\<close> and a line of its input said yes. In particular an empty or exhausted standard
  input never overwrites a configuration.
\<close>

theorem init_never_clobbers:
  assumes "run_init w fl st = (e, st')" and "cs_box st' \<noteq> cs_box st"
  shows "\<not> if_dry_run fl \<and> (\<not> config_exists w (if_config fl) st \<or> if_template fl \<noteq> [] \<and> if_yes fl
           \<or> \<not> if_yes fl \<and> consents st)"
proof (cases "if_template fl = []")
  case True
  then have "run_wizard w fl st = (e, st')"
    using assms by (auto simp: run_init_def print_template_list_def Let_def split: if_splits)
  then show ?thesis using wizard_asks assms(2) by blast
next
  case False
  then have "run_init_from_template w fl st = (e, st')"
    using assms by (auto simp: run_init_def print_template_list_def Let_def split: if_splits)
  then show ?thesis using template_asks assms(2) False by blast
qed

text \<open>A host on which a configuration exists, and an operator who agrees to replace it.\<close>

definition plain_codec :: "config \<Rightarrow> codec" where
  "plain_codec c = \<lparr>co_decode = (\<lambda>s. Inr c), co_encode = (\<lambda>c. Inr []), co_cron = (\<lambda>s. None), co_iter = (\<lambda>st. [])\<rparr>"

abbreviation sample_cli :: "string \<Rightarrow> environ \<Rightarrow> cli_world" where
  "sample_cli goos env \<equiv>
     \<lparr>cw_machine = idle_machine (\<lambda>argv. []) env, cw_goos = goos, cw_home = Inr ''/root'', cw_self = None,
      cw_look_path = (\<lambda>b. None), cw_now = ''now'', cw_templates = [(''tiny.yaml'', Some ''# tiny'')],
      cw_codec = plain_codec sample_config, cw_query_ms = (\<lambda>n. 0), cw_rand = (\<lambda>b. Inr (replicate 32 7)),
      cw_read_error = (\<lambda>e. e), cw_open_store = (\<lambda>d b. (Inr empty_db, b)), cw_db_faults = no_faults,
      cw_rfc3339 = (\<lambda>t. []), cw_listen = (\<lambda>a. None), cw_dial = (\<lambda>a. None), cw_getwd = Inr ''/''\<rparr>"

abbreviation overwrite_flags :: init_flags where
  "overwrite_flags \<equiv> \<lparr>if_config = ''/c.yaml'', if_dry_run = False, if_yes = False, if_template = ''tiny'',
     if_list_templates = False\<rparr>"

abbreviation overwrite_state :: cli_state where
  "overwrite_state \<equiv> \<lparr>cs_box = empty_box [(''/'', DirNode), (''/c.yaml'', FileNode ''old'' 420)],
     cs_in = ''y'' @ [nl], cs_out = []\<rparr>"

theorem init_never_clobbers_witness:
  "cs_box (snd (run_init (sample_cli ''linux'' (\<lambda>k. [])) overwrite_flags overwrite_state)) \<noteq> cs_box overwrite_state
   \<and> config_exists (sample_cli ''linux'' (\<lambda>k. [])) ''/c.yaml'' overwrite_state \<and> consents overwrite_state"
proof -
  let ?r = "run_init (sample_cli ''linux'' (\<lambda>k. [])) overwrite_flags overwrite_state"
  have changed: "bx_nodes (cs_box (snd ?r)) = [(''/'', DirNode), (''/c.yaml'', FileNode ''# tiny'' 420)]"
    by code_simp
  then have "cs_box (snd ?r) \<noteq> cs_box overwrite_state" by auto
  moreover have ex: "config_exists (sample_cli ''linux'' (\<lambda>k. [])) ''/c.yaml'' overwrite_state" by code_simp
  ultimately show ?thesis
    using init_never_clobbers [of "sample_cli ''linux'' (\<lambda>k. [])" overwrite_flags overwrite_state "fst ?r" "snd ?r"] by simp
qed


subsection \<open>The wait of start\<close>

lemma await_settles:
  assumes "await_active w g n elapsed b = ((active, k), b')" and "elapsed < 10000"
  shows "n < k \<and> k \<le> n + (10000 - elapsed + 499) div 500
    \<and> (\<exists>bl s. mgr_status (cw_machine w) g bl = (s, b') \<and> active = ss_active s)"
  using assms
proof (induction w g n elapsed b rule: await_active.induct)
  case (1 w g n elapsed b)
  obtain s b1 where s: "mgr_status (cw_machine w) g b = (s, b1)" by fastforce
  let ?next = "elapsed + cw_query_ms w n + 500"
  show ?case
  proof (cases "ss_active s")
    case True
    with 1(2,3) s have "active" "k = Suc n" "b' = b1" by (auto simp: await_active.simps [of w g n])
    with True s 1(3) show ?thesis by auto
  next
    case False
    with 1(2,3) s have rest: "await_active w g (Suc n) ?next b1 = ((active, k), b')"
      by (simp add: await_active.simps [of w g n])
    show ?thesis
    proof (cases "?next < 10000")
      case True
      have "Suc n < k \<and> k \<le> Suc n + (10000 - ?next + 499) div 500
          \<and> (\<exists>bl s. mgr_status (cw_machine w) g bl = (s, b') \<and> active = ss_active s)"
        using 1(1) [OF _ s [symmetric] refl False rest True] 1(3) by simp
      moreover have "Suc ((10000 - ?next + 499) div 500) \<le> (10000 - elapsed + 499) div 500"
        using True by (simp add: div_le_mono flip: div_add_self2)
      ultimately show ?thesis by auto
    next
      case gone: False
      with rest have "\<not> active" "k = Suc n" "b' = b1" by (auto simp: await_active.simps [of w g "Suc n"])
      with False s 1(3) show ?thesis by auto
    qed
  qed
qed

text \<open>
  C39: The wait of \<^verbatim>\<open>agent-ops start\<close> for the service ends, after one to twenty queries of the
  status, however long each of them takes, and what it reports is the answer of the last query: the
  state it leaves is the one after that query.
\<close>

theorem start_wait_settles:
  "\<exists>active k b'. await_active w g 0 0 b = ((active, k), b') \<and> 1 \<le> k \<and> k \<le> 20
     \<and> (\<exists>bl s. mgr_status (cw_machine w) g bl = (s, b') \<and> active = ss_active s)"
proof -
  obtain active k b' where "await_active w g 0 0 b = ((active, k), b')" by (metis prod.collapse)
  with await_settles [of w g 0 0 b active k b'] show ?thesis by auto
qed


subsection \<open>The log flags\<close>

text \<open>
  Without \<^verbatim>\<open>--follow\<close> the commands of both managers lose their \<^verbatim>\<open>-f\<close>, unless the
  duration given to \<^verbatim>\<open>--since\<close> is a word that the rewriting takes for its own.
\<close>

lemma logs_without_follow:
  "without_follow_flag (launchd_follow_logs g) = [''tail'', ''-n'', ''200'', la_default_log g]"
  if "la_default_log g \<noteq> ''-f''"
  using that by (simp add: without_follow_flag_def launchd_follow_logs_def)

lemma journal_without_follow:
  "without_follow_flag (systemd_follow_logs g since) =
     [''journalctl'', ''-u'', sy_unit_name g] @ (if since \<noteq> [] then [''--since'', since] else [])"
  if "sy_unit_name g \<notin> {''-f'', ''tail''}" "since \<notin> {''-f'', ''tail''}"
  using that by (auto simp: without_follow_flag_def systemd_follow_logs_def)

lemma since_tail_loses_unit:
  "without_follow_flag (systemd_follow_logs g ''tail'') = [''journalctl'', ''-n'', ''200'', ''tail'']"
  by (simp add: without_follow_flag_def systemd_follow_logs_def)

end
