(* ===== verification/CliQuery.thy ===== *)
theory CliQuery
  imports CliSetup Solo
begin

text \<open>
  The commands of \<^verbatim>\<open>internal/cli\<close> that look at an installation or work on its
  configuration: \<^verbatim>\<open>status.go\<close>, \<^verbatim>\<open>schedule.go\<close>, \<^verbatim>\<open>mcp.go\<close>, \<^verbatim>\<open>doctor.go\<close>,
  \<^verbatim>\<open>integrate.go\<close>, \<^verbatim>\<open>bootstrap.go\<close>, and the dispatch of \<^verbatim>\<open>cmd/agent-ops\<close>.
\<close>

subsection \<open>Loading the configuration\<close>

text \<open>The texts of the errors of \<^verbatim>\<open>internal/config\<close>.\<close>

fun config_error_text :: "config_error \<Rightarrow> string" where
  "config_error_text (ParseError e) = ''config: parse: '' @ e"
| "config_error_text (BadProvider p) =
     ''config: agent.provider '' @ quoted p @ '' is not one of none|claude|codex|gemini|ollama''"
| "config_error_text ModelRequired = ''config: agent.model is required when provider=claude''"
| "config_error_text ApiKeyEnvRequired = ''config: agent.api_key_env is required for cloud providers''"
| "config_error_text BadMaxToolCalls = ''config: agent.max_tool_calls_per_task must be >= 1''"
| "config_error_text (ScheduleNameRequired i) = ''config: schedules['' @ nat_string i @ ''].name is required''"
| "config_error_text (ScheduleDuplicate i n) =
     ''config: schedules['' @ nat_string i @ ''].name '' @ quoted n @ '' is a duplicate''"
| "config_error_text (ScheduleCronRequired i) = ''config: schedules['' @ nat_string i @ ''].cron is required''"
| "config_error_text (ScheduleBadCron i c e) =
     ''config: schedules['' @ nat_string i @ ''].cron '' @ quoted c @ '': '' @ e"
| "config_error_text (SchedulePromptRequired i) = ''config: schedules['' @ nat_string i @ ''].prompt is required''"
| "config_error_text BootstrapPromptRequired = ''config: bootstrap.prompt is required''"
| "config_error_text (ClientNameRequired i) = ''config: mcp_clients['' @ nat_string i @ ''].name is required''"
| "config_error_text (ClientDuplicate i n) =
     ''config: mcp_clients['' @ nat_string i @ ''].name '' @ quoted n @ '' is a duplicate''"
| "config_error_text (ClientUrlRequired i n) =
     ''config: mcp_clients['' @ nat_string i @ ''] ('' @ n @ ''): http transport requires url''"
| "config_error_text (ClientCommandRequired i n) =
     ''config: mcp_clients['' @ nat_string i @ ''] ('' @ n @ ''): stdio transport requires command''"
| "config_error_text (ClientBadTransport i n t) =
     ''config: mcp_clients['' @ nat_string i @ ''] ('' @ n @ ''): transport '' @ quoted t @
     '' is not one of http|stdio''"

text \<open>\<^verbatim>\<open>config.Load\<close>: opening fails, the decoder cannot read, or the text is refused.\<close>

definition config_load :: "cli_world \<Rightarrow> box \<Rightarrow> string \<Rightarrow> string + config" where
  "config_load w b path =
     (case read_file (cw_machine w) b path of
        Inl e \<Rightarrow> Inl (if prefix ''open '' e then ''config: open '' @ path @ '': '' @ e
                      else ''config: parse: '' @ cw_read_error w e)
      | Inr raw \<Rightarrow>
          map_sum config_error_text id
            (parse_config (co_decode (cw_codec w)) (co_cron (cw_codec w)) (ma_env (cw_machine w)) raw))"

subsection \<open>The status\<close>

definition bool_text :: "bool \<Rightarrow> string" where
  "bool_text b = (if b then ''true'' else ''false'')"

definition status_service :: "cli_world \<Rightarrow> bool \<Rightarrow> cli_state \<Rightarrow> cli_state" where
  "status_service w verbose st =
     (case service_manager_of w of
        Inl e \<Rightarrow> print_line (''service: skipped ('' @ e @ '')'') st
      | Inr g \<Rightarrow>
          (let (s, st) = on_box (mgr_status (cw_machine w) g) st
           in print_lines
                ([''service: installed='' @ bool_text (ss_installed s) @ '' active='' @ bool_text (ss_active s)
                  @ '' unit='' @ mgr_unit_path g] @
                 (if verbose \<and> ss_raw s \<noteq> [] then [''---'', ss_raw s, ''---''] else [])) st))"

definition enabled_text :: "schedule \<Rightarrow> string" where
  "enabled_text s = bool_text (schedule_enabled s)"

definition status_table :: "config \<Rightarrow> string" where
  "status_table c =
     table_text ([[nl # ''SCHEDULES''], [''NAME'', ''CRON'', ''ENABLED'']] @
       map (\<lambda>s. [sch_name s, sch_cron s, enabled_text s]) (cfg_schedules c) @
       (case cfg_bootstrap c of Some s \<Rightarrow> [[sch_name s, ''(first-run)'', ''manual'']] | None \<Rightarrow> []))"

text \<open>A duration of nanoseconds, rounded to seconds as Go rounds and prints it.\<close>

definition round_seconds :: "int \<Rightarrow> int" where
  "round_seconds d =
     (let n = (2 * \<bar>d\<bar> + 1000000000) div 2000000000 in if d < 0 then - n else n)"

definition seconds_text :: "int \<Rightarrow> string" where
  "seconds_text s =
     (let a = \<bar>s\<bar>; h = a div 3600; m = a div 60 mod 60; r = a mod 60
      in (if s < 0 then ''-'' else []) @
         (if h > 0 then itoa h @ ''h'' @ itoa m @ ''m'' else if m > 0 then itoa m @ ''m'' else []) @
         itoa r @ ''s'')"

definition last_run_text :: "cli_world \<Rightarrow> task_run \<Rightarrow> string" where
  "last_run_text w r =
     [nl] @ ''last run: '' @ tr_id r @ '' task='' @ tr_task_name r @ '' status='' @ status_text (tr_status r) @
     '' started='' @ (case tr_started_at r of Some t \<Rightarrow> cw_rfc3339 w t | None \<Rightarrow> ''0001-01-01T00:00:00Z'') @
     (case (tr_ended_at r, tr_started_at r) of
        (Some e, Some s) \<Rightarrow> '' duration='' @ seconds_text (round_seconds (e - s))
      | _ \<Rightarrow> []) @ [nl] @
     (if tr_summary r \<noteq> [] then ''  summary: '' @ truncate_str (tr_summary r) 200 @ [nl] else []) @
     (if tr_error r \<noteq> [] then ''  error: '' @ truncate_str (tr_error r) 200 @ [nl] else [])"

definition status_last_run :: "cli_world \<Rightarrow> string \<Rightarrow> cli_state \<Rightarrow> cli_state" where
  "status_last_run w dir st0 =
     (let (opened, st) = on_box (cw_open_store w dir) st0
      in print_text
           (case opened of
              Inl e \<Rightarrow> [nl] @ ''last run: state unavailable ('' @ e @ '')'' @ [nl]
            | Inr d \<Rightarrow>
                (case list_runs [] 1 (cw_db_faults w) d of
                   Inl e \<Rightarrow> [nl] @ ''last run: query failed: '' @ store_error_text e @ [nl]
                 | Inr [] \<Rightarrow> [nl] @ ''last run: (none yet)'' @ [nl]
                 | Inr (r # rs) \<Rightarrow> last_run_text w r)) st)"

definition run_status :: "cli_world \<Rightarrow> bool \<Rightarrow> string \<Rightarrow> cli_state \<Rightarrow> string option \<times> cli_state" where
  "run_status w verbose cfg_path st0 =
     (let st = status_service w verbose st0
      in (None,
          case config_load w (cs_box st) cfg_path of
            Inl e \<Rightarrow> print_line (''config: load failed ('' @ cfg_path @ ''): '' @ e) st
          | Inr c \<Rightarrow>
              status_last_run w (cfg_state_dir c)
                (print_text (tabwriter (status_table c))
                  (print_lines
                    [''config: '' @ cfg_path,
                     ''provider: '' @ ac_provider (cfg_agent c) @ '' (model='' @ ac_model (cfg_agent c) @ '')'',
                     ''state_dir: '' @ cfg_state_dir c,
                     ''mcp listen: '' @ mcp_listen_addr (cfg_mcp c)] st))))"

subsection \<open>Schedules\<close>

definition list_text :: "string list \<Rightarrow> string" where
  "list_text xs = ''['' @ join '' '' xs @ '']''"

definition run_schedule_list :: "cli_world \<Rightarrow> string \<Rightarrow> cli_state \<Rightarrow> string option \<times> cli_state" where
  "run_schedule_list w cfg_path st =
     (case config_load w (cs_box st) cfg_path of
        Inl e \<Rightarrow> (Some e, st)
      | Inr c \<Rightarrow>
          (None, print_text (tabwriter (table_text ([[''NAME'', ''CRON'', ''ENABLED'', ''TOOLS'']] @
             map (\<lambda>s. [sch_name s, sch_cron s, enabled_text s, list_text (sch_tools s)]) (cfg_schedules c) @
             (case cfg_bootstrap c of
                Some s \<Rightarrow> [[sch_name s, ''(first-run only)'', ''manual'', list_text (sch_tools s)]]
              | None \<Rightarrow> [])))) st))"

definition schedule_hint :: "string \<Rightarrow> string \<Rightarrow> string list" where
  "schedule_hint addr name =
     (let q = [CHR 0x27]
      in [''Programmatic trigger lands in v0.3 (issue: control-plane API).'',
          ''For now, trigger via the daemon's MCP `agent_run_now` tool. Example with curl:'',
          [],
          ''  curl -s -X POST http://127.0.0.1'' @ addr @ ''/mcp '' @ [backslash],
          ''    -H '' @ q @ ''Authorization: Bearer $AGENT_OPS_TOKEN'' @ q @ '' '' @ [backslash],
          ''    -H '' @ q @ ''Content-Type: application/json'' @ q @ '' '' @ [backslash],
          ''    -d '' @ q @ ''{\"method\":\"tools/call\",\"params\":{\"name\":\"agent_run_now\",\"arguments\":{\"task\":\"''
            @ name @ ''\"}}}'' @ q])"

definition run_schedule_run :: "cli_world \<Rightarrow> string \<Rightarrow> string \<Rightarrow> cli_state \<Rightarrow> string option \<times> cli_state" where
  "run_schedule_run w cfg_path name st =
     (case config_load w (cs_box st) cfg_path of
        Inl e \<Rightarrow> (Some e, st)
      | Inr c \<Rightarrow>
          if list_ex (\<lambda>s. sch_name s = name) (cfg_schedules c) then
            (None, print_lines (schedule_hint (mcp_listen_addr (cfg_mcp c)) name) st)
          else (Some (''schedule run: no schedule named '' @ quoted name @ '' (use `agent-ops schedule list`)''), st))"


subsection \<open>The token\<close>

text \<open>
  \<^verbatim>\<open>bootstrap.EnsureToken\<close> on the box. Its abstract form, which takes what it meets as
  arguments, is the one of \<^theory_text>\<open>Bootstrap\<close>.
\<close>

definition token_path :: "string \<Rightarrow> string" where
  "token_path dir = filepath_join [dir, ''mcp.token'']"

definition mint_token :: "cli_world \<Rightarrow> string \<Rightarrow> box \<Rightarrow> (string + string) \<times> box" where
  "mint_token w p b =
     (case new_token (cw_rand w b) of
        Inl e \<Rightarrow> (Inl e, b)
      | Inr tok \<Rightarrow>
          (case write_file (cw_machine w) p tok mode_private b of
             (Some e, b) \<Rightarrow> (Inl (''bootstrap.EnsureToken: persist: '' @ e), b)
           | (None, b) \<Rightarrow> (Inr tok, b)))"

definition ensure_token_box :: "cli_world \<Rightarrow> string \<Rightarrow> string \<Rightarrow> box \<Rightarrow> (string + string) \<times> box" where
  "ensure_token_box w dir env_name b =
     (let m = cw_machine w; p = token_path dir
      in if env_name \<noteq> [] \<and> ma_env m env_name \<noteq> [] then (Inr (ma_env m env_name), b)
         else case mkdir_all m dir b of
           (Some e, b) \<Rightarrow> (Inl (''bootstrap.EnsureToken: state dir: '' @ e), b)
         | (None, b) \<Rightarrow>
             (case read_file m b p of
                Inr raw \<Rightarrow> if raw \<noteq> [] then (Inr raw, b) else mint_token w p b
              | Inl e \<Rightarrow>
                  if e = path_error ''open'' p enoent then mint_token w p b
                  else (Inl (''bootstrap.EnsureToken: read: '' @ e), b)))"

definition run_mcp_token :: "cli_world \<Rightarrow> string \<Rightarrow> cli_state \<Rightarrow> string option \<times> cli_state" where
  "run_mcp_token w cfg_path st0 =
     (case config_load w (cs_box st0) cfg_path of
        Inl e \<Rightarrow> (Some e, st0)
      | Inr c \<Rightarrow>
          (case on_box (ensure_token_box w (cfg_state_dir c) (mcp_token_env (cfg_mcp c))) st0 of
             (Inl e, st) \<Rightarrow> (Some e, st)
           | (Inr tok, st) \<Rightarrow> (None, print_line tok st)))"

subsection \<open>The self-check\<close>

record provider_spec =
  ps_env_var :: string
  ps_binary :: string
  ps_install_hint :: string
  ps_network_host :: string

definition install_hint :: "string \<Rightarrow> string \<Rightarrow> string" where
  "install_hint package node =
     concat (map (\<lambda>l. l @ [nl])
       [''       install: sudo npm install -g '' @ package,
        ''       requires: Node.js '' @ node @ ''+'',
        ''       no node? curl -fsSL https://deb.nodesource.com/setup_'' @ node @
          ''.x | sudo bash - && sudo apt install -y nodejs''])"

definition provider_specs :: "string \<Rightarrow> provider_spec option" where
  "provider_specs p =
     (if p = ''claude'' then
        Some \<lparr>ps_env_var = ''ANTHROPIC_API_KEY'', ps_binary = [], ps_install_hint = [],
              ps_network_host = ''api.anthropic.com:443''\<rparr>
      else if p = ''claude-cli'' then
        Some \<lparr>ps_env_var = ''CLAUDE_CODE_OAUTH_TOKEN'', ps_binary = ''claude'',
              ps_install_hint = install_hint ''@anthropic-ai/claude-code'' ''20'',
              ps_network_host = ''api.anthropic.com:443''\<rparr>
      else if p = ''codex'' then
        Some \<lparr>ps_env_var = ''OPENAI_API_KEY'', ps_binary = ''codex'',
              ps_install_hint = install_hint ''@openai/codex'' ''22'',
              ps_network_host = ''api.openai.com:443''\<rparr>
      else if p = ''gemini'' then
        Some \<lparr>ps_env_var = ''GEMINI_API_KEY'', ps_binary = [], ps_install_hint = [],
              ps_network_host = ''generativelanguage.googleapis.com:443''\<rparr>
      else if p = ''ollama'' then
        Some \<lparr>ps_env_var = [], ps_binary = [], ps_install_hint = [], ps_network_host = []\<rparr>
      else None)"

text \<open>A run of the checks: the terminal, and the counts of what failed and passed.\<close>

record exam = cli_state +
  ex_fails :: nat
  ex_passes :: nat

definition say :: "string \<Rightarrow> exam \<Rightarrow> exam" where
  "say s x = x\<lparr>cs_out := cs_out x @ s\<rparr>"

definition ok_line :: "string \<Rightarrow> exam \<Rightarrow> exam" where
  "ok_line s x = (say (''[ok]   '' @ s @ [nl]) x)\<lparr>ex_passes := Suc (ex_passes x)\<rparr>"

definition fail_line :: "string \<Rightarrow> exam \<Rightarrow> exam" where
  "fail_line s x = (say (''[fail] '' @ s @ [nl]) x)\<lparr>ex_fails := Suc (ex_fails x)\<rparr>"

definition warn_line :: "string \<Rightarrow> exam \<Rightarrow> exam" where
  "warn_line s = say (''[warn] '' @ s @ [nl])"

text \<open>The zero value of the configuration, with which the checks go on.\<close>

definition zero_config :: config where
  "zero_config =
     \<lparr>cfg_state_dir = [],
      cfg_agent = \<lparr>ac_provider = [], ac_model = [], ac_api_key_env = [], ac_max_tool_calls = 0,
                   ac_task_timeout = 0\<rparr>,
      cfg_schedules = [], cfg_bootstrap = None,
      cfg_mcp = \<lparr>mcp_listen_addr = [], mcp_token_env = []\<rparr>, cfg_mcp_clients = []\<rparr>"

definition check_config :: "cli_world \<Rightarrow> string \<Rightarrow> exam \<Rightarrow> config \<times> exam" where
  "check_config w cfg_path x =
     (case config_load w (cs_box x) cfg_path of
        Inl e \<Rightarrow> (zero_config, fail_line (''config '' @ cfg_path @ '': '' @ e) x)
      | Inr c \<Rightarrow>
          (c, ok_line (''config parsed: provider='' @ ac_provider (cfg_agent c) @ '' model='' @
                       ac_model (cfg_agent c)) x))"

definition check_env :: "cli_world \<Rightarrow> string \<Rightarrow> provider_spec \<Rightarrow> exam \<Rightarrow> exam" where
  "check_env w provider sp x =
     (if ps_env_var sp = [] then ok_line (''provider='' @ provider @ '' needs no auth env var'') x
      else let v = ma_env (cw_machine w) (ps_env_var sp)
        in if v = [] then
             fail_line (''env '' @ ps_env_var sp @ '' is unset '' @ em_dash @ '' required for provider='' @
               provider @ ''; export it before starting the daemon'') x
           else ok_line (''env '' @ ps_env_var sp @ '' is set ('' @ nat_string (length v) @ '' chars)'') x)"

definition check_binary :: "cli_world \<Rightarrow> string \<Rightarrow> provider_spec \<Rightarrow> exam \<Rightarrow> exam" where
  "check_binary w provider sp x =
     (if ps_binary sp = [] then x
      else case cw_look_path w (ps_binary sp) of
        Some p \<Rightarrow> ok_line (ps_binary sp @ '' on PATH ('' @ p @ '')'') x
      | None \<Rightarrow>
          say (ps_install_hint sp)
            (fail_line (ps_binary sp @ '' NOT on PATH '' @ em_dash @ '' required for provider='' @ provider) x))"

text \<open>\<^verbatim>\<open>checkWritable\<close> makes the directory and a probe in it.\<close>

definition check_writable :: "machine \<Rightarrow> string \<Rightarrow> box \<Rightarrow> string option \<times> box" where
  "check_writable m dir b =
     and_then (mkdir_all m dir b)
       (\<lambda>b. let probe = filepath_join [dir, ''.doctor-probe'']
          in and_then (write_file m probe ''ok'' mode_private b) (remove_node m probe))"

definition check_state_dir :: "cli_world \<Rightarrow> string \<Rightarrow> exam \<Rightarrow> exam" where
  "check_state_dir w dir x =
     (let (e, b) = check_writable (cw_machine w) dir (cs_box x); x = x\<lparr>cs_box := b\<rparr>
      in case e of
        Some e \<Rightarrow> fail_line (''state dir '' @ dir @ '': '' @ e) x
      | None \<Rightarrow> ok_line (''state dir '' @ dir @ '' is writable'') x)"

definition check_port :: "cli_world \<Rightarrow> string \<Rightarrow> exam \<Rightarrow> exam" where
  "check_port w addr x =
     (case cw_listen w addr of
        Some e \<Rightarrow> warn_line (''MCP addr '' @ addr @ '' appears busy: '' @ e) x
      | None \<Rightarrow> ok_line (''MCP addr '' @ addr @ '' is free'') x)"

definition check_network :: "cli_world \<Rightarrow> provider_spec \<Rightarrow> exam \<Rightarrow> exam" where
  "check_network w sp x =
     (if ps_network_host sp = [] then x
      else case cw_dial w (ps_network_host sp) of
        Some e \<Rightarrow> warn_line (ps_network_host sp @ '' unreachable: '' @ e) x
      | None \<Rightarrow> ok_line (ps_network_host sp @ '' reachable'') x)"

definition summary_line :: "exam \<Rightarrow> exam" where
  "summary_line x =
     say (''[summary] '' @ nat_string (ex_passes x) @ '' pass, '' @ nat_string (ex_fails x) @ '' fail'' @ [nl]) x"

definition examine :: "cli_world \<Rightarrow> string \<Rightarrow> exam \<Rightarrow> exam" where
  "examine w cfg_path x0 =
     (let (c, x) = check_config w cfg_path x0;
          provider = ac_provider (cfg_agent c);
          spec = provider_specs provider;
          when_known = (\<lambda>f x. case spec of None \<Rightarrow> x | Some sp \<Rightarrow> f sp x);
          x = when_known (check_env w provider) x;
          x = when_known (check_binary w provider) x;
          x = check_state_dir w (or_default (cfg_state_dir c) (default_state_dir w)) x;
          x = check_port w (or_default (mcp_listen_addr (cfg_mcp c)) '':7842'') x;
          x = when_known (check_network w) x
      in summary_line x)"

definition run_doctor :: "cli_world \<Rightarrow> string \<Rightarrow> cli_state \<Rightarrow> string option \<times> cli_state" where
  "run_doctor w cfg_path st =
     (let x = examine w cfg_path (cli_state.extend st \<lparr>ex_fails = 0, ex_passes = 0\<rparr>)
      in (if ex_fails x > 0 then Some (''doctor: '' @ nat_string (ex_fails x) @ '' check(s) failed'') else None,
          cli_state.truncate x))"


subsection \<open>The solo bootstrap\<close>

text \<open>
  \<^verbatim>\<open>bootstrap --from-spec\<close>. The log file is opened for appending, if it can be; what is
  logged is not kept.
\<close>

definition filepath_abs :: "cli_world \<Rightarrow> string \<Rightarrow> string + string" where
  "filepath_abs w p =
     (if prefix ''/'' p then Inr (filepath_clean p) else map_sum id (\<lambda>d. filepath_join [d, p]) (cw_getwd w))"

definition open_append :: "machine \<Rightarrow> string \<Rightarrow> nat \<Rightarrow> box \<Rightarrow> string option \<times> box" where
  "open_append m p md b =
     (case ma_refuse m SysOpen p b of
        Some e \<Rightarrow> (Some (path_error ''open'' p e), b)
      | None \<Rightarrow>
          (case follow_links (bx_nodes b) p of
             None \<Rightarrow> (Some (path_error ''open'' p ''too many levels of symbolic links''), b)
           | Some q \<Rightarrow>
               (case node_at (bx_nodes b) q of
                  Some DirNode \<Rightarrow> (Some (path_error ''open'' p ''is a directory''), b)
                | Some _ \<Rightarrow> (None, b)
                | None \<Rightarrow>
                    if node_at (bx_nodes b) (filepath_dir q) = Some DirNode
                    then (None, set_node q (FileNode [] md) b)
                    else (Some (path_error ''open'' p enoent), b))))"

definition open_log :: "machine \<Rightarrow> string \<Rightarrow> box \<Rightarrow> box" where
  "open_log m log_path b =
     (if log_path = [] then b
      else snd (open_append m log_path 416 (snd (mkdir_all m (filepath_dir log_path) b))))"

definition run_bootstrap ::
  "cli_world \<Rightarrow> (string \<Rightarrow> string + solo_spec) \<Rightarrow> string \<Rightarrow> string \<Rightarrow> cli_state \<Rightarrow> string option \<times> cli_state" where
  "run_bootstrap w decode spec_path log_path st =
     (if spec_path = [] then (Some ''bootstrap: --from-spec is required'', st)
      else case filepath_abs w spec_path of
        Inl e \<Rightarrow> (Some (''bootstrap: resolve '' @ spec_path @ '': '' @ e), st)
      | Inr p \<Rightarrow>
          on_box (\<lambda>b. run_solo_from_spec (cw_machine w) decode (default_solo_paths\<lparr>pa_spec := p\<rparr>)
                        (open_log (cw_machine w) log_path b)) st)"

subsection \<open>Dispatch\<close>

text \<open>
  The commands of \<^verbatim>\<open>root.go\<close> that work on the box, with the flags that cobra has parsed
  for them.
\<close>

datatype command =
    CmdVersion
  | CmdInit init_flags
  | CmdStart
  | CmdStop
  | CmdRestart
  | CmdStatus bool
  | CmdLogs string bool
  | CmdDoctor
  | CmdUninstall bool
  | CmdScheduleList
  | CmdScheduleRun string
  | CmdMcpToken
  | CmdBootstrap string string

fun run_command ::
  "cli_world \<Rightarrow> (string \<Rightarrow> string + solo_spec) \<Rightarrow> string \<Rightarrow> string \<Rightarrow> command \<Rightarrow> cli_state
     \<Rightarrow> string option \<times> cli_state" where
  "run_command w decode version cfg CmdVersion st = (None, print_line version st)"
| "run_command w decode version cfg (CmdInit fl) st = run_init w (fl\<lparr>if_config := cfg\<rparr>) st"
| "run_command w decode version cfg CmdStart st = run_start w cfg st"
| "run_command w decode version cfg CmdStop st = run_stop w st"
| "run_command w decode version cfg CmdRestart st = run_restart w st"
| "run_command w decode version cfg (CmdStatus verbose) st = run_status w verbose cfg st"
| "run_command w decode version cfg (CmdLogs since following) st = run_logs w since following st"
| "run_command w decode version cfg CmdDoctor st = run_doctor w cfg st"
| "run_command w decode version cfg (CmdUninstall with_purge) st = run_uninstall w with_purge cfg st"
| "run_command w decode version cfg CmdScheduleList st = run_schedule_list w cfg st"
| "run_command w decode version cfg (CmdScheduleRun name) st = run_schedule_run w cfg name st"
| "run_command w decode version cfg CmdMcpToken st = run_mcp_token w cfg st"
| "run_command w decode version cfg (CmdBootstrap spec_path log_path) st =
     run_bootstrap w decode spec_path log_path st"

text \<open>
  \<^verbatim>\<open>cmd/agent-ops\<close>: the exit code and the lines on the standard error, the first of them
  cobra's.
\<close>

definition agent_ops_main ::
  "cli_world \<Rightarrow> (string \<Rightarrow> string + solo_spec) \<Rightarrow> string \<Rightarrow> string \<Rightarrow> command \<Rightarrow> cli_state
     \<Rightarrow> (nat \<times> string list) \<times> cli_state" where
  "agent_ops_main w decode version cfg c st =
     (case run_command w decode version cfg c st of
        (None, st) \<Rightarrow> ((0, []), st)
      | (Some e, st) \<Rightarrow> ((1, [''Error: '' @ e, ''agent-ops: '' @ e]), st))"


subsection \<open>The token, again\<close>

lemma node_at_fold_make_dir:
  "node_at (fold make_dir ds ns) p = (if p \<in> set ds \<and> node_at ns p = None then Some DirNode else node_at ns p)"
  by (induction ds arbitrary: ns) (auto simp: make_dir_def)

lemma mkdir_all_made:
  assumes "mkdir_all m d b = (None, b')"
  obtains q where "follow_links (bx_nodes b') d = Some q" "node_at (bx_nodes b') q = Some DirNode"
proof (cases "stat_node m b d = Some DirNode")
  case True
  with assms that show thesis
    by (auto simp: mkdir_all_def stat_node_def split: if_splits option.splits bind_splits)
next
  case False
  with assms have all: "list_all (\<lambda>d. node_at (bx_nodes b) d \<in> {None, Some DirNode}) (ancestors d)"
    and b': "bx_nodes b' = fold make_dir (ancestors d) (bx_nodes b)"
    by (auto simp: mkdir_all_def split: if_splits option.splits)
  have "d \<in> set (ancestors d)" by (simp add: ancestors_def)
  with all have "node_at (bx_nodes b') d = Some DirNode"
    by (auto simp: b' node_at_fold_make_dir list_all_iff)
  then show thesis using that [of d] by (simp add: follow_links_def follow_plain)
qed

lemma mkdir_all_there:
  assumes "follow_links (bx_nodes b) d = Some q" "node_at (bx_nodes b) q = Some DirNode"
    and "ma_refuse m SysStat d b = None"
  shows "mkdir_all m d b = (None, b)"
  using assms by (simp add: mkdir_all_def stat_node_def)

lemma follow_update_other:
  "\<lbrakk>follow n ns p = Some q; \<And>t. node_at ns r \<noteq> Some (LinkNode t); \<And>t. nd \<noteq> LinkNode t\<rbrakk>
    \<Longrightarrow> follow n (AList.update r nd ns) p = Some q"
proof (induction n ns p rule: follow.induct)
  case (1 n ns p)
  show ?case
  proof (cases "p = r")
    case True
    with 1(2,3) have "p = q" by (subst (asm) follow.simps) (auto split: option.splits node.splits)
    with True 1(4) show ?thesis by (subst follow.simps) (cases nd, auto)
  next
    case False
    then show ?thesis
      using 1 by (subst follow.simps, subst (asm) (2) follow.simps)
        (auto split: option.splits node.splits nat.splits)
  qed
qed

text \<open>Writing a file leaves a directory where it was.\<close>

lemma write_keeps_dir:
  assumes "write_file m p body md b = (None, b')"
    and "follow_links (bx_nodes b) d = Some q" "node_at (bx_nodes b) q = Some DirNode"
  shows "follow_links (bx_nodes b') d = Some q" "node_at (bx_nodes b') q = Some DirNode"
proof -
  from assms(1) obtain r where r: "follow_links (bx_nodes b) p = Some r"
    by (auto simp: write_file_def split: option.splits)
  with assms(1) obtain k where b': "b' = set_node r (FileNode body k) b" and nd: "node_at (bx_nodes b) r \<noteq> Some DirNode"
    by (auto simp: write_file_def Let_def split: option.splits node.splits if_splits)
  have nolink: "\<And>t. node_at (bx_nodes b) r \<noteq> Some (LinkNode t)"
    using r by (auto simp: follow_links_def dest: follow_end)
  show "follow_links (bx_nodes b') d = Some q"
    using assms(2) nolink by (simp add: b' follow_links_def set_node_def follow_update_other)
  show "node_at (bx_nodes b') q = Some DirNode" using assms(3) nd by (auto simp: b')
qed

lemma new_token_not_empty: "new_token r = Inr t \<Longrightarrow> t \<noteq> []"
  by (cases r) (auto simp: new_token_def)

lemma mint_token_written:
  assumes "mint_token w p b = (Inr tok, b')"
  shows "tok \<noteq> []" "write_file (cw_machine w) p tok mode_private b = (None, b')"
  using assms by (auto simp: mint_token_def split: sum.splits prod.splits option.splits dest: new_token_not_empty)

lemma read_again:
  "\<lbrakk>read_file m b p = Inr c; ma_refuse m' SysOpen p b = None\<rbrakk> \<Longrightarrow> read_file m' b p = Inr c"
  by (auto simp: read_file_def split: option.splits node.splits)

lemma ensure_token_again:
  assumes first: "ensure_token_box w dir name b = (Inr tok, b')"
    and env: "ma_env (cw_machine w') = ma_env (cw_machine w)"
    and stat: "ma_refuse (cw_machine w') SysStat dir b' = None"
    and opn: "ma_refuse (cw_machine w') SysOpen (token_path dir) b' = None"
  shows "ensure_token_box w' dir name b' = (Inr tok, b')"
proof (cases "name \<noteq> [] \<and> ma_env (cw_machine w) name \<noteq> []")
  case True
  with first env show ?thesis by (simp add: ensure_token_box_def Let_def)
next
  case False
  let ?m = "cw_machine w" and ?m' = "cw_machine w'" and ?p = "token_path dir"
  obtain e b1 where mk: "mkdir_all ?m dir b = (e, b1)" by fastforce
  with False first have e: "e = None" by (cases e) (auto simp: ensure_token_box_def Let_def)
  obtain q where q: "follow_links (bx_nodes b1) dir = Some q" "node_at (bx_nodes b1) q = Some DirNode"
    using mk e by (auto elim: mkdir_all_made)
  consider (kept) "read_file ?m b1 ?p = Inr tok" "tok \<noteq> []" "b' = b1"
    | (made) "mint_token w ?p b1 = (Inr tok, b')"
    using False first mk e
    by (cases "read_file ?m b1 ?p") (auto simp: ensure_token_box_def Let_def split: if_splits)
  then have "mkdir_all ?m' dir b' = (None, b') \<and> read_file ?m' b' ?p = Inr tok \<and> tok \<noteq> []"
  proof cases
    case kept
    then show ?thesis using q stat opn by (auto intro: mkdir_all_there read_again)
  next
    case made
    note w = mint_token_written [OF made]
    show ?thesis
      using mkdir_all_there [OF write_keeps_dir [OF w(2) q] stat] read_written [OF w(2) opn] w(1) by blast
  qed
  then show ?thesis using False env by (auto simp: ensure_token_box_def Let_def)
qed

text \<open>
  C32: \<^verbatim>\<open>agent-ops mcp token\<close> prints the token of the daemon. When it succeeds, it has printed a
  token such that every later resolution of the token on that host, by a process with the same
  environment that can look at the state directory and open the token file, yields the same token and
  changes nothing.
\<close>

theorem cli_and_daemon_share_token:
  assumes "run_mcp_token w cfg_path st = (None, st')"
    and "config_load w (cs_box st) cfg_path = Inr c"
    and "ma_env (cw_machine daemon) = ma_env (cw_machine w)"
    and "ma_refuse (cw_machine daemon) SysStat (cfg_state_dir c) (cs_box st') = None"
    and "ma_refuse (cw_machine daemon) SysOpen (token_path (cfg_state_dir c)) (cs_box st') = None"
  shows "\<exists>tok. cs_out st' = cs_out st @ tok @ [nl]
     \<and> ensure_token_box daemon (cfg_state_dir c) (mcp_token_env (cfg_mcp c)) (cs_box st') = (Inr tok, cs_box st')"
proof -
  obtain tok b' where t: "ensure_token_box w (cfg_state_dir c) (mcp_token_env (cfg_mcp c)) (cs_box st) = (Inr tok, b')"
    and st': "st' = print_line tok (st\<lparr>cs_box := b'\<rparr>)"
    using assms(1,2) by (auto simp: run_mcp_token_def on_box_def split: sum.splits prod.splits)
  have "ensure_token_box daemon (cfg_state_dir c) (mcp_token_env (cfg_mcp c)) (cs_box st') = (Inr tok, cs_box st')"
    using ensure_token_again [OF t assms(3)] assms(4,5) by (simp add: st')
  then show ?thesis by (auto simp: st' print_line_def print_text_def)
qed


abbreviation token_state :: cli_state where
  "token_state \<equiv> \<lparr>cs_box = empty_box [(''/'', DirNode), (''/c.yaml'', FileNode ''agent: {}'' 420)],
     cs_in = [], cs_out = []\<rparr>"

theorem cli_and_daemon_share_token_witness:
  "\<exists>tok dir name b. fst (run_mcp_token (sample_cli ''linux'' (\<lambda>k. [])) ''/c.yaml'' token_state) = None
     \<and> cs_out (snd (run_mcp_token (sample_cli ''linux'' (\<lambda>k. [])) ''/c.yaml'' token_state)) = tok @ [nl]
     \<and> ensure_token_box (sample_cli ''darwin'' (\<lambda>k. [])) dir name b = (Inr tok, b)"
proof -
  let ?w = "sample_cli ''linux'' (\<lambda>k. [])"
  let ?r = "run_mcp_token ?w ''/c.yaml'' token_state"
  have "\<not> isl (config_load ?w (cs_box token_state) ''/c.yaml'')" by code_simp
  then obtain c where c: "config_load ?w (cs_box token_state) ''/c.yaml'' = Inr c"
    by (metis sum.collapse(2))
  have ok: "fst ?r = None" by code_simp
  then have run: "run_mcp_token ?w ''/c.yaml'' token_state = (None, snd ?r)" by (metis prod.collapse)
  show ?thesis
    using cli_and_daemon_share_token [OF run c, of "sample_cli ''darwin'' (\<lambda>k. [])"] ok by auto
qed

text \<open>What a provider needs of the host.\<close>

definition provider_ready :: "cli_world \<Rightarrow> string \<Rightarrow> bool" where
  "provider_ready w provider =
     (case provider_specs provider of
        None \<Rightarrow> True
      | Some sp \<Rightarrow>
          (ps_env_var sp = [] \<or> ma_env (cw_machine w) (ps_env_var sp) \<noteq> [])
          \<and> (ps_binary sp = [] \<or> cw_look_path w (ps_binary sp) \<noteq> None))"

lemma exam_lines [simp]:
  "ex_fails (say s x) = ex_fails x" "cs_box (say s x) = cs_box x"
  "ex_fails (ok_line s x) = ex_fails x" "cs_box (ok_line s x) = cs_box x"
  "ex_fails (fail_line s x) = Suc (ex_fails x)" "cs_box (fail_line s x) = cs_box x"
  "ex_fails (warn_line s x) = ex_fails x" "ex_fails (summary_line x) = ex_fails x"
  by (simp_all add: say_def ok_line_def fail_line_def warn_line_def summary_line_def)

lemma check_lines:
  "ex_fails (check_env w p sp x) =
     ex_fails x + (if ps_env_var sp = [] \<or> ma_env (cw_machine w) (ps_env_var sp) \<noteq> [] then 0 else 1)"
  "ex_fails (check_binary w p sp x) =
     ex_fails x + (if ps_binary sp = [] \<or> cw_look_path w (ps_binary sp) \<noteq> None then 0 else 1)"
  "ex_fails (check_port w addr x) = ex_fails x"
  "ex_fails (check_network w sp x) = ex_fails x"
  "cs_box (check_env w p sp x) = cs_box x" "cs_box (check_binary w p sp x) = cs_box x"
  by (auto simp: check_env_def check_binary_def check_port_def check_network_def Let_def split: option.splits)

lemma check_state_dir_fails:
  "ex_fails (check_state_dir w dir x) =
     ex_fails x + (if fst (check_writable (cw_machine w) dir (cs_box x)) = None then 0 else 1)"
  by (auto simp: check_state_dir_def Let_def split: prod.splits option.splits)

text \<open>
  What \<^verbatim>\<open>agent-ops doctor\<close> requires. It exits without an error exactly when the
  configuration loads, the variable that its provider needs is set, the command that its provider
  needs is on the path, and the state directory can be made and written to. A provider it has no
  expectations of, a busy port and an unreachable network never fail it.
\<close>

lemma doctor_requires:
  "fst (run_doctor w cfg_path st) = None \<longleftrightarrow>
     (\<exists>c. config_load w (cs_box st) cfg_path = Inr c
        \<and> provider_ready w (ac_provider (cfg_agent c))
        \<and> fst (check_writable (cw_machine w) (or_default (cfg_state_dir c) (default_state_dir w)) (cs_box st)) = None)"
proof (cases "config_load w (cs_box st) cfg_path")
  case (Inl e)
  then show ?thesis
    by (simp add: run_doctor_def examine_def Let_def check_config_def zero_config_def provider_specs_def
        check_lines check_state_dir_fails cli_state.defs)
next
  case (Inr c)
  then show ?thesis
    by (cases "provider_specs (ac_provider (cfg_agent c))")
      (simp_all add: run_doctor_def examine_def Let_def check_config_def provider_ready_def
        check_lines check_state_dir_fails cli_state.defs)
qed

end
