(* ===== verification/CliIntegrate.thy ===== *)
theory CliIntegrate
  imports CliSetup
begin

text \<open>
  \<^verbatim>\<open>internal/cli/integrate.go\<close>: \<^verbatim>\<open>agent-ops integrate add\<close>, \<^verbatim>\<open>remove\<close> and
  \<^verbatim>\<open>list\<close> over the operations of \<^theory_text>\<open>Integrate\<close>, with the JSON they print.
\<close>

subsection \<open>JSON\<close>

datatype jval = JStr string | JBool bool | JArr "jval list" | JObj "(string \<times> jval) list"

definition hex_nibble :: "nat \<Rightarrow> char" where
  "hex_nibble n = (if n < 10 then char_of (n + 48) else char_of (n + 87))"

text \<open>
  How \<^verbatim>\<open>encoding/json\<close> writes a byte of valid UTF-8 text. (The two separators U+2028 and
  U+2029, which it escapes too, are left as they are.)
\<close>

definition json_char :: "char \<Rightarrow> string" where
  "json_char c =
     (let n = (of_char c :: nat)
      in if c = dquote then [backslash, dquote]
         else if c = backslash then [backslash, backslash]
         else if n = 8 then [backslash, CHR ''b'']
         else if n = 12 then [backslash, CHR ''f'']
         else if c = nl then [backslash, CHR ''n'']
         else if n = 13 then [backslash, CHR ''r'']
         else if c = tab then [backslash, CHR ''t'']
         else if n < 32 \<or> c = CHR ''<'' \<or> c = CHR ''>'' \<or> c = CHR ''&'' then
           [backslash] @ ''u00'' @ [hex_nibble (n div 16), hex_nibble (n mod 16)]
         else [c])"

definition json_string :: "string \<Rightarrow> string" where
  "json_string s = [dquote] @ concat (map json_char s) @ [dquote]"

definition indented :: "nat \<Rightarrow> string" where
  "indented n = nl # replicate (2 * n) (CHR '' '')"

text \<open>\<^verbatim>\<open>SetIndent("", "  ")\<close>: an element to a line; nothing between empty brackets.\<close>

fun json_text :: "nat \<Rightarrow> jval \<Rightarrow> string" where
  "json_text n (JStr s) = json_string s"
| "json_text n (JBool b) = (if b then ''true'' else ''false'')"
| "json_text n (JArr vs) =
     (if vs = [] then ''[]''
      else ''['' @ join '','' (map (\<lambda>v. indented (Suc n) @ json_text (Suc n) v) vs) @ indented n @ '']'')"
| "json_text n (JObj fs) =
     (if fs = [] then ''{}''
      else ''{'' @ join '','' (map (\<lambda>(k, v). indented (Suc n) @ json_string k @ '': '' @ json_text (Suc n) v) fs)
           @ indented n @ ''}'')"

definition print_json :: "jval \<Rightarrow> string" where
  "print_json v = json_text 0 v @ [nl]"

text \<open>A field that \<^verbatim>\<open>omitempty\<close> leaves out when it is empty.\<close>

definition opt_field :: "string \<Rightarrow> string \<Rightarrow> (string \<times> jval) list" where
  "opt_field k s = (if s = [] then [] else [(k, JStr s)])"

definition add_json :: "add_result \<Rightarrow> jval" where
  "add_json r = JObj [(''name'', JStr (ar_name r)), (''restart_required'', JBool (ar_restart r)),
     (''config_path'', JStr (ar_config r)), (''env_path'', JStr (ar_env r))]"

definition remove_json :: "remove_result \<Rightarrow> jval" where
  "remove_json r = JObj ([(''name'', JStr (rr_name r)), (''restart_required'', JBool (rr_restart r)),
     (''config_path'', JStr (rr_config r)), (''env_path'', JStr (rr_env r))] @
     opt_field ''removed_auth_env'' (rr_auth_env r))"

text \<open>The environment of a client: its keys in any order, which the encoder sorts.\<close>

definition env_json :: "map_order \<Rightarrow> str_map \<Rightarrow> (string \<times> jval) list" where
  "env_json iter env =
     (let ks = sort (iter env)
      in if ks = [] then []
         else [(''env'', JObj (map (\<lambda>k. (k, JStr (case env k of Some v \<Rightarrow> v | None \<Rightarrow> []))) ks))])"

definition item_json :: "map_order \<Rightarrow> mcp_client_config \<Rightarrow> jval" where
  "item_json iter it =
     JObj ([(''name'', JStr (mc_name it)), (''transport'', JStr (mc_transport it))] @
       opt_field ''url'' (mc_url it) @ opt_field ''command'' (mc_command it) @
       (if mc_args it = [] then [] else [(''args'', JArr (map JStr (mc_args it)))]) @
       opt_field ''auth_env'' (mc_auth_env it) @ env_json iter (mc_env it))"

subsection \<open>The pairs on the command line\<close>

text \<open>\<^verbatim>\<open>parseKVPairs\<close>: the key loses its blanks after the check that it is not empty.\<close>

fun parse_kv_from :: "str_map \<Rightarrow> string list \<Rightarrow> string + str_map" where
  "parse_kv_from acc [] = Inr acc"
| "parse_kv_from acc (raw # rest) =
     (case index_byte (CHR ''='') raw of
        Some (Suc i) \<Rightarrow> parse_kv_from (acc(trim_space (take (Suc i) raw) \<mapsto> drop (Suc (Suc i)) raw)) rest
      | _ \<Rightarrow> Inl (''integrate: --kv/--stdio-env entry '' @ quoted raw @ '' must be KEY=VALUE''))"

definition parse_kv_pairs :: "string list \<Rightarrow> string + str_map" where
  "parse_kv_pairs items = parse_kv_from Map.empty items"

subsection \<open>The commands\<close>

record add_flags =
  af_name :: string
  af_transport :: string
  af_url :: string
  af_command :: string
  af_args :: "string list"
  af_auth_env :: string
  af_token :: string
  af_kv :: "string list"
  af_stdio_kv :: "string list"
  af_env_file :: string

datatype integrate_failure = BadPair string | Failed integrate_error

definition cli_options :: "string \<Rightarrow> string \<Rightarrow> options" where
  "cli_options cfg_path env_file = \<lparr>opt_config = cfg_path, opt_env = env_file, opt_lock_timeout = 0\<rparr>"

definition cli_add_spec :: "add_flags \<Rightarrow> str_map \<Rightarrow> str_map \<Rightarrow> add_spec" where
  "cli_add_spec fl extra stdio =
     \<lparr>as_name = af_name fl, as_transport = af_transport fl, as_url = af_url fl, as_command = af_command fl,
      as_args = af_args fl, as_auth_env = af_auth_env fl, as_token = af_token fl, as_extra_env = extra,
      as_stdio_env = stdio\<rparr>"

text \<open>What is printed, or the error; \<open>None\<close> while the lock is awaited.\<close>

definition run_integrate_add ::
  "codec \<Rightarrow> io \<Rightarrow> string \<Rightarrow> add_flags \<Rightarrow> files \<Rightarrow> ((integrate_failure + string) \<times> files) option" where
  "run_integrate_add co w cfg_path fl fs =
     (case parse_kv_pairs (af_kv fl) of
        Inl e \<Rightarrow> Some (Inl (BadPair e), fs)
      | Inr extra \<Rightarrow>
          (case parse_kv_pairs (af_stdio_kv fl) of
             Inl e \<Rightarrow> Some (Inl (BadPair e), fs)
           | Inr stdio \<Rightarrow>
               map_option (map_prod (map_sum Failed (print_json \<circ> add_json)) id)
                 (integrate_add co w (cli_add_spec fl extra stdio) (cli_options cfg_path (af_env_file fl)) fs)))"

definition run_integrate_remove ::
  "codec \<Rightarrow> io \<Rightarrow> string \<Rightarrow> string \<Rightarrow> string \<Rightarrow> files \<Rightarrow> ((integrate_failure + string) \<times> files) option" where
  "run_integrate_remove co w cfg_path name env_file fs =
     map_option (map_prod (map_sum Failed (print_json \<circ> remove_json)) id)
       (integrate_remove co w name (cli_options cfg_path env_file) fs)"

definition item_target :: "mcp_client_config \<Rightarrow> string" where
  "item_target it =
     (if mc_transport it = ''stdio'' then mc_command it @ '' '' @ join '' '' (mc_args it) else mc_url it)"

definition items_table :: "mcp_client_config list \<Rightarrow> string" where
  "items_table items =
     tabwriter (table_text ([''NAME'', ''TRANSPORT'', ''URL/COMMAND'', ''AUTH_ENV''] #
       map (\<lambda>it. [mc_name it, mc_transport it, item_target it, mc_auth_env it]) items))"

definition items_output :: "codec \<Rightarrow> bool \<Rightarrow> mcp_client_config list \<Rightarrow> string" where
  "items_output co json_out items =
     (if json_out then print_json (JArr (map (item_json (co_iter co)) items)) else items_table items)"

definition run_integrate_list ::
  "codec \<Rightarrow> io \<Rightarrow> string \<Rightarrow> bool \<Rightarrow> files \<Rightarrow> integrate_error + string" where
  "run_integrate_list co w cfg_path json_out fs =
     map_sum id (items_output co json_out) (integrate_list co w (cli_options cfg_path []) fs)"


subsection \<open>Adding and listing\<close>

text \<open>What is given on the command line comes back: a key and its value, whatever the value holds.\<close>

lemma index_byte_here: "c \<notin> set k \<Longrightarrow> index_byte c (k @ c # v) = Some (length k)"
  by (induction k) auto

lemma trim_space_clean: "(\<And>c. c \<in> set s \<Longrightarrow> \<not> is_space c) \<Longrightarrow> trim_space s = s"
proof -
  assume clean: "\<And>c. c \<in> set s \<Longrightarrow> \<not> is_space c"
  have keep: "dropWhile is_space t = t" if "\<And>c. c \<in> set t \<Longrightarrow> \<not> is_space c" for t
    using that by (cases t) auto
  show ?thesis
    using keep [of s] keep [of "rev s"] clean by (simp add: trim_space_def trim_left_def trim_right_def)
qed

lemma parse_kv_from_lines:
  "(\<And>k v. (k, v) \<in> set kvs \<Longrightarrow> valid_env_key k) \<Longrightarrow>
     parse_kv_from acc (map (\<lambda>(k, v). assign_line k v) kvs) = Inr (acc ++ map_of (rev kvs))"
proof (induction kvs arbitrary: acc)
  case (Cons kv kvs)
  obtain k v where kv: "kv = (k, v)" by fastforce
  with Cons.prems have k: "valid_env_key k" by auto
  then have clean: "\<And>c. c \<in> set k \<Longrightarrow> \<not> is_space c \<and> c \<noteq> CHR ''=''" using valid_env_key_chars by blast
  obtain n where n: "length k = Suc n" using valid_env_key_not_Nil [OF k] by (cases k) auto
  have line: "assign_line k v = k @ CHR ''='' # v" by (simp add: assign_line_def)
  have noeq: "CHR ''='' \<notin> set k" using clean by blast
  have at: "index_byte (CHR ''='') (assign_line k v) = Some (Suc n)"
    using index_byte_here [of "CHR ''=''" k v] noeq n unfolding line by simp
  have trimmed: "trim_space k = k" using clean by (intro trim_space_clean) blast
  have key: "trim_space (take (Suc n) (assign_line k v)) = k"
    using n trimmed by (simp add: line)
  have val: "drop (Suc (Suc n)) (assign_line k v) = v"
    using n by (simp add: line)
  have "parse_kv_from (acc(k \<mapsto> v)) (map (\<lambda>(k, v). assign_line k v) kvs) = Inr (acc(k \<mapsto> v) ++ map_of (rev kvs))"
    using Cons.prems by (intro Cons.IH) auto
  moreover have "acc(k \<mapsto> v) ++ map_of (rev kvs) = acc ++ (map_of [(k, v)] ++ map_of (rev kvs))"
    by (rule ext) (simp add: map_add_def split: option.split)
  ultimately show ?case unfolding kv by (simp only: list.map prod.case parse_kv_from.simps at option.case nat.case key val rev.simps map_of_append)
qed simp


lemma added_file_there:
  assumes run: "add_locked co w s opts fs = (Inr r, fs')"
    and paths: "opt_config opts \<noteq> opt_env opts" "io_tmp w \<noteq> opt_config opts" "io_tmp w \<noteq> opt_env opts"
  shows "fs' (opt_config opts) \<noteq> None"
proof -
  from run obtain c fs1 where wr: "write_config_atomic co w (opt_config opts) c fs = (None, fs1)"
    and rest: "fs' = fs1 \<or> merge_env_file co w (opt_env opts) (env_pairs s) [] fs1 = (None, fs')"
    by (auto simp: add_locked_def Let_def split: if_splits prod.splits option.splits sum.splits)
  from write_config_atomic_None [OF wr paths(2)] have "fs1 (opt_config opts) \<noteq> None" by auto
  with rest merge_env_file_None [of co w "opt_env opts"] paths show ?thesis by metis
qed

text \<open>
  \<^verbatim>\<open>agent-ops integrate list\<close> shows what \<^verbatim>\<open>agent-ops integrate add\<close> added. When the
  command line is accepted and the addition succeeds, the configuration had no integration of that
  name, and the list on the files it left shows, in the order of the names, exactly the integrations
  there were and the new one with the fields of the command line, as a table or as JSON.
\<close>

lemma added_integration_is_listed:
  assumes add: "run_integrate_add co w cfg_path fl fs = Some (Inr out, fs')"
    and flags: "parse_kv_pairs (af_kv fl) = Inr extra" "parse_kv_pairs (af_stdio_kv fl) = Inr stdio"
    and paths: "separate_paths w (cli_options cfg_path (af_env_file fl))"
    and codec: "codec_roundtrip co"
    and order: "good_order (co_iter co) extra" "good_order (co_iter co) (env_pairs (cli_add_spec fl extra stdio))"
    and no_newline: "\<forall>k v. env_pairs (cli_add_spec fl extra stdio) k = Some v \<longrightarrow> nl \<notin> set v"
    and reader: "io_read_config w' = None" "io_environ w' = io_environ w"
  shows "\<exists>c. parse_file co w fs (or_default cfg_path ''/etc/agent-ops/config.yaml'') = Inr c
     \<and> af_name fl \<notin> mc_name ` set (cfg_mcp_clients c)
     \<and> run_integrate_list co w' cfg_path json_out fs' =
         Inr (items_output co json_out
           (sort_key mc_name (cfg_mcp_clients c @ [new_client_config (cli_add_spec fl extra stdio)])))"
proof -
  let ?s = "cli_add_spec fl extra stdio" and ?opts = "cli_options cfg_path (af_env_file fl)"
  let ?o = "resolve_opts ?opts"
  have name: "as_name ?s = af_name fl" and ex: "as_extra_env ?s = extra" by (simp_all add: cli_add_spec_def)
  have path: "opt_config ?o = or_default cfg_path ''/etc/agent-ops/config.yaml''"
    "opt_config (resolve_opts (cli_options cfg_path [])) = opt_config ?o"
    by (simp_all add: cli_options_def resolve_opts_def)
  from add flags obtain r where run: "integrate_add co w ?s ?opts fs = Some (Inr r, fs')"
    by (auto simp: run_integrate_add_def map_prod_def split: sum.splits prod.splits)
       (metis map_sum.simps(1) old.sum.exhaust sum.simps(4))
  have sep: "opt_config ?o \<noteq> opt_env ?o" "io_tmp w \<noteq> opt_config ?o" "io_tmp w \<noteq> opt_env ?o"
    using paths by (auto simp: separate_paths_def Let_def)
  from integrate_add_Some [OF run paths] obtain fs0
    where valid: "validate_add (co_iter co) ?s = None"
      and locked: "add_locked co w ?s ?o fs0 = (Inr r, fs')" and fs0: "same_files ?opts fs fs0"
    by auto
  have clean: "clean_map (env_pairs ?s)"
    using validate_add_keys [OF valid] order(1) no_newline ex by (auto simp: clean_map_def)
  from add_locked_Inr [OF locked sep codec valid clean order(2)] fs0 obtain c
    where c: "parse_file co w fs (opt_config ?o) = Inr c"
      and fresh: "af_name fl \<notin> mc_name ` set (cfg_mcp_clients c)"
      and c1: "parse_file co w fs' (opt_config ?o) =
        Inr (with_clients c (cfg_mcp_clients c @ [new_client_config ?s]))"
    by (auto simp: file_text_def name)
  obtain f where f: "fs' (opt_config ?o) = Some f" using added_file_there [OF locked sep] by blast
  have "read_config co w' (opt_config ?o) fs' =
      Inr (with_clients c (cfg_mcp_clients c @ [new_client_config ?s]), f_content f)"
    using c1 f reader by (simp add: read_config_def file_text_def)
  then have "run_integrate_list co w' cfg_path json_out fs' =
      Inr (items_output co json_out (sort_key mc_name (cfg_mcp_clients c @ [new_client_config ?s])))"
    by (simp add: run_integrate_list_def integrate_list_def path(2) with_clients_def)
  then show ?thesis using c fresh path(1) by auto
qed

abbreviation sample_add_flags :: add_flags where
  "sample_add_flags \<equiv> \<lparr>af_name = ''z'', af_transport = ''http'', af_url = ''u'', af_command = [], af_args = [],
     af_auth_env = ''K'', af_token = ''t'', af_kv = [], af_stdio_kv = [], af_env_file = ''e''\<rparr>"

lemma sample_cli_spec: "cli_add_spec sample_add_flags Map.empty Map.empty = sample_spec"
  by (simp add: cli_add_spec_def sample_spec_def)

lemma sample_cli_add:
  "run_integrate_add sample_codec sample_io ''c'' sample_add_flags sample_files =
     Some (Inr (print_json (add_json \<lparr>ar_name = ''z'', ar_restart = True, ar_config = ''c'', ar_env = ''e''\<rparr>)),
       sample_files_added)"
proof -
  have opts: "cli_options ''c'' ''e'' = sample_opts" by (simp add: cli_options_def sample_opts_def)
  have "integrate_add sample_codec sample_io (cli_add_spec sample_add_flags Map.empty Map.empty)
      (cli_options ''c'' ''e'') sample_files =
     Some (Inr \<lparr>ar_name = ''z'', ar_restart = True, ar_config = ''c'', ar_env = ''e''\<rparr>, sample_files_added)"
    unfolding sample_cli_spec opts by (rule sample_add_runs)
  then show ?thesis by (simp add: run_integrate_add_def parse_kv_pairs_def)
qed

lemma added_integration_is_listed_witness:
  "\<exists>old. run_integrate_list sample_codec sample_io ''c'' True sample_files_added =
     Inr (items_output sample_codec True (sort_key mc_name (old @ [new_client_config sample_spec])))"
proof -
  have opts: "cli_options ''c'' ''e'' = sample_opts" by (simp add: cli_options_def sample_opts_def)
  have kv: "parse_kv_pairs (af_kv sample_add_flags) = Inr Map.empty"
    "parse_kv_pairs (af_stdio_kv sample_add_flags) = Inr Map.empty"
    by (simp_all add: parse_kv_pairs_def)
  have sep: "separate_paths sample_io (cli_options ''c'' (af_env_file sample_add_flags))"
    by (simp add: opts separate_paths_def sample_opts_resolved sample_io_def lock_path_def)
  have codec: "codec_roundtrip sample_codec"
    using sample_added_neq by (auto simp: codec_roundtrip_def sample_codec_def split: if_splits)
  have order: "good_order (co_iter sample_codec) Map.empty"
    "good_order (co_iter sample_codec) (env_pairs (cli_add_spec sample_add_flags Map.empty Map.empty))"
    by (simp_all add: good_order_def sample_codec_def sample_cli_spec sample_pairs)
  have clean: "\<forall>k v. env_pairs (cli_add_spec sample_add_flags Map.empty Map.empty) k = Some v \<longrightarrow> nl \<notin> set v"
    by (simp add: sample_cli_spec sample_pairs)
  have reads: "io_read_config sample_io = None" by (simp add: sample_io_def)
  show ?thesis
    using added_integration_is_listed [OF sample_cli_add kv sep codec order clean reads refl, of True]
    unfolding sample_cli_spec by blast
qed

text \<open>
  The list does hold secrets: the values of the environment of a subprocess are printed with it.
\<close>

lemma list_shows_env_values:
  assumes "env k = Some v" "k \<in> set (iter env)"
  shows "\<exists>fs. env_json iter env = [(''env'', JObj fs)] \<and> (k, JStr v) \<in> set fs"
proof -
  have "sort (iter env) \<noteq> []" using assms(2) by (metis empty_iff set_empty set_sort)
  moreover have "(k, JStr v) \<in> set (map (\<lambda>k. (k, JStr (case env k of Some v \<Rightarrow> v | None \<Rightarrow> []))) (sort (iter env)))"
    using assms by (auto simp: image_iff intro!: bexI [of _ k])
  ultimately show ?thesis by (simp add: env_json_def Let_def)
qed

end
