(* ===== verification/DiskUsage.thy ===== *)
theory DiskUsage
  imports GoLib
begin

text \<open>
  \<^verbatim>\<open>internal/disku\<close>: how much the files below the state directory hold, measured once a
  minute and logged.
\<close>

subsection \<open>The walk\<close>

text \<open>
  What the walk meets under a path: a regular file with its size, or the error of asking for it; a
  directory with the error of listing it, if there is one, and the entries that were listed; and
  anything else, symbolic links among it, which the walk does not follow.
\<close>

datatype entry =
    RegularFile "string + int"
  | Directory "string option" "(string \<times> entry) list"
  | OtherEntry

text \<open>
  \<^verbatim>\<open>filepath.WalkDir\<close> with the function of \<^verbatim>\<open>Measure\<close>: the sum so far, and how many
  more visits the context survives (\<open>None\<close>: all of them). A visit with a dead context ends the
  walk. A directory that cannot be listed is visited a second time with the error, which is passed
  over, and what was listed of it is walked.
\<close>

type_synonym walk = "int \<times> nat option"

definition ctx_dead :: "nat option \<Rightarrow> bool" where
  "ctx_dead d \<longleftrightarrow> d = Some 0"

definition ctx_step :: "nat option \<Rightarrow> nat option" where
  "ctx_step d = map_option (\<lambda>n. n - 1) d"

fun walk_entry :: "entry \<Rightarrow> walk \<Rightarrow> walk" and walk_entries :: "(string \<times> entry) list \<Rightarrow> walk \<Rightarrow> walk" where
  "walk_entry (RegularFile r) w =
     (if ctx_dead (snd w) then w
      else ((case r of Inl e \<Rightarrow> fst w | Inr n \<Rightarrow> fst w + n), ctx_step (snd w)))"
| "walk_entry OtherEntry w = (if ctx_dead (snd w) then w else (fst w, ctx_step (snd w)))"
| "walk_entry (Directory err es) w =
     (if ctx_dead (snd w) then w
      else let w1 = (fst w, ctx_step (snd w))
        in case err of
          None \<Rightarrow> walk_entries es w1
        | Some e \<Rightarrow> if ctx_dead (snd w1) then w1 else walk_entries es (fst w, ctx_step (snd w1)))"
| "walk_entries [] w = w"
| "walk_entries ((name, x) # es) w =
     (let w1 = walk_entry x w in if ctx_dead (snd w1) then w1 else walk_entries es w1)"

subsection \<open>Measuring and logging\<close>

text \<open>
  \<^verbatim>\<open>Measure\<close>: \<open>missing\<close> is the error of \<^verbatim>\<open>os.Stat\<close>, which follows a link, and \<open>root\<close>
  what the path is itself. The end of the context is no error.
\<close>

definition measure_dir :: "string option \<Rightarrow> entry \<Rightarrow> nat option \<Rightarrow> string + int" where
  "measure_dir missing root alive =
     (case missing of Some e \<Rightarrow> Inl e | None \<Rightarrow> Inr (fst (walk_entry root (0, alive))))"

datatype usage_log = DuFailed string string | Usage string int

definition emit_usage :: "string \<Rightarrow> string option \<Rightarrow> entry \<Rightarrow> nat option \<Rightarrow> usage_log" where
  "emit_usage dir missing root alive =
     (case measure_dir missing root alive of Inl e \<Rightarrow> DuFailed dir e | Inr n \<Rightarrow> Usage dir n)"

text \<open>
  \<^verbatim>\<open>Start\<close>: a measurement at once and one per tick, with the tree, the error and the life of
  the context as each meets them.
\<close>

definition usage_interval :: "duration \<Rightarrow> duration" where
  "usage_interval i = (if sint i \<le> 0 then 60 * second else i)"

definition start_usage :: "string \<Rightarrow> (string option \<times> entry \<times> nat option) list \<Rightarrow> usage_log list" where
  "start_usage dir ticks = map (\<lambda>(missing, root, alive). emit_usage dir missing root alive) ticks"

subsection \<open>What is counted\<close>

text \<open>The sizes of the regular files that the program can ask for them.\<close>

fun file_sizes :: "entry \<Rightarrow> int list" and all_sizes :: "(string \<times> entry) list \<Rightarrow> int list" where
  "file_sizes (RegularFile r) = (case r of Inl e \<Rightarrow> [] | Inr n \<Rightarrow> [n])"
| "file_sizes OtherEntry = []"
| "file_sizes (Directory err es) = all_sizes es"
| "all_sizes [] = []"
| "all_sizes ((name, x) # es) = file_sizes x @ all_sizes es"

lemma walk_alive:
  "walk_entry x (t, None) = (t + sum_list (file_sizes x), None)"
  "walk_entries es (t, None) = (t + sum_list (all_sizes es), None)"
  by (induction x and es arbitrary: t and t rule: file_sizes_all_sizes.induct)
    (auto simp: ctx_dead_def ctx_step_def Let_def split: sum.splits option.splits)

text \<open>A walk that is cut short has counted some of the files, from the first on.\<close>

lemma walk_prefix:
  "\<exists>ns. prefix ns (file_sizes x) \<and> fst (walk_entry x w) = fst w + sum_list ns
     \<and> (\<not> ctx_dead (snd (walk_entry x w)) \<longrightarrow> ns = file_sizes x)"
  "\<exists>ns. prefix ns (all_sizes es) \<and> fst (walk_entries es w) = fst w + sum_list ns
     \<and> (\<not> ctx_dead (snd (walk_entries es w)) \<longrightarrow> ns = all_sizes es)"
proof (induction x and es arbitrary: w and w rule: file_sizes_all_sizes.induct)
  case (1 r)
  then show ?case by (auto split: sum.splits intro: exI [of _ "[]"])
next
  case 2
  then show ?case by auto
next
  case (3 err es)
  show ?case
  proof (cases "ctx_dead (snd w) \<or> err \<noteq> None \<and> ctx_dead (ctx_step (snd w))")
    case True
    then show ?thesis by (intro exI [of _ "[]"]) (auto split: option.splits)
  next
    case False
    then have "\<exists>d. walk_entry (Directory err es) w = walk_entries es (fst w, d)"
      by (cases err) auto
    then obtain d where "walk_entry (Directory err es) w = walk_entries es (fst w, d)" ..
    with 3 [of "(fst w, d)"] show ?thesis by simp
  qed
next
  case 4
  then show ?case by auto
next
  case (5 name x es)
  obtain ns where ns: "prefix ns (file_sizes x)" "fst (walk_entry x w) = fst w + sum_list ns"
      "\<not> ctx_dead (snd (walk_entry x w)) \<longrightarrow> ns = file_sizes x"
    using 5(1) [of w] by blast
  show ?case
  proof (cases "ctx_dead (snd (walk_entry x w))")
    case True
    with ns show ?thesis by (intro exI [of _ ns]) auto
  next
    case False
    obtain ms where "prefix ms (all_sizes es)"
      "fst (walk_entries es (walk_entry x w)) = fst (walk_entry x w) + sum_list ms"
      "\<not> ctx_dead (snd (walk_entries es (walk_entry x w))) \<longrightarrow> ms = all_sizes es"
      using 5(2) [of "walk_entry x w"] by blast
    with False ns show ?thesis by (intro exI [of _ "file_sizes x @ ms"]) auto
  qed
qed

text \<open>
  What is logged as the usage of the directory: when the context outlives the walk, it is the
  sum of the sizes of all regular files below the path whose size can be asked for, whatever
  directories could not be listed in full; when the time limit ends the walk, it is the sum over the
  first files of the walk only, and it is logged as the usage all the same. Only a path that cannot
  be examined at all is reported as a failure.
\<close>

lemma usage_counts_files:
  "emit_usage dir None root None = Usage dir (sum_list (file_sizes root))
   \<and> (\<exists>ns. prefix ns (file_sizes root) \<and> emit_usage dir None root alive = Usage dir (sum_list ns))
   \<and> emit_usage dir (Some e) root alive = DuFailed dir e"
proof -
  obtain ns where "prefix ns (file_sizes root)" "fst (walk_entry root (0, alive)) = 0 + sum_list ns"
    using walk_prefix(1) [of root "(0, alive)"] by auto
  then show ?thesis by (auto simp: emit_usage_def measure_dir_def walk_alive)
qed

text \<open>
  A state directory that is a symbolic link is measured as empty: examining it follows the link, the
  walk does not.
\<close>

lemma linked_directory_is_empty: "emit_usage dir None OtherEntry None = Usage dir 0"
  by (simp add: emit_usage_def measure_dir_def ctx_dead_def)

end
