(* ===== verification/Spec2Isabelle.thy ===== *)
theory Spec2Isabelle
  imports DaemonRun ClientLife ProxyUp Serving SoloData CliQuery CliIntegrate DiskUsage
begin

text \<open>
  A model of agent-ops (Go, \<^verbatim>\<open>src/\<close>): a daemon that runs tasks of an LLM agent on one
  host, on a schedule or on request, and the programs that install it and what it looks after.

  \<^bold>\<open>The program and its parts.\<close> A task is run by \<^verbatim>\<open>internal/task\<close> through one of the drivers of
  \<^verbatim>\<open>internal/driver\<close>, which call the tools registered in \<^verbatim>\<open>internal/tool\<close>; the run is
  kept in the SQLite store of \<^verbatim>\<open>internal/state\<close> and delivered by \<^verbatim>\<open>internal/runreport\<close>.
  \<^verbatim>\<open>internal/scheduler\<close> starts tasks from the configuration (\<^verbatim>\<open>internal/config\<close>) and the
  store; \<^verbatim>\<open>internal/mcpclient\<close> adds the tools of outside servers, which
  \<^verbatim>\<open>internal/integrate\<close> puts into the configuration. \<^verbatim>\<open>internal/api/mcp\<close> serves the
  daemon's own tools and, in front of the application on the host, the access control of
  \<^verbatim>\<open>internal/appauth\<close>. \<^verbatim>\<open>internal/bootstrap\<close> installs the application on first start
  (an agent, a cheatsheet or a loop that writes and supervises scripts), or from a specification
  without an agent (solo); \<^verbatim>\<open>internal/zibby\<close> tells the control plane the port;
  \<^verbatim>\<open>internal/daemon\<close> puts these together. \<^verbatim>\<open>internal/proxy\<close> is a separate front
  proxy for many hosts. The command line of \<^verbatim>\<open>internal/cli\<close> sets a host up
  (\<^verbatim>\<open>internal/service\<close> writes the unit of systemd or launchd), asks the daemon or its store,
  and edits the integrations; \<^verbatim>\<open>cmd/disk-usage-emitter\<close> reports the size of directories.

  \<^bold>\<open>Theories.\<close>
  \<^item> \<open>Prelude\<close>, \<open>GoLib\<close>, \<open>NetAddr\<close>, \<open>HostFs\<close>: rows under a key and sorting; Go's strings and numbers;
    its \<^verbatim>\<open>net\<close> package; paths, the file tree and system calls of a host. They model what the
    program uses of the language's library and hold the lemmas the components share.
  \<^item> \<open>ToolReg\<close> (\<^verbatim>\<open>tool.go\<close>, \<^verbatim>\<open>shell.go\<close>, \<^verbatim>\<open>remote.go\<close>): the registry, the shell tool,
    the adapters of remote tools; locale \<open>tool_registry\<close>, used by the drivers.
  \<^item> \<open>Store\<close> (\<^verbatim>\<open>state.go\<close>, \<^verbatim>\<open>mission.go\<close>): tables and event log as one state, every
    operation a transaction in which each statement may fail. Locales \<open>store_op\<close> and \<open>logged_op\<close> (an
    operation that changes tables and log together or not at all), interpreted for each operation;
    \<open>run_store\<close> and \<open>task_source\<close>, the interfaces of runner and scheduler. The event log refines
    the tables: replaying it gives them back.
  \<^item> \<open>Drivers\<close> (\<^verbatim>\<open>driver.go\<close>, \<^verbatim>\<open>claude.go\<close>), \<open>CliDrivers\<close> (\<^verbatim>\<open>claudecli.go\<close>,
    \<^verbatim>\<open>codex.go\<close>): the conversation loop over HTTP and the drivers over a subprocess.
  \<^item> \<open>RunReport\<close>, \<open>TaskRunner\<close> (\<^verbatim>\<open>runner.go\<close>; locale \<open>single_flight\<close>), \<open>Config\<close>, \<open>Scheduler\<close>,
    \<open>McpClient\<close>, \<open>Integrate\<close>, \<open>Proxy\<close>, \<open>AppAuth\<close>: one package each, in the order of the code.
  \<^item> \<open>BootText\<close>, \<open>AgentText\<close>, \<open>Supervise\<close>, \<open>Cheatsheet\<close>, \<open>Register\<close>, \<open>Bootstrap\<close>, \<open>FirstRun\<close>: the text
    handling, prompts and loops of \<^verbatim>\<open>agent_script.go\<close>, \<^verbatim>\<open>cheatsheet.go\<close>,
    \<^verbatim>\<open>register.go\<close> and \<^verbatim>\<open>bootstrap.go\<close>, and what a first run does as a whole.
  \<^item> \<open>SoloText\<close>, \<open>Solo\<close>, \<open>SoloSample\<close>, \<open>SoloRun\<close>, \<open>SoloData\<close> (\<^verbatim>\<open>solo.go\<close>): generated files, steps
    and pipeline; a concrete host; phases, outcome, marker and health check (locale \<open>observer\<close>: the
    parts of the state that no system call and no command changes, interpreted for the phases, the
    variables and the time limit); version directories, databases, secret, variables.
  \<^item> \<open>StdioClient\<close> (\<^verbatim>\<open>stdio.go\<close>): callers, readers, reapers, restarts and \<^verbatim>\<open>Close\<close> as one step
    relation; it refines the atomic machine of calls in \<open>McpClient\<close>. \<open>ClientLife\<close>: the promises of
    the interface \<^verbatim>\<open>Client\<close> as the locale \<open>client_lifecycle\<close>, interpreted for both transports.
  \<^item> \<open>Daemon\<close> (\<^verbatim>\<open>daemon.go\<close>, \<^verbatim>\<open>node.go\<close>): the start up to serving; \<open>DaemonRun\<close>: the opening
    of the store, the loop, the shutdown, and \<^verbatim>\<open>agent-opsd\<close> from arguments to exit status. \<open>Front\<close>, \<open>Templates\<close>,
    \<open>McpServer\<close>, \<open>Serving\<close> (\<^verbatim>\<open>server.go\<close>, \<^verbatim>\<open>integrate_tools.go\<close>, \<^verbatim>\<open>embed.go\<close>):
    routing and the proxy to the application, the JSON-RPC tools, and any sequence of requests.
  \<^item> \<open>Service\<close> (\<^verbatim>\<open>service.go\<close>; locale \<open>service_manager\<close>, interpreted for systemd and launchd),
    \<open>CliSetup\<close>, \<open>CliQuery\<close>, \<open>CliIntegrate\<close>, \<open>ProxyUp\<close> (the commands of \<^verbatim>\<open>internal/cli\<close>:
    \<^verbatim>\<open>init\<close>, \<^verbatim>\<open>install\<close>, \<^verbatim>\<open>token\<close>, \<^verbatim>\<open>doctor\<close>; \<^verbatim>\<open>status\<close>, \<^verbatim>\<open>logs\<close>, \<^verbatim>\<open>run\<close>;
    \<^verbatim>\<open>integrate\<close>; \<^verbatim>\<open>proxy\<close> with its map that follows a table), \<open>DiskUsage\<close>.

  \<^bold>\<open>Correspondence.\<close> A struct is a \<open>record\<close> with the fields of the code, an enumeration a \<open>datatype\<close>, an
  error an \<open>Inl\<close> or a \<open>Some\<close> in the place of Go's error result. A method that changes its receiver
  takes the state and returns it. Machine integers that can overflow are \<open>64 word\<close> or wrapped
  explicitly (durations, timeouts, the number of a version directory). What the program asks of the
  outside is an argument: a function, or a list of answers in the order in which they come. A write of
  a file that fails leaves the file as it was if it could not be opened, and otherwise truncated, with a
  part of the content stored (\<open>HostFs\<close>, \<open>Integrate\<close>, \<open>Proxy\<close>). What a watched script was asked, shown and
  sent is kept by an environment that does the same and records it (\<open>traced\<close> in \<open>Supervise\<close>). Where
  interleavings matter (ticks against requests, runs of one task, events of a subprocess) they are
  explicit sequences of steps, and the theorems hold for all of them.

  \<^bold>\<open>What is shown.\<close> The lemmas of a component state its invariant and that every operation keeps it, the
  result on every branch with errors, and the frame. The properties build on them: what is recorded
  of a run and that it stays; that tables and event log agree and transactions are all or nothing;
  that a task runs once at a time and is released; that the Messages-API protocol is kept; which
  requests have an effect and which are refused; that adding and removing an integration is a round
  trip and a failed one rolls back; when a script counts as done and within which bounds it is
  supervised; that the marker of a first run or of a failed installation means what it says; that a
  restore never writes over data and a deployment not over another; that \<^verbatim>\<open>init\<close> never replaces
  a file, installing and removing the service leaves no unit behind, the command line and the daemon
  read the same token, \<^verbatim>\<open>doctor\<close> passes only with what it requires, and usage counts each file;
  that callers of a tool server get their own answers and closing it ends every process and call.

  \<^bold>\<open>Bounds and fuel.\<close> Loops of the code are structural recursions over their input or have a measure:
  iterations left, time left in the health check, bytes left, what \<^verbatim>\<open>Close\<close> still waits for. The Messages-API loop and the script
  loop count down the configured maximum; the lock of the configuration file and the waiting loops
  run over a list of answers, and \<open>None\<close> says that the listed answers do not end the loop. Links are
  followed forty times, as the kernel does. No result depends on fuel running out.

  \<^bold>\<open>Not modelled.\<close> The JSON, YAML and base64 codecs, cryptographic hashes, HTTP exchanges, subprocesses,
  the cron library and the clock are parameters; what a property needs of them is a hypothesis with a
  witness. White space and letter case are ASCII. Signals and the end of the HTTP server are events
  of the daemon's loop. Not modelled: log records, the file format of SQLite, prices as numbers, the
  default system prompt, the reserved maps of the configuration, \<^verbatim>\<open>CONNECT\<close> requests, escaped paths;
  the declarations of commands and flags, which the flag library reads, and the layout of printed
  tables; the JavaScript bridge and the release scripts, which are not Go.
\<close>

end
